(* ===== verification/Prelude.thy ===== *)
theory Prelude
  imports Main "HOL-Library.Monad_Syntax"
begin

text \<open>
  Shared vocabulary of the development: bytes and C strings, blocks of C memory with
  bounds-checked access, the allocator the code calls, and the generic lemmas that the
  component theories use.

  \<^item> A byte is a \<open>char\<close>. A C string is the list of bytes before its terminator
    (\<open>NUL\<close> itself is not in the list).
  \<^item> A block of memory is a \<open>char list\<close>; a pointer into it is an index. Reading or writing
    outside the block is undefined behaviour, which is the value \<open>None\<close> of an \<open>option\<close>
    (the type synonym \<open>'a ub\<close>), so that a theorem that a function returns \<open>Some\<close> shows that
    it makes no such access and dereferences no null pointer.
  \<^item> The allocator (\<open>malloc\<close> and \<open>realloc\<close> of the C library) is a parameter: the record
    \<open>cenv\<close> says which requests succeed and what the fresh memory holds.
\<close>

named_theorems cmem \<open>facts about blocks of C memory\<close>
named_theorems cstring \<open>facts about C strings\<close>

type_synonym 'a ub = "'a option"

subsection \<open>Bytes\<close>

abbreviation NUL :: char where "NUL \<equiv> CHR 0x00"
abbreviation TAB :: char where "TAB \<equiv> CHR 0x09"
abbreviation LF :: char where "LF \<equiv> CHR 0x0A"
abbreviation CR :: char where "CR \<equiv> CHR 0x0D"
abbreviation SP :: char where "SP \<equiv> CHR 0x20"
abbreviation DQ :: char where "DQ \<equiv> CHR 0x22"
abbreviation BSL :: char where "BSL \<equiv> CHR 0x5C"

text \<open>\<open>tolower\<close>, \<open>strcasecmp\<close> and \<open>strncasecmp\<close> of the C library in the C locale; the last two as
  tests for a zero result.\<close>

definition tolower :: "char \<Rightarrow> char" where
  "tolower c = (if 65 \<le> (of_char c :: nat) \<and> (of_char c :: nat) \<le> 90
     then char_of ((of_char c :: nat) + 32) else c)"

definition strcaseeq :: "string \<Rightarrow> string \<Rightarrow> bool" where
  "strcaseeq s t \<longleftrightarrow> map tolower s = map tolower t"

definition strncaseeq :: "string \<Rightarrow> string \<Rightarrow> nat \<Rightarrow> bool" where
  "strncaseeq s t n \<longleftrightarrow> map tolower (take n s) = map tolower (take n t)"

lemma strcaseeq_refl [simp]: "strcaseeq s s"
  by (simp add: strcaseeq_def)

lemma strcaseeq_sym: "strcaseeq s t \<Longrightarrow> strcaseeq t s"
  by (simp add: strcaseeq_def)

lemma strcaseeq_trans: "strcaseeq s t \<Longrightarrow> strcaseeq t u \<Longrightarrow> strcaseeq s u"
  by (simp add: strcaseeq_def)

lemma strcaseeq_length: "strcaseeq s t \<Longrightarrow> length s = length t"
  by (metis length_map strcaseeq_def)

subsection \<open>Blocks of memory\<close>

definition rd :: "char list \<Rightarrow> nat \<Rightarrow> char ub" where
  "rd m i = (if i < length m then Some (m ! i) else None)"

definition wr :: "char list \<Rightarrow> nat \<Rightarrow> char \<Rightarrow> char list ub" where
  "wr m i c = (if i < length m then Some (m[i := c]) else None)"

definition wr_block :: "char list \<Rightarrow> nat \<Rightarrow> char list \<Rightarrow> char list ub" where
  "wr_block m i xs = (if i + length xs \<le> length m
     then Some (take i m @ xs @ drop (i + length xs) m) else None)"

text \<open>The C string that starts at an index: undefined when the block holds no terminator there.\<close>

definition cstr_at :: "char list \<Rightarrow> nat \<Rightarrow> string ub" where
  "cstr_at m i = (if NUL \<in> set (drop i m) then Some (takeWhile (\<lambda>c. c \<noteq> NUL) (drop i m)) else None)"

lemma rd_in [cmem]: "i < length m \<Longrightarrow> rd m i = Some (m ! i)"
  by (simp add: rd_def)

lemma rd_Some_iff: "rd m i = Some c \<longleftrightarrow> i < length m \<and> m ! i = c"
  by (simp add: rd_def)

lemma wr_in [cmem]: "i < length m \<Longrightarrow> wr m i c = Some (m[i := c])"
  by (simp add: wr_def)

lemma wr_length [cmem]: "wr m i c = Some m' \<Longrightarrow> length m' = length m"
  by (auto simp: wr_def split: if_splits)

lemma wr_block_in [cmem]:
  "i + length xs \<le> length m \<Longrightarrow> wr_block m i xs = Some (take i m @ xs @ drop (i + length xs) m)"
  by (simp add: wr_block_def)

text \<open>Copying bytes into a block and writing a terminator after them.\<close>

lemma wr_block_terminated:
  assumes "i + length xs < length m" and "wr_block m i xs = Some m1"
  shows "wr m1 (i + length xs) NUL = Some (take i m @ xs @ NUL # drop (Suc (i + length xs)) m)"
proof -
  let ?r = "drop (i + length xs) m"
  have m1: "m1 = take i m @ xs @ ?r" using assms by (simp add: wr_block_def)
  have r: "?r = m ! (i + length xs) # drop (Suc (i + length xs)) m"
    using assms(1) by (simp add: Cons_nth_drop_Suc)
  show ?thesis using assms(1) m1 r
    by (simp add: wr_def list_update_append)
qed

lemma cstr_at_terminated:
  assumes "NUL \<notin> set s"
  shows "cstr_at (s @ NUL # r) 0 = Some s"
  using assms by (simp add: cstr_at_def takeWhile_append)

lemma cstr_at_no_nul: "cstr_at m i = Some s \<Longrightarrow> NUL \<notin> set s"
  by (auto simp: cstr_at_def dest: set_takeWhileD split: if_splits)

lemma cstr_at_offset:
  assumes "length p = i" and "NUL \<notin> set s"
  shows "cstr_at (p @ s @ NUL # r) i = Some s"
  using assms cstr_at_terminated[of s r] by (simp add: cstr_at_def)

text \<open>Cutting a string of a block in two by writing over one of its bytes.\<close>

lemma wr_cut:
  assumes "k < length s"
  shows "wr (p @ s @ r) (length p + k) c = Some (p @ take k s @ c # drop (Suc k) s @ r)"
proof -
  have "(p @ s @ r)[length p + k := c] = p @ s[k := c] @ r" using assms by (simp add: list_update_append)
  also have "s[k := c] = take k s @ c # drop (Suc k) s" using assms by (simp add: upd_conv_take_nth_drop)
  finally show ?thesis using assms by (simp add: wr_def)
qed

lemma cstr_at_mid: "NUL \<notin> set s \<Longrightarrow> i = length p \<Longrightarrow> cstr_at (p @ s @ NUL # r) i = Some s"
  using cstr_at_offset by blast

lemma cstr_at_after: "NUL \<notin> set s \<Longrightarrow> i = length p + 1 + length q \<Longrightarrow> cstr_at (q @ p @ NUL # s @ NUL # r) i = Some s"
  using cstr_at_mid[of s i "q @ p @ [NUL]" r] by simp

subsection \<open>The allocator\<close>

record cenv =
  mm_ok :: "string \<Rightarrow> nat \<Rightarrow> bool"
  mm_junk :: char

definition mmalloc :: "cenv \<Rightarrow> nat \<Rightarrow> string \<Rightarrow> char list option" where
  "mmalloc M n w = (if mm_ok M w n then Some (replicate n (mm_junk M)) else None)"

definition crealloc :: "cenv \<Rightarrow> char list option \<Rightarrow> nat \<Rightarrow> char list option" where
  "crealloc M p n = (if mm_ok M ''realloc'' n
     then (let old = (case p of None \<Rightarrow> [] | Some d \<Rightarrow> d)
           in Some (take n old @ replicate (n - length old) (mm_junk M)))
     else None)"

definition mem_ok :: "cenv \<Rightarrow> bool" where
  "mem_ok M \<longleftrightarrow> (\<forall>w n. mm_ok M w n)"

definition big_memory :: cenv where
  "big_memory = \<lparr>mm_ok = (\<lambda>w n. True), mm_junk = CHR ''?''\<rparr>"

lemma mem_ok_big_memory [simp]: "mem_ok big_memory"
  by (simp add: mem_ok_def big_memory_def)

lemma big_memory_sel [simp]: "mm_ok big_memory w n" "mm_junk big_memory = CHR ''?''"
  by (simp_all add: big_memory_def)

lemma mmalloc_ok [simp]: "mem_ok M \<Longrightarrow> mmalloc M n w = Some (replicate n (mm_junk M))"
  by (simp add: mmalloc_def mem_ok_def)

lemma mmalloc_length: "mmalloc M n w = Some d \<Longrightarrow> length d = n"
  by (auto simp: mmalloc_def split: if_splits)

lemma crealloc_ok: "mem_ok M \<Longrightarrow> \<exists>d. crealloc M p n = Some d"
  by (simp add: crealloc_def mem_ok_def Let_def)

lemma crealloc_length: "crealloc M p n = Some d \<Longrightarrow> length d = n"
  by (auto simp: crealloc_def Let_def split: if_splits)

lemma crealloc_prefix:
  "crealloc M (Some d) n = Some d' \<Longrightarrow> k \<le> length d \<Longrightarrow> k \<le> n \<Longrightarrow> take k d' = take k d"
  by (auto simp: crealloc_def Let_def min_def split: if_splits)

subsection \<open>Generic lemmas\<close>

lemma takeWhile_neq_append:
  "x \<notin> set xs \<Longrightarrow> takeWhile (\<lambda>c. c \<noteq> x) (xs @ x # ys) = xs"
  by (induction xs) auto

lemma dropWhile_neq_append:
  "x \<notin> set xs \<Longrightarrow> dropWhile (\<lambda>c. c \<noteq> x) (xs @ x # ys) = x # ys"
  by (induction xs) auto

lemma takeWhile_neq_id: "x \<notin> set xs \<Longrightarrow> takeWhile (\<lambda>c. c \<noteq> x) xs = xs"
  by (induction xs) auto

lemma find_Some_set: "find P xs = Some x \<Longrightarrow> x \<in> set xs \<and> P x"
  by (induction xs) (auto split: if_splits)

end
