(* ===== verification/Eps_Rfc2822.thy ===== *)
theory Eps_Rfc2822
  imports Prelude
begin

text \<open>
  The RFC 2822 scanners of \<^verbatim>\<open>rfc2822.c\<close>: removal of line ends and of comments, the search for the
  next delimiter outside quoted strings, and the conversion of quoted strings and escapes.
  Arguments are C strings; the functions that build a new string return the block they allocate
  and fill, so that its bounds and its terminator are visible. The reference functions
  \<open>strip_comments\<close>, \<open>unquote\<close> and \<open>plain_bytes\<close> say in one pass what the two-pass C loops
  compute.
\<close>

definition rfc2822_remove_crlf :: "string \<Rightarrow> string \<times> bool" where
  "rfc2822_remove_crlf s = (let p = takeWhile (\<lambda>c. c \<noteq> LF \<and> c \<noteq> CR) s
     in if length p = length s then (s, False) else (p, True))"

definition rfc2822_is_wsp :: "char \<Rightarrow> bool" where
  "rfc2822_is_wsp c \<longleftrightarrow> c = SP \<or> c = TAB"

subsection \<open>Comments\<close>

definition comment_exception :: "string \<Rightarrow> bool" where
  "comment_exception s = strncaseeq s ''Received:'' 9"

fun rc_len :: "bool \<Rightarrow> string \<Rightarrow> bool \<Rightarrow> bool \<Rightarrow> nat \<Rightarrow> nat \<times> bool \<times> bool" where
  "rc_len exc [] com lit len = (len, com, lit)"
| "rc_len exc (c # cs) com lit len =
     (if \<not> com \<and> c = BSL \<and> cs \<noteq> [] then rc_len exc (tl cs) com lit (len + 2)
      else if com \<and> c = BSL \<and> cs \<noteq> [] then rc_len exc (tl cs) com lit len
      else if c = DQ \<and> \<not> com then rc_len exc cs com (\<not> lit) (len + 1)
      else if \<not> exc then
        (if c = CHR ''('' \<and> \<not> lit then rc_len exc cs True lit len
         else if c = CHR '')'' \<and> \<not> lit then rc_len exc cs False lit len
         else if \<not> com then rc_len exc cs com lit (len + 1)
         else rc_len exc cs com lit len)
      else if \<not> com then rc_len exc cs com lit (len + 1)
      else rc_len exc cs com lit len)"

fun rc_copy :: "bool \<Rightarrow> nat \<Rightarrow> string \<Rightarrow> bool \<Rightarrow> bool \<Rightarrow> char list \<Rightarrow> nat \<Rightarrow> char list ub" where
  "rc_copy exc len [] com lit r i = Some r"
| "rc_copy exc len (c # cs) com lit r i =
     (if \<not> i < len then Some r
      else if \<not> com \<and> c = BSL \<and> cs \<noteq> [] then
        (case wr r i c of None \<Rightarrow> None | Some r1 \<Rightarrow>
         case wr r1 (i + 1) (hd cs) of None \<Rightarrow> None | Some r2 \<Rightarrow> rc_copy exc len (tl cs) com lit r2 (i + 2))
      else if com \<and> c = BSL \<and> cs \<noteq> [] then rc_copy exc len (tl cs) com lit r i
      else if c = DQ \<and> \<not> com then
        (case wr r i c of None \<Rightarrow> None | Some r1 \<Rightarrow> rc_copy exc len cs com (\<not> lit) r1 (i + 1))
      else if \<not> exc then
        (if c = CHR ''('' \<and> \<not> lit then rc_copy exc len cs True lit r i
         else if c = CHR '')'' \<and> \<not> lit then rc_copy exc len cs False lit r i
         else if \<not> com then
           (case wr r i c of None \<Rightarrow> None | Some r1 \<Rightarrow> rc_copy exc len cs com lit r1 (i + 1))
         else rc_copy exc len cs com lit r i)
      else if \<not> com then
        (case wr r i c of None \<Rightarrow> None | Some r1 \<Rightarrow> rc_copy exc len cs com lit r1 (i + 1))
      else rc_copy exc len cs com lit r i)"

text \<open>The flags \<open>com\<close> and \<open>lit\<close> keep their value from the first pass when the second starts.\<close>

definition rfc2822_remove_comments :: "cenv \<Rightarrow> string \<Rightarrow> char list option ub" where
  "rfc2822_remove_comments M data =
     (let exc = comment_exception data
      in case rc_len exc data False False 0 of (len, com, lit) \<Rightarrow>
         (case mmalloc M (len + 1) ''rfc2822_remove_comments'' of
            None \<Rightarrow> Some None
          | Some _ \<Rightarrow> do { r \<leftarrow> rc_copy exc len data com lit (replicate (len + 1) NUL) 0; Some (Some r) }))"

subsection \<open>Delimiters\<close>

fun next_token_from :: "string \<Rightarrow> char \<Rightarrow> string option \<Rightarrow> bool \<Rightarrow> nat \<Rightarrow> nat" where
  "next_token_from [] tok trm lit i = i"
| "next_token_from (c # cs) tok trm lit i =
     (if c = BSL \<and> cs \<noteq> [] then next_token_from (tl cs) tok trm lit (i + 2)
      else if c = DQ then next_token_from cs tok trm (\<not> lit) (i + 1)
      else if tok \<noteq> NUL \<and> \<not> lit \<and> c = tok then i
      else if \<not> lit \<and> trm \<noteq> None \<and> c \<in> set (the trm) then i
      else next_token_from cs tok trm lit (i + 1))"

definition rfc2822_next_token :: "string \<Rightarrow> char \<Rightarrow> string option \<Rightarrow> nat" where
  "rfc2822_next_token line tok trm = next_token_from line tok trm False 0"

subsection \<open>Quoted strings\<close>

fun cl_len :: "string \<Rightarrow> nat \<Rightarrow> nat" where
  "cl_len [] len = len"
| "cl_len (c # cs) len =
     (if c = BSL \<and> cs \<noteq> [] then cl_len (tl cs) (len + 1)
      else if c = DQ then cl_len cs len
      else cl_len cs (len + 1))"

fun cl_copy :: "nat \<Rightarrow> string \<Rightarrow> char list \<Rightarrow> nat \<Rightarrow> char list ub" where
  "cl_copy len [] r i = Some r"
| "cl_copy len (c # cs) r i =
     (if \<not> i < len then Some r
      else if c = BSL \<and> cs \<noteq> [] then
        (case wr r i (hd cs) of None \<Rightarrow> None | Some r1 \<Rightarrow> cl_copy len (tl cs) r1 (i + 1))
      else if c = DQ then cl_copy len cs r i
      else (case wr r i c of None \<Rightarrow> None | Some r1 \<Rightarrow> cl_copy len cs r1 (i + 1)))"

definition rfc2822_convert_literals :: "cenv \<Rightarrow> string \<Rightarrow> char list option ub" where
  "rfc2822_convert_literals M data = (let len = cl_len data 0
     in case mmalloc M (len + 1) ''rfc2822_convert_literals'' of
          None \<Rightarrow> Some None
        | Some _ \<Rightarrow> do { r \<leftarrow> cl_copy len data (replicate (len + 1) NUL) 0; Some (Some r) })"

subsection \<open>Reference functions\<close>

fun strip_comments :: "bool \<Rightarrow> bool \<Rightarrow> bool \<Rightarrow> string \<Rightarrow> string" where
  "strip_comments exc com lit [] = []"
| "strip_comments exc com lit (c # cs) =
     (if c = BSL \<and> cs \<noteq> [] then (if com then [] else [c, hd cs]) @ strip_comments exc com lit (tl cs)
      else if \<not> com \<and> c = DQ then c # strip_comments exc com (\<not> lit) cs
      else if \<not> exc \<and> \<not> lit \<and> (c = CHR ''('' \<or> c = CHR '')'') then strip_comments exc (c = CHR ''('') lit cs
      else (if com then [] else [c]) @ strip_comments exc com lit cs)"

text \<open>Whether the string ends inside a comment and inside a quoted string.\<close>

fun end_state :: "bool \<Rightarrow> bool \<Rightarrow> bool \<Rightarrow> string \<Rightarrow> bool \<times> bool" where
  "end_state exc com lit [] = (com, lit)"
| "end_state exc com lit (c # cs) =
     (if c = BSL \<and> cs \<noteq> [] then end_state exc com lit (tl cs)
      else if \<not> com \<and> c = DQ then end_state exc com (\<not> lit) cs
      else if \<not> exc \<and> \<not> lit \<and> (c = CHR ''('' \<or> c = CHR '')'') then end_state exc (c = CHR ''('') lit cs
      else end_state exc com lit cs)"

definition balanced :: "string \<Rightarrow> bool" where
  "balanced s \<longleftrightarrow> end_state (comment_exception s) False False s = (False, False)"

fun unquote :: "string \<Rightarrow> string" where
  "unquote [] = []"
| "unquote (c # cs) =
     (if c = BSL \<and> cs \<noteq> [] then hd cs # unquote (tl cs)
      else if c = DQ then unquote cs
      else c # unquote cs)"

text \<open>The bytes that are neither escaped nor quoted, with their positions.\<close>

fun plain_bytes :: "string \<Rightarrow> bool \<Rightarrow> nat \<Rightarrow> (nat \<times> char) list" where
  "plain_bytes [] lit i = []"
| "plain_bytes (c # cs) lit i =
     (if c = BSL \<and> cs \<noteq> [] then plain_bytes (tl cs) lit (i + 2)
      else if c = DQ then plain_bytes cs (\<not> lit) (i + 1)
      else if lit then plain_bytes cs lit (i + 1)
      else (i, c) # plain_bytes cs lit (i + 1))"

definition is_delim :: "char \<Rightarrow> string option \<Rightarrow> char \<Rightarrow> bool" where
  "is_delim tok trm c \<longleftrightarrow> tok \<noteq> NUL \<and> c = tok \<or> trm \<noteq> None \<and> c \<in> set (the trm)"

lemma rc_len_strip:
  "rc_len exc s com lit n = (n + length (strip_comments exc com lit s), end_state exc com lit s)"
  by (induction exc s com lit n rule: rc_len.induct) auto

lemma cl_len_unquote: "cl_len s n = n + length (unquote s)"
  by (induction s n rule: cl_len.induct) auto

text \<open>A copy loop that has written \<open>p\<close> into a zeroed block extends it.\<close>

lemma wr_prefix:
  "length p = i \<Longrightarrow> wr (p @ replicate (Suc k) NUL) i c = Some (p @ c # replicate k NUL)"
  by (auto simp: wr_def list_update_append)

lemma cl_copy_unquote:
  assumes "length p = i" "len = i + length (unquote s)"
  shows "cl_copy len s (p @ replicate (Suc (length (unquote s))) NUL) i = Some (p @ unquote s @ [NUL])"
  using assms
proof (induction s arbitrary: p i rule: unquote.induct)
  case (2 c cs)
  have wr: "wr (p @ replicate (Suc (Suc k)) NUL) i x = Some ((p @ [x]) @ replicate (Suc k) NUL)" for x k
    using wr_prefix[OF "2.prems"(1), of "Suc k" x] by simp
  consider "c = BSL \<and> cs \<noteq> []" | "\<not> (c = BSL \<and> cs \<noteq> [])" "c = DQ" | "\<not> (c = BSL \<and> cs \<noteq> [])" "c \<noteq> DQ" by blast
  then show ?case
  proof cases
    case 1
    with "2.IH"(1)[of "p @ [hd cs]" "i + 1"] "2.prems" show ?thesis
      by (simp add: wr del: replicate.simps append_assoc)
  next
    case 2
    with "2.IH"(2)[of p i] "2.prems" show ?thesis
      by (cases "unquote cs") (auto simp del: replicate.simps(2) simp: replicate.simps(2)[of 0])
  next
    case 3
    with "2.IH"(3)[of "p @ [c]" "i + 1"] "2.prems" show ?thesis
      by (auto simp add: wr simp del: replicate.simps append_assoc)
  qed
qed simp

theorem rfc2822_convert_literals_lemma:
  assumes "mem_ok M"
  shows "rfc2822_convert_literals M s = Some (Some (unquote s @ [NUL]))"
  using assms cl_copy_unquote[of "[]" 0 "length (unquote s)" s]
  by (simp add: rfc2822_convert_literals_def Let_def cl_len_unquote)

lemma rc_copy_strip:
  assumes "length p = i" "len = i + length (strip_comments exc com lit s)"
  shows "rc_copy exc len s com lit (p @ replicate (Suc (length (strip_comments exc com lit s))) NUL) i
    = Some (p @ strip_comments exc com lit s @ [NUL])"
  using assms
proof (induction exc com lit s arbitrary: p i rule: strip_comments.induct)
  case (2 exc com lit c cs)
  note replicate.simps(2) [simp del]
  have wr1: "wr (p @ replicate (Suc (Suc k)) NUL) i x = Some ((p @ [x]) @ replicate (Suc k) NUL)" for x k
    using wr_prefix[OF "2.prems"(1), of "Suc k" x] by (simp add: replicate.simps(2)[of "Suc k"])
  have wr2: "wr ((p @ [y]) @ replicate (Suc (Suc k)) NUL) (Suc i) x = Some ((p @ [y, x]) @ replicate (Suc k) NUL)" for x y k
    using wr_prefix[of "p @ [y]" "Suc i" "Suc k" x] "2.prems"(1) by (simp add: replicate.simps(2)[of "Suc k"])
  consider (full) "\<not> i < len" | (esc) "i < len" "c = BSL \<and> cs \<noteq> []"
    | (quote) "i < len" "\<not> (c = BSL \<and> cs \<noteq> [])" "\<not> com \<and> c = DQ"
    | (paren) "i < len" "\<not> (c = BSL \<and> cs \<noteq> [])" "\<not> (\<not> com \<and> c = DQ)" "\<not> exc \<and> \<not> lit \<and> (c = CHR ''('' \<or> c = CHR '')'')"
    | (other) "i < len" "\<not> (c = BSL \<and> cs \<noteq> [])" "\<not> (\<not> com \<and> c = DQ)" "\<not> (\<not> exc \<and> \<not> lit \<and> (c = CHR ''('' \<or> c = CHR '')''))"
    by blast
  then show ?case
  proof cases
    case full
    with "2.prems" have "strip_comments exc com lit (c # cs) = []" by simp
    with full show ?thesis by (simp add: replicate.simps(2)[of 0])
  next
    case esc
    show ?thesis
    proof (cases com)
      case True
      with esc "2.IH"(1)[OF esc(2), of p i] "2.prems" show ?thesis by simp
    next
      case False
      with esc "2.IH"(1)[OF esc(2), of "p @ [c, hd cs]" "i + 2"] "2.prems" show ?thesis
        by (simp add: wr1 wr2 del: append_assoc)
    qed
  next
    case quote
    with "2.IH"(2)[OF quote(2,3), of "p @ [c]" "i + 1"] "2.prems" show ?thesis
      by (simp add: wr1 del: append_assoc)
  next
    case paren
    with "2.IH"(3)[OF paren(2-4), of p i] "2.prems" show ?thesis by auto
  next
    case other
    show ?thesis
    proof (cases com)
      case True
      with other "2.IH"(4)[OF other(2-4), of p i] "2.prems" show ?thesis by auto
    next
      case False
      with other "2.IH"(4)[OF other(2-4), of "p @ [c]" "i + 1"] "2.prems" show ?thesis
        by (auto simp add: wr1 simp del: append_assoc)
    qed
  qed
qed simp

text \<open>The copy loop never leaves its block, balanced input or not.\<close>

lemma rc_copy_safe:
  assumes "length r = len + 1"
  shows "\<exists>r'. rc_copy exc len s com lit r i = Some r' \<and> length r' = len + 1"
  using assms
proof (induction exc len s com lit r i rule: rc_copy.induct)
  case (2 exc len c cs com lit r i)
  show ?case
  proof (cases "i < len")
    case True
    then have w: "wr r i x = Some (r[i := x])" "wr (r[i := x]) (Suc i) y = Some (r[i := x, Suc i := y])" for x y
      using "2.prems" by (simp_all add: wr_def)
    with True 2 show ?thesis by (simp add: w)
  qed (use "2.prems" in simp)
qed simp

theorem rfc2822_remove_comments_balanced_lemma:
  assumes "mem_ok M" "balanced s"
  shows "rfc2822_remove_comments M s = Some (Some (strip_comments (comment_exception s) False False s @ [NUL]))"
  using assms rc_copy_strip[of "[]" 0 _ "comment_exception s" False False s]
  by (simp add: rfc2822_remove_comments_def Let_def rc_len_strip balanced_def)

lemma strip_comments_no_paren:
  assumes "\<not> exc" "com \<longrightarrow> \<not> lit"
  shows "next_token_from (strip_comments exc com lit s) (CHR ''('') (Some '')'') lit i
    = i + length (strip_comments exc com lit s)"
  using assms
  by (induction exc com lit s arbitrary: i rule: strip_comments.induct) auto

lemma next_token_from_find:
  "next_token_from s tok trm lit i =
    (case find (\<lambda>(j, c). is_delim tok trm c) (plain_bytes s lit i) of None \<Rightarrow> i + length s | Some (j, c) \<Rightarrow> j)"
proof (induction s tok trm lit i rule: next_token_from.induct)
  case (2 c cs tok trm lit i)
  show ?case
  proof (cases "c = BSL \<and> cs \<noteq> []")
    case True
    then obtain y ys where "cs = y # ys" by (cases cs) auto
    with True "2.IH"(1) show ?thesis by (simp cong: option.case_cong)
  next
    case esc: False
    show ?thesis
    proof (cases "c = DQ \<or> lit")
      case True
      with esc "2.IH"(2-3) show ?thesis
        by (cases "c = DQ") (auto simp: is_delim_def cong: option.case_cong)
    next
      case False
      have nt: "next_token_from (c # cs) tok trm lit i
          = (if is_delim tok trm c then i else next_token_from cs tok trm lit (i + 1))"
        using esc False by (auto simp: is_delim_def)
      have ih: "\<not> is_delim tok trm c \<Longrightarrow> next_token_from cs tok trm lit (i + 1) =
          (case find (\<lambda>(j, c). is_delim tok trm c) (plain_bytes cs lit (i + 1)) of
             None \<Rightarrow> i + 1 + length cs | Some (j, c) \<Rightarrow> j)"
        using esc False by (intro "2.IH"(3)) (auto simp: is_delim_def)
      have pb: "plain_bytes (c # cs) lit i = (i, c) # plain_bytes cs lit (i + 1)"
        using esc False by auto
      show ?thesis unfolding nt pb by (cases "is_delim tok trm c") (simp_all add: ih del: One_nat_def split: option.split)
    qed
  qed
qed simp

lemma plain_bytes_at: "(j, c') \<in> set (plain_bytes s lit i) \<Longrightarrow> i \<le> j \<and> j - i < length s \<and> s ! (j - i) = c'"
proof (induction s lit i rule: plain_bytes.induct)
  case (2 c cs lit i)
  consider (esc) y ys where "c = BSL" "cs = y # ys" "(j, c') \<in> set (plain_bytes ys lit (i + 2))"
    | (after) "(j, c') \<in> set (plain_bytes cs (if c = DQ then \<not> lit else lit) (i + 1))" "\<not> (c = BSL \<and> cs \<noteq> [])"
    | (here) "j = i" "c' = c"
    using "2.prems" by (cases cs) (auto split: if_splits)
  then show ?case
  proof cases
    case esc
    with "2.IH"(1) have h: "i + 2 \<le> j" "j - (i + 2) < length ys" "ys ! (j - (i + 2)) = c'" by auto
    then obtain k where "j = i + 2 + k" by (metis le_iff_add)
    with h esc show ?thesis by simp
  next
    case after
    have h: "i + 1 \<le> j \<and> j - (i + 1) < length cs \<and> cs ! (j - (i + 1)) = c'"
    proof (cases "c = DQ")
      case True
      with after "2.IH"(2) show ?thesis by simp
    next
      case False
      with after "2.IH"(3,4) show ?thesis by (cases lit) simp_all
    qed
    then obtain k where "j = i + 1 + k" by (metis le_iff_add)
    with h show ?thesis by simp
  qed simp
qed simp

end
