(* ===== verification/Eps_Header.thy ===== *)
theory Eps_Header
  imports Eps_Rfc2822
begin

text \<open>
  Header parsing, \<^verbatim>\<open>eps_header.c\<close> (and \<open>mstrdup\<close> of \<^verbatim>\<open>eps_misc.c\<close>). The parser works in place on
  the block that \<open>rfc2822_remove_comments\<close> returns: it writes terminators over delimiters and
  steps backwards over white space, so the model keeps the block and indices into it. Strings that
  were duplicated on the heap and are only read afterwards are kept as C strings. The linked list
  of atoms with its dummy head is a list; a null \<open>atoms\<close> pointer is \<open>None\<close>.

  The reference function \<open>atoms_of\<close> says what a structured header means: the pieces between
  unquoted semicolons, white space trimmed, each split at its first unquoted equal sign and
  unquoted.
\<close>

record atom_t =
  aname :: "string option"
  adata :: "string option"

record header_t =
  hname :: "string option"
  hdata :: "string option"
  horig :: "string option"
  hatoms :: "atom_t list option"

type_synonym atoms = "atom_t list option"

definition mstrdup :: "cenv \<Rightarrow> string \<Rightarrow> string option" where
  "mstrdup M s = (let len = (if s = [] then 1 else length s)
     in case mmalloc M (len + 1) ''mstrdup'' of None \<Rightarrow> None | Some _ \<Rightarrow> Some s)"

definition atom_begin :: "cenv \<Rightarrow> atoms" where
  "atom_begin M = (case mmalloc M 24 ''atom_begin'' of None \<Rightarrow> None | Some _ \<Rightarrow> Some [])"

text \<open>\<open>atom_new\<close> returns the index of the atom it appended; the tail of a null list is a null
  pointer, so appending to it is undefined.\<close>

definition atom_new :: "cenv \<Rightarrow> atoms \<Rightarrow> (atoms \<times> nat option) ub" where
  "atom_new M al = (case mmalloc M 24 ''atom_new'' of
     None \<Rightarrow> Some (al, None)
   | Some _ \<Rightarrow> (case al of None \<Rightarrow> None
     | Some as \<Rightarrow> Some (Some (as @ [\<lparr>aname = None, adata = None\<rparr>]), Some (length as))))"

definition atom_set :: "atoms \<Rightarrow> nat option \<Rightarrow> (atom_t \<Rightarrow> atom_t) \<Rightarrow> atoms ub" where
  "atom_set al a f = (case (al, a) of
     (Some as, Some i) \<Rightarrow> if i < length as then Some (Some (as[i := f (as ! i)])) else None
   | _ \<Rightarrow> None)"

definition header_alloc :: "cenv \<Rightarrow> header_t option" where
  "header_alloc M = (case mmalloc M 40 ''header_alloc'' of
     None \<Rightarrow> None
   | Some _ \<Rightarrow> Some \<lparr>hname = None, hdata = None, horig = None, hatoms = None\<rparr>)"

text \<open>The string behind the pointer that \<open>rfc2822_convert_literals\<close> returns; reading through a null
  pointer is undefined.\<close>

definition literal_str :: "cenv \<Rightarrow> string \<Rightarrow> string ub" where
  "literal_str M s = do { r \<leftarrow> rfc2822_convert_literals M s; blk \<leftarrow> r; cstr_at blk 0 }"

definition header_parse_atom :: "cenv \<Rightarrow> char list \<Rightarrow> nat \<Rightarrow> atoms \<Rightarrow> (char list \<times> atoms) ub" where
  "header_parse_atom M m t al = do {
     data \<leftarrow> cstr_at m t;
     (if data = [] then Some (m, al)
      else (let k = rfc2822_next_token data CHR ''='' None in
        if k = length data then do {
          p \<leftarrow> literal_str M data;
          (if p \<noteq> [] then do {
             (al, a) \<leftarrow> atom_new M al;
             al \<leftarrow> atom_set al a (\<lambda>a. a\<lparr>adata := mstrdup M p\<rparr>);
             Some (m, al) }
           else Some (m, al)) }
        else do {
          m1 \<leftarrow> wr m (t + k) NUL;
          nm \<leftarrow> cstr_at m1 t;
          (if nm = [] then Some (m1, al)
           else do {
             p \<leftarrow> literal_str M nm;
             (if p \<noteq> [] then do {
                (al, a) \<leftarrow> atom_new M al;
                al \<leftarrow> atom_set al a (\<lambda>a. a\<lparr>aname := mstrdup M p\<rparr>);
                d \<leftarrow> cstr_at m1 (t + k + 1);
                p \<leftarrow> literal_str M d;
                (if p = [] then Some (m1, al)
                 else do {
                   al \<leftarrow> atom_set al a (\<lambda>a. a\<lparr>adata := mstrdup M p\<rparr>);
                   Some (m1, al) }) }
              else Some (m1, al)) }) })) }"

text \<open>\<open>for (; rfc2822_is_wsp( *h); h--)\<close>: stepping before the block is undefined.\<close>

fun skip_back :: "char list \<Rightarrow> nat \<Rightarrow> nat ub" where
  "skip_back m 0 = (case rd m 0 of None \<Rightarrow> None
     | Some c \<Rightarrow> if rfc2822_is_wsp c then None else Some 0)"
| "skip_back m (Suc h) = (case rd m (Suc h) of None \<Rightarrow> None
     | Some c \<Rightarrow> if rfc2822_is_wsp c then skip_back m h else Some (Suc h))"

text \<open>The two white-space blocks of \<open>header_fetch_atoms\<close>: where the white space before \<open>h\<close> starts,
  with the terminator written there.\<close>

definition trim_back :: "char list \<Rightarrow> nat \<Rightarrow> (char list \<times> nat) ub" where
  "trim_back m h = (case h of 0 \<Rightarrow> None | Suc h' \<Rightarrow> do {
     c \<leftarrow> rd m h';
     (if rfc2822_is_wsp c then do {
        k \<leftarrow> skip_back m h';
        m1 \<leftarrow> wr m (k + 1) NUL;
        Some (m1, k + 1) }
      else Some (m, h)) })"

definition skip_wsp :: "char list \<Rightarrow> nat \<Rightarrow> nat ub" where
  "skip_wsp m t = do { s \<leftarrow> cstr_at m t; Some (t + length (takeWhile rfc2822_is_wsp s)) }"

definition fetch_atom_at :: "cenv \<Rightarrow> char list \<Rightarrow> nat \<Rightarrow> atoms \<Rightarrow> (char list \<times> atoms) ub" where
  "fetch_atom_at M m p al = do {
     t \<leftarrow> skip_wsp m p;
     c \<leftarrow> rd m t;
     (if c \<noteq> NUL then header_parse_atom M m t al else Some (m, al)) }"

partial_function (option) fetch_atoms_loop ::
    "cenv \<Rightarrow> char list \<Rightarrow> nat \<Rightarrow> atoms \<Rightarrow> (char list \<times> atoms) option" where
  "fetch_atoms_loop M m p al = do {
     s \<leftarrow> cstr_at m p;
     (let k = rfc2822_next_token s CHR '';'' None in
      if k < length s then do {
        (m1, h) \<leftarrow> trim_back m (p + k);
        m2 \<leftarrow> wr m1 h NUL;
        (m3, al) \<leftarrow> fetch_atom_at M m2 p al;
        fetch_atoms_loop M m3 (h + 1) al }
      else do {
        (m1, h) \<leftarrow> trim_back m (p + k);
        fetch_atom_at M m1 p al }) }"

definition header_fetch_atoms :: "cenv \<Rightarrow> char list \<Rightarrow> nat \<Rightarrow> (char list \<times> atoms) ub" where
  "header_fetch_atoms M m data = do {
     c \<leftarrow> rd m data;
     (if c = NUL then Some (m, None) else fetch_atoms_loop M m data (atom_begin M)) }"

definition header_parse :: "cenv \<Rightarrow> string \<Rightarrow> header_t option ub" where
  "header_parse M line = (case header_alloc M of None \<Rightarrow> Some None
   | Some hdr \<Rightarrow> (case mstrdup M line of None \<Rightarrow> Some (Some hdr)
   | Some orig \<Rightarrow> do {
       r \<leftarrow> rfc2822_remove_comments M line;
       (case r of None \<Rightarrow> Some (Some hdr)
        | Some m \<Rightarrow> do {
            nlc \<leftarrow> cstr_at m 0;
            (let k = rfc2822_next_token nlc CHR '':'' (Some '' '') in
             if k = length nlc \<or> nlc ! k = SP then Some (Some hdr)
             else do {
               m1 \<leftarrow> wr m k NUL;
               v \<leftarrow> cstr_at m1 (k + 1);
               nm \<leftarrow> cstr_at m1 0;
               (if v = [] \<or> nm = [] then Some (Some hdr)
                else (let d = k + 1 + length (takeWhile (\<lambda>c. c = SP) v) in do {
                  s \<leftarrow> cstr_at m1 d;
                  (m2, al) \<leftarrow> header_fetch_atoms M m1 d;
                  Some (Some \<lparr>hname = mstrdup M nm, hdata = mstrdup M s, horig = Some orig,
                              hatoms = al\<rparr>) })) }) }) }))"

definition header_fetch_atom :: "header_t \<Rightarrow> string \<Rightarrow> string option" where
  "header_fetch_atom h name = (case hatoms h of None \<Rightarrow> None
   | Some as \<Rightarrow> (case find (\<lambda>a. aname a \<noteq> None \<and> strcaseeq (the (aname a)) name) as of
       None \<Rightarrow> None | Some a \<Rightarrow> adata a))"

subsection \<open>What a structured header means\<close>

lemma next_token_from_le: "next_token_from s tok trm lit i \<le> i + length s"
proof (cases "find (\<lambda>(j, c). is_delim tok trm c) (plain_bytes s lit i)")
  case (Some jc)
  moreover obtain j c where "jc = (j, c)" by (cases jc)
  moreover from this Some have "(j, c) \<in> set (plain_bytes s lit i)" by (auto dest: find_Some_set)
  ultimately show ?thesis using plain_bytes_at[of j c s lit i] by (auto simp: next_token_from_find)
qed (simp add: next_token_from_find)

lemma next_token_le: "rfc2822_next_token s tok trm \<le> length s"
  using next_token_from_le[of s tok trm False 0] by (simp add: rfc2822_next_token_def)

function split_plain :: "char \<Rightarrow> string \<Rightarrow> string list" where
  "split_plain c s = (let k = rfc2822_next_token s c None in
     if k < length s then take k s # split_plain c (drop (k + 1) s) else [s])"
  by pat_completeness auto
termination by (relation "measure (\<lambda>(c, s). length s)") auto

declare split_plain.simps [simp del]

definition rtrim :: "string \<Rightarrow> string" where
  "rtrim s = rev (dropWhile rfc2822_is_wsp (rev s))"

definition ltrim :: "string \<Rightarrow> string" where
  "ltrim s = dropWhile rfc2822_is_wsp s"

definition atom_of :: "string \<Rightarrow> atom_t list" where
  "atom_of q = (let k = rfc2822_next_token q CHR ''='' None in
     if k = length q then (if unquote q = [] then [] else [\<lparr>aname = None, adata = Some (unquote q)\<rparr>])
     else (let nm = unquote (take k q); d = unquote (drop (k + 1) q) in
       if nm = [] then []
       else [\<lparr>aname = Some nm, adata = (if d = [] then None else Some d)\<rparr>]))"

definition atoms_of :: "string \<Rightarrow> atom_t list" where
  "atoms_of s = concat (map (\<lambda>p. atom_of (ltrim (rtrim p))) (split_plain CHR '';'' s))"

lemma atom_of_Nil [simp]: "atom_of [] = []"
  by (simp add: atom_of_def rfc2822_next_token_def)

lemma atoms_of_Cons:
  "rfc2822_next_token s CHR '';'' None = k \<Longrightarrow> k < length s \<Longrightarrow>
    atoms_of s = atom_of (ltrim (rtrim (take k s))) @ atoms_of (drop (k + 1) s)"
  by (simp add: atoms_of_def split_plain.simps[of _ s] Let_def)

lemma atoms_of_last:
  "rfc2822_next_token s CHR '';'' None = length s \<Longrightarrow> atoms_of s = atom_of (ltrim (rtrim s))"
  by (simp add: atoms_of_def split_plain.simps[of _ s] Let_def)

lemma rtrim_split: obtains ws where "s = rtrim s @ ws" "\<forall>c \<in> set ws. rfc2822_is_wsp c"
proof -
  have "s = rtrim s @ rev (takeWhile rfc2822_is_wsp (rev s))"
    unfolding rtrim_def by (metis rev_append rev_rev_ident takeWhile_dropWhile_id)
  then show thesis by (rule that) (auto dest: set_takeWhileD)
qed

lemma rtrim_last: "rtrim s \<noteq> [] \<Longrightarrow> \<not> rfc2822_is_wsp (last (rtrim s))"
  unfolding rtrim_def by (simp add: last_rev hd_dropWhile)

lemma rtrim_all_wsp: "\<forall>c \<in> set ws. rfc2822_is_wsp c \<Longrightarrow> rtrim ws = []"
  by (simp add: rtrim_def)

lemma ltrim_Nil [simp]: "ltrim [] = []"
  by (simp add: ltrim_def)

lemma ltrim_split: obtains ws where "s = ws @ ltrim s" "length ws = length (takeWhile rfc2822_is_wsp s)"
  by (metis ltrim_def takeWhile_dropWhile_id that)

lemma next_token_from_hit:
  "next_token_from s tok None lit i < i + length s \<Longrightarrow> s ! (next_token_from s tok None lit i - i) = tok"
proof -
  assume h: "next_token_from s tok None lit i < i + length s"
  then obtain j c where f: "find (\<lambda>(j, c). is_delim tok None c) (plain_bytes s lit i) = Some (j, c)"
    by (cases "find (\<lambda>(j, c). is_delim tok None c) (plain_bytes s lit i)") (auto simp: next_token_from_find)
  then have "(j, c) \<in> set (plain_bytes s lit i)" "is_delim tok None c"
    by (auto dest: find_Some_set)
  with f plain_bytes_at[of j c s lit i] show ?thesis by (simp add: next_token_from_find is_delim_def)
qed

lemma next_token_hit: "rfc2822_next_token s tok None < length s \<Longrightarrow> s ! rfc2822_next_token s tok None = tok"
  using next_token_from_hit[of s tok False 0] by (simp add: rfc2822_next_token_def)

lemma wsp_NUL [simp]: "\<not> rfc2822_is_wsp NUL"
  by (simp add: rfc2822_is_wsp_def)

lemma next_token_wsp:
  assumes "\<forall>x \<in> set ws. rfc2822_is_wsp x" "c \<noteq> BSL" "c \<noteq> DQ" "\<not> rfc2822_is_wsp c" "c \<noteq> NUL"
  shows "rfc2822_next_token (ws @ c # r) c None = length ws"
proof -
  have "next_token_from (ws @ c # r) c None False i = i + length ws" for i
    using assms by (induction ws arbitrary: i) (auto simp: rfc2822_is_wsp_def)
  then show ?thesis by (simp add: rfc2822_next_token_def)
qed

subsection \<open>The parser computes it\<close>

lemma mstrdup_ok [simp]: "mem_ok M \<Longrightarrow> mstrdup M s = Some s"
  by (simp add: mstrdup_def Let_def)

lemma unquote_NUL: "NUL \<notin> set s \<Longrightarrow> NUL \<notin> set (unquote s)"
  by (induction s rule: unquote.induct) (auto dest: list.set_sel split: if_splits)

lemma literal_str_ok [simp]: "mem_ok M \<Longrightarrow> NUL \<notin> set s \<Longrightarrow> literal_str M s = Some (unquote s)"
  using cstr_at_terminated[OF unquote_NUL, of s "[]"] by (simp add: literal_str_def rfc2822_convert_literals_lemma)

lemma atom_new_ok [simp]:
  "mem_ok M \<Longrightarrow> atom_new M (Some as) = Some (Some (as @ [\<lparr>aname = None, adata = None\<rparr>]), Some (length as))"
  by (simp add: atom_new_def)

lemma atom_set_last [simp]: "atom_set (Some (as @ [a])) (Some (length as)) f = Some (Some (as @ [f a]))"
  by (simp add: atom_set_def)

lemma header_parse_atom_spec:
  assumes "mem_ok M" "NUL \<notin> set q" "q \<noteq> []"
  shows "\<exists>q'. header_parse_atom M (p @ q @ NUL # r) (length p) (Some as)
      = Some (p @ q' @ NUL # r, Some (as @ atom_of q)) \<and> length q' = length q"
proof -
  define k where "k = rfc2822_next_token q CHR ''='' None"
  have c: "cstr_at (p @ q @ NUL # r) (length p) = Some q" using assms(2) by (simp add: cstr_at_mid)
  show ?thesis
  proof (cases "k = length q")
    case True
    with c assms show ?thesis
      by (auto simp: header_parse_atom_def k_def[symmetric] atom_of_def Let_def)
  next
    case False
    then have k: "k < length q" using next_token_le[of q "CHR ''=''" None] by (simp add: k_def)
    define a where "a = take k q"
    define b where "b = drop (Suc k) q"
    have q: "q = a @ q ! k # b" "length a = k" using k by (simp_all add: a_def b_def id_take_nth_drop)
    have nul: "NUL \<notin> set a" "NUL \<notin> set b" using assms(2) by (auto simp: a_def b_def dest: in_set_takeD in_set_dropD)
    let ?m = "p @ a @ NUL # b @ NUL # r"
    have w: "wr (p @ q @ NUL # r) (length p + k) NUL = Some ?m"
      using wr_cut[OF k] by (simp add: a_def b_def)
    have ca: "cstr_at ?m (length p) = Some a" using nul by (simp add: cstr_at_mid)
    have cb: "cstr_at ?m (length p + k + 1) = Some b"
      using cstr_at_mid[of b _ "p @ a @ [NUL]" r] nul q(2) by simp
    have len: "length (a @ NUL # b) = length q" using q(2) k by (simp add: b_def)
    have "header_parse_atom M (p @ q @ NUL # r) (length p) (Some as) = Some (?m, Some (as @ atom_of q))"
      using c w ca cb assms nul False k
      by (auto simp: header_parse_atom_def k_def[symmetric] atom_of_def Let_def a_def[symmetric] b_def[symmetric])
    with len show ?thesis by (intro exI[of _ "a @ NUL # b"]) simp
  qed
qed

lemma skip_back_spec:
  assumes "q \<noteq> []" "\<not> rfc2822_is_wsp (last q)" "\<forall>c \<in> set ws. rfc2822_is_wsp c"
  shows "skip_back (q @ ws @ r) (length q + length ws - 1) = Some (length q - 1)"
  using assms(3)
proof (induction ws arbitrary: r rule: rev_induct)
  case Nil
  obtain q0 x where q: "q = q0 @ [x]" using assms(1) by (metis rev_exhaust)
  with assms(2) show ?case by (cases "length q0") (simp_all add: rd_def nth_append)
next
  case (snoc x ws)
  then have "skip_back (q @ ws @ x # r) (length q + length ws - 1) = Some (length q - 1)" by simp
  moreover obtain n where "length q + length ws = Suc n" using assms(1) by (cases q) auto
  moreover have "(q @ ws @ x # r) ! (length q + length ws) = x" by (simp add: nth_append)
  ultimately show ?case using snoc.prems by (simp add: rd_def)
qed

lemma trim_back_spec:
  assumes "q \<noteq> []" "\<not> rfc2822_is_wsp (last q)" "\<forall>c \<in> set ws. rfc2822_is_wsp c"
  shows "trim_back (q @ ws @ r) (length q + length ws)
    = Some (if ws = [] then q @ r else q @ NUL # tl ws @ r, length q)"
proof -
  obtain n where n: "length q = Suc n" using assms(1) by (cases q) auto
  show ?thesis
  proof (cases "ws = []")
    case True
    with n assms(1,2) show ?thesis by (simp add: trim_back_def rd_def nth_append last_conv_nth)
  next
    case False
    then obtain ws0 x where ws: "ws = ws0 @ [x]" by (metis rev_exhaust)
    have nth: "(q @ ws @ r) ! (length q + length ws - 1) = x" using ws n by (simp add: nth_append)
    have sb: "skip_back (q @ ws @ r) (length q + length ws - 1) = Some (length q - 1)"
      using skip_back_spec[OF assms] .
    obtain y ws' where y: "ws = y # ws'" using False by (cases ws) auto
    then have up: "(q @ ws @ r)[length q := NUL] = q @ NUL # tl ws @ r" by simp
    have "length q + length ws = Suc (length q + length ws - 1)" using n by simp
    then show ?thesis using n nth sb up assms(3) ws False
      by (simp add: trim_back_def rd_def wr_def del: append_assoc split: nat.split)
  qed
qed

text \<open>One piece of the header: white space skipped, then the atom parsed if there is one.\<close>

lemma fetch_atom_at_spec:
  assumes "mem_ok M" "NUL \<notin> set body"
  shows "\<exists>b'. fetch_atom_at M (pre @ body @ NUL # r) (length pre) (Some as)
    = Some (pre @ b' @ NUL # r, Some (as @ atom_of (ltrim body))) \<and> length b' = length body"
proof -
  obtain ws where ws: "body = ws @ ltrim body" "length ws = length (takeWhile rfc2822_is_wsp body)"
    by (rule ltrim_split)
  define q where "q = ltrim body"
  have sk: "skip_wsp (pre @ body @ NUL # r) (length pre) = Some (length (pre @ ws))"
    using assms(2) ws(2) by (simp add: skip_wsp_def cstr_at_mid)
  have body: "body = ws @ q" and q: "NUL \<notin> set q" using ws(1) assms(2) by (auto simp: q_def) (metis UnCI set_append)
  show ?thesis
  proof (cases "q = []")
    case True
    then have "body = ws" using body by simp
    then show ?thesis using True sk by (simp add: fetch_atom_at_def rd_def nth_append q_def)
  next
    case False
    have "rd (pre @ body @ NUL # r) (length (pre @ ws)) = Some (hd q)"
      using False body by (cases q) (simp_all add: rd_def nth_append)
    moreover have "hd q \<noteq> NUL" using False q by (metis list.set_sel(1))
    moreover obtain q' where q': "header_parse_atom M ((pre @ ws) @ q @ NUL # r) (length (pre @ ws)) (Some as)
        = Some ((pre @ ws) @ q' @ NUL # r, Some (as @ atom_of q))" "length q' = length q"
      using header_parse_atom_spec[OF assms(1) q False] by blast
    ultimately have "fetch_atom_at M (pre @ body @ NUL # r) (length pre) (Some as)
        = Some (pre @ (ws @ q') @ NUL # r, Some (as @ atom_of (ltrim body)))"
      using sk unfolding q_def[symmetric] by (simp add: fetch_atom_at_def body)
    with q'(2) body show ?thesis by (intro exI[of _ "ws @ q'"]) simp
  qed
qed

lemma fetch_atoms_loop_spec:
  assumes "mem_ok M" "NUL \<notin> set s" "pre \<noteq> []"
    "\<not> rfc2822_is_wsp (last pre) \<or> rtrim (hd (split_plain CHR '';'' s)) \<noteq> []"
  shows "\<exists>m'. fetch_atoms_loop M (pre @ s @ NUL # r) (length pre) (Some as) = Some (m', Some (as @ atoms_of s))"
  using assms(2-)
proof (induction "length s" arbitrary: s pre as rule: less_induct)
  case less
  define k where "k = rfc2822_next_token s CHR '';'' None"
  define piece where "piece = take k s"
  have kle: "k \<le> length s" using next_token_le by (simp add: k_def)
  obtain ws where ws: "piece = rtrim piece @ ws" "\<forall>c \<in> set ws. rfc2822_is_wsp c" by (rule rtrim_split)
  define q where "q = pre @ rtrim piece"
  have hd_split: "hd (split_plain CHR '';'' s) = piece"
    using kle by (subst split_plain.simps) (auto simp: Let_def k_def[symmetric] piece_def)
  have q: "q \<noteq> []" "\<not> rfc2822_is_wsp (last q)"
    using less.prems hd_split rtrim_last[of piece] by (auto simp: q_def last_append)
  have nul: "NUL \<notin> set (rtrim piece)"
    using less.prems(1) ws(1) by (metis UnCI in_set_takeD piece_def set_append)
  have c: "cstr_at (pre @ s @ NUL # r) (length pre) = Some s" using less.prems(1) by (simp add: cstr_at_mid)
  have lq: "length q + length ws = length pre + k"
    using ws(1) kle by (metis append_assoc length_append length_take min.absorb2 piece_def q_def)
  show ?case
  proof (cases "k < length s")
    case True
    define s' where "s' = drop (Suc k) s"
    have s: "s = piece @ s ! k # s'" using True by (simp add: piece_def s'_def id_take_nth_drop)
    have m: "pre @ s @ NUL # r = q @ ws @ s ! k # s' @ NUL # r"
      using s ws(1) by (metis append_assoc append_Cons q_def)
    define x where "x = (if ws = [] then s' else tl ws @ s ! k # s')"
    obtain m1 where m1: "trim_back (pre @ s @ NUL # r) (length pre + k) = Some (m1, length q)"
        "wr m1 (length q) NUL = Some (q @ NUL # x @ NUL # r)"
      using trim_back_spec[OF q ws(2), of "s ! k # s' @ NUL # r"] unfolding m lq[symmetric]
      by (cases ws) (auto simp: wr_def x_def)
    obtain b' where b': "fetch_atom_at M (q @ NUL # x @ NUL # r) (length pre) (Some as)
        = Some (pre @ b' @ NUL # x @ NUL # r, Some (as @ atom_of (ltrim (rtrim piece))))"
        "length b' = length (rtrim piece)"
      using fetch_atom_at_spec[OF assms(1) nul, of pre "x @ NUL # r" as] by (auto simp: q_def)
    have step: "fetch_atoms_loop M (pre @ s @ NUL # r) (length pre) (Some as)
        = fetch_atoms_loop M ((pre @ b' @ [NUL]) @ x @ NUL # r) (length (pre @ b' @ [NUL]))
            (Some (as @ atom_of (ltrim (rtrim piece))))"
      using c m1 b' True
      by (subst fetch_atoms_loop.simps) (simp add: Let_def k_def[symmetric] q_def)
    have sk: "s ! k = CHR '';''" using True next_token_hit[of s "CHR '';''"] by (simp add: k_def)
    have "length ws \<le> length piece" using ws(1) by (metis le_add2 length_append)
    then have xs: "length x < length s" using arg_cong[OF s, of length] by (cases ws) (simp_all add: x_def)
    have "NUL \<notin> set ws" using ws(2) wsp_NUL by blast
    moreover have "NUL \<notin> set (s ! k # s')"
      using less.prems(1) True sk by (auto simp: s'_def dest: in_set_dropD)
    ultimately have xn: "NUL \<notin> set x" by (cases ws) (simp_all add: x_def)
    have "atoms_of x = atoms_of s'"
    proof (cases ws)
      case (Cons w ws')
      then have "rfc2822_next_token x CHR '';'' None = length ws'"
        using ws(2) sk next_token_wsp[of ws' "CHR '';''" s'] by (simp add: x_def rfc2822_is_wsp_def)
      from atoms_of_Cons[OF this] Cons ws(2) show ?thesis by (simp add: x_def rtrim_all_wsp)
    qed (simp add: x_def)
    then show ?thesis
      using less.hyps[OF xs xn, of "pre @ b' @ [NUL]" "as @ atom_of (ltrim (rtrim piece))"] step atoms_of_Cons[of s k] True
      by (simp add: k_def piece_def s'_def rfc2822_is_wsp_def)
  next
    case False
    then have kl: "k = length s" and p: "piece = s" using kle by (simp_all add: piece_def)
    have m: "pre @ s @ NUL # r = q @ ws @ NUL # r"
      using p ws(1) by (metis append_assoc q_def)
    define x where "x = (if ws = [] then r else tl ws @ NUL # r)"
    have m1: "trim_back (pre @ s @ NUL # r) (length pre + k) = Some (pre @ rtrim s @ NUL # x, length q)"
      using trim_back_spec[OF q ws(2), of "NUL # r"] unfolding m lq[symmetric] by (simp add: p q_def x_def)
    have "fetch_atoms_loop M (pre @ s @ NUL # r) (length pre) (Some as)
        = fetch_atom_at M (pre @ rtrim s @ NUL # x) (length pre) (Some as)"
      using c m1 False kl by (subst fetch_atoms_loop.simps) (simp add: Let_def k_def[symmetric])
    then show ?thesis
      using fetch_atom_at_spec[OF assms(1) nul, of pre x as] p kl atoms_of_last[of s] by (auto simp: k_def)
  qed
qed

text \<open>The whole line: what \<open>header_parse\<close> stores for it. \<open>header_text\<close> is the value with the leading
  blanks removed.\<close>

definition empty_header :: header_t where
  "empty_header = \<lparr>hname = None, hdata = None, horig = None, hatoms = None\<rparr>"

definition header_of :: "string \<Rightarrow> header_t" where
  "header_of line = (let s = strip_comments (comment_exception line) False False line;
       k = rfc2822_next_token s CHR '':'' (Some '' '');
       v = drop (k + 1) s; d = dropWhile (\<lambda>c. c = SP) v
     in if k = length s \<or> s ! k = SP \<or> v = [] \<or> k = 0 then empty_header
        else \<lparr>hname = Some (take k s), hdata = Some d, horig = Some line,
              hatoms = (if d = [] then None else Some (atoms_of d))\<rparr>)"

text \<open>The value does not begin with an empty atom that blanks precede (\<open>X: ;a\<close>).\<close>

definition header_clean :: "string \<Rightarrow> bool" where
  "header_clean line = (let s = strip_comments (comment_exception line) False False line;
       k = rfc2822_next_token s CHR '':'' (Some '' '');
       v = drop (k + 1) s
     in v = [] \<or> hd v \<noteq> SP \<or> dropWhile (\<lambda>c. c = SP) v = []
        \<or> rtrim (hd (split_plain CHR '';'' (dropWhile (\<lambda>c. c = SP) v))) \<noteq> [])"

lemma strip_comments_NUL: "NUL \<notin> set s \<Longrightarrow> NUL \<notin> set (strip_comments exc com lit s)"
proof (induction s arbitrary: exc com lit rule: length_induct)
  case (1 s)
  show ?case
  proof (cases s)
    case (Cons c cs)
    have tl: "NUL \<notin> set cs" "NUL \<notin> set (tl cs)" "NUL \<noteq> c" "cs \<noteq> [] \<longrightarrow> NUL \<noteq> hd cs"
      using "1.prems" Cons by (cases cs, auto)+
    have "NUL \<notin> set (strip_comments exc com lit cs)" "NUL \<notin> set (strip_comments exc com lit (tl cs))" for exc com lit
      using "1.IH" tl(1,2) Cons by (simp_all add: less_Suc_eq_le)
    with tl(3,4) Cons show ?thesis by simp
  qed simp
qed

lemma header_fetch_atoms_spec:
  assumes "mem_ok M" "NUL \<notin> set d" "pre \<noteq> []"
    "d = [] \<or> \<not> rfc2822_is_wsp (last pre) \<or> rtrim (hd (split_plain CHR '';'' d)) \<noteq> []"
  shows "\<exists>m'. header_fetch_atoms M (pre @ d @ NUL # r) (length pre)
    = Some (m', if d = [] then None else Some (atoms_of d))"
proof (cases d)
  case Nil
  then show ?thesis by (simp add: header_fetch_atoms_def rd_def nth_append)
next
  case (Cons c cs)
  then have "rd (pre @ d @ NUL # r) (length pre) = Some c" by (simp add: rd_def nth_append)
  moreover have "atom_begin M = Some []" using assms(1) by (simp add: atom_begin_def)
  ultimately show ?thesis
    using fetch_atoms_loop_spec[OF assms(1-3), of r "[]"] assms(2,4) Cons
    by (auto simp: header_fetch_atoms_def)
qed

theorem header_parse_lemma:
  assumes "mem_ok M" "NUL \<notin> set line" "balanced line" "header_clean line"
  shows "header_parse M line = Some (Some (header_of line))"
proof -
  define s where "s = strip_comments (comment_exception line) False False line"
  define k where "k = rfc2822_next_token s CHR '':'' (Some '' '')"
  define v where "v = drop (Suc k) s"
  define d where "d = dropWhile (\<lambda>c. c = SP) v"
  define sps where "sps = takeWhile (\<lambda>c. c = SP) v"
  have rc: "rfc2822_remove_comments M line = Some (Some (s @ [NUL]))"
    using rfc2822_remove_comments_balanced_lemma[OF assms(1,3)] by (simp add: s_def)
  have sn: "NUL \<notin> set s" using strip_comments_NUL[OF assms(2)] by (simp add: s_def)
  have al: "header_alloc M = Some empty_header" using assms(1) by (simp add: header_alloc_def empty_header_def)
  have c: "cstr_at (s @ [NUL]) 0 = Some s" using cstr_at_terminated[OF sn, of "[]"] by simp
  have of: "header_of line = (if k = length s \<or> s ! k = SP \<or> v = [] \<or> k = 0 then empty_header
     else \<lparr>hname = Some (take k s), hdata = Some d, horig = Some line,
           hatoms = (if d = [] then None else Some (atoms_of d))\<rparr>)"
    by (simp add: header_of_def Let_def s_def k_def v_def d_def)
  show ?thesis
  proof (cases "k = length s \<or> s ! k = SP")
    case True
    then show ?thesis using assms(1) rc al c of by (auto simp: header_parse_def Let_def k_def[symmetric])
  next
    case False
    then have k: "k < length s" using next_token_le[of s] by (simp add: k_def order_less_le)
    let ?m = "take k s @ NUL # v @ [NUL]"
    have w: "wr (s @ [NUL]) k NUL = Some ?m"
      using k by (simp add: wr_def list_update_append upd_conv_take_nth_drop v_def)
    have nt: "NUL \<notin> set (take k s)" "NUL \<notin> set v"
      using sn by (auto simp: v_def dest: in_set_takeD in_set_dropD)
    have cv: "cstr_at ?m (Suc k) = Some v" "cstr_at ?m 0 = Some (take k s)"
      using cstr_at_mid[OF nt(2), of "Suc k" "take k s @ [NUL]" "[]"] cstr_at_terminated[OF nt(1)] k by simp_all
    have vs: "v = sps @ d" by (simp add: sps_def d_def)
    define pre where "pre = take k s @ NUL # sps"
    have m: "?m = pre @ d @ [NUL]" and pl: "length pre = Suc (k + length sps)" and dn: "NUL \<notin> set d"
      using vs k nt(2) by (simp_all add: pre_def)
    have cd: "cstr_at ?m (Suc (k + length sps)) = Some d"
      unfolding m pl[symmetric] using dn by (rule cstr_at_mid) simp
    have "d = [] \<or> \<not> rfc2822_is_wsp (last pre) \<or> rtrim (hd (split_plain CHR '';'' d)) \<noteq> []"
    proof -
      have cl: "v = [] \<or> hd v \<noteq> SP \<or> d = [] \<or> rtrim (hd (split_plain CHR '';'' d)) \<noteq> []"
        using assms(4) by (simp add: header_clean_def Let_def s_def k_def v_def d_def)
      have "hd v \<noteq> SP \<Longrightarrow> v \<noteq> [] \<Longrightarrow> sps = []" unfolding sps_def by (cases v) simp_all
      then have "hd v \<noteq> SP \<Longrightarrow> v \<noteq> [] \<Longrightarrow> last pre = NUL" by (simp add: pre_def)
      moreover have "v = [] \<Longrightarrow> d = []" by (simp add: d_def)
      ultimately show ?thesis using cl wsp_NUL by metis
    qed
    then obtain m' where "header_fetch_atoms M ?m (Suc (k + length sps))
        = Some (m', if d = [] then None else Some (atoms_of d))"
      using header_fetch_atoms_spec[OF assms(1) dn, of pre "[]"] unfolding m pl by (auto simp: pre_def)
    then show ?thesis using assms(1) rc al c of False w cv cd k
      by (cases "v = [] \<or> k = 0") (auto simp: header_parse_def Let_def k_def[symmetric] sps_def[symmetric])
  qed
qed

end
