(* ===== verification/Eps_Address.thy ===== *)
theory Eps_Address
  imports Eps_Header
begin

text \<open>
  Address lists, \<^verbatim>\<open>eps_address.c\<close>. \<open>address_evaluate\<close> duplicates its argument and cuts the copy in
  place, so the model keeps the block; \<open>address_evaluate_one\<close> parses one address of it. The
  list of members with its dummy head is a list. The reference functions \<open>address_of\<close> and
  \<open>group_of\<close> give the meaning of an address and of a list as functions of the text.
\<close>

record address_t =
  name :: "string option"
  user :: "string option"
  domain :: "string option"

record group_t =
  group :: "string option"
  nmembers :: nat
  members :: "address_t list"

definition empty_address :: address_t where
  "empty_address = \<lparr>name = None, user = None, domain = None\<rparr>"

text \<open>The result of \<open>rfc2822_convert_literals\<close> as it is stored: a null pointer when the allocation
  failed.\<close>

definition converted :: "cenv \<Rightarrow> string \<Rightarrow> string option ub" where
  "converted M s = do { r \<leftarrow> rfc2822_convert_literals M s;
     (case r of None \<Rightarrow> Some None | Some blk \<Rightarrow> do { t \<leftarrow> cstr_at blk 0; Some (Some t) }) }"

definition address_fixup :: "cenv \<Rightarrow> address_t \<Rightarrow> address_t ub" where
  "address_fixup M a = (case name a of None \<Rightarrow> Some a
     | Some n \<Rightarrow> do { p \<leftarrow> converted M n; Some (a\<lparr>name := p\<rparr>) })"

text \<open>Whether the token search stopped on the given byte.\<close>

definition hit :: "string \<Rightarrow> nat \<Rightarrow> char \<Rightarrow> bool" where
  "hit s k c \<longleftrightarrow> k < length s \<and> s ! k = c"

text \<open>The part after the comment \<open>End\<close>: the domain that starts at \<open>d\<close>.\<close>

definition address_domain :: "char list \<Rightarrow> nat \<Rightarrow> (char list \<times> string) ub" where
  "address_domain m d = do {
     s \<leftarrow> cstr_at m d;
     (let h = rfc2822_next_token s CHR ''>'' (Some '' '') in do {
       m1 \<leftarrow> (if hit s h CHR ''>'' then wr m (d + h) NUL else Some m);
       ds \<leftarrow> cstr_at m1 d;
       Some (m1, ds) }) }"

text \<open>The second half of \<open>address_evaluate_one\<close>, from the comment \<open>User/Domain\<close>: \<open>p\<close> and \<open>u\<close> are the
  C variables, \<open>u\<close> null when no \<open><\<close> was found.\<close>

definition address_user_domain ::
    "cenv \<Rightarrow> char list \<Rightarrow> nat \<Rightarrow> nat \<Rightarrow> nat option \<Rightarrow> address_t \<Rightarrow> (char list \<times> address_t) ub" where
  "address_user_domain M m data p u a = do {
     s \<leftarrow> cstr_at m p;
     (let k = rfc2822_next_token s CHR ''@'' (Some ''>'') in
      if hit s k CHR ''@'' then
        (if k + 1 = length s then Some (m, a)
         else do {
           m1 \<leftarrow> wr m (p + k) NUL;
           u \<leftarrow> (case u of Some u \<Rightarrow> Some u | None \<Rightarrow> skip_wsp m1 p);
           us \<leftarrow> cstr_at m1 u;
           (m2, ds) \<leftarrow> address_domain m1 (p + k + 1);
           a \<leftarrow> address_fixup M (a\<lparr>user := mstrdup M us, domain := mstrdup M ds\<rparr>);
           Some (m2, a) })
      else do { ds \<leftarrow> cstr_at m data; Some (m, a\<lparr>user := mstrdup M ds\<rparr>) }) }"

definition address_evaluate_one :: "cenv \<Rightarrow> char list \<Rightarrow> nat \<Rightarrow> (char list \<times> address_t option) ub" where
  "address_evaluate_one M m data = (case mmalloc M 32 ''address_evaluate_one'' of
     None \<Rightarrow> Some (m, None)
   | Some _ \<Rightarrow> do {
       s \<leftarrow> cstr_at m data;
       (let k = rfc2822_next_token s CHR ''<'' None in
        if hit s k CHR ''<'' then do {
          m1 \<leftarrow> wr m (data + k) NUL;
          n \<leftarrow> cstr_at m1 data;
          us \<leftarrow> cstr_at m1 (data + k + 1);
          (if us = [] then Some (m1, Some empty_address)
           else do {
             j \<leftarrow> (if data + k = 0 then None else skip_back m1 (data + k - 1));
             m2 \<leftarrow> wr m1 (j + 1) NUL;
             nm \<leftarrow> cstr_at m2 data;
             (m3, a) \<leftarrow> address_user_domain M m2 data (data + k + 1) (Some (data + k + 1))
               (empty_address\<lparr>name := (if n \<noteq> [] \<and> nm \<noteq> [] then mstrdup M nm else None)\<rparr>);
             Some (m3, Some a) }) }
        else do {
          (m1, a) \<leftarrow> address_user_domain M m data data None empty_address;
          Some (m1, Some a) }) })"

partial_function (option) address_loop ::
    "cenv \<Rightarrow> char list \<Rightarrow> nat \<Rightarrow> address_t list \<Rightarrow> (char list \<times> nat \<times> address_t list) option" where
  "address_loop M m t as = do {
     s \<leftarrow> cstr_at m t;
     (let k = rfc2822_next_token s CHR '','' None in
      if k = length s then Some (m, t, as)
      else do {
        m1 \<leftarrow> wr m (t + k) NUL;
        (m2, a) \<leftarrow> address_evaluate_one M m1 t;
        (case a of None \<Rightarrow> Some (m2, t, as)
         | Some a \<Rightarrow> address_loop M m2 (t + k + 1) (as @ [a])) }) }"

text \<open>The block that \<open>mstrdup\<close> allocates for the copy.\<close>

definition strdup_block :: "string \<Rightarrow> char list" where
  "strdup_block s = (if s = [] then [NUL, NUL] else s @ [NUL])"

definition address_evaluate :: "cenv \<Rightarrow> string \<Rightarrow> group_t option ub" where
  "address_evaluate M data = (case mmalloc M 24 ''address_evaluate'' of None \<Rightarrow> Some None
   | Some _ \<Rightarrow> (case mmalloc M 32 ''address_evaluate'' of None \<Rightarrow> Some None
   | Some _ \<Rightarrow> (case mstrdup M data of None \<Rightarrow> Some None
   | Some ds \<Rightarrow> (let d = strdup_block ds in do {
       s \<leftarrow> cstr_at d 0;
       (let h = rfc2822_next_token s CHR '':'' (Some ''<>;'') in do {
         (d, g, t) \<leftarrow> (if hit s h CHR '':'' then do {
             d1 \<leftarrow> wr d h NUL;
             gs \<leftarrow> cstr_at d1 0;
             t \<leftarrow> skip_wsp d1 (h + 1);
             Some (d1, mstrdup M gs, t) }
           else Some (d, None, 0));
         (d, t, as) \<leftarrow> address_loop M d t [];
         s \<leftarrow> cstr_at d t;
         (d, as) \<leftarrow> (if s \<noteq> [] then do {
             (d, a) \<leftarrow> address_evaluate_one M d t;
             Some (d, case a of None \<Rightarrow> as | Some a \<Rightarrow> as @ [a]) }
           else Some (d, as));
         g \<leftarrow> (case g of None \<Rightarrow> Some None | Some gs \<Rightarrow> converted M gs);
         Some (Some \<lparr>group = g, nmembers = length as, members = as\<rparr>) }) }))))"

subsection \<open>What an address list means\<close>

definition domain_of :: "string \<Rightarrow> string" where
  "domain_of d = (let j = rfc2822_next_token d CHR ''>'' (Some '' '')
     in if hit d j CHR ''>'' then take j d else d)"

text \<open>\<open>whole\<close> is the text that becomes the user when there is no \<open>@\<close>; \<open>trim\<close> says whether leading
  white space is removed from the user.\<close>

definition mailbox_of :: "string \<Rightarrow> string option \<Rightarrow> bool \<Rightarrow> string \<Rightarrow> address_t" where
  "mailbox_of whole nm trim s = (let k = rfc2822_next_token s CHR ''@'' (Some ''>'') in
     if hit s k CHR ''@'' then
       (if k + 1 = length s then \<lparr>name = nm, user = None, domain = None\<rparr>
        else \<lparr>name = map_option unquote nm,
              user = Some (if trim then ltrim (take k s) else take k s),
              domain = Some (domain_of (drop (k + 1) s))\<rparr>)
     else \<lparr>name = nm, user = Some whole, domain = None\<rparr>)"

definition address_of :: "string \<Rightarrow> address_t" where
  "address_of s = (let k = rfc2822_next_token s CHR ''<'' None in
     if hit s k CHR ''<'' then
       (if k + 1 = length s then empty_address
        else (let n = rtrim (take k s)
              in mailbox_of n (if n = [] then None else Some n) False (drop (k + 1) s)))
     else mailbox_of s None True s)"

definition members_of :: "string \<Rightarrow> address_t list" where
  "members_of s = (let ps = split_plain CHR '','' s
     in map address_of (butlast ps) @ (if last ps = [] then [] else [address_of (last ps)]))"

definition group_of :: "string \<Rightarrow> group_t" where
  "group_of s = (let h = rfc2822_next_token s CHR '':'' (Some ''<>;'');
       ms = members_of (if hit s h CHR '':'' then ltrim (drop (h + 1) s) else s)
     in \<lparr>group = (if hit s h CHR '':'' then Some (unquote (take h s)) else None),
         nmembers = length ms, members = ms\<rparr>)"

subsection \<open>The parser computes it\<close>

lemma converted_ok [simp]: "mem_ok M \<Longrightarrow> NUL \<notin> set s \<Longrightarrow> converted M s = Some (Some (unquote s))"
  using cstr_at_terminated[OF unquote_NUL, of s "[]"] by (simp add: converted_def rfc2822_convert_literals_lemma)

lemma NUL_take_drop: "NUL \<notin> set s \<Longrightarrow> NUL \<notin> set (take k s) \<and> NUL \<notin> set (drop j s)"
  by (auto dest: in_set_takeD in_set_dropD)

lemma address_domain_spec:
  assumes "NUL \<notin> set d" "i = length P"
  shows "\<exists>d'. address_domain (P @ d @ NUL # r) i = Some (P @ d' @ NUL # r, domain_of d) \<and> length d' = length d"
proof -
  define j where "j = rfc2822_next_token d CHR ''>'' (Some '' '')"
  have c: "cstr_at (P @ d @ NUL # r) i = Some d" using assms by (rule cstr_at_mid)
  show ?thesis
  proof (cases "hit d j CHR ''>''")
    case True
    then have j: "j < length d" by (simp add: hit_def)
    have w: "wr (P @ d @ NUL # r) (i + j) NUL = Some (P @ take j d @ NUL # drop (Suc j) d @ NUL # r)"
      using wr_cut[OF j, of P "NUL # r" NUL] assms(2) by simp
    moreover have "cstr_at (P @ take j d @ NUL # drop (Suc j) d @ NUL # r) i = Some (take j d)"
      using cstr_at_mid[of "take j d" i P] NUL_take_drop[OF assms(1)] assms(2) by simp
    moreover have "length (take j d @ NUL # drop (Suc j) d) = length d" using j by simp
    ultimately show ?thesis using True c
      by (intro exI[of _ "take j d @ NUL # drop (Suc j) d"])
        (simp add: address_domain_def domain_of_def Let_def j_def[symmetric])
  next
    case False
    with c show ?thesis
      by (intro exI[of _ d]) (simp add: address_domain_def domain_of_def Let_def j_def[symmetric])
  qed
qed

lemma skip_wsp_ltrim:
  assumes "NUL \<notin> set s" "i = length P"
  shows "\<exists>u. skip_wsp (P @ s @ NUL # r) i = Some u \<and> cstr_at (P @ s @ NUL # r) u = Some (ltrim s) \<and> i \<le> u
     \<and> u = i + length s - length (ltrim s)"
proof -
  obtain ws where ws: "s = ws @ ltrim s" "length ws = length (takeWhile rfc2822_is_wsp s)" by (rule ltrim_split)
  have "NUL \<notin> set (ltrim s)" using ws(1) assms(1) by (metis UnCI set_append)
  moreover have eq: "P @ s @ NUL # r = (P @ ws) @ ltrim s @ NUL # r" using ws(1) by (metis append_assoc)
  ultimately have "cstr_at (P @ s @ NUL # r) (i + length ws) = Some (ltrim s)"
    unfolding eq using assms(2) by (intro cstr_at_mid) simp_all
  moreover have "skip_wsp (P @ s @ NUL # r) i = Some (i + length ws)"
    using assms ws(2) by (simp add: skip_wsp_def cstr_at_mid)
  moreover have "length s = length ws + length (ltrim s)" using ws(1) by (metis length_append)
  ultimately show ?thesis by (intro exI[of _ "i + length ws"]) simp
qed

lemma address_user_domain_spec:
  assumes mem: "mem_ok M" and s: "NUL \<notin> set s" and p: "p = length P"
    and u: "u = (if trim then None else Some p)" and whole: "cstr_at (P @ s @ NUL # r) data = Some whole"
    and nm: "\<And>n. nm = Some n \<Longrightarrow> NUL \<notin> set n"
  shows "\<exists>s'. address_user_domain M (P @ s @ NUL # r) data p u \<lparr>name = nm, user = None, domain = None\<rparr>
    = Some (P @ s' @ NUL # r, mailbox_of whole nm trim s) \<and> length s' = length s"
proof -
  define k where "k = rfc2822_next_token s CHR ''@'' (Some ''>'')"
  define d where "d = drop (Suc k) s"
  have c: "cstr_at (P @ s @ NUL # r) p = Some s" using s p by (simp add: cstr_at_mid)
  show ?thesis
  proof (cases "hit s k CHR ''@'' \<and> k + 1 \<noteq> length s")
    case True
    then have k: "k < length s" by (simp add: hit_def)
    let ?m = "P @ take k s @ NUL # d @ NUL # r"
    have w: "wr (P @ s @ NUL # r) (p + k) NUL = Some ?m"
      using wr_cut[OF k, of P "NUL # r" NUL] p by (simp add: d_def)
    have n: "NUL \<notin> set (take k s)" "NUL \<notin> set d" using NUL_take_drop[OF s] by (auto simp: d_def)
    obtain v where v: "(case u of Some u \<Rightarrow> Some u | None \<Rightarrow> skip_wsp ?m p) = Some v"
        "cstr_at ?m v = Some (if trim then ltrim (take k s) else take k s)"
      using skip_wsp_ltrim[OF n(1) p, of "d @ NUL # r"] cstr_at_mid[OF n(1) p] u by (cases trim) auto
    obtain d' where d': "address_domain ?m (p + k + 1) = Some (P @ take k s @ NUL # d' @ NUL # r, domain_of d)"
        "length d' = length d"
      using address_domain_spec[OF n(2), of "p + k + 1" "P @ take k s @ [NUL]" r] p k by auto
    have fx: "address_fixup M \<lparr>name = nm, user = x, domain = y\<rparr>
        = Some \<lparr>name = map_option unquote nm, user = x, domain = y\<rparr>" for x y
      using nm mem by (cases nm) (simp_all add: address_fixup_def)
    have "address_user_domain M (P @ s @ NUL # r) data p u \<lparr>name = nm, user = None, domain = None\<rparr>
        = Some (P @ take k s @ NUL # d' @ NUL # r, mailbox_of whole nm trim s)"
      using True c w v d'(1) mem fx
      by (simp add: address_user_domain_def k_def[symmetric] Let_def mailbox_of_def d_def[symmetric])
    moreover have "length (take k s @ NUL # d') = length s" using k d'(2) by (simp add: d_def)
    ultimately show ?thesis by (intro exI[of _ "take k s @ NUL # d'"]) simp
  next
    case False
    with c whole mem show ?thesis
      by (intro exI[of _ s]) (auto simp: address_user_domain_def k_def[symmetric] Let_def mailbox_of_def)
  qed
qed

text \<open>The white space before \<open><\<close> is cut off the name. The scan stops on a byte of the name or, when
  there is none, on a byte in front of the address; \<open>room\<close> says that there is one.\<close>

definition room :: "string \<Rightarrow> string \<Rightarrow> bool" where
  "room pre a \<longleftrightarrow> rtrim a \<noteq> [] \<or> rtrim pre \<noteq> [] \<and> (a = [] \<or> \<not> rfc2822_is_wsp (last pre))"

lemma rtrim_append: "rtrim (p @ a) = (if rtrim a = [] then rtrim p else p @ rtrim a)"
  by (auto simp: rtrim_def dropWhile_append dropWhile_eq_Nil_conv)

lemma rtrim_id: "p \<noteq> [] \<Longrightarrow> \<not> rfc2822_is_wsp (last p) \<Longrightarrow> rtrim p = p"
  by (cases p rule: rev_cases) (simp_all add: rtrim_def)

lemma append_lengths:
  assumes "length m = n1 + n2 + length r" "drop (n1 + n2) m = r"
  obtains x y where "m = x @ y @ r" "length x = n1" "length y = n2"
proof -
  have "m = take n1 m @ take n2 (drop n1 m) @ r"
    using assms(2) by (metis add.commute append_take_drop_id drop_drop)
  then show thesis using assms(1) by (intro that[of "take n1 m" "take n2 (drop n1 m)"]) simp_all
qed

lemma name_cut:
  assumes "NUL \<notin> set a" "room pre a"
  shows "\<exists>j pre' a'. skip_back (pre @ a @ NUL # r) (length pre + length a - 1) = Some j
    \<and> wr (pre @ a @ NUL # r) (j + 1) NUL = Some (pre' @ a' @ NUL # r)
    \<and> length pre' = length pre \<and> length a' = length a
    \<and> cstr_at (pre' @ a' @ NUL # r) (length pre) = Some (rtrim a) \<and> pre @ a \<noteq> []"
proof -
  define q where "q = rtrim (pre @ a)"
  obtain ws where ws: "pre @ a = q @ ws" "\<forall>c \<in> set ws. rfc2822_is_wsp c"
    using rtrim_split[of "pre @ a"] by (auto simp: q_def)
  have q: "q \<noteq> []" "\<not> rfc2822_is_wsp (last q)"
    using assms(2) rtrim_last[of "pre @ a"] by (auto simp: q_def rtrim_append room_def)
  have len: "length pre + length a = length q + length ws" using ws(1) by (metis length_append)
  have m: "pre @ a @ NUL # r = q @ ws @ NUL # r" using ws(1) by (metis append_assoc)
  define m2 where "m2 = (q @ ws @ NUL # r)[length q := NUL]"
  have sb: "skip_back (pre @ a @ NUL # r) (length pre + length a - 1) = Some (length q - 1)"
    unfolding m len using skip_back_spec[OF q ws(2)] .
  have w: "wr (pre @ a @ NUL # r) (length q - 1 + 1) NUL = Some m2"
    unfolding m using q by (simp add: wr_def m2_def)
  have "drop (length q + length ws) m2 = NUL # r" "length m2 = length q + length ws + length (NUL # r)"
    unfolding m2_def by (cases ws; simp)+
  then obtain pre' a' where pa: "m2 = pre' @ a' @ NUL # r" "length pre' = length pre" "length a' = length a"
    using append_lengths[of m2 "length pre" "length a" "NUL # r"] len by metis
  have "cstr_at m2 (length pre) = Some (rtrim a)"
  proof (cases "rtrim a = []")
    case False
    then have "q = pre @ rtrim a" by (simp add: q_def rtrim_append)
    moreover have "m2 = q @ NUL # drop (Suc (length q)) (q @ ws @ NUL # r)"
      by (cases ws) (simp_all add: m2_def)
    ultimately have "m2 = pre @ rtrim a @ NUL # drop (Suc (length q)) (q @ ws @ NUL # r)" by simp
    moreover have "NUL \<notin> set (rtrim a)" using assms(1) rtrim_split[of a] by (metis UnCI set_append)
    ultimately show ?thesis by (simp add: cstr_at_mid)
  next
    case True
    then have qp: "q = rtrim pre" by (simp add: q_def rtrim_append)
    have "m2 ! length pre = NUL" "length pre < length m2"
    proof -
      show "length pre < length m2" using pa by simp
      show "m2 ! length pre = NUL"
      proof (cases "a = []")
        case True
        then show ?thesis using pa by (simp add: nth_append)
      next
        case False
        with assms(2) True have "\<not> rfc2822_is_wsp (last pre)" "pre \<noteq> []" by (auto simp: room_def rtrim_def)
        then have "q = pre" using qp rtrim_id by simp
        then show ?thesis by (simp add: m2_def)
      qed
    qed
    then have "drop (length pre) m2 = NUL # drop (Suc (length pre)) m2" by (metis Cons_nth_drop_Suc)
    then show ?thesis using True by (simp add: cstr_at_def)
  qed
  with sb w pa q ws(1) show ?thesis by (intro exI[of _ "length q - 1"] exI[of _ pre'] exI[of _ a']) auto
qed

lemma next_token_hit_iff: "hit s (rfc2822_next_token s c None) c \<longleftrightarrow> rfc2822_next_token s c None < length s"
  using next_token_hit[of s c] by (auto simp: hit_def)

text \<open>The address that \<open>s\<close> starts with can be cut out in place.\<close>

definition address_room :: "string \<Rightarrow> string \<Rightarrow> bool" where
  "address_room pre s = (let k = rfc2822_next_token s CHR ''<'' None
     in k + 1 < length s \<longrightarrow> room pre (take k s))"

lemma address_evaluate_one_spec:
  assumes mem: "mem_ok M" and s: "NUL \<notin> set s" and rm: "address_room pre s"
  shows "\<exists>pre' s'. address_evaluate_one M (pre @ s @ NUL # r) (length pre)
    = Some (pre' @ s' @ NUL # r, Some (address_of s)) \<and> length pre' = length pre \<and> length s' = length s"
proof -
  define k where "k = rfc2822_next_token s CHR ''<'' None"
  define us where "us = drop (Suc k) s"
  have c: "cstr_at (pre @ s @ NUL # r) (length pre) = Some s" using s by (simp add: cstr_at_mid)
  have n: "NUL \<notin> set (take k s)" "NUL \<notin> set us" using NUL_take_drop[OF s] by (auto simp: us_def)
  show ?thesis
  proof (cases "hit s k CHR ''<''")
    case False
    obtain s' where "address_user_domain M (pre @ s @ NUL # r) (length pre) (length pre) None empty_address
        = Some (pre @ s' @ NUL # r, mailbox_of s None True s)" "length s' = length s"
      using address_user_domain_spec[OF mem s refl _ c, of None True None] by (auto simp: empty_address_def)
    with False c mem show ?thesis
      by (intro exI[of _ pre] exI[of _ s'])
        (simp add: address_evaluate_one_def k_def[symmetric] Let_def address_of_def)
  next
    case True
    then have k: "k < length s" by (simp add: hit_def)
    let ?m = "pre @ take k s @ NUL # us @ NUL # r"
    have w: "wr (pre @ s @ NUL # r) (length pre + k) NUL = Some ?m"
      using wr_cut[OF k, of pre "NUL # r" NUL] by (simp add: us_def)
    have ca: "cstr_at ?m (length pre) = Some (take k s)" using n(1) by (simp add: cstr_at_mid)
    have cu: "cstr_at ?m (Suc (length pre + k)) = Some us"
      by (rule cstr_at_after[OF n(2)]) (use k in simp)
    have us: "us = [] \<longleftrightarrow> k + 1 = length s" using k by (auto simp: us_def)
    have len: "length (take k s @ NUL # us) = length s" using k by (simp add: us_def)
    show ?thesis
    proof (cases "us = []")
      case empty: True
      with True c w ca cu us mem len show ?thesis
        by (intro exI[of _ pre] exI[of _ "take k s @ NUL # us"])
          (simp add: address_evaluate_one_def k_def[symmetric] Let_def address_of_def)
    next
      case False
      then have "room pre (take k s)" using rm us k by (simp add: address_room_def Let_def k_def[symmetric])
      from name_cut[OF n(1) this, of "us @ NUL # r"] obtain j pre' a' where
        cut: "skip_back ?m (length pre + k - 1) = Some j"
          "wr ?m (j + 1) NUL = Some (pre' @ a' @ NUL # us @ NUL # r)" "length pre' = length pre" "length a' = k"
          "cstr_at (pre' @ a' @ NUL # us @ NUL # r) (length pre) = Some (rtrim (take k s))" "length pre + k \<noteq> 0"
        using k by auto
      let ?n = "rtrim (take k s)"
      define nm where "nm = (if ?n = [] then None else Some ?n)"
      have nn: "NUL \<notin> set ?n" using n(1) rtrim_split[of "take k s"] by (metis UnCI set_append)
      have ne: "?n \<noteq> [] \<Longrightarrow> take k s \<noteq> []" by (metis empty_iff list.set(1) rtrim_all_wsp)
      have sb: "(if pre = [] \<and> k = 0 then None
          else skip_back ?m (length pre + rfc2822_next_token s CHR ''<'' None - 1)) = Some j"
        using cut(1,6) by (simp add: k_def)
      have nmeq: "(if take k s \<noteq> [] \<and> ?n \<noteq> [] then mstrdup M ?n else None) = nm"
        using ne mem by (auto simp: nm_def)
      let ?P = "pre' @ a' @ [NUL]"
      have "cstr_at (?P @ us @ NUL # r) (length pre) = Some ?n" using cut(5) by simp
      moreover have "nm = Some x \<Longrightarrow> NUL \<notin> set x" for x using nn by (auto simp: nm_def split: if_splits)
      ultimately
      obtain s' where ud: "address_user_domain M (?P @ us @ NUL # r) (length pre) (length ?P) (Some (length ?P))
          \<lparr>name = nm, user = None, domain = None\<rparr> = Some (?P @ s' @ NUL # r, mailbox_of ?n nm False us)"
          "length s' = length us"
        using address_user_domain_spec[OF mem n(2) refl, where trim = False and nm = nm] by metis
      have "address_evaluate_one M (pre @ s @ NUL # r) (length pre)
          = Some (pre' @ (a' @ NUL # s') @ NUL # r, Some (address_of s))"
        using True c w ca cu False cut mem us ud(1)
        by (simp add: address_evaluate_one_def k_def[symmetric] Let_def address_of_def empty_address_def
            us_def[symmetric] sb nmeq nm_def[symmetric] del: take_eq_Nil mstrdup_ok split del: if_split)
      then show ?thesis using cut(3,4) ud(2) k
        by (intro exI[of _ pre'] exI[of _ "a' @ NUL # s'"]) (simp add: us_def)
    qed
  qed
qed

lemma address_room_NUL: "address_room (p @ [NUL]) s"
  by (simp add: address_room_def Let_def room_def rtrim_append rtrim_def)

lemma split_plain_Cons:
  "rfc2822_next_token s c None = k \<Longrightarrow> k < length s \<Longrightarrow> split_plain c s = take k s # split_plain c (drop (Suc k) s)"
  by (simp add: split_plain.simps[of c s] Let_def)

lemma split_plain_last: "rfc2822_next_token s c None = length s \<Longrightarrow> split_plain c s = [s]"
  by (simp add: split_plain.simps[of c s] Let_def)

lemma split_plain_ne: "split_plain c s \<noteq> []"
  by (subst split_plain.simps) (simp add: Let_def)

lemma address_loop_spec:
  assumes "mem_ok M" "NUL \<notin> set s" "address_room pre (hd (split_plain CHR '','' s))"
  shows "\<exists>pre'. address_loop M (pre @ s @ NUL # r) (length pre) as
      = Some (pre' @ last (split_plain CHR '','' s) @ NUL # r, length pre',
          as @ map address_of (butlast (split_plain CHR '','' s)))
    \<and> address_room pre' (last (split_plain CHR '','' s)) \<and> NUL \<notin> set (last (split_plain CHR '','' s))"
  using assms(2,3)
proof (induction "length s" arbitrary: s pre as rule: less_induct)
  case less
  define k where "k = rfc2822_next_token s CHR '','' None"
  have c: "cstr_at (pre @ s @ NUL # r) (length pre) = Some s" using less.prems(1) by (simp add: cstr_at_mid)
  show ?case
  proof (cases "k = length s")
    case True
    then have sp: "split_plain CHR '','' s = [s]" by (simp add: k_def split_plain_last)
    have "address_loop M (pre @ s @ NUL # r) (length pre) as = Some (pre @ s @ NUL # r, length pre, as)"
      using c True by (subst address_loop.simps) (simp add: Let_def k_def[symmetric])
    with sp less.prems show ?thesis by (intro exI[of _ pre]) simp
  next
    case False
    then have k: "k < length s" using next_token_le[of s "CHR '',''" None] by (simp add: k_def)
    define d where "d = drop (Suc k) s"
    have sp: "split_plain CHR '','' s = take k s # split_plain CHR '','' d"
      using k by (simp add: d_def k_def split_plain_Cons)
    have n: "NUL \<notin> set (take k s)" "NUL \<notin> set d" using NUL_take_drop[OF less.prems(1)] by (auto simp: d_def)
    have w: "wr (pre @ s @ NUL # r) (length pre + k) NUL = Some (pre @ take k s @ NUL # d @ NUL # r)"
      using wr_cut[OF k, of pre "NUL # r" NUL] by (simp add: d_def)
    obtain p1 s1 where one: "address_evaluate_one M (pre @ take k s @ NUL # d @ NUL # r) (length pre)
        = Some (p1 @ s1 @ NUL # d @ NUL # r, Some (address_of (take k s)))"
        "length p1 = length pre" "length s1 = k"
      using address_evaluate_one_spec[OF assms(1) n(1), of pre "d @ NUL # r"] less.prems(2) sp k by auto
    have step: "address_loop M (pre @ s @ NUL # r) (length pre) as
        = address_loop M ((p1 @ s1 @ [NUL]) @ d @ NUL # r) (length (p1 @ s1 @ [NUL])) (as @ [address_of (take k s)])"
      using c w one False by (subst address_loop.simps) (simp add: Let_def k_def[symmetric])
    have "address_room (p1 @ s1 @ [NUL]) (hd (split_plain CHR '','' d))"
      using address_room_NUL[of "p1 @ s1"] by simp
    then show ?thesis
      using less.hyps[of d "p1 @ s1 @ [NUL]" "as @ [address_of (take k s)]"] n k step sp split_plain_ne[of "CHR '',''" d]
      by (auto simp: d_def)
  qed
qed

text \<open>The parsed part of the list: what follows the group name, or everything.\<close>

definition group_clean :: "string \<Rightarrow> bool" where
  "group_clean s \<longleftrightarrow> hit s (rfc2822_next_token s CHR '':'' (Some ''<>;'')) CHR '':''
     \<or> address_room [] (hd (split_plain CHR '','' s))"

lemma rtrim_Nil_hd: "a \<noteq> [] \<Longrightarrow> \<not> rfc2822_is_wsp (hd a) \<Longrightarrow> rtrim a \<noteq> []"
  by (auto simp: rtrim_def dropWhile_eq_Nil_conv)

lemma address_room_group:
  assumes "rtrim pre \<noteq> []" "s = ltrim x"
  shows "address_room pre (hd (split_plain CHR '','' s))"
proof -
  define p where "p = hd (split_plain CHR '','' s)"
  define a where "a = take (rfc2822_next_token p CHR ''<'' None) p"
  have "\<exists>k. p = take k s"
    unfolding p_def by (subst split_plain.simps) (auto simp: Let_def intro: exI[of _ "length s"])
  then obtain k where "a = take k s" by (auto simp: a_def)
  then have "a \<noteq> [] \<Longrightarrow> hd a = hd s \<and> s \<noteq> []" by (cases s; cases k) auto
  then have "a \<noteq> [] \<Longrightarrow> \<not> rfc2822_is_wsp (hd a)" using assms(2) by (simp add: ltrim_def hd_dropWhile)
  then have "room pre a" using assms(1) rtrim_Nil_hd[of a] by (auto simp: room_def)
  then show ?thesis by (simp add: address_room_def Let_def p_def a_def)
qed

text \<open>From the parsed position on: the loop, the last address and the group name.\<close>

lemma address_tail_spec:
  assumes "mem_ok M" "NUL \<notin> set s" "address_room pre (hd (split_plain CHR '','' s))"
  shows "\<exists>d2. (do { (d, t, as) \<leftarrow> address_loop M (pre @ s @ NUL # r) (length pre) [];
       s \<leftarrow> cstr_at d t;
       (if s \<noteq> [] then do { (d, a) \<leftarrow> address_evaluate_one M d t;
          Some (d, case a of None \<Rightarrow> as | Some a \<Rightarrow> as @ [a]) } else Some (d, as)) })
    = Some (d2, members_of s)"
proof -
  let ?ps = "split_plain CHR '','' s"
  obtain pre' where l: "address_loop M (pre @ s @ NUL # r) (length pre) []
      = Some (pre' @ last ?ps @ NUL # r, length pre', map address_of (butlast ?ps))"
      "address_room pre' (last ?ps)" "NUL \<notin> set (last ?ps)"
    using address_loop_spec[OF assms, of r "[]"] by auto
  obtain p2 s2 where "address_evaluate_one M (pre' @ last ?ps @ NUL # r) (length pre')
      = Some (p2 @ s2 @ NUL # r, Some (address_of (last ?ps)))"
    using address_evaluate_one_spec[OF assms(1) l(3,2)] by blast
  then show ?thesis using l cstr_at_mid[OF l(3) refl, of pre' r]
    by (cases "last ?ps = []") (simp_all add: members_of_def Let_def)
qed

theorem address_evaluate_lemma:
  assumes mem: "mem_ok M" and s: "NUL \<notin> set s" and clean: "group_clean s"
  shows "address_evaluate M s = Some (Some (group_of s))"
proof -
  define h where "h = rfc2822_next_token s CHR '':'' (Some ''<>;'')"
  obtain r where d: "strdup_block s = s @ NUL # r" by (cases s) (auto simp: strdup_block_def)
  have c: "cstr_at (s @ NUL # r) 0 = Some s" using s by (rule cstr_at_terminated)
  show ?thesis
  proof (cases "hit s h CHR '':''")
    case True
    then have h: "h < length s" by (simp add: hit_def)
    define v where "v = drop (Suc h) s"
    have n: "NUL \<notin> set (take h s)" "NUL \<notin> set v" using NUL_take_drop[OF s] by (auto simp: v_def)
    have w: "wr (s @ NUL # r) h NUL = Some (take h s @ NUL # v @ NUL # r)"
      using wr_cut[OF h, of "[]" "NUL # r" NUL] by (simp add: v_def)
    have cg: "cstr_at (take h s @ NUL # v @ NUL # r) 0 = Some (take h s)" using n(1) by (rule cstr_at_terminated)
    obtain ws where ws: "v = ws @ ltrim v" "length ws = length (takeWhile rfc2822_is_wsp v)" by (rule ltrim_split)
    define pre where "pre = take h s @ NUL # ws"
    have m: "take h s @ NUL # v @ NUL # r = pre @ ltrim v @ NUL # r" unfolding pre_def using ws(1)
      by (metis append_Cons append_assoc)
    have sk: "skip_wsp (take h s @ NUL # v @ NUL # r) (Suc h) = Some (length pre)"
      using cstr_at_after[OF n(2), of "Suc h" "take h s" "[]" r] ws(2) h by (simp add: skip_wsp_def pre_def)
    have rt: "rtrim pre \<noteq> []"
      unfolding pre_def by (simp add: rtrim_def dropWhile_eq_Nil_conv)
    have "NUL \<notin> set (ltrim v)" using n(2) ws(1) by (metis UnCI set_append)
    from address_tail_spec[OF mem this address_room_group[OF rt refl], of r] True
    show ?thesis using mem s d c w cg sk h n(1)
      by (auto simp: address_evaluate_def h_def[symmetric] Let_def group_of_def m v_def[symmetric]
          Option.bind_eq_Some_conv split: if_splits)
  next
    case False
    then have "address_room [] (hd (split_plain CHR '','' s))" using clean by (simp add: group_clean_def h_def)
    from address_tail_spec[OF mem s this, of r] False show ?thesis using mem d c
      by (auto simp: address_evaluate_def h_def[symmetric] Let_def group_of_def
          Option.bind_eq_Some_conv split: if_splits)
  qed
qed

end
