(* ===== verification/Eps_Line.thy ===== *)
theory Eps_Line
  imports Prelude
begin

text \<open>
  The growable line buffer of \<^verbatim>\<open>eps_line.c\<close>: \<open>line_t\<close>, its allocation, injection of bytes with
  reallocation, and restart. The invariant \<open>line_wf\<close> says that the block is one byte longer
  than the recorded size and that the bytes in use are followed by a terminator.
\<close>

definition DEFAULT_BUFFER_SIZE :: nat where "DEFAULT_BUFFER_SIZE = 1000"
definition DEFAULT_BUFFER_ADD :: nat where "DEFAULT_BUFFER_ADD = 500"

record line_t =
  ldata :: "char list option"
  lbytes :: nat
  lsize :: nat

definition line_alloc :: "cenv \<Rightarrow> line_t option" where
  "line_alloc M = (case mmalloc M 24 ''line_alloc'' of
     None \<Rightarrow> None
   | Some _ \<Rightarrow> Some \<lparr>ldata = None, lbytes = 0, lsize = 0\<rparr>)"

text \<open>
  \<open>line_init\<close> takes the caller's buffer as an optional block; \<open>same\<close> is the outcome of the pointer
  comparison with \<open>l->data\<close>. Passing the line's own block with another size frees that block
  and keeps the pointer, which is undefined behaviour.
\<close>

definition line_init ::
    "cenv \<Rightarrow> line_t \<Rightarrow> char list option \<Rightarrow> bool \<Rightarrow> nat \<Rightarrow> (line_t \<times> bool) ub" where
  "line_init M l buffer same sz = (case buffer of
     Some b \<Rightarrow>
       if same \<and> lsize l = sz then Some (l, True)
       else if same then None
       else Some (l\<lparr>ldata := Some b, lsize := sz\<rparr>, True)
   | None \<Rightarrow>
       (let s = (if sz = 0 then DEFAULT_BUFFER_SIZE else sz)
        in case mmalloc M (s + 1) ''line_init'' of
             None \<Rightarrow> Some (l\<lparr>ldata := None\<rparr>, False)
           | Some d \<Rightarrow> do {
               d' \<leftarrow> wr d 0 NUL;
               Some (l\<lparr>ldata := Some d', lsize := s\<rparr>, True) }))"

definition line_grow :: "line_t \<Rightarrow> nat \<Rightarrow> nat" where
  "line_grow l bytes = (if DEFAULT_BUFFER_ADD < lbytes l + bytes - lsize l
     then lbytes l + bytes - lsize l + DEFAULT_BUFFER_ADD + 1
     else DEFAULT_BUFFER_ADD)"

definition line_room :: "cenv \<Rightarrow> line_t \<Rightarrow> nat \<Rightarrow> line_t option" where
  "line_room M l bytes = (if lbytes l + bytes > lsize l
     then (case crealloc M (ldata l) (lsize l + line_grow l bytes + 1) of
             None \<Rightarrow> None
           | Some p \<Rightarrow> Some (l\<lparr>ldata := Some p, lsize := lsize l + line_grow l bytes\<rparr>))
     else Some l)"

definition line_inject :: "cenv \<Rightarrow> line_t \<Rightarrow> char list \<Rightarrow> nat \<Rightarrow> (line_t \<times> bool) ub" where
  "line_inject M l data bytes = (case line_room M l bytes of
     None \<Rightarrow> Some (l, False)
   | Some l1 \<Rightarrow> do {
       d \<leftarrow> ldata l1;
       src \<leftarrow> (if bytes \<le> length data then Some (take bytes data) else None);
       d1 \<leftarrow> wr_block d (lbytes l1) src;
       d2 \<leftarrow> wr d1 (lbytes l1 + bytes) NUL;
       Some (l1\<lparr>ldata := Some d2, lbytes := lbytes l1 + bytes\<rparr>, True) })"

definition line_restart :: "line_t \<Rightarrow> line_t ub" where
  "line_restart l = (if lbytes l \<noteq> 0
     then do { d \<leftarrow> ldata l; d' \<leftarrow> wr d 0 NUL; Some (l\<lparr>ldata := Some d', lbytes := 0\<rparr>) }
     else Some l)"

subsection \<open>Invariant and abstraction\<close>

definition line_wf :: "line_t \<Rightarrow> bool" where
  "line_wf l = (case ldata l of
     None \<Rightarrow> lbytes l = 0 \<and> lsize l = 0
   | Some d \<Rightarrow> length d = lsize l + 1 \<and> lbytes l \<le> lsize l \<and> d ! lbytes l = NUL)"

definition line_str :: "line_t \<Rightarrow> string" where
  "line_str l = (case ldata l of None \<Rightarrow> [] | Some d \<Rightarrow> take (lbytes l) d)"

lemma line_str_length: "line_wf l \<Longrightarrow> length (line_str l) = lbytes l"
  by (auto simp: line_wf_def line_str_def split: option.splits)

lemma line_str_Nil_iff: "line_wf l \<Longrightarrow> line_str l = [] \<longleftrightarrow> lbytes l = 0"
  using line_str_length[of l] by (auto simp del: length_0_conv simp: length_0_conv[symmetric])

lemma line_wf_alloc: "line_alloc M = Some l \<Longrightarrow> line_wf l \<and> line_str l = [] \<and> lbytes l = 0 \<and> ldata l = None"
  by (auto simp: line_alloc_def line_wf_def line_str_def split: option.splits)

lemma line_alloc_ok [simp]: "mem_ok M \<Longrightarrow> line_alloc M = Some \<lparr>ldata = None, lbytes = 0, lsize = 0\<rparr>"
  by (simp add: line_alloc_def)

lemma line_init_fresh:
  assumes "lbytes l = 0" and "mem_ok M"
  obtains l' where "line_init M l None same sz = Some (l', True)" and "line_wf l'"
    and "line_str l' = []" and "ldata l' \<noteq> None" and "lbytes l' = 0"
  using assms by (auto simp: line_init_def Let_def cmem line_wf_def line_str_def)

lemma line_room_wf:
  assumes "line_wf l" and "line_room M l n = Some l'"
  shows "lbytes l' = lbytes l" and "lbytes l + n \<le> lsize l'"
    and "ldata l' = None \<or> length (the (ldata l')) = lsize l' + 1"
    and "line_str l' = line_str l"
proof -
  have len: "length (take (lbytes l) d) = lbytes l" if "ldata l = Some d" for d
    using assms(1) that by (simp add: line_wf_def)
  show "lbytes l' = lbytes l" using assms by (auto simp: line_room_def split: if_splits option.splits)
  show "lbytes l + n \<le> lsize l'" using assms
    by (auto simp: line_room_def line_grow_def DEFAULT_BUFFER_ADD_def split: if_splits option.splits)
  show "ldata l' = None \<or> length (the (ldata l')) = lsize l' + 1" using assms
    by (auto simp: line_room_def line_wf_def dest!: crealloc_length split: if_splits option.splits)
  show "line_str l' = line_str l" using assms
    by (auto simp: line_room_def line_wf_def line_str_def intro!: crealloc_prefix split: if_splits option.splits)
qed

lemma line_room_ok:
  assumes "mem_ok M" shows "\<exists>l'. line_room M l n = Some l'"
proof -
  obtain d where "crealloc M (ldata l) (lsize l + line_grow l n + 1) = Some d"
    using crealloc_ok[OF assms] by blast
  then show ?thesis by (simp add: line_room_def)
qed

lemma line_room_nonnull:
  "line_room M l n = Some l' \<Longrightarrow> line_wf l \<Longrightarrow> ldata l \<noteq> None \<or> 0 < n \<Longrightarrow> ldata l' \<noteq> None"
  by (auto simp: line_room_def line_wf_def split: if_splits option.splits)

text \<open>Injection appends, keeps the invariant and stays inside the block; a failed reallocation
  leaves the line as it was.\<close>

lemma line_inject_spec:
  assumes wf: "line_wf l" and src: "n \<le> length data" and nonnull: "ldata l \<noteq> None \<or> 0 < n"
  shows "line_inject M l data n = Some (l, False) \<and> \<not> mem_ok M
    \<or> (\<exists>l'. line_inject M l data n = Some (l', True) \<and> line_wf l' \<and> ldata l' \<noteq> None
          \<and> line_str l' = line_str l @ take n data \<and> lbytes l' = lbytes l + n)"
proof (cases "line_room M l n")
  case None
  with line_room_ok[of M l n] show ?thesis by (auto simp: line_inject_def)
next
  case (Some l1)
  note room = line_room_wf[OF wf Some]
  obtain d where d: "ldata l1 = Some d"
    using line_room_nonnull[OF Some wf nonnull] by auto
  have len: "length d = lsize l1 + 1" using room(3) d by simp
  have str: "take (lbytes l1) d = line_str l" using room(4) d by (simp add: line_str_def)
  define b where "b = lbytes l"
  have bnd: "b + length (take n data) < length d" and n: "length (take n data) = n"
    using room(2) len src by (simp_all add: b_def)
  obtain d1 where d1: "wr_block d b (take n data) = Some d1"
    using bnd by (simp add: wr_block_def)
  have d2: "wr d1 (b + n) NUL = Some (take b d @ take n data @ NUL # drop (Suc (b + n)) d)"
    using wr_block_terminated[OF bnd d1] n by simp
  have "line_inject M l data n = Some (l1\<lparr>ldata := Some (take b d @ take n data @ NUL # drop (Suc (b + n)) d),
      lbytes := b + n\<rparr>, True)"
    using Some d src d1 d2 room(1) by (simp add: line_inject_def b_def)
  moreover have "take b d = line_str l" using str room(1) by (simp add: b_def)
  moreover have "length (take b d) = b" using bnd by simp
  ultimately show ?thesis
    using len bnd n room(2) by (simp add: line_wf_def line_str_def[of "l1\<lparr>ldata := _, lbytes := _\<rparr>"] nth_append b_def)
qed

lemma line_inject_ok:
  assumes "line_wf l" "n \<le> length data" "ldata l \<noteq> None \<or> 0 < n" "mem_ok M"
  obtains l' where "line_inject M l data n = Some (l', True)" "line_wf l'" "ldata l' \<noteq> None"
    "line_str l' = line_str l @ take n data" "lbytes l' = lbytes l + n"
  using line_inject_spec[OF assms(1-3), of M] assms(4) by auto

lemma line_inject_ex:
  assumes "line_wf l" "ldata l \<noteq> None" "n \<le> length data" "mem_ok M" "take n data = xs"
  shows "\<exists>l'. line_inject M l data n = Some (l', True) \<and> line_wf l' \<and> ldata l' \<noteq> None
    \<and> line_str l' = line_str l @ xs"
  using line_inject_ok[OF assms(1,3) _ assms(4)] assms(2,5) by metis

lemma line_restart_spec:
  assumes "line_wf l"
  obtains l' where "line_restart l = Some l'" "line_wf l'" "line_str l' = []" "lbytes l' = 0"
    "ldata l' = None \<longleftrightarrow> ldata l = None"
proof (cases "lbytes l = 0")
  case True
  with that[of l] assms show ?thesis
    by (simp add: line_restart_def line_str_Nil_iff)
next
  case False
  with assms obtain d where d: "ldata l = Some d" "0 < length d" "length d = lsize l + 1"
    by (auto simp: line_wf_def split: option.splits)
  with False that[of "l\<lparr>ldata := Some (d[0 := NUL]), lbytes := 0\<rparr>"] show ?thesis
    by (simp add: line_restart_def cmem line_wf_def line_str_def)
qed

end
