(* ===== verification/Eps_Output.thy ===== *)
theory Eps_Output
  imports Prelude
begin

text \<open>
  Output through \<open>write\<close>. The operating system is a parameter of the encoders: a descriptor \<open>'o\<close> and
  a function \<open>wrt\<close> that writes a block to it and gives the new descriptor and the return value.
  The locale \<open>sink\<close> is the contract for a descriptor that accepts what it is given; it is
  interpreted on \<open>c_write\<close>, a descriptor with a script of short and failing writes, in the states
  where the script is exhausted.
\<close>

type_synonym 'o writer = "'o \<Rightarrow> char list \<Rightarrow> 'o \<times> int"

datatype write_result = WShort nat | WFail

record out_t =
  odata :: "char list"
  oplan :: "write_result list"

definition c_write :: "out_t writer" where
  "c_write o1 xs = (case oplan o1 of
     [] \<Rightarrow> (o1\<lparr>odata := odata o1 @ xs\<rparr>, int (length xs))
   | WShort n # ps \<Rightarrow> (o1\<lparr>odata := odata o1 @ take n xs, oplan := ps\<rparr>, int (min n (length xs)))
   | WFail # ps \<Rightarrow> (o1\<lparr>oplan := ps\<rparr>, -1))"

locale sink =
  fixes wrt :: "'o writer"
    and sent :: "'o \<Rightarrow> char list"
    and open_out :: "'o \<Rightarrow> bool"
  assumes wrt_all: "open_out o1 \<Longrightarrow>
      \<exists>o2. wrt o1 xs = (o2, int (length xs)) \<and> sent o2 = sent o1 @ xs \<and> open_out o2"
begin

lemma wrt_twice:
  assumes "open_out o1"
  obtains o2 o3 where "wrt o1 xs = (o2, int (length xs))" "wrt o2 ys = (o3, int (length ys))"
    "sent o2 = sent o1 @ xs" "sent o3 = sent o1 @ xs @ ys" "open_out o2" "open_out o3"
  using assms wrt_all by (metis append_assoc)

end

interpretation outfile: sink c_write odata "\<lambda>o1. oplan o1 = []"
  by unfold_locales (simp add: c_write_def)

end
