(* ===== verification/Eps_Base64.thy ===== *)
theory Eps_Base64
  imports Eps_Line Eps_Output
begin

text \<open>
  Base64, \<^verbatim>\<open>eps_base64.c\<close>. The \<open>int\<close> accumulator \<open>bits\<close> never leaves its 32 bits (three bytes or four
  digits of at most eight bits), so it is a HOL \<open>int\<close>; shifting a negative value, which an
  uninitialised table could cause, is undefined. The arrays indexed by an \<open>unsigned char\<close> are
  functions on \<open>char\<close>. The encoder writes through the interface of \<open>Eps_Output\<close>, the decoder appends
  to a \<open>line_t\<close>. The main result is that decoding what was encoded gives the bytes back.
\<close>

definition alphabet :: string where
  "alphabet = ''ABCDEFGHIJKLMNOPQRSTUVWXYZabcdefghijklmnopqrstuvwxyz0123456789+/''"

record base64_t =
  inalphabet :: "char \<Rightarrow> int"
  decoder :: "char \<Rightarrow> int"

definition base64_init :: "base64_t \<Rightarrow> base64_t" where
  "base64_init b = fold (\<lambda>i b. b\<lparr>inalphabet := (inalphabet b)(alphabet ! i := 1),
       decoder := (decoder b)(alphabet ! i := int i)\<rparr>) (rev [0..<64]) b"

text \<open>Storing an \<open>int\<close> in an \<open>unsigned char\<close>.\<close>

definition to_byte :: "int \<Rightarrow> char" where
  "to_byte n = char_of (nat (n mod 256))"

fun decode_loop ::
    "cenv \<Rightarrow> base64_t \<Rightarrow> string \<Rightarrow> int \<Rightarrow> nat \<Rightarrow> line_t \<Rightarrow> (line_t \<times> int \<times> nat \<times> bool) ub" where
  "decode_loop M b [] bits cc l = Some (l, bits, cc, False)"
| "decode_loop M b (c # cs) bits cc l =
     (if c = CHR ''='' then Some (l, bits, cc, True)
      else if inalphabet b c = 0 then decode_loop M b cs bits cc l
      else (let bits = bits + decoder b c; cc = cc + 1 in
        if cc = 4 then
          (case line_inject M l [to_byte (bits div 65536), to_byte (bits div 256), to_byte bits] 3 of
             None \<Rightarrow> None
           | Some (l, _) \<Rightarrow> decode_loop M b cs 0 0 l)
        else if bits < 0 then None
        else decode_loop M b cs (bits * 64) cc l))"

definition base64_decode :: "cenv \<Rightarrow> base64_t \<Rightarrow> line_t \<Rightarrow> string \<Rightarrow> (line_t \<times> bool) ub" where
  "base64_decode M b l data = do {
     (l, bits, cc, pad) \<leftarrow> decode_loop M b data 0 0 l;
     (if \<not> pad then Some (l, cc = 0)
      else if cc = 1 then Some (l, False)
      else if cc = 2 then do { (l, _) \<leftarrow> line_inject M l [to_byte (bits div 1024)] 1; Some (l, True) }
      else if cc = 3 then do {
        (l, _) \<leftarrow> line_inject M l [to_byte (bits div 65536), to_byte (bits div 256)] 2; Some (l, True) }
      else Some (l, True)) }"

definition digit :: "int \<Rightarrow> char ub" where
  "digit n = (if n < 0 then None else rd alphabet (nat n))"

text \<open>One round of the encoder's loop writes the four digits and, after 72 columns, a newline.\<close>

definition encode_group :: "'o writer \<Rightarrow> 'o \<Rightarrow> int \<Rightarrow> nat \<Rightarrow> ('o \<times> nat \<times> bool) ub" where
  "encode_group wrt fd bits cols = do {
     c0 \<leftarrow> digit (bits div 262144);
     c1 \<leftarrow> digit (bits div 4096 mod 64);
     c2 \<leftarrow> digit (bits div 64 mod 64);
     c3 \<leftarrow> digit (bits mod 64);
     (case wrt fd [c0, c1, c2, c3] of (fd, ret) \<Rightarrow>
       if ret < 4 then Some (fd, cols, False)
       else if cols + 4 = 72 then
         (case wrt fd [LF] of (fd, ret) \<Rightarrow> Some (fd, if ret < 1 then cols + 4 else 0, \<not> ret < 1))
       else Some (fd, cols + 4, True)) }"

fun encode_loop ::
    "'o writer \<Rightarrow> 'o \<Rightarrow> char list \<Rightarrow> int \<Rightarrow> nat \<Rightarrow> nat \<Rightarrow> ('o \<times> int \<times> nat \<times> nat \<times> bool) ub" where
  "encode_loop wrt fd [] bits cols cc = Some (fd, bits, cols, cc, True)"
| "encode_loop wrt fd (p # ps) bits cols cc =
     (let bits = bits + of_char p; cc = cc + 1 in
      if cc = 3 then
        (case encode_group wrt fd bits cols of
           None \<Rightarrow> None
         | Some (fd, cols, ok) \<Rightarrow> if ok then encode_loop wrt fd ps 0 cols 0
             else Some (fd, bits, cols, cc, False))
      else encode_loop wrt fd ps (bits * 256) cols cc)"

definition encode_tail :: "'o writer \<Rightarrow> 'o \<Rightarrow> int \<Rightarrow> nat \<Rightarrow> nat \<Rightarrow> ('o \<times> bool) ub" where
  "encode_tail wrt fd bits0 cols cc = (let bits = bits0 * 2 ^ (16 - 8 * cc) in do {
     c0 \<leftarrow> digit (bits div 262144);
     c1 \<leftarrow> digit (bits div 4096 mod 64);
     c2 \<leftarrow> digit (bits div 64 mod 64);
     (case wrt fd [c0, c1] of (fd, ret) \<Rightarrow>
       if ret < 2 then Some (fd, False)
       else (case wrt fd (if cc = 1 then ''=='' else [c2, CHR ''='']) of (fd, ret) \<Rightarrow>
         if ret < 2 then Some (fd, False)
         else if cols > 0 then (case wrt fd [LF] of (fd, ret) \<Rightarrow> Some (fd, \<not> ret < 1))
         else Some (fd, True))) })"

definition base64_encode :: "'o writer \<Rightarrow> 'o \<Rightarrow> line_t \<Rightarrow> ('o \<times> bool) ub" where
  "base64_encode wrt fd l = do {
     xs \<leftarrow> (if lbytes l = 0 then Some []
            else do { d \<leftarrow> ldata l; (if lbytes l \<le> length d then Some (take (lbytes l) d) else None) });
     (fd, bits, cols, cc, ok) \<leftarrow> encode_loop wrt fd xs 0 0 0;
     (if \<not> ok then Some (fd, False)
      else if cc \<noteq> 0 then encode_tail wrt fd bits cols cc
      else Some (fd, True)) }"

subsection \<open>The encoding as a function\<close>

definition digits :: "int \<Rightarrow> string" where
  "digits n = map (\<lambda>k. alphabet ! nat (n div 64 ^ k mod 64)) [3, 2, 1, 0]"

definition group_bits :: "char list \<Rightarrow> int" where
  "group_bits xs = foldl (\<lambda>n c. n * 256 + of_char c) 0 xs"

fun enc :: "nat \<Rightarrow> char list \<Rightarrow> string" where
  "enc cols (a # b # c # r) = digits (group_bits [a, b, c]) @
     (if cols + 4 = 72 then LF # enc 0 r else enc (cols + 4) r)"
| "enc cols [a, b] = take 3 (digits (group_bits [a, b, NUL])) @ ''='' @ (if cols > 0 then [LF] else [])"
| "enc cols [a] = take 2 (digits (group_bits [a, NUL, NUL])) @ ''=='' @ (if cols > 0 then [LF] else [])"
| "enc cols [] = []"

subsection \<open>Digits and bytes\<close>

lemma length_alphabet [simp]: "length alphabet = 64"
  by (simp add: alphabet_def)

lemma distinct_alphabet: "distinct alphabet"
  by (simp add: alphabet_def)

lemma alphabet_neq: "CHR ''='' \<notin> set alphabet" "LF \<notin> set alphabet" "NUL \<notin> set alphabet"
  by (simp_all add: alphabet_def)

lemma digit_in: "0 \<le> n \<Longrightarrow> n < 64 \<Longrightarrow> digit n = Some (alphabet ! nat n)"
  by (simp add: digit_def rd_def nat_less_iff)

lemma of_char_int: "(of_char c :: int) = int (of_char c)"
  by (rule of_nat_of_char[symmetric])

lemma of_char_bound: "(of_char c :: int) < 256" "0 \<le> (of_char c :: int)"
  unfolding of_char_int using nat_of_char_less_256[of c] by (simp_all del: of_nat_of_char)

lemma to_byte_of_char: "n mod 256 = of_char c \<Longrightarrow> to_byte n = c"
  by (simp add: to_byte_def nat_of_char)

lemma group_bits3:
  "group_bits [a, b, c] = of_char a * 65536 + of_char b * 256 + of_char c"
  by (simp add: group_bits_def)

lemma group_bits_bound: "0 \<le> group_bits [a, b, c]" "group_bits [a, b, c] < 16777216"
  using of_char_bound[of a] of_char_bound[of b] of_char_bound[of c] by (simp_all add: group_bits3)

lemma mod_256_unique:
  assumes "0 \<le> r" "r < (256 :: int)"
  shows "(q * 256 + r) div 256 = q" "(q * 256 + r) mod 256 = r"
  using assms by simp_all

lemma group_bytes:
  "to_byte (group_bits [a, b, c] div 65536) = a"
  "to_byte (group_bits [a, b, c] div 256) = b"
  "to_byte (group_bits [a, b, c]) = c"
proof -
  have n: "group_bits [a, b, c] = (of_char a * 256 + of_char b) * 256 + of_char c" by (simp add: group_bits3)
  have d1: "group_bits [a, b, c] div 256 = of_char a * 256 + of_char b" "group_bits [a, b, c] mod 256 = of_char c"
    unfolding n using mod_256_unique[OF of_char_bound(2,1)[of c]] by blast+
  have "group_bits [a, b, c] div 65536 = group_bits [a, b, c] div 256 div 256" by (simp add: zdiv_zmult2_eq[symmetric])
  then have "group_bits [a, b, c] div 65536 = of_char a" unfolding d1 using of_char_bound[of b] by simp
  then show "to_byte (group_bits [a, b, c] div 65536) = a" using of_char_bound[of a] by (simp add: to_byte_of_char)
  show "to_byte (group_bits [a, b, c] div 256) = b" unfolding d1 using of_char_bound[of b] by (simp add: to_byte_of_char)
  show "to_byte (group_bits [a, b, c]) = c" using d1(2) by (rule to_byte_of_char)
qed

text \<open>The four digits of a 24-bit number and their weighted sum.\<close>

lemma digit_bounds: "0 \<le> n div 64 ^ k mod 64" "n div 64 ^ k mod (64 :: int) < 64"
  by simp_all

lemma digits_sum:
  assumes "0 \<le> n" "n < (16777216 :: int)"
  shows "((n div 262144 * 64 + n div 4096 mod 64) * 64 + n div 64 mod 64) * 64 + n mod 64 = n"
    and "n div 262144 mod 64 = n div 262144"
proof -
  have e: "n div 262144 = n div 4096 div 64" "n div 4096 = n div 64 div 64"
    by (simp_all add: zdiv_zmult2_eq[symmetric])
  show "((n div 262144 * 64 + n div 4096 mod 64) * 64 + n div 64 mod 64) * 64 + n mod 64 = n"
    unfolding e(1) div_mult_mod_eq unfolding e(2) div_mult_mod_eq by simp
  show "n div 262144 mod 64 = n div 262144" using assms by simp
qed

lemma digits_eq:
  assumes "0 \<le> n" "n < (16777216 :: int)"
  shows "digits n = [alphabet ! nat (n div 262144), alphabet ! nat (n div 4096 mod 64),
     alphabet ! nat (n div 64 mod 64), alphabet ! nat (n mod 64)]"
  using digits_sum(2)[OF assms] by (simp add: digits_def)

subsection \<open>The encoder writes the encoding\<close>

context sink
begin

lemma encode_group_spec:
  assumes "0 \<le> n" "n < 16777216" "open_out fd"
  shows "\<exists>fd'. encode_group wrt fd n cols = Some (fd', if cols + 4 = 72 then 0 else cols + 4, True)
    \<and> sent fd' = sent fd @ digits n @ (if cols + 4 = 72 then [LF] else []) \<and> open_out fd'"
proof -
  have d: "digit (n div 262144) = Some (alphabet ! nat (n div 262144))"
    using assms by (intro digit_in) auto
  note ds = d digit_in[of "n div 4096 mod 64"] digit_in[of "n div 64 mod 64"] digit_in[of "n mod 64"]
  obtain fd1 fd2 where "wrt fd (digits n) = (fd1, int (length (digits n)))" "wrt fd1 [LF] = (fd2, int (length [LF]))"
      "sent fd1 = sent fd @ digits n" "sent fd2 = sent fd @ digits n @ [LF]" "open_out fd1" "open_out fd2"
    using assms(3) by (rule wrt_twice)
  then show ?thesis using digits_eq[OF assms(1,2)] ds by (simp add: encode_group_def)
qed

lemma encode_tail_spec:
  assumes "cc = 1 \<and> bits = of_char a * 256 \<and> s = enc cols [a]
      \<or> cc = 2 \<and> bits = (of_char a * 256 + of_char b) * 256 \<and> s = enc cols [a, b]" "open_out fd"
  shows "\<exists>fd'. encode_tail wrt fd bits cols cc = Some (fd', True) \<and> sent fd' = sent fd @ s \<and> open_out fd'"
proof -
  define x where "x = (if cc = 1 then NUL else b)"
  define n where "n = bits * 2 ^ (16 - 8 * cc)"
  have n: "n = group_bits [a, x, NUL]" using assms(1) by (auto simp: n_def x_def group_bits3)
  note nb = group_bits_bound[of a x NUL, folded n]
  have d: "digit (n div 262144) = Some (alphabet ! nat (n div 262144))"
    using nb by (intro digit_in) auto
  note ds = d digit_in[of "n div 4096 mod 64"] digit_in[of "n div 64 mod 64"]
  let ?x = "take 2 (digits n)" and ?y = "if cc = 1 then ''=='' else [digits n ! 2, CHR ''='']"
  obtain fd1 fd2 where w: "wrt fd ?x = (fd1, int (length ?x))" "wrt fd1 ?y = (fd2, int (length ?y))"
      "sent fd2 = sent fd @ ?x @ ?y" "open_out fd2"
    using assms(2) by (rule wrt_twice)
  obtain fd3 where w3: "wrt fd2 [LF] = (fd3, 1)" "sent fd3 = sent fd2 @ [LF]" "open_out fd3"
    using wrt_all[OF w(4), of "[LF]"] by auto
  have s: "s = ?x @ ?y @ (if cols > 0 then [LF] else [])"
    using assms(1) digits_eq[OF nb] unfolding n by (auto simp: x_def)
  show ?thesis using w w3 ds digits_eq[OF nb] assms(1) s
    by (auto simp: encode_tail_def n_def[symmetric] Let_def)
qed

lemma encode_spec:
  assumes "open_out fd"
  shows "\<exists>fd'. (do { (fd, bits, cols, cc, ok) \<leftarrow> encode_loop wrt fd xs 0 cols 0;
       (if \<not> ok then Some (fd, False)
        else if cc \<noteq> 0 then encode_tail wrt fd bits cols cc else Some (fd, True)) })
     = Some (fd', True) \<and> sent fd' = sent fd @ enc cols xs \<and> open_out fd'"
  using assms
proof (induction cols xs arbitrary: fd rule: enc.induct)
  case (1 cols a b c r)
  obtain fd1 where g: "encode_group wrt fd (group_bits [a, b, c]) cols
      = Some (fd1, if cols + 4 = 72 then 0 else cols + 4, True)"
      "sent fd1 = sent fd @ digits (group_bits [a, b, c]) @ (if cols + 4 = 72 then [LF] else [])" "open_out fd1"
    using encode_group_spec[OF group_bits_bound "1.prems"] by blast
  then show ?case using "1.IH"(1)[OF _ g(3)] "1.IH"(2)[OF _ g(3)]
    by (cases "cols + 4 = 72") (simp_all add: group_bits3 algebra_simps)
next
  case (2 cols a b)
  have "encode_loop wrt fd [a, b] 0 cols 0 = Some (fd, (of_char a * 256 + of_char b) * 256, cols, 2, True)" by simp
  with encode_tail_spec[of 2 "(of_char a * 256 + of_char b) * 256" a "enc cols [a, b]" cols b, OF _ "2.prems"]
  show ?case by (simp del: encode_loop.simps enc.simps)
next
  case (3 cols a)
  have "encode_loop wrt fd [a] 0 cols 0 = Some (fd, of_char a * 256, cols, 1, True)" by simp
  with encode_tail_spec[of 1 "of_char a * 256" a "enc cols [a]" cols NUL, OF _ "3.prems"]
  show ?case by (simp del: encode_loop.simps enc.simps)
qed simp

lemma base64_encode_spec:
  assumes "line_wf l" "open_out fd"
  shows "\<exists>fd'. base64_encode wrt fd l = Some (fd', True) \<and> sent fd' = sent fd @ enc 0 (line_str l) \<and> open_out fd'"
proof -
  have "(if lbytes l = 0 then Some []
      else do { d \<leftarrow> ldata l; (if lbytes l \<le> length d then Some (take (lbytes l) d) else None) }) = Some (line_str l)"
    using assms(1) by (auto simp: line_wf_def line_str_def split: option.splits)
  with encode_spec[OF assms(2), of "line_str l" 0] show ?thesis
    unfolding base64_encode_def by simp
qed

end

subsection \<open>The decoder inverts it\<close>

definition table_ok :: "base64_t \<Rightarrow> bool" where
  "table_ok b \<longleftrightarrow> (\<forall>i < 64. inalphabet b (alphabet ! i) \<noteq> 0 \<and> decoder b (alphabet ! i) = int i)
     \<and> inalphabet b LF = 0"

lemma alphabet_inj: "i < 64 \<Longrightarrow> j < 64 \<Longrightarrow> alphabet ! i = alphabet ! j \<longleftrightarrow> i = j"
  using distinct_alphabet by (simp add: nth_eq_iff_index_eq)

lemma init_fold:
  assumes "\<forall>i \<in> set is. i < 64" "j < 64"
  shows "decoder (fold (\<lambda>i b. b\<lparr>inalphabet := (inalphabet b)(alphabet ! i := 1),
       decoder := (decoder b)(alphabet ! i := int i)\<rparr>) is b) (alphabet ! j)
     = (if j \<in> set is then int j else decoder b (alphabet ! j))"
    and "inalphabet (fold (\<lambda>i b. b\<lparr>inalphabet := (inalphabet b)(alphabet ! i := 1),
       decoder := (decoder b)(alphabet ! i := int i)\<rparr>) is b) c
     = (if c \<in> (\<lambda>i. alphabet ! i) ` set is then 1 else inalphabet b c)"
  using assms by (induction "is" arbitrary: b) (auto simp: alphabet_inj)

text \<open>\<open>base64_init\<close> sets the entries of the alphabet and no other.\<close>

lemma base64_init_table:
  assumes "inalphabet b LF = 0" shows "table_ok (base64_init b)"
proof -
  have "LF \<notin> (\<lambda>i. alphabet ! i) ` set (rev [0..<64])"
    using alphabet_neq(2) by (auto simp: in_set_conv_nth)
  then show ?thesis
    using assms init_fold(1)[of "rev [0..<64]" _ b] init_fold(2)[of "rev [0..<64]" 0 b]
    unfolding table_ok_def base64_init_def by auto
qed

lemma decode_digit:
  assumes "table_ok b" "0 \<le> d" "d < 64" "0 \<le> bits"
  shows "decode_loop M b (alphabet ! nat d # cs) bits cc l =
    (if cc + 1 = 4 then
       (case line_inject M l [to_byte ((bits + d) div 65536), to_byte ((bits + d) div 256), to_byte (bits + d)] 3 of
          None \<Rightarrow> None | Some (l, _) \<Rightarrow> decode_loop M b cs 0 0 l)
     else decode_loop M b cs ((bits + d) * 64) (cc + 1) l)"
proof -
  have i: "nat d < 64" using assms by (simp add: nat_less_iff)
  have "alphabet ! nat d \<noteq> CHR ''=''" using alphabet_neq(1) i by (metis length_alphabet nth_mem)
  moreover have "inalphabet b (alphabet ! nat d) \<noteq> 0" "decoder b (alphabet ! nat d) = d"
    using assms i by (auto simp: table_ok_def)
  ultimately show ?thesis using assms(2,4) by (simp add: Let_def)
qed

text \<open>Two, three and four digits in a row.\<close>

lemma decode_digits:
  assumes t: "table_ok b" and e: "0 \<le> e0" "e0 < 64" "0 \<le> e1" "e1 < 64" "0 \<le> e2" "e2 < 64" "0 \<le> e3" "e3 < 64"
  defines "v \<equiv> ((e0 * 64 + e1) * 64 + e2) * 64"
  shows "decode_loop M b (alphabet ! nat e0 # alphabet ! nat e1 # cs) 0 0 l
      = decode_loop M b cs ((e0 * 64 + e1) * 64) 2 l" (is ?two)
    and "decode_loop M b (alphabet ! nat e0 # alphabet ! nat e1 # alphabet ! nat e2 # cs) 0 0 l
      = decode_loop M b cs v 3 l" (is ?three)
    and "decode_loop M b (alphabet ! nat e0 # alphabet ! nat e1 # alphabet ! nat e2 # alphabet ! nat e3 # cs) 0 0 l
      = (case line_inject M l [to_byte ((v + e3) div 65536), to_byte ((v + e3) div 256), to_byte (v + e3)] 3 of
           None \<Rightarrow> None | Some (l, _) \<Rightarrow> decode_loop M b cs 0 0 l)"
proof -
  have nn: "0 \<le> e0 * 64" "0 \<le> (e0 * 64 + e1) * 64" "0 \<le> v" using e by (simp_all add: v_def)
  have two: "decode_loop M b (alphabet ! nat e0 # alphabet ! nat e1 # cs) 0 0 l
      = decode_loop M b cs ((e0 * 64 + e1) * 64) 2 l" for cs
    unfolding decode_digit[OF t e(1,2) order_refl] using decode_digit[OF t e(3,4) nn(1), of M cs 1 l]
    by (simp del: decode_loop.simps add: numeral_2_eq_2)
  then show ?two .
  have three: "decode_loop M b (alphabet ! nat e0 # alphabet ! nat e1 # alphabet ! nat e2 # cs) 0 0 l
      = decode_loop M b cs v 3 l" for cs
    unfolding two decode_digit[OF t e(5,6) nn(2)] by (simp add: v_def del: decode_loop.simps)
  then show ?three .
  show "decode_loop M b (alphabet ! nat e0 # alphabet ! nat e1 # alphabet ! nat e2 # alphabet ! nat e3 # cs) 0 0 l
      = (case line_inject M l [to_byte ((v + e3) div 65536), to_byte ((v + e3) div 256), to_byte (v + e3)] 3 of
           None \<Rightarrow> None | Some (l, _) \<Rightarrow> decode_loop M b cs 0 0 l)"
    unfolding three decode_digit[OF t e(7,8) nn(3)] by (simp del: decode_loop.simps)
qed

lemma decode_group:
  assumes "table_ok b" "line_wf l" "mem_ok M"
  shows "\<exists>l'. decode_loop M b (digits (group_bits [x, y, z]) @ cs) 0 0 l = decode_loop M b cs 0 0 l'
    \<and> line_wf l' \<and> line_str l' = line_str l @ [x, y, z]"
proof -
  define n where "n = group_bits [x, y, z]"
  note nb = group_bits_bound[of x y z, folded n_def]
  have d0: "0 \<le> n div 262144" "n div 262144 < 64" using nb by simp_all
  obtain l' where l': "line_inject M l [x, y, z] 3 = Some (l', True)" "line_wf l'" "line_str l' = line_str l @ [x, y, z]"
    using line_inject_ok[OF assms(2), of 3 "[x, y, z]" M] assms(3) by auto
  note four = decode_digits(3)[OF assms(1) d0, of "n div 4096 mod 64" "n div 64 mod 64" "n mod 64" M cs l,
    unfolded digits_sum(1)[OF nb]]
  have "decode_loop M b (digits n @ cs) 0 0 l = decode_loop M b cs 0 0 l'"
    using l'(1) four group_bytes[of x y z, folded n_def] by (simp add: digits_eq[OF nb] del: decode_loop.simps)
  with l' show ?thesis by (auto simp: n_def)
qed

lemma decode_two:
  assumes "table_ok b" "line_wf l" "mem_ok M"
  shows "\<exists>l'. base64_decode M b l (take 2 (digits (group_bits [x, NUL, NUL])) @ CHR ''='' # r) = Some (l', True)
    \<and> line_wf l' \<and> line_str l' = line_str l @ [x]"
proof -
  define n where "n = group_bits [x, NUL, NUL]"
  note nb = group_bits_bound[of x NUL NUL, folded n_def]
  have n: "n = of_char x * 65536" by (simp add: n_def group_bits3)
  have d0: "0 \<le> n div 262144" "n div 262144 < 64" using nb by simp_all
  have "n div 262144 = n div 4096 div 64" by (simp add: zdiv_zmult2_eq[symmetric])
  then have "n div 262144 * 64 + n div 4096 mod 64 = n div 4096" by simp
  also have "n div 4096 = of_char x * 16" unfolding n by simp
  finally have sum: "n div 262144 * 64 + n div 4096 mod 64 = of_char x * 16" .
  have "decode_loop M b (take 2 (digits n) @ CHR ''='' # r) 0 0 l = Some (l, of_char x * 1024, 2, True)"
    using decode_digits(1)[OF assms(1) d0, of "n div 4096 mod 64" 0 0 M "CHR ''='' # r" l, unfolded sum]
    by (simp add: digits_eq[OF nb])
  moreover have "to_byte (of_char x * 1024 div 1024) = x" using of_char_bound[of x] by (simp add: to_byte_of_char)
  moreover obtain l' where "line_inject M l [x] 1 = Some (l', True)" "line_wf l'" "line_str l' = line_str l @ [x]"
    using line_inject_ok[OF assms(2), of 1 "[x]" M] assms(3) by auto
  ultimately show ?thesis by (simp add: base64_decode_def n_def)
qed

lemma decode_three:
  assumes "table_ok b" "line_wf l" "mem_ok M"
  shows "\<exists>l'. base64_decode M b l (take 3 (digits (group_bits [x, y, NUL])) @ CHR ''='' # r) = Some (l', True)
    \<and> line_wf l' \<and> line_str l' = line_str l @ [x, y]"
proof -
  define n where "n = group_bits [x, y, NUL]"
  note nb = group_bits_bound[of x y NUL, folded n_def]
  have d0: "0 \<le> n div 262144" "n div 262144 < 64" using nb by simp_all
  have n: "n = (of_char x * 1024 + of_char y * 4) * 64" by (simp add: n_def group_bits3)
  have "n mod 64 = 0" unfolding n by simp
  then have sum: "((n div 262144 * 64 + n div 4096 mod 64) * 64 + n div 64 mod 64) * 64 = n"
    using digits_sum(1)[OF nb] by simp
  have "decode_loop M b (take 3 (digits n) @ CHR ''='' # r) 0 0 l = Some (l, n, 3, True)"
    using decode_digits(2)[OF assms(1) d0, of "n div 4096 mod 64" "n div 64 mod 64" 0 M "CHR ''='' # r" l, unfolded sum]
    by (simp add: digits_eq[OF nb])
  moreover obtain l' where "line_inject M l [x, y] 2 = Some (l', True)" "line_wf l'" "line_str l' = line_str l @ [x, y]"
    using line_inject_ok[OF assms(2), of 2 "[x, y]" M] assms(3) by auto
  ultimately show ?thesis using group_bytes[of x y NUL] by (simp add: base64_decode_def n_def)
qed

lemma decode_newline: "table_ok b \<Longrightarrow> decode_loop M b (LF # cs) bits cc l = decode_loop M b cs bits cc l"
  by (simp add: table_ok_def)

theorem decode_enc:
  assumes "table_ok b" "line_wf l" "mem_ok M"
  shows "\<exists>l'. base64_decode M b l (enc cols xs) = Some (l', True) \<and> line_wf l' \<and> line_str l' = line_str l @ xs"
  using assms(2)
proof (induction cols xs arbitrary: l rule: enc.induct)
  case (1 cols x y z r)
  let ?t = "if cols + 4 = 72 then LF # enc 0 r else enc (cols + 4) r"
  obtain l1 where l1: "decode_loop M b (digits (group_bits [x, y, z]) @ ?t) 0 0 l = decode_loop M b ?t 0 0 l1"
      "line_wf l1" "line_str l1 = line_str l @ [x, y, z]"
    using decode_group[OF assms(1) "1.prems" assms(3)] by blast
  then have "base64_decode M b l (enc cols (x # y # z # r))
      = base64_decode M b l1 (enc (if cols + 4 = 72 then 0 else cols + 4) r)"
    using decode_newline[OF assms(1)] by (cases "cols + 4 = 72") (simp_all add: base64_decode_def)
  with "1.IH"(1)[OF _ l1(2)] "1.IH"(2)[OF _ l1(2)] l1(3) show ?case by (cases "cols + 4 = 72") auto
next
  case (2 cols x y)
  then show ?case using decode_three[OF assms(1) "2.prems" assms(3)] by simp
next
  case (3 cols x)
  then show ?case using decode_two[OF assms(1) "3.prems" assms(3)] by simp
next
  case (4 cols)
  then show ?case by (simp add: base64_decode_def)
qed

lemma enc_NUL: "NUL \<notin> set (enc cols xs)"
proof -
  have "NUL \<noteq> alphabet ! nat (n mod 64)" for n :: int
    using alphabet_neq(3) by (metis length_alphabet nat_less_iff nth_mem of_nat_numeral pos_mod_bound pos_mod_sign zero_less_numeral)
  then have "NUL \<notin> set (digits n)" for n by (auto simp: digits_def)
  then show ?thesis by (induction cols xs rule: enc.induct) (auto dest: in_set_takeD)
qed

end
