(* ===== verification/Eps_Buffer.thy ===== *)
theory Eps_Buffer
  imports Eps_Line
begin

text \<open>
  The line reader of \<^verbatim>\<open>eps_buffer.c\<close> over a file descriptor or over a block of memory.

  \<open>buffer_t\<close> is the C structure; its field \<open>binput\<close> is not part of the structure but the state of
  the descriptor: what the successive \<open>read\<close> calls still deliver. Counters are \<open>unsigned long\<close>
  (64 bits), so the subtraction from \<open>cin\<close> wraps around and a failed \<open>read\<close> stores
  \<open>2 ^ 64 - 1\<close>. The overlapping \<open>memcpy\<close> of \<open>buffer_next_line\<close> is taken to copy the bytes as
  \<open>memmove\<close> does.
\<close>

datatype read_result = RdErr | RdBytes string

definition c_read :: "read_result list \<Rightarrow> nat \<Rightarrow> int \<times> string \<times> read_result list" where
  "c_read inp n = (case inp of
     [] \<Rightarrow> (0, [], [])
   | RdErr # r \<Rightarrow> (-1, [], r)
   | RdBytes s # r \<Rightarrow>
       (int (min n (length s)), take n s, if length s \<le> n then r else RdBytes (drop n s) # r))"

definition ulong :: "int \<Rightarrow> nat" where
  "ulong i = nat (i mod 2 ^ 64)"

lemma ulong_of_nat: "n < 2 ^ 64 \<Longrightarrow> ulong (int n) = n"
  by (simp add: ulong_def nat_mod_distrib)

record buffer_t =
  bfd :: int
  bl :: line_t
  cin :: nat
  blen :: nat
  ulen :: nat
  clen :: nat
  bblk :: "char list option"
  brestart :: bool
  bfn :: bool
  beof :: bool
  fbrk :: bool
  bp :: "nat option"
  binput :: "read_result list"

definition buffer_alloc :: "cenv \<Rightarrow> buffer_t option ub" where
  "buffer_alloc M = (case mmalloc M 72 ''buffer_alloc'' of
     None \<Rightarrow> Some None
   | Some _ \<Rightarrow> (case line_alloc M of
       None \<Rightarrow> Some None
     | Some l \<Rightarrow> do {
         (l', ok) \<leftarrow> line_init M l None False 0;
         Some (if ok then Some \<lparr>bfd = 0, bl = l', cin = 0, blen = 0, ulen = 0, clen = 0,
                 bblk = None, brestart = False, bfn = False, beof = False, fbrk = False,
                 bp = None, binput = []\<rparr>
               else None) }))"

definition buffer_init :: "cenv \<Rightarrow> int \<Rightarrow> nat \<Rightarrow> read_result list \<Rightarrow> buffer_t option ub" where
  "buffer_init M fd len inp = (if len < 2 then Some None else do {
     r \<leftarrow> buffer_alloc M;
     (case r of
        None \<Rightarrow> Some None
      | Some b \<Rightarrow> (case mmalloc M (len + 1) ''buffer_init'' of
          None \<Rightarrow> Some None
        | Some blk \<Rightarrow> do {
            blk' \<leftarrow> wr_block blk 0 (replicate (len + 1) NUL);
            Some (Some (b\<lparr>bfd := fd, blen := len, bblk := Some blk', binput := inp\<rparr>)) })) })"

definition buffer_restart :: "buffer_t \<Rightarrow> int \<Rightarrow> read_result list \<Rightarrow> buffer_t ub" where
  "buffer_restart b fd inp = do {
     l \<leftarrow> line_restart (bl b);
     (let b' = b\<lparr>bfd := fd, beof := False, cin := 0, brestart := False, ulen := 0, clen := 0,
                 fbrk := False, bl := l, binput := inp\<rparr>
      in if fd = -1 then Some (b'\<lparr>bp := map_option (\<lambda>_. 0) (bblk b)\<rparr>)
         else do {
           blk \<leftarrow> bblk b;
           blk' \<leftarrow> wr_block blk 0 (replicate (blen b) NUL);
           Some (b'\<lparr>bp := None, bblk := Some blk'\<rparr>) }) }"

text \<open>The parts of \<open>buffer_next_line\<close>: filling an empty buffer (\<open>Inl\<close> when the function returns
  \<open>NULL\<close> there), the scan for a line end, what a chunk without a line end and a chunk with one do.\<close>

definition buffer_fill :: "buffer_t \<Rightarrow> (buffer_t + buffer_t) ub" where
  "buffer_fill b = (if cin b = 0 then
     (if bfd b \<noteq> -1 then
        (case c_read (binput b) (blen b - 1) of (ret, s, rest) \<Rightarrow>
           if ret = 0 then Some (Inl (b\<lparr>beof := True, binput := rest\<rparr>))
           else do {
             blk \<leftarrow> bblk b;
             blk' \<leftarrow> wr_block blk 0 s;
             Some (Inr (b\<lparr>bblk := Some blk', cin := ulong ret, binput := rest\<rparr>)) })
      else Some (Inl (b\<lparr>beof := True\<rparr>)))
   else Some (Inr b))"

fun scan_line :: "char list \<Rightarrow> char \<Rightarrow> nat \<Rightarrow> nat \<Rightarrow> (nat \<times> nat \<times> bool) ub" where
  "scan_line [] prev u k = None"
| "scan_line (c # cs) prev u k =
     (if c = NUL then Some (u, k, False)
      else if c = LF then Some (if u \<noteq> 0 \<and> prev = CR then u - 1 else u, k + 1, True)
      else scan_line cs c (u + 1) (k + 1))"

definition buffer_drop_chunk :: "buffer_t \<Rightarrow> line_t \<Rightarrow> nat \<Rightarrow> buffer_t ub" where
  "buffer_drop_chunk b l k =
     (let b' = b\<lparr>bl := l, bfn := True, cin := 0, brestart := False, ulen := 0, clen := 0\<rparr>
      in if bfd b = -1 then Some (b'\<lparr>bp := map_option (\<lambda>i. i + k) (bp b)\<rparr>)
         else do {
           blk \<leftarrow> bblk b;
           blk' \<leftarrow> wr_block blk 0 (replicate (blen b) NUL);
           Some (b'\<lparr>bblk := Some blk'\<rparr>) })"

definition buffer_shift :: "char list \<Rightarrow> nat \<Rightarrow> nat \<Rightarrow> nat \<Rightarrow> char list ub" where
  "buffer_shift blk len k cin' = (if k \<le> len \<and> len \<le> length blk \<and> cin' \<le> len
     then do {
       blk1 \<leftarrow> wr_block blk 0 (take (len - k) (drop k blk));
       wr_block blk1 (cin' + 1) (replicate (len - cin') NUL) }
     else None)"

definition buffer_take_line ::
    "cenv \<Rightarrow> buffer_t \<Rightarrow> char list \<Rightarrow> nat \<Rightarrow> nat \<Rightarrow> nat \<Rightarrow> (buffer_t \<times> bool) ub" where
  "buffer_take_line M b blk off u k = do {
     (l, ok) \<leftarrow> (if u \<noteq> 0 then line_inject M (bl b) (drop off blk) u else Some (bl b, True));
     (if \<not> ok then Some (b\<lparr>bl := l, ulen := u, clen := k\<rparr>, False)
      else (let cin' = ulong (int (cin b) - int k);
                b' = b\<lparr>bl := l, brestart := True, cin := cin', ulen := 0, clen := 0\<rparr>
            in if bfd b = -1 then Some (b'\<lparr>bp := Some (off + k)\<rparr>, True)
               else do {
                 blk' \<leftarrow> buffer_shift blk (blen b) k cin';
                 Some (b'\<lparr>bblk := Some blk'\<rparr>, True) })) }"

definition buffer_begin :: "buffer_t \<Rightarrow> buffer_t ub" where
  "buffer_begin b = (if brestart b
     then do { l \<leftarrow> line_restart (bl b); Some (b\<lparr>bl := l, brestart := False\<rparr>) }
     else Some b)"

definition buffer_ptr :: "buffer_t \<Rightarrow> nat ub" where
  "buffer_ptr b = (if bfd b = -1 then bp b else Some 0)"

definition input_measure :: "read_result list \<Rightarrow> nat" where
  "input_measure inp = sum_list (map (\<lambda>r. case r of RdErr \<Rightarrow> 1 | RdBytes s \<Rightarrow> Suc (length s)) inp)"

definition buffer_measure :: "buffer_t \<Rightarrow> nat" where
  "buffer_measure b = 2 * input_measure (binput b) + (if cin b = 0 then 0 else 1)"

lemma c_read_measure:
  "c_read inp n = (ret, s, rest) \<Longrightarrow> ret \<noteq> 0 \<Longrightarrow> input_measure rest < input_measure inp"
  by (auto simp: c_read_def input_measure_def split: list.splits read_result.splits if_splits)

lemma buffer_fill_measure:
  "buffer_fill b = Some (Inr b') \<Longrightarrow> buffer_measure (b'\<lparr>cin := 0\<rparr>) < buffer_measure b"
  by (auto simp: buffer_fill_def buffer_measure_def Option.bind_eq_Some_conv
      dest!: c_read_measure split: if_splits prod.splits)

lemma buffer_begin_measure: "buffer_begin b = Some b' \<Longrightarrow> buffer_measure b' = buffer_measure b"
  by (auto simp: buffer_begin_def buffer_measure_def Option.bind_eq_Some_conv split: if_splits)

lemma buffer_drop_chunk_measure:
  "buffer_drop_chunk b l k = Some b' \<Longrightarrow> buffer_measure b' = buffer_measure (b\<lparr>cin := 0\<rparr>)"
  by (auto simp: buffer_drop_chunk_def buffer_measure_def Let_def Option.bind_eq_Some_conv split: if_splits)

function buffer_next_line :: "cenv \<Rightarrow> buffer_t \<Rightarrow> (buffer_t \<times> bool) ub" where
  "buffer_next_line M b0 =
     (if beof b0 then Some (b0, False)
      else case buffer_begin b0 of None \<Rightarrow> None | Some b1 \<Rightarrow>
        (case buffer_fill b1 of
           None \<Rightarrow> None
         | Some (Inl b2) \<Rightarrow> Some (b2, False)
         | Some (Inr b2) \<Rightarrow>
             (case buffer_ptr b2 of None \<Rightarrow> None | Some off \<Rightarrow>
              case bblk b2 of None \<Rightarrow> None | Some blk \<Rightarrow>
              case scan_line (drop off blk) NUL 0 0 of
                None \<Rightarrow> None
              | Some (u, k, True) \<Rightarrow> buffer_take_line M b2 blk off u k
              | Some (u, k, False) \<Rightarrow>
                  (case line_inject M (bl b2) (drop off blk) u of
                     None \<Rightarrow> None
                   | Some (l, False) \<Rightarrow> Some (b2\<lparr>bl := l, ulen := u, clen := k\<rparr>, False)
                   | Some (l, True) \<Rightarrow>
                       (case buffer_drop_chunk b2 l k of
                          None \<Rightarrow> None
                        | Some b3 \<Rightarrow> buffer_next_line M b3)))))"
  by pat_completeness auto
termination
  by (relation "measure (\<lambda>(M, b). buffer_measure b)")
     (auto dest!: buffer_begin_measure buffer_fill_measure buffer_drop_chunk_measure)

declare buffer_next_line.simps [simp del]

subsection \<open>Reading from a descriptor\<close>

text \<open>
  \<open>buffer_wf\<close> is the invariant of a buffer over a descriptor: the block is one byte longer than
  \<open>blen\<close>, the \<open>cin\<close> bytes read and not yet consumed stand at its start and the rest is zero.
  \<open>buffer_rest\<close> is what the buffer stands for: the bytes still to be returned.
\<close>

definition buffer_wf :: "buffer_t \<Rightarrow> bool" where
  "buffer_wf b \<longleftrightarrow> bfd b \<noteq> -1 \<and> 2 \<le> blen b \<and> blen b < 2 ^ 64 \<and> line_wf (bl b) \<and> ldata (bl b) \<noteq> None
     \<and> cin b < blen b
     \<and> (case bblk b of None \<Rightarrow> False
        | Some blk \<Rightarrow> length blk = blen b + 1 \<and> drop (cin b) blk = replicate (blen b + 1 - cin b) NUL)"

definition buffer_content :: "buffer_t \<Rightarrow> string" where
  "buffer_content b = (case bblk b of None \<Rightarrow> [] | Some blk \<Rightarrow> take (cin b) blk)"

definition input_bytes :: "read_result list \<Rightarrow> string" where
  "input_bytes inp = concat (map (\<lambda>r. case r of RdErr \<Rightarrow> [] | RdBytes s \<Rightarrow> s) inp)"

definition buffer_rest :: "buffer_t \<Rightarrow> string" where
  "buffer_rest b = (if brestart b then [] else line_str (bl b)) @ buffer_content b @ input_bytes (binput b)"

text \<open>Input that the reader handles without loss: no failed and no empty \<open>read\<close>, no zero byte.\<close>

definition input_ok :: "read_result list \<Rightarrow> bool" where
  "input_ok inp = list_all (\<lambda>r. case r of RdErr \<Rightarrow> False | RdBytes s \<Rightarrow> s \<noteq> [] \<and> NUL \<notin> set s) inp"

definition text_ok :: "buffer_t \<Rightarrow> bool" where
  "text_ok b \<longleftrightarrow> input_ok (binput b) \<and> NUL \<notin> set (buffer_content b)"

lemma buffer_wf_blk:
  assumes "buffer_wf b"
  obtains blk where "bblk b = Some blk" "blk = buffer_content b @ replicate (blen b + 1 - cin b) NUL"
    "length (buffer_content b) = cin b" "length blk = blen b + 1"
proof -
  from assms obtain blk where blk: "bblk b = Some blk" "length blk = blen b + 1"
      "drop (cin b) blk = replicate (blen b + 1 - cin b) NUL" "cin b < blen b"
    by (auto simp: buffer_wf_def split: option.splits)
  from blk have "blk = take (cin b) blk @ replicate (blen b + 1 - cin b) NUL"
    by (metis append_take_drop_id)
  with blk that show thesis by (simp add: buffer_content_def)
qed

lemma scan_line_no_lf:
  assumes "NUL \<notin> set s" "LF \<notin> set s"
  shows "scan_line (s @ NUL # r) p u k = Some (u + length s, k + length s, False)"
  using assms by (induction s arbitrary: p u k) auto

lemma scan_line_lf:
  assumes "NUL \<notin> set s" "LF \<notin> set s"
  shows "scan_line (s @ LF # r) p u k =
    (let u' = u + length s; q = (if s = [] then p else last s)
     in Some (if u' \<noteq> 0 \<and> q = CR then u' - 1 else u', k + length s + 1, True))"
  using assms by (induction s arbitrary: p u k) (auto simp: Let_def)

lemma scan_line_chunk:
  assumes "NUL \<notin> set c" "CR \<notin> set c"
  shows "scan_line (c @ NUL # r) NUL 0 0 =
    (if LF \<in> set c then Some (length (takeWhile (\<lambda>x. x \<noteq> LF) c), length (takeWhile (\<lambda>x. x \<noteq> LF) c) + 1, True)
     else Some (length c, length c, False))"
proof (cases "LF \<in> set c")
  case True
  then obtain s t where c: "c = s @ LF # t" "LF \<notin> set s" by (meson split_list_first)
  with assms(2) have "s \<noteq> [] \<Longrightarrow> last s \<noteq> CR" by (metis Un_iff last_in_set set_append)
  with c assms have "scan_line (c @ NUL # r) NUL 0 0 = Some (length s, length s + 1, True)"
    using scan_line_lf[of s "t @ NUL # r" NUL 0 0] by (auto simp: Let_def)
  with c True show ?thesis by (simp add: takeWhile_neq_append)
next
  case False
  with assms show ?thesis by (simp add: scan_line_no_lf)
qed

lemma input_bytes_Cons [simp]:
  "input_bytes (RdBytes s # r) = s @ input_bytes r" "input_bytes (RdErr # r) = input_bytes r"
  "input_bytes [] = []"
  by (simp_all add: input_bytes_def)

lemma input_ok_Cons: "input_ok (r # rs) \<longleftrightarrow> (\<exists>s. r = RdBytes s \<and> s \<noteq> [] \<and> NUL \<notin> set s) \<and> input_ok rs"
  by (auto simp: input_ok_def split: read_result.splits)

lemma input_ok_no_nul: "input_ok inp \<Longrightarrow> NUL \<notin> set (input_bytes inp)"
  by (induction inp) (auto simp: input_ok_Cons)

lemma c_read_ok:
  assumes "input_ok inp" "0 < n"
  shows "inp = [] \<and> c_read inp n = (0, [], [])
    \<or> (\<exists>s rest. c_read inp n = (int (length s), s, rest) \<and> s \<noteq> [] \<and> length s \<le> n \<and> NUL \<notin> set s
         \<and> input_ok rest \<and> input_bytes inp = s @ input_bytes rest)"
proof (cases inp)
  case (Cons r rs)
  with assms(1) obtain s where s: "r = RdBytes s" "s \<noteq> []" "NUL \<notin> set s" "input_ok rs"
    by (auto simp: input_ok_Cons)
  show ?thesis
  proof (cases "length s \<le> n")
    case True with Cons s assms(2) show ?thesis by (auto simp: c_read_def)
  next
    case False
    with s(3) have "NUL \<notin> set (take n s)" "NUL \<notin> set (drop n s)"
      by (meson in_set_takeD, meson in_set_dropD)
    with False Cons s assms(2) show ?thesis by (auto simp: c_read_def input_ok_Cons)
  qed
qed (simp add: c_read_def)

lemma buffer_fill_spec:
  assumes wf: "buffer_wf b" and tx: "text_ok b" and nr: "\<not> brestart b"
  obtains (eof) "cin b = 0" "binput b = []" "buffer_fill b = Some (Inl (b\<lparr>beof := True\<rparr>))"
    | (more) b' where "buffer_fill b = Some (Inr b')" "buffer_wf b'" "text_ok b'" "\<not> brestart b'" "0 < cin b'"
        "buffer_rest b' = buffer_rest b" "beof b' = beof b" "bl b' = bl b"
proof (cases "cin b = 0")
  case False
  with assms more[of b] show ?thesis by (simp add: buffer_fill_def)
next
  case True
  obtain blk where blk: "bblk b = Some blk" "blk = replicate (blen b + 1) NUL"
    using wf True by (auto simp: buffer_wf_def split: option.splits)
  have "0 < blen b - 1" using wf by (simp add: buffer_wf_def)
  with c_read_ok[of "binput b" "blen b - 1"] tx
  consider "binput b = []"
    | s rest where "c_read (binput b) (blen b - 1) = (int (length s), s, rest)" "s \<noteq> []"
        "length s \<le> blen b - 1" "NUL \<notin> set s" "input_ok rest" "input_bytes (binput b) = s @ input_bytes rest"
    unfolding text_ok_def by blast
  then show ?thesis
  proof cases
    case 1 with True wf eof show ?thesis by (simp add: buffer_fill_def c_read_def buffer_wf_def)
  next
    case 2
    have "length s < 2 ^ 64" using 2 wf by (auto simp: buffer_wf_def)
    then have len: "ulong (int (length s)) = length s" by (rule ulong_of_nat)
    define b' where "b' = b\<lparr>bblk := Some (s @ replicate (blen b + 1 - length s) NUL), cin := length s, binput := rest\<rparr>"
    have "buffer_fill b = Some (Inr b')"
      using True 2 wf blk len
      by (simp add: buffer_fill_def buffer_wf_def cmem b'_def del: replicate_Suc drop_replicate)
         (simp add: drop_replicate del: replicate_Suc)
    moreover have "buffer_wf b'" using 2 wf by (auto simp: buffer_wf_def b'_def)
    moreover have "buffer_content b' = s" by (simp add: buffer_content_def b'_def)
    moreover have "buffer_content b = []" using True by (simp add: buffer_content_def split: option.splits)
    ultimately show ?thesis using 2 nr
      by (intro more[of b']) (simp_all add: text_ok_def buffer_rest_def, simp_all add: b'_def)
  qed
qed

lemma buffer_shift_spec:
  assumes "blk = s @ LF # t @ replicate (len + 1 - cn) NUL" "cn = length s + 1 + length t" "cn < len"
  shows "buffer_shift blk len (length s + 1) (length t) = Some (t @ replicate (len + 1 - length t) NUL)"
proof -
  define k where "k = length s + 1"
  let ?z = "\<lambda>n. replicate n NUL"
  have dk: "drop k blk = t @ ?z (len + 1 - cn)" using assms by (simp add: k_def)
  have len: "length blk = len + 1" using assms by simp
  have tk: "take (len - k) (drop k blk) = t @ ?z (len - cn)"
    using assms by (simp add: dk k_def min_def)
  have n: "length (t @ ?z (len - cn)) = len - k" using assms by (simp add: k_def)
  obtain blk1 where blk1: "wr_block blk 0 (take (len - k) (drop k blk)) = Some blk1"
      "blk1 = t @ ?z (len - cn) @ drop (len - k) blk"
    using len n by (simp add: tk wr_block_def)
  have z: "?z (len - cn) = NUL # ?z (len - cn - 1)" using assms(3) by (cases "len - cn") auto
  have "take (length t + 1) blk1 = t @ [NUL]" using blk1(2) z by simp
  moreover have "length blk1 = len + 1" using blk1(2) len n assms by (simp add: k_def)
  ultimately have "wr_block blk1 (length t + 1) (?z (len - length t)) = Some (t @ [NUL] @ ?z (len - length t))"
    using assms by (simp add: wr_block_def)
  moreover have "[NUL] @ ?z (len - length t) = ?z (len + 1 - length t)"
    using assms by (simp add: Suc_diff_le)
  ultimately show ?thesis using blk1(1) len assms by (simp add: buffer_shift_def k_def)
qed

lemma buffer_take_line_spec:
  assumes wf: "buffer_wf b" and tx: "text_ok b" and nr: "\<not> brestart b" and ok: "mem_ok M"
    and blk: "bblk b = Some blk" and c: "buffer_content b = s @ LF # t"
  obtains b' where "buffer_take_line M b blk 0 (length s) (length s + 1) = Some (b', True)"
    "buffer_wf b'" "text_ok b'" "brestart b'" "beof b' = beof b"
    "line_str (bl b') = line_str (bl b) @ s" "buffer_rest b' = t @ input_bytes (binput b)"
proof -
  obtain blk' where b: "bblk b = Some blk'" "blk' = buffer_content b @ replicate (blen b + 1 - cin b) NUL"
      "length (buffer_content b) = cin b" "length blk' = blen b + 1"
    using wf by (rule buffer_wf_blk)
  have cn: "cin b = length s + 1 + length t" "cin b < blen b" "blen b < 2 ^ 64"
    using b(3) c wf by (simp_all add: buffer_wf_def)
  have blk_eq: "blk = s @ LF # t @ replicate (blen b + 1 - cin b) NUL" using b blk c by simp
  have inj: "\<exists>l. (if length s \<noteq> 0 then line_inject M (bl b) (drop 0 blk) (length s) else Some (bl b, True))
      = Some (l, True) \<and> line_wf l \<and> ldata l \<noteq> None \<and> line_str l = line_str (bl b) @ s"
  proof (cases "s = []")
    case False
    have "line_wf (bl b)" "ldata (bl b) \<noteq> None \<or> 0 < length s" "length s \<le> length blk"
      using wf blk_eq by (auto simp: buffer_wf_def)
    from line_inject_ok[OF this(1,3,2) ok] obtain l where "line_inject M (bl b) blk (length s) = Some (l, True)"
        "line_wf l" "ldata l \<noteq> None" "line_str l = line_str (bl b) @ take (length s) blk" by blast
    with False blk_eq show ?thesis by simp
  qed (use wf in \<open>simp add: buffer_wf_def\<close>)
  then obtain l where l: "(if length s \<noteq> 0 then line_inject M (bl b) (drop 0 blk) (length s) else Some (bl b, True))
      = Some (l, True)" "line_wf l" "ldata l \<noteq> None" "line_str l = line_str (bl b) @ s" by blast
  have cin': "ulong (int (cin b) - int (length s + 1)) = length t"
    using cn ulong_of_nat[of "length t"] by simp
  have sh: "buffer_shift blk (blen b) (length s + 1) (length t) = Some (t @ replicate (blen b + 1 - length t) NUL)"
    using blk_eq cn by (intro buffer_shift_spec) auto
  define b' where "b' = b\<lparr>bl := l, brestart := True, cin := length t, ulen := 0, clen := 0,
      bblk := Some (t @ replicate (blen b + 1 - length t) NUL)\<rparr>"
  have "bfd b \<noteq> -1" using wf by (simp add: buffer_wf_def)
  then have "buffer_take_line M b blk 0 (length s) (length s + 1) = Some (b', True)"
    unfolding buffer_take_line_def l(1) cin' using sh by (simp add: Let_def b'_def)
  moreover have "buffer_wf b'" using wf l cn by (simp add: buffer_wf_def b'_def)
  moreover have "buffer_content b' = t" by (simp add: buffer_content_def b'_def)
  moreover from this have "text_ok b'" using tx c by (simp add: text_ok_def b'_def)
  ultimately show thesis using l(4) that by (simp add: buffer_rest_def b'_def)
qed

text \<open>The line reader returns the next line of the text that remains, however \<open>read\<close> cut it.\<close>

definition line_result :: "buffer_t \<Rightarrow> (buffer_t \<times> bool) ub \<Rightarrow> bool" where
  "line_result b r = (let tx = buffer_rest b in
     if LF \<in> set tx
     then (\<exists>b'. r = Some (b', True) \<and> buffer_wf b' \<and> text_ok b' \<and> brestart b' \<and> \<not> beof b'
            \<and> line_str (bl b') = takeWhile (\<lambda>c. c \<noteq> LF) tx
            \<and> buffer_rest b' = tl (dropWhile (\<lambda>c. c \<noteq> LF) tx))
     else (\<exists>b'. r = Some (b', False) \<and> buffer_wf b' \<and> beof b'))"

lemma buffer_begin_spec:
  assumes "buffer_wf b"
  obtains b1 where "buffer_begin b = Some b1" "buffer_wf b1" "\<not> brestart b1" "beof b1 = beof b"
    "buffer_rest b1 = buffer_rest b" "binput b1 = binput b" "buffer_content b1 = buffer_content b"
    "line_str (bl b1) = (if brestart b then [] else line_str (bl b))"
proof (cases "brestart b")
  case True
  from assms have "line_wf (bl b)" by (simp add: buffer_wf_def)
  then obtain l where l: "line_restart (bl b) = Some l" "line_wf l" "line_str l = []" "lbytes l = 0"
      "ldata l = None \<longleftrightarrow> ldata (bl b) = None"
    by (rule line_restart_spec)
  let ?b1 = "b\<lparr>bl := l, brestart := False\<rparr>"
  have c: "buffer_content ?b1 = buffer_content b" by (simp add: buffer_content_def split: option.splits)
  show ?thesis
  proof (rule that[of ?b1])
    show "buffer_begin b = Some ?b1" using True l by (simp add: buffer_begin_def)
    show "buffer_wf ?b1" using assms l by (simp add: buffer_wf_def split: option.splits)
    show "buffer_rest ?b1 = buffer_rest b" using True l c by (simp add: buffer_rest_def)
  qed (use True l c in simp_all)
next
  case False
  with assms that[of b] show ?thesis by (simp add: buffer_begin_def)
qed

lemma buffer_drop_chunk_spec:
  assumes wf: "buffer_wf b" and tx: "text_ok b" and nr: "\<not> brestart b"
    and l: "line_wf l" "ldata l \<noteq> None" "line_str l = line_str (bl b) @ buffer_content b"
  obtains b3 where "buffer_drop_chunk b l k = Some b3" "buffer_wf b3" "text_ok b3" "\<not> brestart b3"
    "beof b3 = beof b" "buffer_rest b3 = buffer_rest b"
proof -
  obtain blk where b: "bblk b = Some blk" "blk = buffer_content b @ replicate (blen b + 1 - cin b) NUL"
      "length (buffer_content b) = cin b" "length blk = blen b + 1"
    using wf by (rule buffer_wf_blk)
  have "drop (blen b) blk = [NUL]" using b wf by (simp add: buffer_wf_def)
  with b have "wr_block blk 0 (replicate (blen b) NUL) = Some (replicate (blen b + 1) NUL)"
    by (simp add: wr_block_def replicate_append_same)
  then have dc: "buffer_drop_chunk b l k = Some (b\<lparr>bl := l, bfn := True, cin := 0, brestart := False,
      ulen := 0, clen := 0, bblk := Some (replicate (blen b + 1) NUL)\<rparr>)" (is "_ = Some ?b3")
    using b wf by (simp add: buffer_drop_chunk_def buffer_wf_def)
  moreover have "buffer_content ?b3 = []" by (simp add: buffer_content_def)
  moreover have "buffer_wf ?b3" using wf l by (simp add: buffer_wf_def)
  ultimately show thesis using l tx nr by (intro that[of ?b3]) (simp_all add: text_ok_def buffer_rest_def)
qed

theorem buffer_next_line_stream_lemma:
  assumes "buffer_wf b" "text_ok b" "\<not> beof b" "mem_ok M" "CR \<notin> set (buffer_rest b)"
    "LF \<notin> set (line_str (bl b)) \<or> brestart b"
  shows "line_result b (buffer_next_line M b)"
  using assms
proof (induction "buffer_measure b" arbitrary: b rule: less_induct)
  case less
  note IH = less.hyps and prems = less.prems
  obtain b1 where b1: "buffer_begin b = Some b1" "buffer_wf b1" "\<not> brestart b1" "beof b1 = beof b"
      "buffer_rest b1 = buffer_rest b" "binput b1 = binput b" "buffer_content b1 = buffer_content b"
      "line_str (bl b1) = (if brestart b then [] else line_str (bl b))"
    using prems(1) by (rule buffer_begin_spec)
  have tx1: "text_ok b1" using prems(2) b1 by (simp add: text_ok_def)
  have lf1: "LF \<notin> set (line_str (bl b1))"
    using prems(6) b1(8) by auto
  from b1(2) tx1 b1(3) show ?case
  proof (cases rule: buffer_fill_spec)
    case eof
    have "buffer_next_line M b = Some (b1\<lparr>beof := True\<rparr>, False)"
      using b1 eof prems(3) by (simp add: buffer_next_line.simps)
    moreover have "buffer_rest b = line_str (bl b1)"
      using b1(5) eof b1(3) by (simp add: buffer_rest_def buffer_content_def split: option.splits)
    moreover have "buffer_wf (b1\<lparr>beof := True\<rparr>)" using b1(2) by (simp add: buffer_wf_def split: option.splits)
    ultimately show ?thesis using lf1 by (simp add: line_result_def)
  next
    case (more b2)
    obtain blk where b: "bblk b2 = Some blk" "blk = buffer_content b2 @ replicate (blen b2 + 1 - cin b2) NUL"
        "length (buffer_content b2) = cin b2" "length blk = blen b2 + 1"
      using more(2) by (rule buffer_wf_blk)
    define c where "c = buffer_content b2"
    define pre where "pre = line_str (bl b2)"
    have rest: "buffer_rest b = pre @ c @ input_bytes (binput b2)"
      using more(4,6) b1(5) by (simp add: buffer_rest_def c_def pre_def)
    have z: "replicate (blen b2 + 1 - cin b2) NUL = NUL # replicate (blen b2 - cin b2) NUL"
      using more(2) by (simp add: buffer_wf_def Suc_diff_le)
    have c_ok: "NUL \<notin> set c" "CR \<notin> set c" "LF \<notin> set pre"
      using more(3,8) prems(5) lf1 rest by (auto simp: text_ok_def c_def pre_def)
    have ptr: "buffer_ptr b2 = Some 0" using more(2) by (simp add: buffer_ptr_def buffer_wf_def)
    have blk_eq: "blk = c @ NUL # replicate (blen b2 - cin b2) NUL" using b(2) z by (simp only: c_def)
    note scan = scan_line_chunk[OF c_ok(1,2), of "replicate (blen b2 - cin b2) NUL", folded blk_eq]
    have unf: "buffer_next_line M b = (case scan_line (drop 0 blk) NUL 0 0 of
        None \<Rightarrow> None
      | Some (u, k, True) \<Rightarrow> buffer_take_line M b2 blk 0 u k
      | Some (u, k, False) \<Rightarrow> (case line_inject M (bl b2) (drop 0 blk) u of
            None \<Rightarrow> None
          | Some (l, False) \<Rightarrow> Some (b2\<lparr>bl := l, ulen := u, clen := k\<rparr>, False)
          | Some (l, True) \<Rightarrow> (case buffer_drop_chunk b2 l k of
               None \<Rightarrow> None | Some b3 \<Rightarrow> buffer_next_line M b3)))"
      by (subst buffer_next_line.simps) (simp add: b1(1) more(1) prems(3) ptr b(1) del: drop0)
    show ?thesis
    proof (cases "LF \<in> set c")
      case True
      then obtain s t where c: "c = s @ LF # t" "LF \<notin> set s" by (meson split_list_first)
      obtain b' where b': "buffer_take_line M b2 blk 0 (length s) (length s + 1) = Some (b', True)"
          "buffer_wf b'" "text_ok b'" "brestart b'" "beof b' = beof b2"
          "line_str (bl b') = line_str (bl b2) @ s" "buffer_rest b' = t @ input_bytes (binput b2)"
        using buffer_take_line_spec[OF more(2-4) prems(4) b(1)] c(1) by (auto simp: c_def)
      have "buffer_next_line M b = Some (b', True)"
        using unf scan True c b'(1) by (simp add: takeWhile_neq_append)
      moreover have rest': "buffer_rest b = (pre @ s) @ LF # t @ input_bytes (binput b2)"
        using rest c(1) by simp
      moreover have nlf: "LF \<notin> set (pre @ s)" using c_ok(3) c(2) by simp
      have "takeWhile (\<lambda>c. c \<noteq> LF) (buffer_rest b) = pre @ s"
        "dropWhile (\<lambda>c. c \<noteq> LF) (buffer_rest b) = LF # t @ input_bytes (binput b2)"
        unfolding rest' using nlf by (rule takeWhile_neq_append, rule dropWhile_neq_append)
      ultimately show ?thesis using b' more(7) b1(4) prems(3)
        by (simp add: line_result_def pre_def)
    next
      case False
      have "line_wf (bl b2)" "ldata (bl b2) \<noteq> None \<or> 0 < length c" "length c \<le> length blk"
        using more(2) b by (auto simp: buffer_wf_def c_def)
      from line_inject_ok[OF this(1,3,2) prems(4)] obtain l where
          l: "line_inject M (bl b2) blk (length c) = Some (l, True)" "line_wf l" "ldata l \<noteq> None"
             "line_str l = line_str (bl b2) @ take (length c) blk" by blast
      have l_str: "line_str l = line_str (bl b2) @ buffer_content b2"
        using l(4) b(2) by (simp add: c_def)
      obtain b3 where b3: "buffer_drop_chunk b2 l (length c) = Some b3" "buffer_wf b3" "text_ok b3"
          "\<not> brestart b3" "beof b3 = beof b2" "buffer_rest b3 = buffer_rest b2"
        using buffer_drop_chunk_spec[OF more(2-4) l(2,3) l_str] by blast
      have same: "buffer_next_line M b = buffer_next_line M b3"
        using unf scan False l(1) b3(1) by simp
      have lf3: "LF \<notin> set (line_str (bl b3))"
        using b3(1) l_str c_ok(3) False
        by (auto simp: buffer_drop_chunk_def Let_def Option.bind_eq_Some_conv c_def pre_def split: if_splits)
      have "buffer_measure b3 < buffer_measure b"
        using buffer_drop_chunk_measure[OF b3(1)] buffer_fill_measure[OF more(1)] buffer_begin_measure[OF b1(1)]
        by simp
      then have "line_result b3 (buffer_next_line M b3)"
        using IH b3 more(6,7) b1(4,5) prems(3,4,5) lf3 by simp
      then show ?thesis
        using same b3(6) more(6) b1(5) by (simp add: line_result_def)
    qed
  qed
qed

subsection \<open>The lines of a text\<close>

text \<open>The abstract view: the sequence of newline-terminated lines. A last line with no newline is
  not in it.\<close>

function split_lines :: "string \<Rightarrow> string list" where
  "split_lines tx = (if LF \<in> set tx
     then takeWhile (\<lambda>c. c \<noteq> LF) tx # split_lines (tl (dropWhile (\<lambda>c. c \<noteq> LF) tx)) else [])"
  by pat_completeness auto
termination
proof (relation "measure length")
  fix tx :: string
  assume "LF \<in> set tx"
  then obtain s t where "tx = s @ LF # t" "LF \<notin> set s" by (meson split_list_first)
  then show "(tl (dropWhile (\<lambda>c. c \<noteq> LF) tx), tx) \<in> measure length"
    by (simp add: dropWhile_neq_append)
qed simp

declare split_lines.simps [simp del]

lemma split_lines_Cons: "LF \<notin> set s \<Longrightarrow> split_lines (s @ LF # t) = s # split_lines t"
  by (subst split_lines.simps) (simp add: takeWhile_neq_append dropWhile_neq_append)

lemma split_lines_none: "LF \<notin> set s \<Longrightarrow> split_lines s = []"
  by (subst split_lines.simps) simp

text \<open>Splitting the concatenation of terminated lines gives them back.\<close>

lemma split_lines_join:
  assumes "\<forall>x \<in> set ls. LF \<notin> set x" "LF \<notin> set r"
  shows "split_lines (concat (map (\<lambda>x. x @ [LF]) ls) @ r) = ls"
  using assms(1)
proof (induction ls)
  case Nil then show ?case using assms(2) by (simp add: split_lines_none)
next
  case (Cons x xs)
  then show ?case using split_lines_Cons[of x] by simp
qed

definition buffer_lines :: "buffer_t \<Rightarrow> string list" where
  "buffer_lines b = (if beof b then [] else split_lines (buffer_rest b))"

text \<open>The states the client sees: between two calls the buffer is well formed and has not
  stopped inside a line.\<close>

definition buffer_ok :: "buffer_t \<Rightarrow> bool" where
  "buffer_ok b \<longleftrightarrow> buffer_wf b \<and> (beof b \<or>
     text_ok b \<and> CR \<notin> set (buffer_rest b) \<and> NUL \<notin> set (buffer_rest b)
     \<and> (LF \<notin> set (line_str (bl b)) \<or> brestart b))"

lemma line_data_at:
  assumes "line_wf l" "ldata l \<noteq> None"
  obtains d where "ldata l = Some d" "take (length (line_str l)) d = line_str l"
    "length (line_str l) < length d" "d ! length (line_str l) = NUL" "lbytes l = length (line_str l)"
proof -
  from assms obtain d where d: "ldata l = Some d" "length d = lsize l + 1" "lbytes l \<le> lsize l" "d ! lbytes l = NUL"
    by (auto simp: line_wf_def)
  moreover have "line_str l = take (lbytes l) d" "length (line_str l) = lbytes l"
    using d line_str_length[OF assms(1)] by (simp_all add: line_str_def)
  ultimately show thesis by (intro that[of d]) auto
qed

lemma buffer_next_line_step:
  assumes ok: "buffer_ok b" and mem: "mem_ok M"
  shows "(\<forall>x xs. buffer_lines b = x # xs \<longrightarrow>
      (\<exists>b'. buffer_next_line M b = Some (b', True) \<and> buffer_ok b' \<and> buffer_lines b' = xs
         \<and> line_str (bl b') = x \<and> NUL \<notin> set x))
    \<and> (buffer_lines b = [] \<longrightarrow> (\<exists>b'. buffer_next_line M b = Some (b', False) \<and> buffer_ok b' \<and> buffer_lines b' = []))"
proof (cases "beof b")
  case True
  then have "buffer_next_line M b = Some (b, False)" by (subst buffer_next_line.simps) simp
  with True ok show ?thesis by (simp add: buffer_lines_def)
next
  case False
  with ok have st: "buffer_wf b" "text_ok b" "CR \<notin> set (buffer_rest b)" "NUL \<notin> set (buffer_rest b)"
      "LF \<notin> set (line_str (bl b)) \<or> brestart b"
    by (auto simp: buffer_ok_def)
  note res = buffer_next_line_stream_lemma[OF st(1,2) False mem st(3,5)]
  show ?thesis
  proof (cases "LF \<in> set (buffer_rest b)")
    case True
    then obtain s t where st': "buffer_rest b = s @ LF # t" "LF \<notin> set s" by (meson split_list_first)
    then obtain b' where b': "buffer_next_line M b = Some (b', True)" "buffer_wf b'" "text_ok b'" "brestart b'"
        "\<not> beof b'" "line_str (bl b') = s" "buffer_rest b' = t"
      using res True by (auto simp: line_result_def takeWhile_neq_append dropWhile_neq_append)
    with st st' False show ?thesis by (simp add: buffer_ok_def buffer_lines_def split_lines_Cons)
  next
    case no: False
    with res obtain b' where "buffer_next_line M b = Some (b', False)" "buffer_wf b'" "beof b'"
      by (auto simp: line_result_def Let_def)
    with no False show ?thesis by (simp add: buffer_ok_def buffer_lines_def split_lines_none)
  qed
qed

subsection \<open>Reading a whole descriptor\<close>

text \<open>Calling \<open>buffer_next_line\<close> until it returns \<open>NULL\<close>.\<close>

fun buffer_all :: "nat \<Rightarrow> cenv \<Rightarrow> buffer_t \<Rightarrow> (buffer_t \<times> string list) option" where
  "buffer_all 0 M b = None"
| "buffer_all (Suc fuel) M b = do {
     (b', more) \<leftarrow> buffer_next_line M b;
     (if more then do { (b'', ls) \<leftarrow> buffer_all fuel M b'; Some (b'', line_str (bl b') # ls) }
      else Some (b', [])) }"

lemma buffer_all_spec:
  assumes "buffer_ok b" "mem_ok M" "length (buffer_lines b) < fuel"
  shows "\<exists>b'. buffer_all fuel M b = Some (b', buffer_lines b)"
  using assms(1,3)
proof (induction fuel arbitrary: b)
  case (Suc fuel)
  show ?case
  proof (cases "buffer_lines b")
    case Nil
    then show ?thesis using buffer_next_line_step[OF Suc.prems(1) assms(2)] by auto
  next
    case (Cons x xs)
    then obtain b' where "buffer_next_line M b = Some (b', True)" "buffer_ok b'" "buffer_lines b' = xs"
        "line_str (bl b') = x"
      using buffer_next_line_step[OF Suc.prems(1) assms(2)] by blast
    with Suc.IH[of b'] Suc.prems(2) Cons show ?thesis by auto
  qed
qed simp

lemma buffer_init_ok:
  assumes "mem_ok M" "fd \<noteq> -1" "2 \<le> len" "len < 2 ^ 64" "input_ok inp" "CR \<notin> set (input_bytes inp)"
  shows "\<exists>b. buffer_init M fd len inp = Some (Some b) \<and> buffer_ok b \<and> \<not> beof b
    \<and> buffer_lines b = split_lines (input_bytes inp)"
proof -
  obtain l where l: "line_init M \<lparr>ldata = None, lbytes = 0, lsize = 0\<rparr> None False 0 = Some (l, True)" "line_wf l"
      "line_str l = []" "ldata l \<noteq> None" "lbytes l = 0"
    using line_init_fresh[of "\<lparr>ldata = None, lbytes = 0, lsize = 0\<rparr>" M False 0] assms(1) by auto
  define b where "b = \<lparr>bfd = fd, bl = l, cin = 0, blen = len, ulen = 0, clen = 0,
    bblk = Some (replicate (len + 1) NUL), brestart = False, bfn = False, beof = False, fbrk = False,
    bp = None, binput = inp\<rparr>"
  have "buffer_init M fd len inp = Some (Some b)"
    using assms(1,3) l(1) by (simp add: buffer_init_def buffer_alloc_def wr_block_def b_def del: replicate_Suc)
  moreover have "buffer_wf b" using assms l by (simp add: buffer_wf_def b_def del: replicate_Suc)
  moreover have c: "buffer_content b = []" by (simp add: buffer_content_def b_def)
  moreover have r: "buffer_rest b = input_bytes inp" using l c by (simp add: buffer_rest_def b_def)
  moreover have "text_ok b" using assms(5) c by (simp add: text_ok_def b_def)
  moreover have "\<not> beof b" "line_str (bl b) = []" using l by (simp_all add: b_def)
  ultimately show ?thesis using assms(6) input_ok_no_nul[OF assms(5)]
    by (simp add: buffer_ok_def buffer_lines_def)
qed

end
