(* ===== verification/Eps_Unroll.thy ===== *)
theory Eps_Unroll
  imports Eps_Buffer
begin

text \<open>
  Header unfolding, \<^verbatim>\<open>eps_unroll.c\<close>. \<open>unroll_t\<close> is the C structure over the line source it
  reads; the loop of \<open>unroll_next_line\<close> is a partial function whose value \<open>None\<close> covers both
  undefined behaviour and a loop that does not stop.

  The interface to the reader below is the locale \<open>line_source\<close>: a source stands for the list of
  lines it still has, and one call delivers the next of them in a terminated block. The lemmas
  about unfolding are proved against this contract and the locale is interpreted on
  \<open>buffer_next_line\<close>.
\<close>

record 'b unroll =
  ueof :: bool
  usrc :: 'b
  ul :: line_t
  ulb :: line_t

type_synonym unroll_t = "buffer_t unroll"
type_synonym 'b source = "'b \<Rightarrow> ('b \<times> (char list \<times> nat) option) ub"

text \<open>\<open>buffer_next_line(u->b)\<close> as the caller uses it: the block behind the returned pointer and the
  number of bytes of the line.\<close>

definition unroll_read :: "cenv \<Rightarrow> buffer_t source" where
  "unroll_read M b = do {
     (b', ok) \<leftarrow> buffer_next_line M b;
     (if ok then do { d \<leftarrow> ldata (bl b'); Some (b', Some (d, lbytes (bl b'))) } else Some (b', None)) }"

definition unroll_init :: "cenv \<Rightarrow> int \<Rightarrow> nat \<Rightarrow> read_result list \<Rightarrow> unroll_t option ub" where
  "unroll_init M fd len inp = (case mmalloc M 32 ''unroll_alloc'' of
     None \<Rightarrow> Some None
   | Some _ \<Rightarrow> do {
       b \<leftarrow> buffer_init M fd len inp;
       (case b of None \<Rightarrow> Some None
        | Some b \<Rightarrow> (case line_alloc M of None \<Rightarrow> Some None
        | Some l \<Rightarrow> do {
            (l, ok) \<leftarrow> line_init M l None False len;
            (if \<not> ok then Some None
             else (case line_alloc M of None \<Rightarrow> Some None
              | Some lb \<Rightarrow> do {
                  (lb, ok) \<leftarrow> line_init M lb None False len;
                  Some (if ok then Some \<lparr>ueof = False, usrc = b, ul = l, ulb = lb\<rparr> else None) })) })) })"

definition unroll_restart :: "unroll_t \<Rightarrow> int \<Rightarrow> read_result list \<Rightarrow> unroll_t ub" where
  "unroll_restart u fd inp = do {
     l \<leftarrow> line_restart (ul u);
     lb \<leftarrow> line_restart (ulb u);
     b \<leftarrow> buffer_restart (usrc u) fd inp;
     Some (u\<lparr>ueof := False, ul := l, ulb := lb, usrc := b\<rparr>) }"

partial_function (option) unroll_loop ::
    "cenv \<Rightarrow> 'b source \<Rightarrow> 'b unroll \<Rightarrow> ('b unroll \<times> bool) option" where
  "unroll_loop M nxt u = do {
     (s, r) \<leftarrow> nxt (usrc u);
     (let u1 = u\<lparr>usrc := s\<rparr> in
      (case r of
         None \<Rightarrow> Some (if lbytes (ul u1) \<noteq> 0 then (u1\<lparr>ueof := True\<rparr>, True) else (u1, False))
       | Some (p, n) \<Rightarrow> do {
           c \<leftarrow> rd p 0;
           (if c = NUL then Some (if lbytes (ul u1) \<noteq> 0 then (u1\<lparr>ueof := True\<rparr>, True) else (u1, False))
            else if c = SP \<or> c = TAB then do {
              (l, ok) \<leftarrow> line_inject M (ul u1) (drop 1 p) (n - 1);
              (if ok then unroll_loop M nxt (u1\<lparr>ul := l\<rparr>) else Some (u1\<lparr>ul := l, ueof := True\<rparr>, False)) }
            else if lbytes (ul u1) \<noteq> 0 then do {
              (lb, ok) \<leftarrow> line_inject M (ulb u1) p n;
              Some (if ok then (u1\<lparr>ulb := lb\<rparr>, True) else (u1\<lparr>ulb := lb, ueof := True\<rparr>, False)) }
            else do {
              (l, ok) \<leftarrow> line_inject M (ul u1) p n;
              (if ok then unroll_loop M nxt (u1\<lparr>ul := l\<rparr>) else Some (u1\<lparr>ul := l, ueof := True\<rparr>, False)) }) })) }"

definition unroll_next :: "cenv \<Rightarrow> 'b source \<Rightarrow> 'b unroll \<Rightarrow> ('b unroll \<times> bool) ub" where
  "unroll_next M nxt u = (if ueof u then Some (u, False) else do {
     l0 \<leftarrow> (if lbytes (ul u) \<noteq> 0 then line_restart (ul u) else Some (ul u));
     (if lbytes (ulb u) \<noteq> 0 then do {
        d \<leftarrow> ldata (ulb u);
        (l, ok) \<leftarrow> line_inject M l0 d (lbytes (ulb u));
        (if ok then do {
           lb \<leftarrow> line_restart (ulb u);
           unroll_loop M nxt (u\<lparr>ul := l, ulb := lb\<rparr>) }
         else Some (u\<lparr>ul := l, ueof := True\<rparr>, False)) }
      else unroll_loop M nxt (u\<lparr>ul := l0\<rparr>)) })"

definition unroll_next_line :: "cenv \<Rightarrow> unroll_t \<Rightarrow> (unroll_t \<times> bool) ub" where
  "unroll_next_line M = unroll_next M (unroll_read M)"

subsection \<open>What unfolding means\<close>

text \<open>One logical line: the accumulated text, the line that was read too far (the start of the next
  logical line), and the lines left.\<close>

fun unfold_lines :: "string \<Rightarrow> string list \<Rightarrow> string \<times> string option \<times> string list" where
  "unfold_lines acc [] = (acc, None, [])"
| "unfold_lines acc (x # xs) =
     (if x = [] then (acc, None, xs)
      else if hd x = SP \<or> hd x = TAB then unfold_lines (acc @ tl x) xs
      else if acc \<noteq> [] then (acc, Some x, xs)
      else unfold_lines x xs)"

definition unroll_wf :: "'b unroll \<Rightarrow> bool" where
  "unroll_wf u \<longleftrightarrow> line_wf (ul u) \<and> ldata (ul u) \<noteq> None \<and> line_wf (ulb u) \<and> ldata (ulb u) \<noteq> None"

locale line_source =
  fixes nxt :: "'b source"
    and lines :: "'b \<Rightarrow> string list"
    and ok :: "'b \<Rightarrow> bool"
  assumes nxt_line: "ok s \<Longrightarrow> lines s = x # xs \<Longrightarrow>
      \<exists>s' d. nxt s = Some (s', Some (d, length x)) \<and> take (length x) d = x \<and> length x < length d
        \<and> d ! length x = NUL \<and> NUL \<notin> set x \<and> lines s' = xs \<and> ok s'"
    and nxt_end: "ok s \<Longrightarrow> lines s = [] \<Longrightarrow> \<exists>s'. nxt s = Some (s', None) \<and> lines s' = [] \<and> ok s'"
begin

lemma unroll_loop_spec:
  assumes "ok (usrc u)" "unroll_wf u" "mem_ok M" "line_str (ulb u) = []"
  shows "\<exists>u'. unroll_loop M nxt u = Some (u', fst (unfold_lines (line_str (ul u)) (lines (usrc u))) \<noteq> [])
    \<and> unroll_wf u' \<and> ok (usrc u')
    \<and> (\<exists>sv r. unfold_lines (line_str (ul u)) (lines (usrc u)) = (line_str (ul u'), sv, r)
         \<and> lines (usrc u') = r \<and> line_str (ulb u') = (case sv of None \<Rightarrow> [] | Some x \<Rightarrow> x)
         \<and> (ueof u' \<longleftrightarrow> ueof u \<or> (sv = None \<and> line_str (ul u') \<noteq> [])))"
  using assms
proof (induction "lines (usrc u)" arbitrary: u)
  case Nil
  then obtain s' where "nxt (usrc u) = Some (s', None)" "lines s' = []" "ok s'" using nxt_end by metis
  with Nil show ?case
    by (subst unroll_loop.simps) (auto simp: unroll_wf_def line_str_Nil_iff Let_def)
next
  case (Cons x xs)
  obtain s' d where n: "nxt (usrc u) = Some (s', Some (d, length x))" "take (length x) d = x" "length x < length d"
      "d ! length x = NUL" "NUL \<notin> set x" "lines s' = xs" "ok s'"
    using nxt_line[OF Cons.prems(1) Cons.hyps(2)[symmetric]] by auto
  define acc where "acc = line_str (ul u)"
  let ?u1 = "u\<lparr>usrc := s'\<rparr>"
  have wf: "line_wf (ul u)" "ldata (ul u) \<noteq> None" "line_wf (ulb u)" "ldata (ulb u) \<noteq> None"
    using Cons.prems(2) by (simp_all add: unroll_wf_def)
  have lb: "lbytes (ul u) \<noteq> 0 \<longleftrightarrow> acc \<noteq> []" using wf by (simp add: acc_def line_str_Nil_iff)
  have rd0: "rd d 0 = Some (d ! 0)" using n(3) by (intro rd_in) auto
  show ?case
  proof (cases "x = []")
    case True
    with n(4) have "d ! 0 = NUL" by simp
    with n(1) rd0 lb True Cons.prems n(6,7) Cons.hyps(2)[symmetric] show ?thesis
      by (subst unroll_loop.simps) (auto simp: Let_def unroll_wf_def acc_def)
  next
    case False
    then have c: "d ! 0 = hd x" "hd x \<noteq> NUL"
      using n(2,5) by (metis hd_conv_nth length_greater_0_conv nth_take, metis hd_in_set)
    consider (roll) "hd x = SP \<or> hd x = TAB" | (save) "hd x \<noteq> SP" "hd x \<noteq> TAB" "acc \<noteq> []"
      | (first) "hd x \<noteq> SP" "hd x \<noteq> TAB" "acc = []" by blast
    then show ?thesis
    proof cases
      case roll
      have le: "length x - 1 \<le> length (drop 1 d)" using n(3) by simp
      have tl: "take (length x - 1) (drop 1 d) = tl x"
        using n(2) by (metis drop_Suc drop_take One_nat_def drop0)
      obtain l where l: "line_inject M (ul u) (drop 1 d) (length x - 1) = Some (l, True)" "line_wf l"
          "ldata l \<noteq> None" "line_str l = acc @ tl x"
        using line_inject_ex[OF wf(1,2) le Cons.prems(3) tl] by (auto simp: acc_def)
      have "unroll_loop M nxt u = unroll_loop M nxt (?u1\<lparr>ul := l\<rparr>)"
        using n(1) rd0 c roll l(1) by (subst unroll_loop.simps) (simp add: Let_def)
      with Cons.hyps(1)[of "?u1\<lparr>ul := l\<rparr>"] n(6,7) l Cons.prems roll False Cons.hyps(2)[symmetric] show ?thesis
        by (simp add: unroll_wf_def acc_def)
    next
      case save
      obtain l where l: "line_inject M (ulb u) d (length x) = Some (l, True)" "line_wf l"
          "ldata l \<noteq> None" "line_str l = x"
        using line_inject_ex[OF wf(3,4) _ Cons.prems(3) n(2)] n(3) Cons.prems(4) by auto
      have "unroll_loop M nxt u = Some (?u1\<lparr>ulb := l\<rparr>, True)"
        using n(1) rd0 c save l(1) lb by (subst unroll_loop.simps) (simp add: Let_def)
      with n(6,7) l Cons.prems save False Cons.hyps(2)[symmetric] show ?thesis
        by (auto simp: unroll_wf_def acc_def)
    next
      case first
      obtain l where l: "line_inject M (ul u) d (length x) = Some (l, True)" "line_wf l"
          "ldata l \<noteq> None" "line_str l = x"
        using line_inject_ex[OF wf(1,2) _ Cons.prems(3) n(2)] n(3) first by (auto simp: acc_def)
      have "unroll_loop M nxt u = unroll_loop M nxt (?u1\<lparr>ul := l\<rparr>)"
        using n(1) rd0 c first l(1) lb by (subst unroll_loop.simps) (simp add: Let_def)
      with Cons.hyps(1)[of "?u1\<lparr>ul := l\<rparr>"] n(6,7) l Cons.prems first False Cons.hyps(2)[symmetric] show ?thesis
        by (simp add: unroll_wf_def acc_def)
    qed
  qed
qed

lemma unroll_next_spec:
  assumes "ok (usrc u)" "unroll_wf u" "mem_ok M" "\<not> ueof u"
    and unf: "unfold_lines (line_str (ulb u)) (lines (usrc u)) = (hdr, sv, r)"
  shows "\<exists>u'. unroll_next M nxt u = Some (u', hdr \<noteq> []) \<and> unroll_wf u' \<and> ok (usrc u')
    \<and> line_str (ul u') = hdr \<and> lines (usrc u') = r
    \<and> line_str (ulb u') = (case sv of None \<Rightarrow> [] | Some x \<Rightarrow> x)
    \<and> (ueof u' \<longleftrightarrow> sv = None \<and> hdr \<noteq> [])"
proof -
  have wf: "line_wf (ul u)" "ldata (ul u) \<noteq> None" "line_wf (ulb u)" "ldata (ulb u) \<noteq> None"
    using assms(2) by (simp_all add: unroll_wf_def)
  obtain l0 where l0: "line_restart (ul u) = Some l0" "line_wf l0" "line_str l0 = []" "ldata l0 \<noteq> None"
    using line_restart_spec[OF wf(1)] wf(2) by metis
  have l0': "(if lbytes (ul u) \<noteq> 0 then line_restart (ul u) else Some (ul u)) = Some l0"
    using l0(1) by (auto simp: line_restart_def)
  define u1 where "u1 = (if lbytes (ulb u) \<noteq> 0
    then u\<lparr>ul := fst (the (line_inject M l0 (the (ldata (ulb u))) (lbytes (ulb u)))),
           ulb := the (line_restart (ulb u))\<rparr> else u\<lparr>ul := l0\<rparr>)"
  obtain d where d: "ldata (ulb u) = Some d" "take (lbytes (ulb u)) d = line_str (ulb u)"
      "lbytes (ulb u) \<le> length d"
    using line_data_at[OF wf(3,4)] by (metis less_imp_le)
  obtain l where l: "line_inject M l0 d (lbytes (ulb u)) = Some (l, True)" "line_wf l" "ldata l \<noteq> None"
      "line_str l = line_str (ulb u)"
    using line_inject_ex[OF l0(2,4) d(3) assms(3) d(2)] l0(3) by auto
  obtain lb where lb: "line_restart (ulb u) = Some lb" "line_wf lb" "line_str lb = []" "ldata lb \<noteq> None"
    using line_restart_spec[OF wf(3)] wf(4) by metis
  have u1: "unroll_wf u1" "usrc u1 = usrc u" "line_str (ulb u1) = []" "line_str (ul u1) = line_str (ulb u)" "\<not> ueof u1"
    using wf l0 l lb d assms(4) line_str_Nil_iff[OF wf(3)] by (auto simp: u1_def unroll_wf_def)
  have "unroll_next M nxt u = unroll_loop M nxt u1"
    using assms(4) l0' l lb d by (simp add: unroll_next_def u1_def)
  with unroll_loop_spec[of u1 M] u1 assms(1,3) unf show ?thesis by auto
qed

end

interpretation reader: line_source "unroll_read M" buffer_lines "\<lambda>b. buffer_ok b \<and> mem_ok M" for M
proof (unfold_locales, goal_cases)
  case (1 b x xs)
  then obtain b' where b': "buffer_next_line M b = Some (b', True)" "buffer_ok b'" "buffer_lines b' = xs"
      "line_str (bl b') = x" "NUL \<notin> set x"
    using buffer_next_line_step by blast
  have "line_wf (bl b')" "ldata (bl b') \<noteq> None" using b'(2) by (auto simp: buffer_ok_def buffer_wf_def)
  then obtain d where "ldata (bl b') = Some d" "take (length (line_str (bl b'))) d = line_str (bl b')"
      "length (line_str (bl b')) < length d" "d ! length (line_str (bl b')) = NUL"
      "lbytes (bl b') = length (line_str (bl b'))"
    by (rule line_data_at)
  with b' 1 show ?case by (simp add: unroll_read_def)
next
  case (2 b)
  then show ?case using buffer_next_line_step[of b M] by (auto simp: unroll_read_def)
qed

subsection \<open>The header block\<close>

text \<open>All logical lines of a header block: lines up to the first empty one, folded lines joined.\<close>

lemma unfold_lines_length: "unfold_lines acc xs = (h, sv, r) \<Longrightarrow> sv \<noteq> None \<Longrightarrow> length r < length xs"
proof (induction acc xs rule: unfold_lines.induct)
  case (2 acc x xs)
  show ?case using "2.prems" "2.IH" by (auto split: if_splits dest!: less_SucI)
qed simp

function logical_lines :: "string \<Rightarrow> string list \<Rightarrow> string list" where
  "logical_lines acc xs = (case unfold_lines acc xs of
     (h, sv, r) \<Rightarrow> if h = [] then []
                  else (case sv of None \<Rightarrow> [h] | Some x \<Rightarrow> h # logical_lines x r))"
  by pat_completeness auto
termination
  by (relation "measure (\<lambda>(acc, xs). length xs)") (auto dest!: sym[of "(_, _, _)"] unfold_lines_length)

declare logical_lines.simps [simp del]

text \<open>Calling \<open>unroll_next_line\<close> until it returns \<open>NULL\<close>, as the callers do.\<close>

fun unroll_all :: "nat \<Rightarrow> cenv \<Rightarrow> unroll_t \<Rightarrow> (unroll_t \<times> string list) option" where
  "unroll_all 0 M u = None"
| "unroll_all (Suc fuel) M u = do {
     (u', more) \<leftarrow> unroll_next_line M u;
     (if more then do { (u'', hs) \<leftarrow> unroll_all fuel M u'; Some (u'', line_str (ul u') # hs) }
      else Some (u', [])) }"

lemma unroll_all_eof: "ueof u \<Longrightarrow> unroll_all (Suc fuel) M u = Some (u, [])"
  by (simp add: unroll_next_line_def unroll_next_def)

lemma unroll_all_spec:
  assumes "buffer_ok (usrc u)" "unroll_wf u" "mem_ok M" "\<not> ueof u"
    "length (buffer_lines (usrc u)) < fuel"
  shows "\<exists>u'. unroll_all (Suc fuel) M u = Some (u', logical_lines (line_str (ulb u)) (buffer_lines (usrc u)))"
  using assms
proof (induction fuel arbitrary: u)
  case 0 then show ?case by simp
next
  case (Suc fuel)
  obtain hdr sv r where unf: "unfold_lines (line_str (ulb u)) (buffer_lines (usrc u)) = (hdr, sv, r)"
    by (metis prod_cases3)
  obtain u' where u': "unroll_next_line M u = Some (u', hdr \<noteq> [])" "unroll_wf u'" "buffer_ok (usrc u')"
      "line_str (ul u') = hdr" "buffer_lines (usrc u') = r"
      "line_str (ulb u') = (case sv of None \<Rightarrow> [] | Some x \<Rightarrow> x)" "ueof u' \<longleftrightarrow> sv = None \<and> hdr \<noteq> []"
    using reader.unroll_next_spec[of u M M] Suc.prems unf by (auto simp: unroll_next_line_def)
  consider "hdr = []" | "hdr \<noteq> []" "sv = None" | x where "hdr \<noteq> []" "sv = Some x" by blast
  then show ?case
  proof cases
    case 1
    with unf u' show ?thesis by (subst logical_lines.simps) (simp del: unroll_all.simps(2) add: unroll_all.simps(2)[of "Suc fuel"])
  next
    case 2
    with unf u' unroll_all_eof[of u' fuel M] show ?thesis
      by (subst logical_lines.simps) (simp del: unroll_all.simps(2) add: unroll_all.simps(2)[of "Suc fuel"])
  next
    case 3
    with unf have "length r < length (buffer_lines (usrc u))" by (simp add: unfold_lines_length)
    with Suc.IH[of u'] Suc.prems 3 u' obtain u'' where
      "unroll_all (Suc fuel) M u' = Some (u'', logical_lines x r)" by auto
    with 3 unf u' show ?thesis
      by (subst logical_lines.simps) (simp del: unroll_all.simps(2) add: unroll_all.simps(2)[of "Suc fuel"])
  qed
qed

lemma unroll_init_ok:
  assumes "mem_ok M" "fd \<noteq> -1" "2 \<le> len" "len < 2 ^ 64" "input_ok inp" "CR \<notin> set (input_bytes inp)"
  shows "\<exists>u. unroll_init M fd len inp = Some (Some u) \<and> unroll_wf u \<and> \<not> ueof u \<and> buffer_ok (usrc u)
    \<and> line_str (ulb u) = [] \<and> buffer_lines (usrc u) = split_lines (input_bytes inp)"
proof -
  obtain b where b: "buffer_init M fd len inp = Some (Some b)" "buffer_ok b"
      "buffer_lines b = split_lines (input_bytes inp)"
    using buffer_init_ok[OF assms] by blast
  obtain l where l: "line_init M \<lparr>ldata = None, lbytes = 0, lsize = 0\<rparr> None False len = Some (l, True)" "line_wf l"
      "line_str l = []" "ldata l \<noteq> None" "lbytes l = 0"
    using line_init_fresh[of "\<lparr>ldata = None, lbytes = 0, lsize = 0\<rparr>" M False len] assms(1) by auto
  have "unroll_init M fd len inp = Some (Some \<lparr>ueof = False, usrc = b, ul = l, ulb = l\<rparr>)"
    using assms(1) b(1) l(1) by (simp add: unroll_init_def)
  then show ?thesis using b l by (simp add: unroll_wf_def)
qed

end
