(* ===== verification/Eps_Roll.thy ===== *)
theory Eps_Roll
  imports Eps_Unroll Eps_Rfc2822 Eps_Output
begin

text \<open>
  Folding of long header lines, \<^verbatim>\<open>eps_roll.c\<close>. The scan for a folding point and the write loop are
  modelled as they are; the return value of \<open>write\<close> is compared with an \<open>unsigned long\<close>, so that a
  negative value is never smaller. The result is that unfolding the output by the rule of
  \<open>unroll_next_line\<close> gives the line back, and that no output line exceeds 999 bytes.
\<close>

text \<open>\<open>ret < n\<close> with \<open>int ret\<close> and \<open>unsigned long n\<close>.\<close>

definition short_write :: "int \<Rightarrow> nat \<Rightarrow> bool" where
  "short_write ret n \<longleftrightarrow> nat (ret mod 2 ^ 64) < n"

text \<open>The inner \<open>for\<close> loop: from \<open>h\<close> with count \<open>n\<close> to the next folding point.\<close>

fun roll_scan :: "string \<Rightarrow> nat \<Rightarrow> nat" where
  "roll_scan [] n = n"
| "roll_scan (c # cs) n = (if n < 998 \<and> \<not> (78 \<le> n \<and> rfc2822_is_wsp c) then roll_scan cs (n + 1) else n)"

lemma roll_scan_bounds: "n \<le> roll_scan s n" "roll_scan s n \<le> n + length s" "n \<le> 998 \<Longrightarrow> roll_scan s n \<le> 998"
  by (induction s n rule: roll_scan.induct) auto

lemma roll_scan_progress:
  assumes "roll_scan (drop n s) n < length s"
  shows "length s - roll_scan (drop n s) n < length s"
proof -
  have "0 < roll_scan (drop n s) n"
  proof (cases n)
    case 0
    with assms obtain c cs where "s = c # cs" by (cases s) auto
    with 0 roll_scan_bounds(1)[of 1 cs] show ?thesis by simp
  next
    case (Suc m)
    with roll_scan_bounds(1)[of n "drop n s"] show ?thesis by simp
  qed
  with assms show ?thesis by simp
qed

function roll_loop :: "'o writer \<Rightarrow> 'o \<Rightarrow> string \<Rightarrow> nat \<Rightarrow> 'o \<times> bool" where
  "roll_loop wrt fd t n0 = (let n = roll_scan (drop n0 t) n0 in
     if \<not> n < length t then
       (case (if n \<noteq> 0 then wrt fd (take n t) else (fd, 0)) of (fd, ret) \<Rightarrow>
         if n \<noteq> 0 \<and> short_write ret n then (fd, False)
         else (case wrt fd [LF] of (fd, ret) \<Rightarrow> (fd, \<not> ret < 1)))
     else (case wrt fd (take n t) of (fd, ret) \<Rightarrow>
       if short_write ret n then (fd, False)
       else (case wrt fd [LF, TAB] of (fd, ret) \<Rightarrow>
         if ret < 2 then (fd, False) else roll_loop wrt fd (drop n t) 0)))"
  by pat_completeness auto
termination
  by (relation "measure (\<lambda>(wrt, fd, t, n). length t)") (auto dest: roll_scan_progress)

declare roll_loop.simps [simp del]

definition roll_fd :: "'o writer \<Rightarrow> 'o \<Rightarrow> string \<Rightarrow> 'o \<times> bool" where
  "roll_fd wrt fd data = (let n = min 78 (length data) in
     if n = length data then
       (case wrt fd data of (fd, ret) \<Rightarrow>
         if short_write ret n then (fd, False)
         else (case wrt fd [LF] of (fd, ret) \<Rightarrow> (fd, \<not> ret < 1)))
     else roll_loop wrt fd data n)"

subsection \<open>Folding as a function\<close>

function fold_points :: "string \<Rightarrow> nat \<Rightarrow> string list" where
  "fold_points t n0 = (let n = roll_scan (drop n0 t) n0 in
     if n < length t then take n t # fold_points (drop n t) 0 else [t])"
  by pat_completeness auto
termination
  by (relation "measure (\<lambda>(t, n). length t)") (auto dest: roll_scan_progress)

declare fold_points.simps [simp del]

definition folded :: "string \<Rightarrow> string list" where
  "folded s = (if length s \<le> 78 then [s] else fold_points s 78)"

fun fold_text :: "string list \<Rightarrow> string" where
  "fold_text [] = [LF]"
| "fold_text [x] = x @ [LF]"
| "fold_text (x # xs) = x @ LF # TAB # fold_text xs"

lemma fold_points_concat: "concat (fold_points t n) = t"
proof (induction t n rule: fold_points.induct)
  case (1 t n)
  then show ?case by (subst fold_points.simps) (simp add: Let_def)
qed

lemma fold_points_ne: "fold_points t n \<noteq> []"
  by (subst fold_points.simps) (simp add: Let_def)

lemma fold_points_lengths: "n \<le> 998 \<Longrightarrow> n \<le> length t \<Longrightarrow> x \<in> set (fold_points t n) \<Longrightarrow> length x \<le> 998"
proof (induction t n rule: fold_points.induct)
  case (1 t n)
  have b: "roll_scan (drop n t) n \<le> 998" "roll_scan (drop n t) n \<le> length t"
    using roll_scan_bounds(2)[of "drop n t" n] roll_scan_bounds(3)[of n "drop n t"] "1.prems" by simp_all
  show ?case
  proof (cases "roll_scan (drop n t) n < length t")
    case True
    then have "x = take (roll_scan (drop n t) n) t \<or> x \<in> set (fold_points (drop (roll_scan (drop n t) n) t) 0)"
      using "1.prems"(3) by (subst (asm) fold_points.simps) (simp add: Let_def)
    with b "1.IH"[OF refl True] show ?thesis by auto
  next
    case False
    with "1.prems" b show ?thesis by (subst (asm) fold_points.simps) (simp add: Let_def)
  qed
qed

lemma short_write_full: "n < 2 ^ 64 \<Longrightarrow> \<not> short_write (int n) n"
  by (simp add: short_write_def nat_mod_distrib)

context sink
begin

lemma roll_loop_spec:
  assumes "open_out fd" "n0 \<le> length t" "n0 \<le> 998" "t \<noteq> []"
  shows "\<exists>fd'. roll_loop wrt fd t n0 = (fd', True) \<and> sent fd' = sent fd @ fold_text (fold_points t n0) \<and> open_out fd'"
  using assms
proof (induction t n0 arbitrary: fd rule: fold_points.induct)
  case (1 t n0)
  define n where "n = roll_scan (drop n0 t) n0"
  have b: "n \<le> 998" "n \<le> length t"
    using roll_scan_bounds(2)[of "drop n0 t" n0] roll_scan_bounds(3)[of n0 "drop n0 t"] "1.prems"
    by (simp_all add: n_def)
  have nsw: "\<not> short_write (int n) n" using b(1) by (intro short_write_full) simp
  show ?case
  proof (cases "n < length t")
    case True
    obtain fd1 fd2 where w: "wrt fd (take n t) = (fd1, int (length (take n t)))" "wrt fd1 [LF, TAB] = (fd2, int (length [LF, TAB]))"
        "sent fd2 = sent fd @ take n t @ [LF, TAB]" "open_out fd2"
      using "1.prems"(1) by (rule wrt_twice)
    have ne: "drop n t \<noteq> []" using True by simp
    obtain fd' where fd': "roll_loop wrt fd2 (drop n t) 0 = (fd', True)"
        "sent fd' = sent fd2 @ fold_text (fold_points (drop n t) 0)" "open_out fd'"
      using "1.IH"[OF n_def True w(4) _ _ ne] by auto
    have "roll_loop wrt fd t n0 = (fd', True)"
      using w(1,2) b True nsw fd'(1) by (subst roll_loop.simps) (simp add: Let_def n_def[symmetric])
    moreover have "fold_points t n0 = take n t # fold_points (drop n t) 0"
      using True by (subst fold_points.simps) (simp add: Let_def n_def[symmetric])
    moreover obtain y ys where "fold_points (drop n t) 0 = y # ys" using fold_points_ne by (metis list.exhaust)
    ultimately show ?thesis using fd'(2,3) w(3) by simp
  next
    case False
    then have n: "n = length t" using b by simp
    obtain fd1 fd2 where w: "wrt fd t = (fd1, int (length t))" "wrt fd1 [LF] = (fd2, int (length [LF]))"
        "sent fd2 = sent fd @ t @ [LF]" "open_out fd2"
      using "1.prems"(1) by (rule wrt_twice)
    have "roll_loop wrt fd t n0 = (fd2, True)"
      using w(1,2) n nsw "1.prems"(4) by (subst roll_loop.simps) (simp add: Let_def n_def[symmetric])
    moreover have "fold_points t n0 = [t]"
      using False by (subst fold_points.simps) (simp add: Let_def n_def[symmetric])
    ultimately show ?thesis using w(3,4) by simp
  qed
qed

lemma roll_fd_spec:
  assumes "open_out fd"
  shows "\<exists>fd'. roll_fd wrt fd s = (fd', True) \<and> sent fd' = sent fd @ fold_text (folded s) \<and> open_out fd'"
proof (cases "length s \<le> 78")
  case True
  obtain fd1 fd2 where w: "wrt fd s = (fd1, int (length s))" "wrt fd1 [LF] = (fd2, int (length [LF]))"
      "sent fd2 = sent fd @ s @ [LF]" "open_out fd2"
    using assms by (rule wrt_twice)
  moreover have "\<not> short_write (int (length s)) (length s)" using True by (intro short_write_full) simp
  ultimately show ?thesis using True by (simp add: roll_fd_def Let_def folded_def)
next
  case False
  then have "s \<noteq> []" by auto
  with False show ?thesis using roll_loop_spec[OF assms, of 78 s] by (auto simp: roll_fd_def Let_def folded_def min_def)
qed

end

subsection \<open>Folding and unfolding\<close>

lemma split_fold_text:
  assumes "\<forall>y \<in> set (x # xs). LF \<notin> set y"
  shows "split_lines (fold_text (x # xs)) = x # map (\<lambda>y. TAB # y) xs"
  using assms
proof (induction xs arbitrary: x)
  case Nil
  then show ?case using split_lines_Cons[of x "[]"] by (simp add: split_lines_none)
next
  case (Cons y ys)
  have "split_lines (x @ LF # TAB # fold_text (y # ys)) = x # split_lines (TAB # fold_text (y # ys))"
    using Cons.prems by (intro split_lines_Cons) simp
  moreover have "split_lines (TAB # fold_text (y # ys)) = (TAB # y) # map (\<lambda>y. TAB # y) ys"
  proof -
    have "TAB # fold_text (y # ys) = fold_text ((TAB # y) # ys)" by (cases ys) simp_all
    moreover have "split_lines (fold_text ((TAB # y) # ys)) = (TAB # y) # map (\<lambda>y. TAB # y) ys"
      using Cons.prems by (intro Cons.IH) simp
    ultimately show ?thesis by simp
  qed
  ultimately show ?case by simp
qed

lemma unfold_continuations: "unfold_lines acc (map (\<lambda>y. TAB # y) xs) = (acc @ concat xs, None, [])"
  by (induction xs arbitrary: acc) simp_all

lemma unfold_folded:
  assumes "LF \<notin> set s" "s \<noteq> []" "\<not> rfc2822_is_wsp (hd s)"
  shows "unfold_lines [] (split_lines (fold_text (folded s))) = (s, None, [])"
proof -
  have c: "concat (folded s) = s" by (simp add: folded_def fold_points_concat)
  obtain x xs where f: "folded s = x # xs" using fold_points_ne[of s 78] by (cases "folded s") (auto simp: folded_def split: if_splits)
  have "x \<noteq> []"
  proof (cases "length s \<le> 78")
    case True then show ?thesis using f assms(2) by (simp add: folded_def)
  next
    case False
    let ?n = "roll_scan (drop 78 s) 78"
    have "x = take ?n s \<or> x = s" using f False
      by (subst (asm) folded_def, subst (asm) fold_points.simps) (auto simp: Let_def split: if_splits)
    with roll_scan_bounds(1)[of 78 "drop 78 s"] assms(2) show ?thesis by auto
  qed
  moreover have "\<forall>y \<in> set (x # xs). LF \<notin> set y" using arg_cong[OF c, of set] assms(1) unfolding f by auto
  moreover have "hd x = hd s" using c f \<open>x \<noteq> []\<close> by (metis concat.simps(2) hd_append2)
  ultimately show ?thesis using assms(3) c unfolding f
    by (simp add: split_fold_text unfold_continuations rfc2822_is_wsp_def)
qed

lemma fold_text_set: "x \<in> set (fold_text ys) \<Longrightarrow> x \<in> set (concat ys) \<or> x = LF \<or> x = TAB"
  by (induction ys rule: fold_text.induct) auto

lemma folded_set: "x \<in> set (fold_text (folded s)) \<Longrightarrow> x \<in> set s \<or> x = LF \<or> x = TAB"
proof -
  have "concat (folded s) = s" by (simp add: folded_def fold_points_concat)
  then show "x \<in> set (fold_text (folded s)) \<Longrightarrow> x \<in> set s \<or> x = LF \<or> x = TAB"
    using fold_text_set[of x "folded s"] by simp
qed

end
