(* ===== verification/Eps_Mime.thy ===== *)
theory Eps_Mime
  imports Eps_Unroll Eps_Header
begin

unbundle bit_operations_syntax

text \<open>
  MIME structure and the parser's front end: content types (\<^verbatim>\<open>eps_content.c\<close>), the stack of active
  boundaries (\<^verbatim>\<open>eps_boundary.c\<close>), MIME parts (\<^verbatim>\<open>eps_mime.c\<close>), the message header
  (\<^verbatim>\<open>eps_email.c\<close>), and the interface \<open>eps_t\<close> with its stream and buffer back ends
  (\<^verbatim>\<open>eps.c\<close>, \<^verbatim>\<open>eps_int_stream.c\<close>, \<^verbatim>\<open>eps_int_buffer.c\<close>). The list of members with its dummy head is a
  list and the pointer \<open>last\<close> an index into it. \<open>depth\<close> and \<open>cdepth\<close> are of type \<open>char\<close>, a signed byte.
\<close>

subsection \<open>Content types\<close>

definition CON_NONE :: int where "CON_NONE = 0"
definition CON_TEXT :: int where "CON_TEXT = 1"
definition CON_MULTI :: int where "CON_MULTI = 2"
definition ENC_TEXT :: int where "ENC_TEXT = 1"
definition DIS_INLINE :: int where "DIS_INLINE = 1"

datatype content_table = TYP_CON | TYP_ENC | TYP_DIS | TYP_OTHER

definition content_prefs :: "(string \<times> int) list" where
  "content_prefs = [(''text/'', 1), (''multipart/'', 2), (''message/'', 1)]"

definition encoding_prefs :: "(string \<times> int) list" where
  "encoding_prefs = [(''7bit'', 4), (''base64'', 2), (''8bit'', 8), (''quoted-printable'', 16), (''raw'', 32)]"

definition disposition_prefs :: "(string \<times> int) list" where
  "disposition_prefs = [(''attachment'', 2), (''inline'', 1), (''formdata'', 4)]"

definition content_default :: "content_table \<Rightarrow> (string \<times> int) list \<times> int" where
  "content_default t = (case t of TYP_CON \<Rightarrow> (content_prefs, 0) | TYP_ENC \<Rightarrow> (encoding_prefs, 0)
     | TYP_DIS \<Rightarrow> (disposition_prefs, 1) | TYP_OTHER \<Rightarrow> ([], 0))"

definition content_parse :: "string option \<Rightarrow> content_table \<Rightarrow> int" where
  "content_parse d t = (case content_default t of (prefs, dflt) \<Rightarrow>
     (case d of None \<Rightarrow> dflt
      | Some s \<Rightarrow> (case find (\<lambda>(p, v). strncaseeq p s (length p)) prefs of
          None \<Rightarrow> dflt | Some (p, v) \<Rightarrow> v)))"

subsection \<open>Boundaries\<close>

definition sbyte :: "int \<Rightarrow> int" where
  "sbyte n = (n + 128) mod 256 - 128"

record member_t =
  mboundary :: string
  mdepth :: int

record boundary_t =
  cdepth :: int
  boundaries :: "member_t list"
  blast :: "nat option"

definition boundary_alloc :: "cenv \<Rightarrow> boundary_t option" where
  "boundary_alloc M = (case mmalloc M 24 ''boundary_alloc'' of None \<Rightarrow> None
   | Some _ \<Rightarrow> (case mmalloc M 24 ''member_alloc'' of None \<Rightarrow> None
   | Some _ \<Rightarrow> Some \<lparr>cdepth = 0, boundaries = [], blast = None\<rparr>))"

text \<open>Operations on \<open>e->b\<close> take and return the pointer's target; \<open>None\<close> is a null \<open>e->b\<close>.\<close>

definition boundary_add :: "cenv \<Rightarrow> boundary_t option \<Rightarrow> string \<Rightarrow> boundary_t option \<times> bool" where
  "boundary_add M e boundary = (case e of None \<Rightarrow> (None, False)
   | Some b \<Rightarrow> (case mmalloc M 24 ''member_alloc'' of None \<Rightarrow> (Some b, False)
   | Some _ \<Rightarrow> (case mstrdup M boundary of None \<Rightarrow> (Some b, False)
   | Some s \<Rightarrow> (Some \<lparr>cdepth = sbyte (cdepth b + 1),
                 boundaries = boundaries b @ [\<lparr>mboundary = s, mdepth = sbyte (cdepth b + 1)\<rparr>],
                 blast = Some (length (boundaries b))\<rparr>, True))))"

text \<open>\<open>member_kill\<close> on a member of the list, given by its index.\<close>

definition member_kill :: "boundary_t \<Rightarrow> nat \<Rightarrow> boundary_t" where
  "member_kill b i = (if i < length (boundaries b)
     then \<lparr>cdepth = sbyte (cdepth b - 1),
           boundaries = take i (boundaries b) @ drop (i + 1) (boundaries b),
           blast = (if blast b = Some i then None
                    else map_option (\<lambda>j. if i < j then j - 1 else j) (blast b))\<rparr>
     else b)"

fun boundary_search :: "boundary_t \<Rightarrow> nat \<Rightarrow> member_t list \<Rightarrow> string \<Rightarrow> boundary_t \<times> nat" where
  "boundary_search b i [] s = (b, 0)"
| "boundary_search b i (m # ms) s =
     (if strcaseeq (mboundary m) s then
        (if mdepth m \<noteq> cdepth b then (b, 0) else (b\<lparr>blast := Some i\<rparr>, 1))
      else (let len = length (mboundary m) in
        if length s = len + 2 \<and> s ! len = CHR ''-'' \<and> s ! (len + 1) = CHR ''-''
           \<and> strncaseeq (mboundary m) s len
        then (b\<lparr>blast := Some i\<rparr>, 2)
        else boundary_search b (i + 1) ms s))"

definition boundary_is :: "boundary_t option \<Rightarrow> string \<Rightarrow> boundary_t option \<times> nat" where
  "boundary_is e s = (case e of None \<Rightarrow> (None, 0)
   | Some b \<Rightarrow> (case boundary_search b 0 (boundaries b) s of (b', r) \<Rightarrow> (Some b', r)))"

definition boundary_remove_last :: "boundary_t option \<Rightarrow> (boundary_t option \<times> bool) ub" where
  "boundary_remove_last e = do { b \<leftarrow> e;
     Some (case blast b of None \<Rightarrow> (Some b, False) | Some i \<Rightarrow> (Some (member_kill b i), True)) }"

fun fetch_depth :: "nat \<Rightarrow> member_t list \<Rightarrow> int \<Rightarrow> (nat \<times> string) option" where
  "fetch_depth i [] d = None"
| "fetch_depth i (m # ms) d = (if mdepth m = d then Some (i, mboundary m) else fetch_depth (i + 1) ms d)"

definition boundary_fetch :: "boundary_t option \<Rightarrow> int \<Rightarrow> boundary_t option \<times> string option" where
  "boundary_fetch e depth = (case e of None \<Rightarrow> (None, None)
   | Some b \<Rightarrow> if depth > cdepth b \<or> depth < 1 then (Some b, None)
       else (case fetch_depth 0 (boundaries b) depth of
          None \<Rightarrow> (Some b, None)
        | Some (i, s) \<Rightarrow> (Some (b\<lparr>blast := Some i\<rparr>), Some s)))"

subsection \<open>MIME parts\<close>

record mime_t =
  mfilename :: "string option"
  morig :: "string option"
  mbound :: "string option"
  mmdepth :: int
  content_type :: int
  mencoding :: int
  mdisposition :: int

record eps_t =
  einterface :: int
  econtent_type :: int
  eu :: "unroll_t option"
  eh :: "header_t option"
  eb :: "boundary_t option"
  em :: "mime_t option"

definition mime_new_instance :: "cenv \<Rightarrow> mime_t option" where
  "mime_new_instance M = (case mmalloc M 48 ''mime_new_instance'' of None \<Rightarrow> None
   | Some _ \<Rightarrow> Some \<lparr>mfilename = None, morig = None, mbound = None, mmdepth = 0,
       content_type = CON_TEXT, mencoding = ENC_TEXT, mdisposition = DIS_INLINE\<rparr>)"

text \<open>\<open>h->atoms->next->data\<close>, null when one of the pointers on the way is.\<close>

definition first_data :: "header_t \<Rightarrow> string option" where
  "first_data h = (case hatoms h of Some (a # as) \<Rightarrow> adata a | _ \<Rightarrow> None)"

definition mime_content_type :: "cenv \<Rightarrow> boundary_t option \<Rightarrow> header_t \<Rightarrow> mime_t \<Rightarrow> boundary_t option \<times> mime_t" where
  "mime_content_type M e h m =
     (let ct = (case first_data h of None \<Rightarrow> CON_TEXT | Some d \<Rightarrow> content_parse (Some d) TYP_CON);
          fl = (case mfilename m of Some f \<Rightarrow> Some f
                | None \<Rightarrow> (case header_fetch_atom h ''name'' of None \<Rightarrow> None | Some p \<Rightarrow> mstrdup M p));
          e' = (if ct AND CON_MULTI \<noteq> 0 then
                  (case header_fetch_atom h ''boundary'' of None \<Rightarrow> e | Some p \<Rightarrow> fst (boundary_add M e p))
                else e)
      in (e', m\<lparr>content_type := ct, mfilename := fl\<rparr>))"

definition mime_transfer_encoding :: "header_t \<Rightarrow> mime_t \<Rightarrow> mime_t" where
  "mime_transfer_encoding h m = m\<lparr>mencoding :=
     (case first_data h of None \<Rightarrow> ENC_TEXT | Some d \<Rightarrow> content_parse (Some d) TYP_ENC)\<rparr>"

definition mime_content_disposition :: "cenv \<Rightarrow> header_t \<Rightarrow> mime_t \<Rightarrow> mime_t" where
  "mime_content_disposition M h m = m\<lparr>
     mdisposition := (case first_data h of None \<Rightarrow> DIS_INLINE | Some d \<Rightarrow> content_parse (Some d) TYP_DIS),
     mfilename := (case mfilename m of Some f \<Rightarrow> Some f
       | None \<Rightarrow> (case header_fetch_atom h ''filename'' of None \<Rightarrow> None | Some p \<Rightarrow> mstrdup M p))\<rparr>"

definition mime_header :: "cenv \<Rightarrow> boundary_t option \<Rightarrow> mime_t option \<Rightarrow> header_t
    \<Rightarrow> (boundary_t option \<times> mime_t option \<times> bool) ub" where
  "mime_header M e m h = do {
     nm \<leftarrow> hname h;
     (if strcaseeq ''Content-Type'' nm then do {
        m' \<leftarrow> m; (case mime_content_type M e h m' of (e', m') \<Rightarrow> Some (e', Some m', True)) }
      else if strcaseeq ''Content-Transfer-Encoding'' nm then do {
        m' \<leftarrow> m; Some (e, Some (mime_transfer_encoding h m'), True) }
      else if strcaseeq ''Content-Disposition'' nm then do {
        m' \<leftarrow> m; Some (e, Some (mime_content_disposition M h m'), True) }
      else Some (e, m, False)) }"

definition mime_init_stream :: "cenv \<Rightarrow> eps_t \<Rightarrow> eps_t ub" where
  "mime_init_stream M e = do {
     u \<leftarrow> eu e;
     b \<leftarrow> eb e;
     m \<leftarrow> mime_new_instance M;
     (case boundary_fetch (Some b) (cdepth b) of
        (b', Some p) \<Rightarrow> Some (e\<lparr>eu := Some (u\<lparr>ueof := False\<rparr>), eb := b',
            em := Some (m\<lparr>mbound := mstrdup M p, mmdepth := cdepth b\<rparr>)\<rparr>)
      | (b', None) \<Rightarrow> Some (e\<lparr>eu := Some (u\<lparr>ueof := False\<rparr>), eb := b', em := Some (m\<lparr>mmdepth := -1\<rparr>)\<rparr>)) }"

text \<open>\<open>unroll_next_line(e->u)\<close> and the C string it points to.\<close>

definition next_unrolled :: "cenv \<Rightarrow> eps_t \<Rightarrow> (eps_t \<times> string option) ub" where
  "next_unrolled M e = do {
     u \<leftarrow> eu e;
     (u', more) \<leftarrow> unroll_next_line M u;
     (if more then do { d \<leftarrow> ldata (ul u'); l \<leftarrow> cstr_at d 0; Some (e\<lparr>eu := Some u'\<rparr>, Some l) }
      else Some (e\<lparr>eu := Some u'\<rparr>, None)) }"

definition next_raw :: "cenv \<Rightarrow> eps_t \<Rightarrow> (eps_t \<times> string option) ub" where
  "next_raw M e = do {
     u \<leftarrow> eu e;
     (b', more) \<leftarrow> buffer_next_line M (usrc u);
     (if more then do { d \<leftarrow> ldata (bl b'); l \<leftarrow> cstr_at d 0; Some (e\<lparr>eu := Some (u\<lparr>usrc := b'\<rparr>)\<rparr>, Some l) }
      else Some (e\<lparr>eu := Some (u\<lparr>usrc := b'\<rparr>)\<rparr>, None)) }"

definition mime_next_header :: "cenv \<Rightarrow> eps_t \<Rightarrow> (eps_t \<times> header_t option) ub" where
  "mime_next_header M e = do {
     (e1, l) \<leftarrow> next_unrolled M e;
     (case l of None \<Rightarrow> Some (e1, None)
      | Some l \<Rightarrow> do {
          h \<leftarrow> header_parse M l;
          (case h of None \<Rightarrow> Some (e1, None)
           | Some hh \<Rightarrow>
               if hname hh \<noteq> None \<and> hdata hh \<noteq> None then do {
                 (b', m', _) \<leftarrow> mime_header M (eb e1) (em e1) hh;
                 Some (e1\<lparr>eb := b', em := m'\<rparr>, Some hh) }
               else Some (e1, Some hh)) }) }"

text \<open>The copy of the delimiter line that \<open>mime_next_line\<close> keeps.\<close>

definition save_orig :: "cenv \<Rightarrow> string \<Rightarrow> mime_t \<Rightarrow> mime_t" where
  "save_orig M l m = m\<lparr>morig := (case mmalloc M (length l + 1) ''mime_next_line'' of None \<Rightarrow> None | Some _ \<Rightarrow> Some l)\<rparr>"

definition set_buffer_eof :: "eps_t \<Rightarrow> eps_t" where
  "set_buffer_eof e = e\<lparr>eu := map_option (\<lambda>u. u\<lparr>usrc := (usrc u)\<lparr>beof := True\<rparr>\<rparr>) (eu e)\<rparr>"

text \<open>The test for a delimiter line.\<close>

definition delimiter_code :: "boundary_t option \<Rightarrow> string \<Rightarrow> boundary_t option \<times> nat" where
  "delimiter_code e l = (if take 2 l = ''--'' then boundary_is e (drop 2 l) else (e, 0))"

definition mime_next_line :: "cenv \<Rightarrow> eps_t \<Rightarrow> (eps_t \<times> string option) ub" where
  "mime_next_line M e = do {
     (e1, l) \<leftarrow> next_raw M e;
     (case l of None \<Rightarrow> Some (e1, None)
      | Some l \<Rightarrow>
        (case delimiter_code (eb e1) l of (b', ret) \<Rightarrow>
          if ret = 1 then do { m \<leftarrow> em e1; Some (e1\<lparr>eb := b', em := Some (save_orig M l m)\<rparr>, None) }
          else if ret = 2 then do {
            m \<leftarrow> em e1;
            (b'', _) \<leftarrow> boundary_remove_last b';
            b3 \<leftarrow> b'';
            (let e2 = e1\<lparr>eb := b'', em := Some (save_orig M l (m\<lparr>mmdepth := -1\<rparr>))\<rparr>
             in Some (if cdepth b3 = 0 then set_buffer_eof e2 else e2, None)) }
          else do { m \<leftarrow> em e1; Some (e1\<lparr>eb := b', em := Some (m\<lparr>morig := None\<rparr>)\<rparr>, Some l) })) }"

subsection \<open>The message\<close>

definition email_content_type :: "cenv \<Rightarrow> eps_t \<Rightarrow> eps_t" where
  "email_content_type M e = (case eh e of None \<Rightarrow> e\<lparr>econtent_type := CON_TEXT\<rparr>
   | Some h \<Rightarrow> (case first_data h of None \<Rightarrow> e\<lparr>econtent_type := CON_TEXT\<rparr>
     | Some d \<Rightarrow> (let t = content_parse (Some d) TYP_CON; e1 = e\<lparr>econtent_type := t\<rparr> in
         if t AND CON_MULTI \<noteq> 0 then
           (case header_fetch_atom h ''boundary'' of None \<Rightarrow> e1
            | Some p \<Rightarrow> (case (case eb e1 of None \<Rightarrow> boundary_alloc M | Some b \<Rightarrow> Some b) of
                None \<Rightarrow> e1\<lparr>econtent_type := CON_TEXT\<rparr>
              | Some b \<Rightarrow> e1\<lparr>eb := fst (boundary_add M (Some b) p)\<rparr>))
         else e1)))"

definition email_header_internal :: "cenv \<Rightarrow> eps_t \<Rightarrow> eps_t" where
  "email_header_internal M e = (case eh e of None \<Rightarrow> e
   | Some h \<Rightarrow> (case (hname h, hdata h) of
       (Some nm, Some _) \<Rightarrow> if strcaseeq ''Content-type'' nm then email_content_type M e else e
     | _ \<Rightarrow> e))"

definition eps_next_header :: "cenv \<Rightarrow> eps_t \<Rightarrow> (eps_t \<times> header_t option) ub" where
  "eps_next_header M e = do {
     (e1, l) \<leftarrow> next_unrolled M e;
     (case l of None \<Rightarrow> Some (e1, None)
      | Some l \<Rightarrow> do {
          h \<leftarrow> header_parse M l;
          (let e2 = email_header_internal M (e1\<lparr>eh := h\<rparr>) in Some (e2, eh e2)) }) }"

definition eps_next_line :: "cenv \<Rightarrow> eps_t \<Rightarrow> (eps_t \<times> string option) ub" where
  "eps_next_line M e = do {
     u \<leftarrow> eu e;
     (if beof (usrc u) then Some (e, None)
      else do {
        (e1, l) \<leftarrow> next_raw M e;
        (case l of None \<Rightarrow> Some (set_buffer_eof e1, None)
         | Some l \<Rightarrow>
             if econtent_type e1 AND CON_MULTI \<noteq> 0 then
               (case delimiter_code (eb e1) l of (b', ret) \<Rightarrow>
                 Some (e1\<lparr>eb := b'\<rparr>, if ret \<noteq> 0 then None else Some l))
             else Some (e1, Some l)) }) }"

definition eps_header_free :: "eps_t \<Rightarrow> eps_t" where
  "eps_header_free e = e\<lparr>eh := None\<rparr>"

definition eps_is_eof :: "eps_t \<Rightarrow> bool ub" where
  "eps_is_eof e = do { u \<leftarrow> eu e; Some (beof (usrc u)) }"

subsection \<open>Starting and restarting\<close>

definition MAX_LINE_LENGTH :: nat where "MAX_LINE_LENGTH = 1000"

definition INTERFACE_STREAM :: int where "INTERFACE_STREAM = 1"
definition INTERFACE_BUFFER :: int where "INTERFACE_BUFFER = 2"

text \<open>The \<open>void *\<close> argument: a descriptor (with what it delivers) or a caller's line.\<close>

datatype eps_args = Descriptor int "read_result list" | Memory "line_t option"

definition eps_alloc :: "cenv \<Rightarrow> eps_t option" where
  "eps_alloc M = (case mmalloc M 40 ''eps_alloc'' of None \<Rightarrow> None
   | Some _ \<Rightarrow> Some \<lparr>einterface = 0, econtent_type = 0, eu = None, eh = None, eb = None, em = None\<rparr>)"

definition int_stream_init :: "cenv \<Rightarrow> eps_t \<Rightarrow> int \<Rightarrow> read_result list \<Rightarrow> (eps_t \<times> bool) ub" where
  "int_stream_init M e fd inp = do {
     u \<leftarrow> unroll_init M fd MAX_LINE_LENGTH inp;
     Some (e\<lparr>eu := u\<rparr>, u \<noteq> None) }"

definition int_buffer_init :: "eps_t \<Rightarrow> line_t option \<Rightarrow> (eps_t \<times> bool) ub" where
  "int_buffer_init e l = do {
     u \<leftarrow> eu e;
     (case (bblk (usrc u), l) of
        (Some _, Some ln) \<Rightarrow>
          if ldata ln = None \<or> lbytes ln = 0 then Some (e, False)
          else Some (e\<lparr>eu := Some (u\<lparr>usrc := (usrc u)\<lparr>bfd := -1, bblk := ldata ln, blen := lbytes ln,
                 cin := lbytes ln, bp := Some 0\<rparr>\<rparr>)\<rparr>, True)
      | _ \<Rightarrow> Some (e, False)) }"

definition eps_begin :: "cenv \<Rightarrow> int \<Rightarrow> eps_args \<Rightarrow> eps_t option ub" where
  "eps_begin M interface args = (case eps_alloc M of None \<Rightarrow> Some None
   | Some e0 \<Rightarrow> (let e = e0\<lparr>einterface := interface\<rparr> in
     if interface = 0 then Some (Some e)
     else if interface AND INTERFACE_STREAM \<noteq> 0 then
       (case args of Descriptor fd inp \<Rightarrow> do {
            (e, ok) \<leftarrow> int_stream_init M e fd inp; Some (if ok then Some e else None) }
        | Memory _ \<Rightarrow> None)
     else if interface AND INTERFACE_BUFFER \<noteq> 0 then
       (case args of Memory l \<Rightarrow> do {
            (e, ok) \<leftarrow> int_stream_init M e (-1) [];
            (if \<not> ok then Some None
             else do { (e, ok) \<leftarrow> int_buffer_init e l; Some (if ok then Some e else None) }) }
        | Descriptor _ _ \<Rightarrow> None)
     else Some None))"

definition int_stream_restart :: "eps_t \<Rightarrow> int \<Rightarrow> read_result list \<Rightarrow> eps_t ub" where
  "int_stream_restart e fd inp = do {
     u \<leftarrow> eu e; u' \<leftarrow> unroll_restart u fd inp; Some (e\<lparr>eu := Some u'\<rparr>) }"

definition int_buffer_restart :: "eps_t \<Rightarrow> line_t option \<Rightarrow> eps_t ub" where
  "int_buffer_restart e l = do {
     u \<leftarrow> eu e;
     u' \<leftarrow> unroll_restart u (-1) [];
     ln \<leftarrow> l;
     Some (e\<lparr>eu := Some (u'\<lparr>usrc := (usrc u')\<lparr>bfd := -1, bblk := ldata ln, blen := lbytes ln,
        cin := lbytes ln, bp := map_option (\<lambda>_. 0) (ldata ln)\<rparr>\<rparr>)\<rparr>) }"

definition eps_restart :: "eps_t \<Rightarrow> eps_args \<Rightarrow> eps_t ub" where
  "eps_restart e args = do {
     e1 \<leftarrow> (if einterface e AND INTERFACE_STREAM \<noteq> 0 then
              (case args of Descriptor fd inp \<Rightarrow> int_stream_restart e fd inp | Memory _ \<Rightarrow> None)
            else if einterface e AND INTERFACE_BUFFER \<noteq> 0 then
              (case args of Memory l \<Rightarrow> int_buffer_restart e l | Descriptor _ _ \<Rightarrow> None)
            else Some e);
     Some (e1\<lparr>econtent_type := CON_NONE, eh := None, eb := None\<rparr>) }"

subsection \<open>Content types are case insensitive\<close>

lemma strncaseeq_cong: "strcaseeq s t \<Longrightarrow> strncaseeq p s n = strncaseeq p t n"
  by (simp add: strcaseeq_def strncaseeq_def take_map[symmetric])

lemma content_parse_cong: "strcaseeq s t \<Longrightarrow> content_parse (Some s) ty = content_parse (Some t) ty"
  by (simp add: content_parse_def strncaseeq_cong[of s t] split: prod.split)

subsection \<open>The boundaries as a stack\<close>

text \<open>Depths count from one and \<open>cdepth\<close> is the depth of the innermost boundary.\<close>

definition bnd_wf :: "boundary_t \<Rightarrow> bool" where
  "bnd_wf b \<longleftrightarrow> (\<forall>i < length (boundaries b). mdepth (boundaries b ! i) = int i + 1)
     \<and> cdepth b = int (length (boundaries b)) \<and> length (boundaries b) < 128
     \<and> (case blast b of None \<Rightarrow> True | Some i \<Rightarrow> i < length (boundaries b))"

definition bstack :: "boundary_t \<Rightarrow> string list" where
  "bstack b = map mboundary (boundaries b)"

lemma sbyte_id: "- 128 \<le> n \<Longrightarrow> n < 128 \<Longrightarrow> sbyte n = n"
  by (simp add: sbyte_def)

lemma boundary_alloc_wf: "boundary_alloc M = Some b \<Longrightarrow> bnd_wf b \<and> bstack b = []"
  by (auto simp: boundary_alloc_def bnd_wf_def bstack_def split: option.splits)

lemma boundary_push:
  assumes "bnd_wf b" "length (bstack b) < 127" "mem_ok M"
  shows "\<exists>b'. boundary_add M (Some b) s = (Some b', True) \<and> bnd_wf b' \<and> bstack b' = bstack b @ [s]"
proof -
  have "sbyte (cdepth b + 1) = cdepth b + 1" using assms by (intro sbyte_id) (simp_all add: bnd_wf_def bstack_def)
  then show ?thesis using assms by (auto simp: boundary_add_def bnd_wf_def bstack_def nth_append)
qed

text \<open>Which lines the search recognises at a member: the delimiter and the closing delimiter.\<close>

definition closes :: "string \<Rightarrow> string \<Rightarrow> bool" where
  "closes x s \<longleftrightarrow> length s = length x + 2 \<and> s ! length x = CHR ''-'' \<and> s ! (length x + 1) = CHR ''-''
     \<and> strncaseeq x s (length x)"

lemma closes_iff: "closes x (t @ ''--'') \<longleftrightarrow> strcaseeq x t"
proof
  assume c: "closes x (t @ ''--'')"
  then have "length x = length t" by (simp add: closes_def)
  with c show "strcaseeq x t" by (simp add: closes_def strncaseeq_def strcaseeq_def)
next
  assume "strcaseeq x t"
  with strcaseeq_length[OF this] show "closes x (t @ ''--'')"
    by (simp add: closes_def strncaseeq_def strcaseeq_def nth_append)
qed

lemma boundary_search_skip:
  assumes "\<forall>m \<in> set ms. \<not> strcaseeq (mboundary m) s \<and> \<not> closes (mboundary m) s"
  shows "boundary_search b i (ms @ ns) s = boundary_search b (i + length ms) ns s"
  using assms by (induction ms arbitrary: i) (auto simp: closes_def Let_def)

lemma boundary_search_none: "snd (boundary_search b i ms s) = 0 \<Longrightarrow> fst (boundary_search b i ms s) = b"
  by (induction b i ms s rule: boundary_search.induct) (auto simp: Let_def split: if_splits)

lemma boundary_search_frame:
  "boundary_search b i ms s = (b', r) \<Longrightarrow> boundaries b' = boundaries b \<and> cdepth b' = cdepth b
     \<and> (blast b' = blast b \<or> (\<exists>j. blast b' = Some j \<and> i \<le> j \<and> j < i + length ms))"
proof (induction b i ms s rule: boundary_search.induct)
  case (2 b i m ms s)
  from "2.prems" consider "b' = b" | "b' = b\<lparr>blast := Some i\<rparr>" | "boundary_search b (i + 1) ms s = (b', r)" "\<not> strcaseeq (mboundary m) s"
      "\<not> closes (mboundary m) s"
    by (auto simp: Let_def closes_def split: if_splits)
  then show ?case
  proof cases
    case 3
    with "2.IH"[OF _ refl] show ?thesis by (fastforce simp: closes_def)
  qed auto
qed simp

lemma boundary_is_wf: "bnd_wf b \<Longrightarrow> boundary_is (Some b) s = (Some b', r) \<Longrightarrow> bnd_wf b' \<and> bstack b' = bstack b"
  using boundary_search_frame[of b 0 "boundaries b" s b' r]
  by (auto simp: boundary_is_def bnd_wf_def bstack_def split: prod.splits option.splits)

text \<open>The line that closes the innermost boundary pops it.\<close>

lemma boundary_pop:
  assumes wf: "bnd_wf b" and st: "bstack b = xs @ [x]" and t: "strcaseeq x t"
    and other: "\<forall>y \<in> set xs. \<not> strcaseeq y t \<and> \<not> strcaseeq y (t @ ''--'')"
  shows "\<exists>b1 b2. boundary_is (Some b) (t @ ''--'') = (Some b1, 2) \<and> boundary_remove_last (Some b1) = Some (Some b2, True)
    \<and> bnd_wf b2 \<and> bstack b2 = xs"
proof -
  obtain ms m where ms: "boundaries b = ms @ [m]" "map mboundary ms = xs" "mboundary m = x"
    using st by (cases "boundaries b" rule: rev_cases) (auto simp: bstack_def)
  have sk: "\<forall>m \<in> set ms. \<not> strcaseeq (mboundary m) (t @ ''--'') \<and> \<not> closes (mboundary m) (t @ ''--'')"
    using other ms(2) by (auto simp: closes_iff)
  have "\<not> strcaseeq x (t @ ''--'')" using strcaseeq_length[OF t] strcaseeq_length[of x "t @ ''--''"] by auto
  moreover have "closes x (t @ ''--'')" using t by (simp add: closes_iff)
  ultimately have s: "boundary_is (Some b) (t @ ''--'') = (Some (b\<lparr>blast := Some (length ms)\<rparr>), 2)"
    using boundary_search_skip[OF sk, of b 0 "[m]"] ms by (simp add: boundary_is_def closes_def Let_def)
  have c: "cdepth b = int (length ms) + 1" "length ms < 127" using wf ms(1) by (simp_all add: bnd_wf_def)
  then have sb: "sbyte (cdepth b - 1) = int (length ms)" by (simp add: sbyte_id)
  have "bnd_wf \<lparr>cdepth = int (length ms), boundaries = ms, blast = None\<rparr>"
  proof -
    have "mdepth (ms ! i) = int i + 1" if "i < length ms" for i
    proof -
      have "mdepth (boundaries b ! i) = int i + 1" using wf ms(1) that by (simp add: bnd_wf_def)
      then show ?thesis using ms(1) that by (simp add: nth_append)
    qed
    then show ?thesis using c by (simp add: bnd_wf_def)
  qed
  with s sb ms show ?thesis
    by (intro exI conjI) (auto simp: boundary_remove_last_def member_kill_def bstack_def)
qed

text \<open>The innermost boundary delimits the next part.\<close>

lemma boundary_top:
  assumes wf: "bnd_wf b" and st: "bstack b = xs @ [x]" and t: "strcaseeq x t"
    and other: "\<forall>y \<in> set xs. \<not> strcaseeq y t \<and> \<not> closes y t"
  shows "\<exists>b1. boundary_is (Some b) t = (Some b1, 1) \<and> bnd_wf b1 \<and> bstack b1 = bstack b"
proof -
  obtain ms m where ms: "boundaries b = ms @ [m]" "map mboundary ms = xs" "mboundary m = x"
    using st by (cases "boundaries b" rule: rev_cases) (auto simp: bstack_def)
  have sk: "\<forall>m \<in> set ms. \<not> strcaseeq (mboundary m) t \<and> \<not> closes (mboundary m) t"
    using other ms(2) by auto
  have "mdepth (boundaries b ! length ms) = int (length ms) + 1" "cdepth b = int (length ms) + 1"
    using wf ms(1) by (auto simp: bnd_wf_def)
  then have "mdepth m = cdepth b" using ms(1) by simp
  then have "boundary_is (Some b) t = (Some (b\<lparr>blast := Some (length ms)\<rparr>), 1)"
    using boundary_search_skip[OF sk, of b 0 "[m]"] ms t by (simp add: boundary_is_def)
  with boundary_is_wf[OF wf this] show ?thesis by blast
qed

lemma fetch_depth_nth:
  "(\<forall>j < length ms. mdepth (ms ! j) = int (i + j) + 1) \<Longrightarrow> k < length ms \<Longrightarrow>
    fetch_depth i ms (int (i + k) + 1) = Some (i + k, mboundary (ms ! k))"
proof (induction ms arbitrary: i k)
  case (Cons m ms)
  have m: "mdepth m = int i + 1" using Cons.prems(1) by force
  show ?case
  proof (cases k)
    case 0 with m show ?thesis by simp
  next
    case (Suc k')
    have "\<forall>j < length ms. mdepth (ms ! j) = int (Suc i + j) + 1"
      using Cons.prems(1) by (metis (no_types) Suc_less_eq add_Suc add_Suc_right length_Cons nth_Cons_Suc)
    from Cons.IH[OF this, of k'] Cons.prems(2) Suc m show ?thesis by simp
  qed
qed simp

text \<open>Fetching a boundary by its depth gives the entry of the stack.\<close>

lemma boundary_fetch_nth:
  assumes "bnd_wf b" "k < length (bstack b)"
  shows "\<exists>b'. boundary_fetch (Some b) (int k + 1) = (Some b', Some (bstack b ! k)) \<and> bnd_wf b' \<and> bstack b' = bstack b"
proof -
  have "fetch_depth 0 (boundaries b) (int k + 1) = Some (k, mboundary (boundaries b ! k))"
    using fetch_depth_nth[of "boundaries b" 0 k] assms by (simp add: bnd_wf_def bstack_def)
  with assms show ?thesis by (auto simp: boundary_fetch_def bnd_wf_def bstack_def)
qed

subsection \<open>Lines and headers of a message\<close>

lemma boundary_is_none: "boundary_is e s = (e', 0) \<Longrightarrow> e' = e"
  using boundary_search_none by (auto simp: boundary_is_def split: option.splits prod.splits) (metis fst_conv snd_conv)

text \<open>One raw line of the reader, as the C string behind the returned pointer.\<close>

lemma line_cstr:
  assumes "line_wf l" "ldata l \<noteq> None" "NUL \<notin> set (line_str l)"
  shows "\<exists>d. ldata l = Some d \<and> cstr_at d 0 = Some (line_str l)"
proof -
  obtain d where d: "ldata l = Some d" "take (length (line_str l)) d = line_str l" "length (line_str l) < length d"
      "d ! length (line_str l) = NUL"
    using line_data_at[OF assms(1,2)] by metis
  then have "d = line_str l @ NUL # drop (Suc (length (line_str l))) d" by (metis id_take_nth_drop)
  with d(1) cstr_at_terminated[OF assms(3)] show ?thesis by metis
qed

lemma next_raw_spec:
  assumes "eu e = Some u" "buffer_ok (usrc u)" "mem_ok M"
  shows "(\<forall>x xs. buffer_lines (usrc u) = x # xs \<longrightarrow> (\<exists>b'. next_raw M e = Some (e\<lparr>eu := Some (u\<lparr>usrc := b'\<rparr>)\<rparr>, Some x)
            \<and> buffer_ok b' \<and> buffer_lines b' = xs))
    \<and> (buffer_lines (usrc u) = [] \<longrightarrow> (\<exists>b'. next_raw M e = Some (e\<lparr>eu := Some (u\<lparr>usrc := b'\<rparr>)\<rparr>, None) \<and> buffer_ok b'
            \<and> buffer_lines b' = []))"
proof (intro conjI allI impI)
  fix x xs assume "buffer_lines (usrc u) = x # xs"
  then obtain b' where b': "buffer_next_line M (usrc u) = Some (b', True)" "buffer_ok b'" "buffer_lines b' = xs"
      "line_str (bl b') = x" "NUL \<notin> set x"
    using buffer_next_line_step[OF assms(2,3)] by blast
  have "line_wf (bl b')" "ldata (bl b') \<noteq> None" using b'(2) by (auto simp: buffer_ok_def buffer_wf_def)
  from line_cstr[OF this] b'(4,5) obtain d where "ldata (bl b') = Some d" "cstr_at d 0 = Some x" by auto
  with b' assms(1) show "\<exists>b'. next_raw M e = Some (e\<lparr>eu := Some (u\<lparr>usrc := b'\<rparr>)\<rparr>, Some x)
            \<and> buffer_ok b' \<and> buffer_lines b' = xs"
    by (intro exI[of _ b']) (simp add: next_raw_def)
next
  assume "buffer_lines (usrc u) = []"
  then show "\<exists>b'. next_raw M e = Some (e\<lparr>eu := Some (u\<lparr>usrc := b'\<rparr>)\<rparr>, None) \<and> buffer_ok b' \<and> buffer_lines b' = []"
    using buffer_next_line_step[OF assms(2,3)] assms(1) by (auto simp: next_raw_def)
qed

text \<open>The lines of a part: \<open>mime_next_line\<close> called until it returns \<open>NULL\<close>.\<close>

fun mime_body :: "nat \<Rightarrow> cenv \<Rightarrow> eps_t \<Rightarrow> (eps_t \<times> string list) option" where
  "mime_body 0 M e = None"
| "mime_body (Suc fuel) M e = do {
     (e1, l) \<leftarrow> mime_next_line M e;
     (case l of None \<Rightarrow> Some (e1, [])
      | Some l \<Rightarrow> do { (e2, ls) \<leftarrow> mime_body fuel M e1; Some (e2, l # ls) }) }"

definition is_delimiter :: "boundary_t option \<Rightarrow> string \<Rightarrow> bool" where
  "is_delimiter e l \<longleftrightarrow> snd (delimiter_code e l) \<noteq> 0"

lemma boundary_search_le: "snd (boundary_search b i ms s) \<le> 2"
  by (induction b i ms s rule: boundary_search.induct) (auto simp: Let_def)

lemma delimiter_code_le: "snd (delimiter_code e l) \<le> 2"
  using boundary_search_le
  by (auto simp: delimiter_code_def boundary_is_def split: option.split prod.split) (metis snd_conv)

lemma delimiter_code_none: "\<not> is_delimiter e l \<Longrightarrow> delimiter_code e l = (e, 0)"
  using boundary_is_none[of e "drop 2 l"]
  by (cases "boundary_is e (drop 2 l)") (auto simp: is_delimiter_def delimiter_code_def)

lemma delimiter_code_Some: "delimiter_code (Some b) l = (b', r) \<Longrightarrow> r \<noteq> 0 \<Longrightarrow>
    \<exists>c i. b' = Some c \<and> boundaries c = boundaries b \<and> cdepth c = cdepth b \<and> blast c = Some i"
proof -
  have "boundary_search b i ms s = (c, r) \<Longrightarrow> r \<noteq> 0 \<Longrightarrow> blast c \<noteq> None" for i ms s c
    by (induction b i ms s rule: boundary_search.induct) (auto simp: Let_def split: if_splits)
  then show "delimiter_code (Some b) l = (b', r) \<Longrightarrow> r \<noteq> 0 \<Longrightarrow> ?thesis"
    using boundary_search_frame
    by (fastforce simp: delimiter_code_def boundary_is_def split: if_splits prod.splits)
qed

lemma mime_next_line_text:
  assumes "eu e = Some u" "buffer_ok (usrc u)" "mem_ok M" "em e = Some m" "buffer_lines (usrc u) = x # xs"
    "\<not> is_delimiter (eb e) x"
  shows "\<exists>u'. mime_next_line M e = Some (e\<lparr>eu := Some u', em := Some (m\<lparr>morig := None\<rparr>)\<rparr>, Some x)
    \<and> buffer_ok (usrc u') \<and> buffer_lines (usrc u') = xs"
proof -
  obtain b' where b': "next_raw M e = Some (e\<lparr>eu := Some (u\<lparr>usrc := b'\<rparr>)\<rparr>, Some x)" "buffer_ok b'" "buffer_lines b' = xs"
    using next_raw_spec[OF assms(1-3)] assms(5) by blast
  with assms(4) delimiter_code_none[OF assms(6)] show ?thesis
    by (intro exI[of _ "u\<lparr>usrc := b'\<rparr>"]) (simp add: mime_next_line_def)
qed

text \<open>At a delimiter and at the end of the input the part ends.\<close>

lemma mime_next_line_end:
  assumes "eu e = Some u" "buffer_ok (usrc u)" "mem_ok M" "em e = Some m" "eb e = Some b"
    "buffer_lines (usrc u) = [] \<or> is_delimiter (eb e) (hd (buffer_lines (usrc u)))"
  shows "\<exists>e'. mime_next_line M e = Some (e', None)"
proof (cases "buffer_lines (usrc u)")
  case Nil
  then show ?thesis using next_raw_spec[OF assms(1-3)] by (auto simp: mime_next_line_def)
next
  case (Cons x xs)
  then obtain b' where b': "next_raw M e = Some (e\<lparr>eu := Some (u\<lparr>usrc := b'\<rparr>)\<rparr>, Some x)"
    using next_raw_spec[OF assms(1-3)] by blast
  obtain c r where cr: "delimiter_code (Some b) x = (c, r)" by (cases "delimiter_code (Some b) x")
  then have r: "r = 1 \<or> r = 2" using assms(5,6) Cons delimiter_code_le[of "Some b" x] by (auto simp: is_delimiter_def)
  then obtain c' i where "c = Some c'" "blast c' = Some i" using delimiter_code_Some[OF cr] by auto
  with b' cr r assms(4,5) show ?thesis
    by (auto simp: mime_next_line_def boundary_remove_last_def Let_def)
qed

lemma mime_body_spec:
  assumes "eu e = Some u" "buffer_ok (usrc u)" "mem_ok M" "em e = Some m" "eb e = Some b"
    "length (buffer_lines (usrc u)) < fuel"
  shows "\<exists>e'. mime_body fuel M e = Some (e', takeWhile (\<lambda>l. \<not> is_delimiter (eb e) l) (buffer_lines (usrc u)))"
  using assms(1,2,4-)
proof (induction fuel arbitrary: e u m)
  case (Suc fuel)
  show ?case
  proof (cases "buffer_lines (usrc u) = [] \<or> is_delimiter (eb e) (hd (buffer_lines (usrc u)))")
    case True
    then have "takeWhile (\<lambda>l. \<not> is_delimiter (eb e) l) (buffer_lines (usrc u)) = []"
      by (cases "buffer_lines (usrc u)") auto
    with mime_next_line_end[OF Suc.prems(1,2) assms(3) Suc.prems(3,4) True] show ?thesis by auto
  next
    case False
    then obtain x xs where xs: "buffer_lines (usrc u) = x # xs" "\<not> is_delimiter (eb e) x"
      by (cases "buffer_lines (usrc u)") auto
    obtain u' where u': "mime_next_line M e = Some (e\<lparr>eu := Some u', em := Some (m\<lparr>morig := None\<rparr>)\<rparr>, Some x)"
        "buffer_ok (usrc u')" "buffer_lines (usrc u') = xs"
      using mime_next_line_text[OF Suc.prems(1,2) assms(3) Suc.prems(3) xs] by blast
    let ?e = "e\<lparr>eu := Some u', em := Some (m\<lparr>morig := None\<rparr>)\<rparr>"
    obtain e' where "mime_body fuel M ?e = Some (e', takeWhile (\<lambda>l. \<not> is_delimiter (eb e) l) xs)"
      using Suc.IH[of ?e u' "m\<lparr>morig := None\<rparr>"] u' Suc.prems(4,5) xs(1) by auto
    with u'(1) xs show ?thesis by simp
  qed
qed simp

text \<open>The headers of a message: \<open>eps_next_header\<close> called until it returns \<open>NULL\<close>.\<close>

fun eps_headers :: "nat \<Rightarrow> cenv \<Rightarrow> eps_t \<Rightarrow> (eps_t \<times> header_t list) option" where
  "eps_headers 0 M e = None"
| "eps_headers (Suc fuel) M e = do {
     (e1, h) \<leftarrow> eps_next_header M e;
     (case h of None \<Rightarrow> Some (e1, [])
      | Some h \<Rightarrow> do { (e2, hs) \<leftarrow> eps_headers fuel M e1; Some (e2, h # hs) }) }"

lemma split_lines_subset: "x \<in> set (split_lines t) \<Longrightarrow> set x \<subseteq> set t"
proof (induction t rule: split_lines.induct)
  case (1 t)
  have "set (takeWhile (\<lambda>c. c \<noteq> LF) t) \<subseteq> set t" by (auto dest: set_takeWhileD)
  moreover have "set (tl (dropWhile (\<lambda>c. c \<noteq> LF) t)) \<subseteq> set t"
    by (metis list.set_sel(2) list.sel(2) set_dropWhileD subsetI)
  ultimately show ?case using 1 by (subst (asm) (2) split_lines.simps) (auto split: if_splits)
qed

lemma buffer_lines_NUL: "buffer_ok b \<Longrightarrow> x \<in> set (buffer_lines b) \<Longrightarrow> NUL \<notin> set x"
  using split_lines_subset[of x "buffer_rest b"] by (auto simp: buffer_ok_def buffer_lines_def split: if_splits)

lemma unfold_lines_NUL:
  assumes "NUL \<notin> set acc" "\<forall>x \<in> set xs. NUL \<notin> set x" "unfold_lines acc xs = (h, sv, r)"
  shows "NUL \<notin> set h \<and> (\<forall>x. sv = Some x \<longrightarrow> NUL \<notin> set x) \<and> set r \<subseteq> set xs"
  using assms
proof (induction xs arbitrary: acc)
  case (Cons x xs)
  have x: "NUL \<notin> set x" "\<forall>x \<in> set xs. NUL \<notin> set x" using Cons.prems(2) by simp_all
  then have tl: "NUL \<notin> set (acc @ tl x)" using Cons.prems(1) by (cases x) simp_all
  consider "x = []" | "x \<noteq> []" "hd x = SP \<or> hd x = TAB" | "x \<noteq> []" "\<not> (hd x = SP \<or> hd x = TAB)" "acc \<noteq> []"
    | "x \<noteq> []" "\<not> (hd x = SP \<or> hd x = TAB)" "acc = []" by blast
  then show ?case
  proof cases
    case 2
    with Cons.prems(3) have "unfold_lines (acc @ tl x) xs = (h, sv, r)" by simp
    from Cons.IH[OF tl x(2) this] show ?thesis by auto
  next
    case 4
    with Cons.prems(3) have "unfold_lines x xs = (h, sv, r)" by simp
    from Cons.IH[OF x this] show ?thesis by auto
  qed (use Cons.prems(1,3) x in auto)
qed simp

lemma email_header_internal_frame [simp]:
  "eu (email_header_internal M e) = eu e" "eh (email_header_internal M e) = eh e"
  by (simp_all add: email_header_internal_def email_content_type_def Let_def split: option.split)

lemma next_unrolled_spec:
  assumes "eu e = Some u" "buffer_ok (usrc u)" "unroll_wf u" "mem_ok M" "\<not> ueof u" "NUL \<notin> set (line_str (ulb u))"
    and unf: "unfold_lines (line_str (ulb u)) (buffer_lines (usrc u)) = (hdr, sv, r)"
  shows "\<exists>u'. next_unrolled M e = Some (e\<lparr>eu := Some u'\<rparr>, if hdr = [] then None else Some hdr)
    \<and> unroll_wf u' \<and> buffer_ok (usrc u') \<and> buffer_lines (usrc u') = r
    \<and> line_str (ulb u') = (case sv of None \<Rightarrow> [] | Some x \<Rightarrow> x) \<and> (ueof u' \<longleftrightarrow> sv = None \<and> hdr \<noteq> [])
    \<and> NUL \<notin> set (line_str (ulb u')) \<and> NUL \<notin> set hdr"
proof -
  obtain u' where u': "unroll_next_line M u = Some (u', hdr \<noteq> [])" "unroll_wf u'" "buffer_ok (usrc u')"
      "line_str (ul u') = hdr" "buffer_lines (usrc u') = r"
      "line_str (ulb u') = (case sv of None \<Rightarrow> [] | Some x \<Rightarrow> x)" "ueof u' \<longleftrightarrow> sv = None \<and> hdr \<noteq> []"
    using reader.unroll_next_spec[of u M M] assms(2-5) unf by (auto simp: unroll_next_line_def)
  have n: "NUL \<notin> set hdr" "NUL \<notin> set (line_str (ulb u'))"
    using unfold_lines_NUL[OF assms(6) _ unf] buffer_lines_NUL[OF assms(2)] u'(6) by (auto split: option.splits)
  obtain d where "ldata (ul u') = Some d" "cstr_at d 0 = Some hdr"
    using line_cstr[of "ul u'"] u'(2,4) n(1) by (auto simp: unroll_wf_def)
  with u' n assms(1) show ?thesis by (intro exI[of _ u']) (auto simp: next_unrolled_def)
qed

text \<open>Once the end of the header is reached, \<open>eps_next_header\<close> keeps returning \<open>NULL\<close>.\<close>

lemma eps_headers_eof: "eu e = Some u \<Longrightarrow> ueof u \<Longrightarrow> eps_headers (Suc fuel) M e = Some (e\<lparr>eu := Some u\<rparr>, [])"
  by (simp add: eps_next_header_def next_unrolled_def unroll_next_line_def unroll_next_def)

lemma eps_next_header_spec:
  assumes "next_unrolled M e = Some (e1, Some l)" "mem_ok M" "NUL \<notin> set l" "balanced l" "header_clean l"
  shows "\<exists>e2. eps_next_header M e = Some (e2, Some (header_of l)) \<and> eu e2 = eu e1"
  using assms by (simp add: eps_next_header_def header_parse_lemma Let_def)

lemma eps_headers_spec:
  assumes "eu e = Some u" "buffer_ok (usrc u)" "unroll_wf u" "mem_ok M" "\<not> ueof u" "NUL \<notin> set (line_str (ulb u))"
    "length (buffer_lines (usrc u)) < fuel"
    "\<forall>l \<in> set (logical_lines (line_str (ulb u)) (buffer_lines (usrc u))). balanced l \<and> header_clean l"
  shows "\<exists>e'. eps_headers (Suc fuel) M e
    = Some (e', map header_of (logical_lines (line_str (ulb u)) (buffer_lines (usrc u))))"
  using assms
proof (induction fuel arbitrary: e u)
  case 0 then show ?case by simp
next
  case (Suc fuel)
  note unrolled = eps_headers.simps(2)[of "Suc fuel" M e]
  obtain hdr sv r where unf: "unfold_lines (line_str (ulb u)) (buffer_lines (usrc u)) = (hdr, sv, r)"
    by (metis prod_cases3)
  obtain u' where u': "next_unrolled M e = Some (e\<lparr>eu := Some u'\<rparr>, if hdr = [] then None else Some hdr)"
      "unroll_wf u'" "buffer_ok (usrc u')" "buffer_lines (usrc u') = r"
      "line_str (ulb u') = (case sv of None \<Rightarrow> [] | Some x \<Rightarrow> x)" "ueof u' \<longleftrightarrow> sv = None \<and> hdr \<noteq> []"
      "NUL \<notin> set (line_str (ulb u'))" "NUL \<notin> set hdr"
    using next_unrolled_spec[OF Suc.prems(1-6) unf] by blast
  have ll: "logical_lines (line_str (ulb u)) (buffer_lines (usrc u))
      = (if hdr = [] then [] else (case sv of None \<Rightarrow> [hdr] | Some x \<Rightarrow> hdr # logical_lines x r))"
    by (subst logical_lines.simps) (simp add: unf)
  show ?case
  proof (cases "hdr = []")
    case True
    with u'(1) ll unrolled show ?thesis by (simp add: eps_next_header_def)
  next
    case False
    then have "balanced hdr" "header_clean hdr" using Suc.prems(8) ll by (auto split: option.splits)
    then obtain e2 where e2: "eps_next_header M e = Some (e2, Some (header_of hdr))" "eu e2 = Some u'"
      using eps_next_header_spec[of M e _ hdr] u' False Suc.prems(4) by auto
    show ?thesis
    proof (cases sv)
      case None
      with u'(6) False have "ueof u'" by simp
      with eps_headers_eof[OF e2(2), of fuel M] e2 ll False None unrolled show ?thesis by (simp del: eps_headers.simps)
    next
      case (Some x)
      with unf have "length r < length (buffer_lines (usrc u))" by (simp add: unfold_lines_length)
      with Suc.IH[OF e2(2)] Suc.prems(4,7,8) u' Some ll False obtain e3 where
        "eps_headers (Suc fuel) M e2 = Some (e3, map header_of (logical_lines x r))" by auto
      with e2 Some ll False unrolled show ?thesis by (simp del: eps_headers.simps)
    qed
  qed
qed

lemma eps_begin_stream:
  assumes "mem_ok M" "fd \<noteq> -1" "input_ok inp" "CR \<notin> set (input_bytes inp)"
  shows "\<exists>e u. eps_begin M INTERFACE_STREAM (Descriptor fd inp) = Some (Some e) \<and> eu e = Some u
    \<and> unroll_wf u \<and> \<not> ueof u \<and> buffer_ok (usrc u) \<and> line_str (ulb u) = []
    \<and> buffer_lines (usrc u) = split_lines (input_bytes inp)"
  using unroll_init_ok[OF assms(1,2), of MAX_LINE_LENGTH inp] assms
  by (auto simp: eps_begin_def eps_alloc_def INTERFACE_STREAM_def int_stream_init_def MAX_LINE_LENGTH_def Let_def)

end
