(* ===== verification/Eps_Samples.thy ===== *)
theory Eps_Samples
  imports Eps_Address Eps_Base64 Eps_Roll Eps_Mime
begin

text \<open>
  Concrete inputs of the mail parser and their evaluation: a small header block, a header with
  atoms, an address and a MIME part, on which the theorems of the parser are instantiated.
\<close>

lemma split_subject: "split_lines (''Subject: hi'' @ [LF, LF]) = [''Subject: hi'', []]"
  by (simp add: split_lines.simps)

lemmas split_subject_flat = split_subject [simplified]

lemma logical_subject: "logical_lines [] [''Subject: hi'', []] = [''Subject: hi'']"
  by (simp add: logical_lines.simps)

lemmas strip_eval = strncaseeq_def tolower_def comment_exception_def balanced_def

lemma subject_balanced: "balanced ''Subject: hi''"
  by (simp add: strip_eval)

lemma subject_clean: "header_clean ''Subject: hi''"
  by (simp add: header_clean_def strip_eval rfc2822_next_token_def Let_def rtrim_def split_plain.simps rfc2822_is_wsp_def)

lemma sample_header_ok: "balanced ''A: b; c=d''" "header_clean ''A: b; c=d''"
  by (simp_all add: header_clean_def strip_eval rfc2822_next_token_def Let_def rtrim_def split_plain.simps rfc2822_is_wsp_def)

lemma sample_header: "header_of ''A: b; c=d'' = \<lparr>hname = Some ''A'', hdata = Some ''b; c=d'', horig = Some ''A: b; c=d'',
     hatoms = Some [\<lparr>aname = None, adata = Some ''b''\<rparr>, \<lparr>aname = Some ''c'', adata = Some ''d''\<rparr>]\<rparr>"
  by (simp add: header_of_def strip_eval rfc2822_next_token_def Let_def atoms_of_def split_plain.simps
      rtrim_def ltrim_def rfc2822_is_wsp_def atom_of_def)

lemmas address_eval = rfc2822_next_token_def hit_def Let_def split_plain.simps rtrim_def ltrim_def rfc2822_is_wsp_def

lemma sample_address_ok: "group_clean ''B <b@c>''"
  by (simp add: group_clean_def address_room_def room_def address_eval)

lemma sample_address: "group_of ''B <b@c>'' = \<lparr>group = None, nmembers = 1,
     members = [\<lparr>name = Some ''B'', user = Some ''b'', domain = Some ''c''\<rparr>]\<rparr>"
  by (simp add: group_of_def members_of_def address_of_def mailbox_of_def domain_of_def address_eval)

definition sample_unroll :: unroll_t where
  "sample_unroll = \<lparr>ueof = True, usrc = \<lparr>bfd = 0, bl = \<lparr>ldata = Some [NUL], lbytes = 0, lsize = 0\<rparr>, cin = 0, blen = 10,
     ulen = 0, clen = 0, bblk = Some (replicate 11 NUL), brestart = False, bfn = False, beof = False, fbrk = False,
     bp = None, binput = [RdBytes [CHR ''x'', LF, CHR ''-'', CHR ''-'', CHR ''b'', LF, CHR ''y'', LF]]\<rparr>,
     ul = \<lparr>ldata = Some [NUL], lbytes = 0, lsize = 0\<rparr>, ulb = \<lparr>ldata = Some [NUL], lbytes = 0, lsize = 0\<rparr>\<rparr>"

definition sample_mime :: mime_t where
  "sample_mime = \<lparr>mfilename = None, morig = None, mbound = Some ''b'', mmdepth = 1, content_type = 1, mencoding = 1,
     mdisposition = 1\<rparr>"

definition sample_boundary :: boundary_t where
  "sample_boundary = \<lparr>cdepth = 1, boundaries = [\<lparr>mboundary = ''b'', mdepth = 1\<rparr>], blast = None\<rparr>"

definition sample_part :: eps_t where
  "sample_part = \<lparr>einterface = 1, econtent_type = 2, eu = Some sample_unroll, eh = None, eb = Some sample_boundary,
     em = Some sample_mime\<rparr>"

lemma sample_part_sel:
  "eu sample_part = Some sample_unroll" "buffer_ok (usrc sample_unroll)" "em sample_part = Some sample_mime"
  "eb sample_part = Some sample_boundary"
  by (simp_all add: sample_part_def)
    (simp add: sample_unroll_def buffer_ok_def buffer_wf_def line_wf_def text_ok_def input_ok_def
      buffer_content_def buffer_rest_def line_str_def)

lemma sample_part_lines: "buffer_lines (usrc sample_unroll) = [''x'', ''--b'', ''y'']"
  by (simp add: sample_unroll_def buffer_lines_def buffer_rest_def buffer_content_def line_str_def split_lines.simps)

lemma sample_part_delim: "is_delimiter (Some sample_boundary) ''--b''" "\<not> is_delimiter (Some sample_boundary) ''x''"
  by (simp_all add: is_delimiter_def delimiter_code_def boundary_is_def sample_boundary_def strcaseeq_def)

lemma empty_line: "line_wf \<lparr>ldata = None, lbytes = 0, lsize = 0\<rparr>" "line_str \<lparr>ldata = None, lbytes = 0, lsize = 0\<rparr> = []"
  by (simp_all add: line_wf_def line_str_def)

lemmas lower_eval = strcaseeq_def strncaseeq_def tolower_def char_of_def bit_0

lemma all_less_two: "(\<forall>i < Suc (Suc 0). P i) \<longleftrightarrow> P 0 \<and> P 1"
  by (auto simp: less_Suc_eq)

definition two_boundaries :: boundary_t where
  "two_boundaries = \<lparr>cdepth = 2, boundaries = [\<lparr>mboundary = ''out'', mdepth = 1\<rparr>, \<lparr>mboundary = ''in'', mdepth = 2\<rparr>],
     blast = None\<rparr>"

end
