(* ===== verification/Process.thy ===== *)
theory Process
  imports Eps_Output
begin

text \<open>
  Programs that print and exit, and the part of libqmail that the checksum tools call.

  A computation of the programs \<open>crc\<close> and \<open>crcdiff\<close> is a value of \<open>'a proc\<close>: it returns, it ends
  the process with a status (\<open>strerr_die\<close>, \<open>_exit\<close>), its behaviour is undefined (\<open>Wild\<close>), or the
  depth allowed for a recursion over directories is used up (\<open>Deep\<close>).

  The library libqmail is not part of the repository: the record \<open>qlib\<close> holds the functions the
  programs use (buffered output, number formatting, line input) as parameters, and the locale
  \<open>qmail\<close> states what its manual pages promise of them. The locale is interpreted on \<open>qref\<close>, a
  reference implementation over the descriptors of \<open>Eps_Output\<close>.
\<close>

named_theorems proc \<open>evaluation of computations\<close>

datatype 'a proc = Ret 'a | Exits int | Wild | Deep

fun bindp :: "'a proc \<Rightarrow> ('a \<Rightarrow> 'b proc) \<Rightarrow> 'b proc" where
  "bindp (Ret x) f = f x"
| "bindp (Exits n) f = Exits n"
| "bindp Wild f = Wild"
| "bindp Deep f = Deep"

lemma bindp_Ret_iff: "bindp m f = Ret y \<longleftrightarrow> (\<exists>x. m = Ret x \<and> f x = Ret y)"
  by (cases m) simp_all

lemma bindp_cong [fundef_cong]: "m = m' \<Longrightarrow> (\<And>x. m' = Ret x \<Longrightarrow> f x = f' x) \<Longrightarrow> bindp m f = bindp m' f'"
  by (cases m') simp_all

definition of_ub :: "'a ub \<Rightarrow> 'a proc" where
  "of_ub r = (case r of None \<Rightarrow> Wild | Some x \<Rightarrow> Ret x)"

lemma of_ub_simps [simp]: "of_ub None = Wild" "of_ub (Some x) = Ret x"
  by (simp_all add: of_ub_def)

subsection \<open>Input and output\<close>

datatype rd_event = RdData string | RdIntr | RdFail

datatype getln_event = GlLine string bool | GlErr

record 'o qlib =
  sput :: "'o \<Rightarrow> string \<Rightarrow> 'o option"
  sflush :: "'o \<Rightarrow> 'o option"
  fmt_xlong :: "nat \<Rightarrow> string"
  fmt_ulong :: "nat \<Rightarrow> string"
  fmt_int :: "int \<Rightarrow> string"
  getlns :: "rd_event list \<Rightarrow> getln_event list"
  scan_long :: "string \<Rightarrow> int"
  str_rchr :: "string \<Rightarrow> char \<Rightarrow> nat"

definition put_or_die :: "'o qlib \<Rightarrow> int \<Rightarrow> 'o \<Rightarrow> string \<Rightarrow> 'o proc" where
  "put_or_die L code o1 s = (case sput L o1 s of None \<Rightarrow> Exits code | Some o2 \<Rightarrow> Ret o2)"

definition flush_or_die :: "'o qlib \<Rightarrow> int \<Rightarrow> 'o \<Rightarrow> 'o proc" where
  "flush_or_die L code o1 = (case sflush L o1 of None \<Rightarrow> Exits code | Some o2 \<Rightarrow> Ret o2)"

fun puts_or_die :: "'o qlib \<Rightarrow> int \<Rightarrow> 'o \<Rightarrow> string list \<Rightarrow> 'o proc" where
  "puts_or_die L code o1 [] = Ret o1"
| "puts_or_die L code o1 (s # ss) = bindp (put_or_die L code o1 s) (\<lambda>o1. puts_or_die L code o1 ss)"

text \<open>The bytes a descriptor delivers, up to the end of the file or a failing \<open>read\<close>, and the lines of
  a file, each with its newline.\<close>

fun read_all :: "rd_event list \<Rightarrow> string \<times> bool" where
  "read_all [] = ([], True)"
| "read_all (RdFail # es) = ([], False)"
| "read_all (RdIntr # es) = read_all es"
| "read_all (RdData s # es) = (if s = [] then ([], True) else (case read_all es of (d, ok) \<Rightarrow> (s @ d, ok)))"

fun file_lines :: "string \<Rightarrow> string list" where
  "file_lines [] = []"
| "file_lines (c # cs) = (if c = LF then [c] # file_lines cs
     else (case file_lines cs of [] \<Rightarrow> [[c]] | l # ls \<Rightarrow> (c # l) # ls))"

definition line_event :: "string \<Rightarrow> getln_event" where
  "line_event l = GlLine l (l \<noteq> [] \<and> last l = LF)"

lemma concat_file_lines: "concat (file_lines d) = d"
  by (induction d) (auto split: list.splits)

lemma file_lines_nonempty: "l \<in> set (file_lines d) \<Longrightarrow> l \<noteq> []"
  by (induction d arbitrary: l) (auto split: list.splits if_splits)

lemma file_lines_snoc: "LF \<notin> set l \<Longrightarrow> file_lines (l @ LF # d) = (l @ [LF]) # file_lines d"
  by (induction l) auto

subsection \<open>What libqmail promises\<close>

definition digit_val :: "char \<Rightarrow> nat" where
  "digit_val c = (if c \<in> set ''abcdef'' then of_char c - 87 else of_char c - 48)"

definition numval :: "nat \<Rightarrow> string \<Rightarrow> nat" where
  "numval b s = foldl (\<lambda>n c. b * n + digit_val c) 0 s"

locale qmail =
  fixes L :: "'o qlib"
    and sent :: "'o \<Rightarrow> string"
    and good :: "'o \<Rightarrow> bool"
  assumes sput_good: "good o1 \<Longrightarrow> \<exists>o2. sput L o1 s = Some o2 \<and> sent o2 = sent o1 @ s \<and> good o2"
    and sflush_good: "good o1 \<Longrightarrow> \<exists>o2. sflush L o1 = Some o2 \<and> sent o2 = sent o1 \<and> good o2"
    and xlong_digits: "fmt_xlong L n \<noteq> [] \<and> set (fmt_xlong L n) \<subseteq> set ''0123456789abcdef''"
    and xlong_val: "numval 16 (fmt_xlong L n) = n"
    and xlong_length: "n < 16 ^ k \<Longrightarrow> 0 < k \<Longrightarrow> length (fmt_xlong L n) \<le> k"
    and ulong_digits: "fmt_ulong L n \<noteq> [] \<and> set (fmt_ulong L n) \<subseteq> set ''0123456789''"
    and ulong_val: "numval 10 (fmt_ulong L n) = n"
    and fmt_int_ulong: "fmt_int L (int n) = fmt_ulong L n"
    and getlns_ok: "read_all es = (d, True) \<Longrightarrow> getlns L es = map line_event (file_lines d)"
    and getlns_err: "read_all es = (d, False) \<Longrightarrow>
      getlns L es = map line_event (filter (\<lambda>l. last l = LF) (file_lines d)) @ [GlErr]"
    and rchr_last: "c \<notin> set t \<Longrightarrow> str_rchr L (s @ c # t) c = length s"
    and rchr_none: "c \<notin> set s \<Longrightarrow> str_rchr L s c = length s"
begin

lemma put_good: "good o1 \<Longrightarrow> \<exists>o2. put_or_die L code o1 s = Ret o2 \<and> sent o2 = sent o1 @ s \<and> good o2"
  using sput_good[of o1 s] by (auto simp: put_or_die_def)

lemma flush_good: "good o1 \<Longrightarrow> \<exists>o2. flush_or_die L code o1 = Ret o2 \<and> sent o2 = sent o1 \<and> good o2"
  using sflush_good[of o1] by (auto simp: flush_or_die_def)

lemma puts_good:
  "good o1 \<Longrightarrow> \<exists>o2. puts_or_die L code o1 ss = Ret o2 \<and> sent o2 = sent o1 @ concat ss \<and> good o2"
proof (induction ss arbitrary: o1)
  case (Cons s ss)
  obtain o2 where o2: "put_or_die L code o1 s = Ret o2" "sent o2 = sent o1 @ s" "good o2"
    using put_good[OF Cons.prems] by blast
  then show ?case using Cons.IH[OF o2(3)] by auto
qed simp

end

subsection \<open>A reference implementation\<close>

fun allwrite :: "write_result list \<Rightarrow> string \<Rightarrow> string \<Rightarrow> out_t option" where
  "allwrite [] d s = Some \<lparr>odata = d @ s, oplan = []\<rparr>"
| "allwrite (WFail # ps) d s = (if s = [] then Some \<lparr>odata = d, oplan = WFail # ps\<rparr> else None)"
| "allwrite (WShort n # ps) d s = (if s = [] then Some \<lparr>odata = d, oplan = WShort n # ps\<rparr>
     else allwrite ps (d @ take n s) (drop n s))"

fun digits :: "nat \<Rightarrow> nat \<Rightarrow> string" where
  "digits b n = (if b < 2 \<or> n < b then [''0123456789abcdef'' ! n] else digits b (n div b) @ [''0123456789abcdef'' ! (n mod b)])"

declare digits.simps [simp del]

definition ref_getlns :: "rd_event list \<Rightarrow> getln_event list" where
  "ref_getlns es = (case read_all es of (d, ok) \<Rightarrow>
     if ok then map line_event (file_lines d)
     else map line_event (filter (\<lambda>l. last l = LF) (file_lines d)) @ [GlErr])"

definition ref_rchr :: "string \<Rightarrow> char \<Rightarrow> nat" where
  "ref_rchr s c = (if c \<in> set s then length s - length (takeWhile (\<lambda>d. d \<noteq> c) (rev s)) - 1 else length s)"

definition qref :: "out_t qlib" where
  "qref = \<lparr>sput = (\<lambda>o1 s. allwrite (oplan o1) (odata o1) s), sflush = Some,
     fmt_xlong = digits 16, fmt_ulong = digits 10,
     fmt_int = (\<lambda>n. if n < 0 then CHR ''-'' # digits 10 (nat (- n)) else digits 10 (nat n)), getlns = ref_getlns,
     scan_long = (\<lambda>s. int (numval 10 (takeWhile (\<lambda>c. c \<in> set ''0123456789'') s))), str_rchr = ref_rchr\<rparr>"

lemma qref_sel [simp]:
  "sput qref o1 s = allwrite (oplan o1) (odata o1) s" "sflush qref = Some"
  "fmt_xlong qref = digits 16" "fmt_ulong qref = digits 10" "getlns qref = ref_getlns" "fmt_int qref (int n) = digits 10 n" "str_rchr qref = ref_rchr"
  by (simp_all add: qref_def)

lemma digit_vals: "map digit_val ''0123456789abcdef'' = [0..<16]"
  by (simp add: digit_val_def of_char_def upt_conv_Cons)

lemma digit_val_nth: "n < 16 \<Longrightarrow> digit_val (''0123456789abcdef'' ! n) = n"
  using arg_cong[OF digit_vals, of "\<lambda>xs. xs ! n"] nth_map[of n "''0123456789abcdef''" digit_val] nth_upt[of 0 n 16] by simp

lemma numval_snoc: "n < 16 \<Longrightarrow> numval b (s @ [''0123456789abcdef'' ! n]) = b * numval b s + n"
  by (simp add: numval_def digit_val_nth)

lemma digits_set: "2 \<le> b \<Longrightarrow> b \<le> 16 \<Longrightarrow> digits b n \<noteq> [] \<and> set (digits b n) \<subseteq> set (take b ''0123456789abcdef'')"
proof (induction b n rule: digits.induct)
  case (1 b n)
  have "''0123456789abcdef'' ! m \<in> set (take b ''0123456789abcdef'')" if "m < b" for m
    using that 1(3) nth_mem[of m "take b ''0123456789abcdef''"] by simp
  then show ?case using 1 digits.simps[of b n] by auto
qed

lemma digits_val: "2 \<le> b \<Longrightarrow> b \<le> 16 \<Longrightarrow> numval b (digits b n) = n"
proof (induction b n rule: digits.induct)
  case (1 b n)
  show ?case
  proof (cases "n < b")
    case True
    then show ?thesis using numval_snoc[of n b "[]"] digits.simps[of b n] 1 by (simp add: numval_def)
  next
    case False
    then have "n mod b < 16" using 1 by (meson mod_less_divisor order.strict_trans2 less_le_trans zero_less_numeral)
    then show ?thesis using 1 False numval_snoc[of "n mod b" b "digits b (n div b)"] digits.simps[of b n] by simp
  qed
qed

lemma digits_length: "n < 16 ^ k \<Longrightarrow> 0 < k \<Longrightarrow> length (digits 16 n) \<le> k"
proof (induction k arbitrary: n)
  case (Suc k)
  show ?case
  proof (cases "n < 16")
    case False
    then have "n div 16 < 16 ^ k" "0 < k" using Suc.prems by (auto simp: less_mult_imp_div_less mult.commute intro: gr0I)
    then show ?thesis using Suc.IH[of "n div 16"] False digits.simps[of 16 n] by simp
  qed (simp add: digits.simps)
qed simp

lemma ref_rchr_last: "c \<notin> set t \<Longrightarrow> ref_rchr (s @ c # t) c = length s"
  using takeWhile_neq_append[of c "rev t" "rev s"] by (simp add: ref_rchr_def)

lemma ref_rchr_none: "c \<notin> set s \<Longrightarrow> ref_rchr s c = length s"
  by (simp add: ref_rchr_def)

interpretation ref: qmail qref odata "\<lambda>o1. oplan o1 = []"
proof unfold_locales
  show "\<And>o1 s. oplan o1 = [] \<Longrightarrow> \<exists>o2. sput qref o1 s = Some o2 \<and> odata o2 = odata o1 @ s \<and> oplan o2 = []"
    by simp
  show "\<And>o1. oplan o1 = [] \<Longrightarrow> \<exists>o2. sflush qref o1 = Some o2 \<and> odata o2 = odata o1 \<and> oplan o2 = []"
    by simp
qed (use digits_set[of 16] digits_set[of 10] digits_val digits_length in \<open>auto simp: ref_getlns_def ref_rchr_last ref_rchr_none\<close>)

end
