(* ===== verification/Crc_Table.thy ===== *)
theory Crc_Table
  imports Main "HOL-Library.Word"
begin

text \<open>
  The table of \<^verbatim>\<open>crc.c\<close> and the polynomial it stands for: the generator (\<open>BIT\<close>, \<open>SBIT\<close>, \<open>GEN\<close>,
  \<open>fill_r\<close>, \<open>remainder\<close>, the part compiled with \<^verbatim>\<open>CRCTAB\<close>), the constant array \<open>crctab\<close> and one step of
  the byte loop. The lemmas show that the generator produces the array, that a step over a byte is eight
  steps of the division by the polynomial, and that the register is an injective function of up to four
  consecutive bytes.
\<close>

unbundle bit_operations_syntax

type_synonym u8 = "8 word"
type_synonym u32 = "32 word"
type_synonym u64 = "64 word"

subsection \<open>The generator of the table\<close>

definition BIT :: "nat \<Rightarrow> u64" where
  "BIT x = push_bit x 1"

definition SBIT :: u64 where
  "SBIT = BIT 31"

definition GEN :: u64 where
  "GEN = BIT 26 OR BIT 23 OR BIT 22 OR BIT 16 OR BIT 12 OR BIT 11 OR BIT 10 OR
     BIT 8 OR BIT 7 OR BIT 5 OR BIT 4 OR BIT 2 OR BIT 1 OR BIT 0"

fun fill_loop :: "nat \<Rightarrow> nat \<Rightarrow> u64 list \<Rightarrow> u64 list" where
  "fill_loop 0 i r = r"
| "fill_loop (Suc n) i r = fill_loop n (i + 1)
     (r[i := if r ! (i - 1) AND SBIT \<noteq> 0 then push_bit 1 (r ! (i - 1)) XOR r ! 0 else push_bit 1 (r ! (i - 1))])"

definition fill_r :: "u64 list \<Rightarrow> u64 list" where
  "fill_r r = fill_loop 7 1 (r[0 := GEN])"

fun remainder_loop :: "u64 list \<Rightarrow> nat \<Rightarrow> nat \<Rightarrow> u64" where
  "remainder_loop r m 0 = 0"
| "remainder_loop r m (Suc i) =
     (let rem = remainder_loop r m i in if BIT i AND of_nat m \<noteq> 0 then rem XOR r ! i else rem)"

definition remainder :: "u64 list \<Rightarrow> nat \<Rightarrow> u64" where
  "remainder r m = remainder_loop r m 8 AND 0xFFFFFFFF"

definition crctab :: "u64 list" where
  "crctab = [
    0x0, 0x04c11db7, 0x09823b6e, 0x0d4326d9, 0x130476dc, 0x17c56b6b, 0x1a864db2, 0x1e475005,
    0x2608edb8, 0x22c9f00f, 0x2f8ad6d6, 0x2b4bcb61, 0x350c9b64, 0x31cd86d3, 0x3c8ea00a, 0x384fbdbd,
    0x4c11db70, 0x48d0c6c7, 0x4593e01e, 0x4152fda9, 0x5f15adac, 0x5bd4b01b, 0x569796c2, 0x52568b75,
    0x6a1936c8, 0x6ed82b7f, 0x639b0da6, 0x675a1011, 0x791d4014, 0x7ddc5da3, 0x709f7b7a, 0x745e66cd,
    0x9823b6e0, 0x9ce2ab57, 0x91a18d8e, 0x95609039, 0x8b27c03c, 0x8fe6dd8b, 0x82a5fb52, 0x8664e6e5,
    0xbe2b5b58, 0xbaea46ef, 0xb7a96036, 0xb3687d81, 0xad2f2d84, 0xa9ee3033, 0xa4ad16ea, 0xa06c0b5d,
    0xd4326d90, 0xd0f37027, 0xddb056fe, 0xd9714b49, 0xc7361b4c, 0xc3f706fb, 0xceb42022, 0xca753d95,
    0xf23a8028, 0xf6fb9d9f, 0xfbb8bb46, 0xff79a6f1, 0xe13ef6f4, 0xe5ffeb43, 0xe8bccd9a, 0xec7dd02d,
    0x34867077, 0x30476dc0, 0x3d044b19, 0x39c556ae, 0x278206ab, 0x23431b1c, 0x2e003dc5, 0x2ac12072,
    0x128e9dcf, 0x164f8078, 0x1b0ca6a1, 0x1fcdbb16, 0x018aeb13, 0x054bf6a4, 0x0808d07d, 0x0cc9cdca,
    0x7897ab07, 0x7c56b6b0, 0x71159069, 0x75d48dde, 0x6b93dddb, 0x6f52c06c, 0x6211e6b5, 0x66d0fb02,
    0x5e9f46bf, 0x5a5e5b08, 0x571d7dd1, 0x53dc6066, 0x4d9b3063, 0x495a2dd4, 0x44190b0d, 0x40d816ba,
    0xaca5c697, 0xa864db20, 0xa527fdf9, 0xa1e6e04e, 0xbfa1b04b, 0xbb60adfc, 0xb6238b25, 0xb2e29692,
    0x8aad2b2f, 0x8e6c3698, 0x832f1041, 0x87ee0df6, 0x99a95df3, 0x9d684044, 0x902b669d, 0x94ea7b2a,
    0xe0b41de7, 0xe4750050, 0xe9362689, 0xedf73b3e, 0xf3b06b3b, 0xf771768c, 0xfa325055, 0xfef34de2,
    0xc6bcf05f, 0xc27dede8, 0xcf3ecb31, 0xcbffd686, 0xd5b88683, 0xd1799b34, 0xdc3abded, 0xd8fba05a,
    0x690ce0ee, 0x6dcdfd59, 0x608edb80, 0x644fc637, 0x7a089632, 0x7ec98b85, 0x738aad5c, 0x774bb0eb,
    0x4f040d56, 0x4bc510e1, 0x46863638, 0x42472b8f, 0x5c007b8a, 0x58c1663d, 0x558240e4, 0x51435d53,
    0x251d3b9e, 0x21dc2629, 0x2c9f00f0, 0x285e1d47, 0x36194d42, 0x32d850f5, 0x3f9b762c, 0x3b5a6b9b,
    0x0315d626, 0x07d4cb91, 0x0a97ed48, 0x0e56f0ff, 0x1011a0fa, 0x14d0bd4d, 0x19939b94, 0x1d528623,
    0xf12f560e, 0xf5ee4bb9, 0xf8ad6d60, 0xfc6c70d7, 0xe22b20d2, 0xe6ea3d65, 0xeba91bbc, 0xef68060b,
    0xd727bbb6, 0xd3e6a601, 0xdea580d8, 0xda649d6f, 0xc423cd6a, 0xc0e2d0dd, 0xcda1f604, 0xc960ebb3,
    0xbd3e8d7e, 0xb9ff90c9, 0xb4bcb610, 0xb07daba7, 0xae3afba2, 0xaafbe615, 0xa7b8c0cc, 0xa379dd7b,
    0x9b3660c6, 0x9ff77d71, 0x92b45ba8, 0x9675461f, 0x8832161a, 0x8cf30bad, 0x81b02d74, 0x857130c3,
    0x5d8a9099, 0x594b8d2e, 0x5408abf7, 0x50c9b640, 0x4e8ee645, 0x4a4ffbf2, 0x470cdd2b, 0x43cdc09c,
    0x7b827d21, 0x7f436096, 0x7200464f, 0x76c15bf8, 0x68860bfd, 0x6c47164a, 0x61043093, 0x65c52d24,
    0x119b4be9, 0x155a565e, 0x18197087, 0x1cd86d30, 0x029f3d35, 0x065e2082, 0x0b1d065b, 0x0fdc1bec,
    0x3793a651, 0x3352bbe6, 0x3e119d3f, 0x3ad08088, 0x2497d08d, 0x2056cd3a, 0x2d15ebe3, 0x29d4f654,
    0xc5a92679, 0xc1683bce, 0xcc2b1d17, 0xc8ea00a0, 0xd6ad50a5, 0xd26c4d12, 0xdf2f6bcb, 0xdbee767c,
    0xe3a1cbc1, 0xe760d676, 0xea23f0af, 0xeee2ed18, 0xf0a5bd1d, 0xf464a0aa, 0xf9278673, 0xfde69bc4,
    0x89b8fd09, 0x8d79e0be, 0x803ac667, 0x84fbdbd0, 0x9abc8bd5, 0x9e7d9662, 0x933eb0bb, 0x97ffad0c,
    0xafb010b1, 0xab710d06, 0xa6322bdf, 0xa2f33668, 0xbcb4666d, 0xb8757bda, 0xb5365d03, 0xb1f740b4]"



definition crc_step :: "u32 \<Rightarrow> u8 \<Rightarrow> u32" where
  "crc_step crc b = push_bit 8 crc XOR ucast (crctab ! unat ((drop_bit 24 crc XOR scast b) AND 0xFF))"

definition span_step :: "u64 \<Rightarrow> u64 list \<Rightarrow> u64 list" where
  "span_step x t = t @ map (\<lambda>y. y XOR x) t"

lemma span_linear:
  assumes "\<And>m n. n < N \<Longrightarrow> m < 2 ^ n \<Longrightarrow> T (m + 2 ^ n) = T m XOR T (2 ^ n)" and "T 0 = 0"
  shows "n \<le> N \<Longrightarrow> map T [0..<2 ^ n] = fold span_step (map (\<lambda>i. T (2 ^ i)) [0..<n]) [0]"
proof (induction n)
  case (Suc n)
  have "[0..<2 ^ Suc n] = [0..<2 ^ n] @ map (\<lambda>m. m + 2 ^ n) [0..<2 ^ n]"
    by (simp add: map_add_upt upt_add_eq_append[symmetric] mult_2)
  moreover have "map (T \<circ> (\<lambda>m. m + 2 ^ n)) [0..<2 ^ n] = map (\<lambda>y. y XOR T (2 ^ n)) (map T [0..<2 ^ n])"
    using assms(1)[of n] Suc.prems by simp
  ultimately have "map T [0..<2 ^ Suc n] = span_step (T (2 ^ n)) (map T [0..<2 ^ n])"
    by (simp only: span_step_def map_append map_map)
  then show ?case using Suc by simp
qed (use assms(2) in simp)

lemma crctab_span:
  "crctab = fold span_step [0x04c11db7, 0x09823b6e, 0x130476dc, 0x2608edb8, 0x4c11db70, 0x9823b6e0, 0x34867077, 0x690ce0ee] [0]"
  by (simp add: crctab_def span_step_def)


lemma low_plus_power: "(m::nat) < 2 ^ n \<Longrightarrow> m + 2 ^ n = m XOR 2 ^ n"
  by (rule disjunctive_add_eq_xor) (metis and_exp_eq_0_iff_not_bit bit_take_bit_iff less_irrefl take_bit_nat_eq_self)

lemma BIT_test: "i < 64 \<Longrightarrow> BIT i AND of_nat k \<noteq> 0 \<longleftrightarrow> bit k i"
  by (simp add: BIT_def and.commute[of "2 ^ i"] and_exp_eq_0_iff_not_bit bit_simps)

lemma xor_select: "(if p \<noteq> q then (a XOR b) XOR x else a XOR b)
    = (if p then a XOR x else a) XOR (if q then b XOR x else b)" for a b x :: "'a::len word"
  by (rule bit_word_eqI) (auto simp: bit_simps)

lemma remainder_loop_xor:
  "n \<le> 64 \<Longrightarrow> remainder_loop r (m XOR k) n = remainder_loop r m n XOR remainder_loop r k n"
proof (induction n)
  case (Suc n)
  then show ?case using xor_select[of "bit m n" "bit k n" "remainder_loop r m n" "remainder_loop r k n" "r ! n"]
    by (simp add: BIT_test bit_xor_iff Let_def del: of_nat_xor_eq)
qed simp

lemma remainder_loop_power:
  "n \<le> 64 \<Longrightarrow> remainder_loop r (2 ^ j) n = (if j < n then r ! j else 0)"
  by (induction n) (auto simp: BIT_test bit_exp_iff less_Suc_eq Let_def simp del: of_nat_power)

lemma and_xor_distrib: "(a XOR b) AND c = (a AND c) XOR (b AND (c::'a::len word))"
  by (rule bit_word_eqI) (auto simp: bit_simps)

lemma remainder_xor: "remainder r (m XOR k) = remainder r m XOR remainder r k"
  by (simp add: remainder_def remainder_loop_xor and_xor_distrib)

lemma remainder_power: "i < 8 \<Longrightarrow> remainder r (2 ^ i) = r ! i AND 0xFFFFFFFF"
  by (simp add: remainder_def remainder_loop_power)

definition poly_step :: "u32 \<Rightarrow> u32" where
  "poly_step c = (if bit c 31 then push_bit 1 c XOR 0x04c11db7 else push_bit 1 c)"

lemma poly_step_xor: "poly_step (a XOR b) = poly_step a XOR poly_step b"
  by (simp add: poly_step_def bit_xor_iff push_bit_xor) (simp add: ac_simps flip: xor.assoc)


lemma filled:
  "map (\<lambda>x. x AND 0xFFFFFFFF) (fill_r (replicate 8 0))
     = [0x04c11db7, 0x09823b6e, 0x130476dc, 0x2608edb8, 0x4c11db70, 0x9823b6e0, 0x34867077, 0x690ce0ee]"
  by code_simp

lemma crctab_generated: "crctab = map (remainder (fill_r (replicate 8 0))) [0..<256]"
proof -
  let ?r = "fill_r (replicate 8 0)"
  have "length ?r = 8" by (simp add: fill_r_def eval_nat_numeral)
  then have "map (\<lambda>i. remainder ?r (2 ^ i)) [0..<8] = map (\<lambda>x. x AND 0xFFFFFFFF) ?r"
    by (intro nth_equalityI) (simp_all add: remainder_power)
  moreover have "remainder ?r 0 = 0" using remainder_xor[of ?r 0 0] by simp
  ultimately show ?thesis
    using span_linear[of 8 "remainder ?r" 8] filled crctab_span by (simp add: low_plus_power remainder_xor)
qed

lemma poly_step_zero [simp]: "poly_step 0 = 0"
  by (simp add: poly_step_def)

lemma poly_steps_zero [simp]: "(poly_step ^^ n) 0 = 0"
  by (induction n) simp_all

lemma poly_steps_xor: "(poly_step ^^ n) (a XOR b) = (poly_step ^^ n) a XOR (poly_step ^^ n) b"
  by (induction n) (simp_all add: poly_step_xor)

lemma poly_steps_low:
  assumes "n \<le> 32" "\<And>i. 32 - n \<le> i \<Longrightarrow> \<not> bit c i"
  shows "(poly_step ^^ n) c = push_bit n c"
  using assms
proof (induction n)
  case (Suc n)
  then have "\<not> bit (push_bit n c) 31" using Suc.prems(2)[of "31 - n"] by (simp add: bit_simps)
  then show ?case using Suc by (simp add: poly_step_def push_bit_Suc)
qed simp

definition table_ref :: "nat \<Rightarrow> u64" where
  "table_ref k = ucast ((poly_step ^^ 8) (push_bit 24 (of_nat k)))"

lemma table_ref_linear: "m < 2 ^ n \<Longrightarrow> table_ref (m + 2 ^ n) = table_ref m XOR table_ref (2 ^ n)"
  unfolding table_ref_def low_plus_power of_nat_xor_eq push_bit_xor poly_steps_xor
  by (simp add: bit_eq_iff bit_simps)


lemma poly_steps_8: "(poly_step ^^ 8) c
    = poly_step (poly_step (poly_step (poly_step (poly_step (poly_step (poly_step (poly_step c)))))))"
  by (simp add: eval_nat_numeral)

lemma table_ref_basis:
  "map (\<lambda>i. table_ref (2 ^ i)) [0..<8]
     = [0x04c11db7, 0x09823b6e, 0x130476dc, 0x2608edb8, 0x4c11db70, 0x9823b6e0, 0x34867077, 0x690ce0ee]"
  by (simp add: upt_conv_Cons table_ref_def poly_steps_8 poly_step_def)

lemma crctab_ref:
  assumes "k < 256"
  shows "crctab ! k = table_ref k"
proof -
  have "map table_ref [0..<2 ^ 8] = crctab"
    unfolding crctab_span table_ref_basis[symmetric]
    by (rule span_linear[of 8]) (simp_all add: table_ref_linear, simp add: table_ref_def)
  then show ?thesis using assms nth_map_upt[of k 256 0 table_ref] by (simp del: upt_conv_Cons)
qed

lemma ucast_twice: "ucast (ucast w :: u64) = (w :: u32)"
  by (rule bit_word_eqI) (simp add: bit_simps)

lemma crc_step_ref: "crc_step c b = (poly_step ^^ 8) (c XOR push_bit 24 (ucast b))"
proof -
  define k :: u32 where "k = (drop_bit 24 c XOR scast b) AND 0xFF"
  have mask8: "(0xFF::u32) = mask 8" by (simp add: mask_eq_exp_minus_1)
  have bk: "bit k i \<longleftrightarrow> i < 8 \<and> (bit c (24 + i) \<noteq> bit b i)" for i
    unfolding k_def mask8 by (cases "i = 7") (auto simp: bit_simps min_def)
  have "unat k < 2 ^ 8" unfolding k_def mask8 take_bit_eq_mask[symmetric] by (rule unsigned_take_bit_eq[THEN ssubst]) (simp add: take_bit_eq_mod)
  then have "crctab ! unat k = table_ref (unat k)" by (simp add: crctab_ref)
  then have "crc_step c b = push_bit 8 c XOR (poly_step ^^ 8) (push_bit 24 k)"
    by (simp add: crc_step_def table_ref_def ucast_twice flip: k_def)
  moreover have "push_bit 8 c = (poly_step ^^ 8) (take_bit 24 c)"
    by (subst poly_steps_low) (auto simp: bit_simps intro!: bit_word_eqI)
  moreover have "c XOR push_bit 24 (ucast b) = take_bit 24 c XOR push_bit 24 k"
    by (rule bit_word_eqI) (auto simp: bit_simps bk)
  ultimately show ?thesis by (simp add: poly_steps_xor)
qed

subsection \<open>Detection of changes\<close>

lemma poly_step_inj: "inj poly_step"
proof (rule injI)
  fix a b assume eq: "poly_step a = poly_step b"
  have "poly_step (a XOR b) = 0" using eq by (simp add: poly_step_xor)
  moreover have "bit (poly_step x) 0 \<longleftrightarrow> bit x 31" for x
    by (simp add: poly_step_def bit_simps bit_0 even_xor_iff)
  ultimately have top: "\<not> bit (a XOR b) 31" by (metis bit_0_eq bot_apply bot_bool_def)
  then have "push_bit 1 (a XOR b) = 0" using \<open>poly_step (a XOR b) = 0\<close> by (simp only: poly_step_def if_False)
  have "\<not> bit (a XOR b) i" for i
  proof (cases "i < 31")
    case True
    then have "bit (push_bit 1 (a XOR b)) (Suc i) \<longleftrightarrow> bit (a XOR b) i"
      by (simp only: bit_push_bit_iff) simp
    then show ?thesis using \<open>push_bit 1 (a XOR b) = 0\<close> by simp
  next
    case False
    then show ?thesis using top bit_imp_le_length[of "a XOR b" i] by (cases "i = 31") auto
  qed
  then show "a = b" by (intro bit_word_eqI) (simp add: bit_simps)
qed

definition crc_bytes :: "u32 \<Rightarrow> u8 list \<Rightarrow> u32" where
  "crc_bytes c bs = fold (\<lambda>b c. crc_step c b) bs c"

lemma crc_bytes_simps [simp]:
  "crc_bytes c [] = c" "crc_bytes c (b # bs) = crc_bytes (crc_step c b) bs"
  "crc_bytes c (xs @ ys) = crc_bytes (crc_bytes c xs) ys"
  by (simp_all add: crc_bytes_def)

lemma crc_step_inj: "inj (\<lambda>c. crc_step c b)"
proof (rule injI)
  fix c d assume "crc_step c b = crc_step d b"
  then have "c XOR push_bit 24 (ucast b) = d XOR push_bit 24 (ucast b)"
    using inj_fn[OF poly_step_inj, of 8] by (simp add: crc_step_ref inj_eq)
  then have "(c XOR push_bit 24 (ucast b)) XOR push_bit 24 (ucast b)
      = (d XOR push_bit 24 (ucast b)) XOR push_bit 24 (ucast b)" by simp
  then show "c = d" unfolding xor.assoc by simp
qed

lemma crc_bytes_inj: "crc_bytes c bs = crc_bytes d bs \<Longrightarrow> c = d"
proof (induction bs arbitrary: c d)
  case (Cons b bs)
  then show ?case using injD[OF crc_step_inj[of b], of c d] by simp
qed simp

fun pack :: "u8 list \<Rightarrow> u32" where
  "pack [] = 0"
| "pack (b # bs) = push_bit 24 (ucast b) XOR drop_bit 8 (pack bs)"

lemma pack_low: "i < 32 - 8 * length w \<Longrightarrow> \<not> bit (pack w) i"
  by (induction w arbitrary: i) (auto simp: bit_simps)

lemma crc_bytes_pack: "length w \<le> 4 \<Longrightarrow> crc_bytes c w = (poly_step ^^ (8 * length w)) (c XOR pack w)"
proof (induction w arbitrary: c)
  case (Cons b bs)
  let ?n = "8 * length bs" and ?d = "drop_bit 8 (pack bs)"
  have low: "(poly_step ^^ 8) ?d = pack bs"
  proof -
    have "(poly_step ^^ 8) ?d = push_bit 8 ?d"
      by (rule poly_steps_low) (auto simp: bit_simps dest: bit_imp_le_length)
    also have "\<dots> = pack bs"
    proof (rule bit_word_eqI)
      fix n
      show "bit (push_bit 8 ?d) n = bit (pack bs) n" using pack_low[of n bs] Cons.prems
        by (cases "8 \<le> n") (auto simp: bit_simps dest: bit_imp_le_length)
    qed
    finally show ?thesis .
  qed
  have "crc_bytes c (b # bs) = (poly_step ^^ ?n) ((poly_step ^^ 8) (c XOR push_bit 24 (ucast b)) XOR pack bs)"
    using Cons by (simp add: crc_step_ref)
  also have "\<dots> = (poly_step ^^ ?n) ((poly_step ^^ 8) (c XOR push_bit 24 (ucast b) XOR ?d))"
    by (simp add: low poly_steps_xor xor.assoc)
  also have "\<dots> = (poly_step ^^ (?n + 8)) (c XOR pack (b # bs))" by (simp add: funpow_add xor.assoc)
  finally show ?case by (simp add: add.commute)
qed simp

lemma pack_inj: "length v = length w \<Longrightarrow> length w \<le> 4 \<Longrightarrow> pack v = pack w \<Longrightarrow> v = w"
proof (induction v w rule: list_induct2)
  case (Cons a as b bs)
  have top: "bit (pack (x # xs)) (24 + i) = bit x i" if "i < 8" for x xs i
    using that by (auto simp: bit_simps dest: bit_imp_le_length)
  have rest: "bit (pack (x # xs)) i = bit (pack xs) (8 + i)" if "i < 24" for x xs i
    using that by (simp add: bit_simps)
  have "a = b" using top[of _ a as] top[of _ b bs] Cons.prems(2) by (intro bit_word_eqI) simp
  moreover have "pack as = pack bs"
  proof (rule bit_word_eqI)
    fix n assume "n < LENGTH(32)"
    then show "bit (pack as) n = bit (pack bs) n"
    proof (cases "n < 8")
      case True
      then show ?thesis using pack_low[of n as] pack_low[of n bs] Cons by simp
    next
      case False
      then show ?thesis using rest[of "n - 8" a as] rest[of "n - 8" b bs] Cons.prems(2) \<open>n < LENGTH(32)\<close> by simp
    qed
  qed
  ultimately show ?case using Cons by simp
qed simp

lemma crc_burst:
  assumes "length v = length w" "length w \<le> 4" "crc_bytes c (xs @ v @ ys) = crc_bytes c (xs @ w @ ys)"
  shows "v = w"
proof -
  have "crc_bytes (crc_bytes c xs) v = crc_bytes (crc_bytes c xs) w" using assms(3) crc_bytes_inj by simp
  then have "crc_bytes c xs XOR pack v = crc_bytes c xs XOR pack w"
    using assms inj_fn[OF poly_step_inj] by (simp add: crc_bytes_pack inj_eq)
  then have "crc_bytes c xs XOR (crc_bytes c xs XOR pack v) = crc_bytes c xs XOR (crc_bytes c xs XOR pack w)" by simp
  then have "pack v = pack w" by (simp flip: xor.assoc)
  then show ?thesis using assms pack_inj by simp
qed

subsection \<open>Division bit by bit\<close>

definition crc_bits :: "u32 \<Rightarrow> bool list \<Rightarrow> u32" where
  "crc_bits c bs = fold (\<lambda>b c. poly_step (c XOR (if b then 0x80000000 else 0))) bs c"

definition byte_bits :: "u8 \<Rightarrow> bool list" where
  "byte_bits b = map (bit b) [7, 6, 5, 4, 3, 2, 1, 0]"

lemma crc_bits_append: "crc_bits c (xs @ ys) = crc_bits (crc_bits c xs) ys"
  by (simp add: crc_bits_def)

lemma top_bit: "i < 32 \<Longrightarrow> (if p then 0x80000000 else 0 :: u32) = (poly_step ^^ i) (if p then push_bit (31 - i) 1 else 0)"
proof (cases p)
  case True
  assume "i < 32"
  then have "(poly_step ^^ i) (push_bit (31 - i) 1) = push_bit i (push_bit (31 - i) 1)"
    by (intro poly_steps_low) (auto simp: bit_simps)
  also have "\<dots> = push_bit 31 1" using \<open>i < 32\<close> by (simp only: push_bit_push_bit) simp
  finally show ?thesis using True by simp
qed simp

lemma crc_bits_top:
  "n \<le> 32 \<Longrightarrow> crc_bits c (map (\<lambda>i. bit v (31 - i)) [0..<n]) = (poly_step ^^ n) (c XOR (v AND push_bit (32 - n) (mask n)))"
proof (induction n)
  case (Suc n)
  have split: "v AND push_bit (32 - Suc n) (mask (Suc n)) = (v AND push_bit (32 - n) (mask n)) XOR (if bit v (31 - n) then push_bit (31 - n) 1 else 0)"
  proof (rule bit_word_eqI)
    fix i :: nat
    assume "i < LENGTH(32)"
    then show "bit (v AND push_bit (32 - Suc n) (mask (Suc n))) i
      = bit ((v AND push_bit (32 - n) (mask n)) XOR (if bit v (31 - n) then push_bit (31 - n) 1 else 0)) i"
      using Suc.prems by (cases "i = 31 - n") (auto simp: bit_simps)
  qed
  let ?a = "v AND push_bit (32 - n) (mask n)" and ?p = "if bit v (31 - n) then push_bit (31 - n) 1 else 0"
  have "crc_bits c (map (\<lambda>i. bit v (31 - i)) [0..<Suc n])
      = poly_step (crc_bits c (map (\<lambda>i. bit v (31 - i)) [0..<n]) XOR (if bit v (31 - n) then 0x80000000 else 0))"
    by (simp add: crc_bits_def)
  also have "\<dots> = poly_step ((poly_step ^^ n) (c XOR ?a) XOR (poly_step ^^ n) ?p)"
    using Suc top_bit[of n "bit v (31 - n)"] by simp
  also have "\<dots> = (poly_step ^^ Suc n) (c XOR (?a XOR ?p))"
    by (simp only: funpow.simps comp_apply poly_steps_xor xor.assoc)
  finally show ?case by (simp only: split)
qed (simp add: crc_bits_def)

lemma crc_step_bits: "crc_step c b = crc_bits c (byte_bits b)"
proof -
  let ?v = "push_bit 24 (ucast b) :: u32"
  have "byte_bits b = map (\<lambda>i. bit ?v (31 - i)) [0..<8]"
    by (simp add: byte_bits_def bit_simps upt_conv_Cons)
  moreover have "?v AND push_bit (32 - 8) (mask 8) = ?v"
    by (rule bit_word_eqI) (auto simp: bit_simps dest: bit_imp_le_length)
  ultimately show ?thesis using crc_bits_top[of 8 c ?v] by (simp add: crc_step_ref)
qed

lemma crc_bytes_bits: "crc_bytes c bs = crc_bits c (concat (map byte_bits bs))"
  by (induction bs arbitrary: c) (simp_all add: crc_step_bits crc_bits_append, simp add: crc_bits_def)
end
