(* ===== verification/Crc_Sum.thy ===== *)
theory Crc_Sum
  imports Process Crc_Table
begin

text \<open>
  The checksum of one file, \<^verbatim>\<open>crc.c\<close>: the loops of \<open>byte_crc\<close>, \<open>line_crc\<close> and \<open>special_file_crc\<close> and
  the line they print. File contents arrive as the results of the \<open>read\<close> calls.
\<close>

unbundle bit_operations_syntax

abbreviation byte_of :: "char \<Rightarrow> u8" where
  "byte_of c \<equiv> of_char c"

subsection \<open>The bytes and the length\<close>

definition crc_char :: "u32 \<Rightarrow> char \<Rightarrow> u32" where
  "crc_char crc c = crc_step crc (byte_of c)"

definition crc_data :: "u32 \<Rightarrow> string \<Rightarrow> u32" where
  "crc_data crc s = fold (\<lambda>c crc. crc_char crc c) s crc"

function crc_length :: "u32 \<Rightarrow> u32 \<Rightarrow> u32" where
  "crc_length crc n = (if 0 < n
     then crc_length (push_bit 8 crc XOR ucast (crctab ! unat ((drop_bit 24 crc XOR n) AND 0xFF))) (drop_bit 8 n)
     else crc)"
  by auto
termination
proof (relation "measure (\<lambda>(crc, n). unat n)")
  fix n :: u32
  assume "0 < n"
  then have "unat n \<noteq> 0" by (simp add: word_neq_0_conv unat_eq_0)
  then have "unat n div 2 ^ 8 < unat n" by simp
  then show "((push_bit 8 crc XOR ucast (crctab ! unat ((drop_bit 24 crc XOR n) AND 0xFF)), drop_bit 8 n), crc, n)
      \<in> measure (\<lambda>(crc, n). unat n)" for crc
    by (simp add: drop_bit_eq_div unat_div_distrib)
qed simp

declare crc_length.simps [simp del]

definition crc_final :: "u32 \<Rightarrow> u32 \<Rightarrow> u32" where
  "crc_final crc n = NOT (crc_length crc n) AND 0xFFFFFFFF"

text \<open>The result of the loop over the \<open>read\<close> calls: \<open>None\<close> when one fails, else the register and the number
  of bytes read as a 32-bit counter; and the line counter.\<close>

definition count_newlines :: "string \<Rightarrow> nat" where
  "count_newlines s = length (filter (\<lambda>c. c = LF) s)"

definition add_lines :: "u64 option \<Rightarrow> nat \<Rightarrow> u64 option" where
  "add_lines lcount n = map_option (\<lambda>l. l + of_nat n) lcount"

fun read_loop :: "rd_event list \<Rightarrow> u32 \<Rightarrow> u32 \<Rightarrow> u64 option \<Rightarrow> (u32 \<times> u32) option \<times> u64 option" where
  "read_loop [] crc n lcount = (Some (crc, n), lcount)"
| "read_loop (RdFail # es) crc n lcount = (None, lcount)"
| "read_loop (RdIntr # es) crc n lcount = read_loop es crc n lcount"
| "read_loop (RdData s # es) crc n lcount =
     (if s = [] then (Some (crc, n), lcount)
      else read_loop es (crc_data crc s) (n + of_nat (length s)) (add_lines lcount (count_newlines s)))"

definition CRC_ERROR :: u32 where
  "CRC_ERROR = - 1"

text \<open>Trimming of a line in line mode with \<open>-w\<close>. The pointer moves over the bytes of the line, which has
  no terminator; the count \<open>nr\<close> is an \<open>int\<close>.\<close>

definition is_trailing :: "char \<Rightarrow> bool" where
  "is_trailing c \<longleftrightarrow> c = LF \<or> c = CR \<or> c = TAB \<or> c = SP"

definition trim_tail :: "string \<Rightarrow> nat" where
  "trim_tail s = length s - length (takeWhile is_trailing (rev s))"

fun trim_lead :: "string \<Rightarrow> int \<Rightarrow> (string \<times> int) ub" where
  "trim_lead [] nr = None"
| "trim_lead (c # cs) nr = (if c = SP \<or> c = TAB then trim_lead cs (nr - 1) else Some (c # cs, nr))"

definition line_part :: "bool \<Rightarrow> string \<Rightarrow> (string \<times> int) ub" where
  "line_part opt_w s = (if opt_w then trim_lead s (int (trim_tail s)) else Some (s, int (length s)))"

definition line_sum :: "u64 \<Rightarrow> string \<Rightarrow> int \<Rightarrow> u32" where
  "line_sum init s nr = crc_final (crc_data (ucast init) (take (nat nr) s)) (word_of_int nr)"

fun line_loop :: "bool \<Rightarrow> u64 \<Rightarrow> getln_event list \<Rightarrow> u32 \<Rightarrow> u64 option \<Rightarrow> (u32 option \<times> u64 option) proc" where
  "line_loop opt_w init [] tot lcount = Ret (Some tot, lcount)"
| "line_loop opt_w init (GlErr # es) tot lcount = Ret (None, lcount)"
| "line_loop opt_w init (GlLine s m # es) tot lcount =
     (if s = [] then Ret (Some tot, lcount)
      else (case line_part opt_w s of
          None \<Rightarrow> Wild
        | Some (p, nr) \<Rightarrow>
            if nr = 0 then line_loop opt_w init es tot lcount
            else line_loop opt_w init es (tot + line_sum init p nr) (add_lines lcount 1)))"

subsection \<open>The mode string\<close>

definition mode_type :: "u32 \<Rightarrow> char" where
  "mode_type perm = (let t = perm AND 0xF000 in
     if t = 0x4000 then CHR ''d'' else if t = 0x6000 then CHR ''b'' else if t = 0x2000 then CHR ''c''
     else if t = 0x1000 then CHR ''p'' else if t = 0xA000 then CHR ''l'' else if t = 0xC000 then CHR ''s''
     else CHR ''-'')"

definition flag_char :: "u32 \<Rightarrow> u32 \<Rightarrow> char \<Rightarrow> char" where
  "flag_char perm m c = (if perm AND m \<noteq> 0 then c else CHR ''-'')"

definition exec_char :: "u32 \<Rightarrow> u32 \<Rightarrow> u32 \<Rightarrow> char \<Rightarrow> char \<Rightarrow> char" where
  "exec_char perm special ex both only =
     (if perm AND special \<noteq> 0 \<and> perm AND ex \<noteq> 0 then both
      else if perm AND ex \<noteq> 0 then CHR ''x''
      else if perm AND special \<noteq> 0 then only else CHR ''-'')"

definition perm_string :: "u32 \<Rightarrow> string" where
  "perm_string perm =
     [mode_type perm,
      flag_char perm 0x100 CHR ''r'', flag_char perm 0x80 CHR ''w'', exec_char perm 0x800 0x40 CHR ''s'' CHR ''S'',
      flag_char perm 0x20 CHR ''r'', flag_char perm 0x10 CHR ''w'', exec_char perm 0x400 0x08 CHR ''s'' CHR ''l'',
      flag_char perm 0x04 CHR ''r'', flag_char perm 0x02 CHR ''w'', exec_char perm 0x200 0x01 CHR ''t'' CHR ''T'']"

definition print_perm :: "'o qlib \<Rightarrow> u32 \<Rightarrow> 'o \<Rightarrow> 'o proc" where
  "print_perm L perm ssout =
     bindp (puts_or_die L 111 ssout ['' '', perm_string perm, '' ''])
       (\<lambda>ssout. flush_or_die L 111 ssout)"

text \<open>Reading the string back: the file type (0 for a regular or unknown one) and the twelve mode bits.\<close>

definition type_of_char :: "char \<Rightarrow> u32" where
  "type_of_char c = (if c = CHR ''d'' then 0x4000 else if c = CHR ''b'' then 0x6000 else if c = CHR ''c'' then 0x2000
     else if c = CHR ''p'' then 0x1000 else if c = CHR ''l'' then 0xA000 else if c = CHR ''s'' then 0xC000 else 0x8000)"

definition bits_of_exec :: "char \<Rightarrow> u32 \<Rightarrow> u32 \<Rightarrow> char \<Rightarrow> char \<Rightarrow> u32" where
  "bits_of_exec c special ex both only =
     (if c = both then special OR ex else if c = CHR ''x'' then ex else if c = only then special else 0)"

definition bits_of_flag :: "char \<Rightarrow> char \<Rightarrow> u32 \<Rightarrow> u32" where
  "bits_of_flag c x m = (if c = x then m else 0)"

fun parse_perm :: "string \<Rightarrow> u32" where
  "parse_perm [t, ur, uw, ux, gr, gw, gx, wr1, ww, wx] =
     type_of_char t OR bits_of_flag ur CHR ''r'' 0x100 OR bits_of_flag uw CHR ''w'' 0x80
       OR bits_of_exec ux 0x800 0x40 CHR ''s'' CHR ''S'' OR bits_of_flag gr CHR ''r'' 0x20
       OR bits_of_flag gw CHR ''w'' 0x10 OR bits_of_exec gx 0x400 0x08 CHR ''s'' CHR ''l''
       OR bits_of_flag wr1 CHR ''r'' 0x04 OR bits_of_flag ww CHR ''w'' 0x02
       OR bits_of_exec wx 0x200 0x01 CHR ''t'' CHR ''T''"
| "parse_perm _ = 0"

definition file_types :: "u32 list" where
  "file_types = [0x4000, 0x6000, 0x2000, 0x1000, 0xA000, 0xC000, 0x8000]"

lemma and_pow: "(p :: u32) AND 2 ^ i = (if bit p i then 2 ^ i else 0)" if "i < 32"
  using that by (intro bit_word_eqI) (auto simp: bit_simps)

lemma exec_bits:
  assumes "i < 32" "j < 32" "distinct [both, only, CHR ''x'', CHR ''-'']"
  shows "bits_of_exec (exec_char p (2 ^ i) (2 ^ j) both only) (2 ^ i) (2 ^ j) both only = p AND (2 ^ i OR 2 ^ j)"
proof -
  have "p AND (2 ^ i OR 2 ^ j) = (p AND 2 ^ i) OR (p AND 2 ^ j)" by (simp add: bit.conj_disj_distrib)
  then show ?thesis using assms by (auto simp: exec_char_def bits_of_exec_def and_pow)
qed

lemma flag_bits: "i < 32 \<Longrightarrow> c \<noteq> CHR ''-'' \<Longrightarrow> bits_of_flag (flag_char p (2 ^ i) c) c (2 ^ i) = p AND 2 ^ i"
  by (auto simp: flag_char_def bits_of_flag_def and_pow)

lemma type_bits: "p AND 0xF000 \<in> set file_types \<Longrightarrow> type_of_char (mode_type p) = p AND 0xF000"
  by (auto simp: mode_type_def type_of_char_def Let_def file_types_def)

lemma parse_perm_string:
  assumes "p AND 0xF000 \<in> set file_types"
  shows "parse_perm (perm_string p) = p AND 0xFFFF"
proof -
  have m: "p AND 0xFFFF = (p AND 0xF000) OR (p AND 2 ^ 8) OR (p AND 2 ^ 7) OR (p AND (2 ^ 11 OR 2 ^ 6)) OR (p AND 2 ^ 5)
     OR (p AND 2 ^ 4) OR (p AND (2 ^ 10 OR 2 ^ 3)) OR (p AND 2 ^ 2) OR (p AND 2 ^ 1) OR (p AND (2 ^ 9 OR 2 ^ 0))"
    by (simp flip: bit.conj_disj_distrib)
  show ?thesis
    unfolding m using type_bits[OF assms] exec_bits[of 11 6 "CHR ''s''" "CHR ''S''" p] exec_bits[of 10 3 "CHR ''s''" "CHR ''l''" p]
      exec_bits[of 9 0 "CHR ''t''" "CHR ''T''" p] flag_bits[of 8 "CHR ''r''" p] flag_bits[of 7 "CHR ''w''" p]
      flag_bits[of 5 "CHR ''r''" p] flag_bits[of 4 "CHR ''w''" p] flag_bits[of 2 "CHR ''r''" p] flag_bits[of 1 "CHR ''w''" p]
    by (simp add: perm_string_def or.assoc)
qed

subsection \<open>What the checksum is\<close>

lemma byte_of_inj: "byte_of c = byte_of d \<Longrightarrow> c = d"
proof -
  have "unat (byte_of x) = of_char x" for x :: char
    using of_char_of[of "of_char x"] nat_of_char_less_256[of x]
    by (simp add: unat_of_nat flip: of_nat_of_char[where 'a = u8])
  then show "byte_of c = byte_of d \<Longrightarrow> c = d" by (metis char_of_char)
qed

lemma crc_data_bytes: "crc_data crc s = crc_bytes crc (map byte_of s)"
  by (induction s arbitrary: crc) (simp_all add: crc_data_def crc_char_def)

lemma crc_data_append: "crc_data crc (s @ t) = crc_data (crc_data crc s) t"
  by (simp add: crc_data_def)

lemma add_lines_simps [simp]: "add_lines lc 0 = lc" "add_lines (add_lines lc m) n = add_lines lc (m + n)"
  by (cases lc; simp add: add_lines_def)+

lemma read_loop_all:
  "read_loop es crc n lc = (case read_all es of (d, ok) \<Rightarrow>
     (if ok then Some (crc_data crc d, n + of_nat (length d)) else None, add_lines lc (count_newlines d)))"
proof (induction es crc n lc rule: read_loop.induct)
  case (4 s es crc n lc)
  then show ?case
    by (auto simp: crc_data_append count_newlines_def algebra_simps split: prod.split) (simp_all add: crc_data_def)
qed (simp_all add: crc_data_def count_newlines_def)

text \<open>The length is hashed as its bytes, the lowest first, without leading zero bytes.\<close>

fun octets :: "nat \<Rightarrow> u8 list" where
  "octets n = (if n = 0 then [] else of_nat n # octets (n div 256))"

declare octets.simps [simp del]

lemma low_byte: "(c XOR n) AND 0xFF = (c XOR scast (ucast n :: u8)) AND (0xFF :: u32)"
proof -
  have mask8: "(0xFF::u32) = mask 8" by (simp add: mask_eq_exp_minus_1)
  show ?thesis unfolding mask8
  proof (rule bit_word_eqI)
    fix i
    show "bit ((c XOR n) AND mask 8) i = bit ((c XOR scast (ucast n :: u8)) AND mask 8) i"
      by (cases "i = 7") (auto simp: bit_simps min_def)
  qed
qed

lemma crc_length_octets: "crc_length crc n = crc_bytes crc (octets (unat n))"
proof (induction crc n rule: crc_length.induct)
  case (1 crc n)
  show ?case
  proof (cases "n = 0")
    case False
    have "push_bit 8 crc XOR ucast (crctab ! unat ((drop_bit 24 crc XOR n) AND 0xFF)) = crc_step crc (ucast n)"
      unfolding crc_step_def low_byte[of "drop_bit 24 crc" n] ..
    moreover have "unat (drop_bit 8 n) = unat n div 256" by (simp add: drop_bit_eq_div unat_div_distrib)
    moreover have "octets (unat n) = ucast n # octets (unat n div 256)"
      using False by (simp add: octets.simps[of "unat n"] unat_eq_0)
    ultimately show ?thesis using 1 False crc_length.simps[of crc n] by (simp add: word_neq_0_conv)
  qed (simp add: crc_length.simps octets.simps)
qed

lemma crc_final_octets: "crc_final crc n = NOT (crc_bytes crc (octets (unat n)))"
proof -
  have "(x :: u32) AND 0xFFFFFFFF = x" for x
    using take_bit_word_eq_self[of 32 x] by (simp add: take_bit_eq_mask mask_eq_exp_minus_1)
  then show ?thesis by (simp add: crc_final_def crc_length_octets)
qed

text \<open>The checksum that POSIX defines for \<open>cksum\<close>, with a start value: the complement of the remainder
  of a division, bit by bit, of the file followed by its length.\<close>

definition posix_crc :: "u32 \<Rightarrow> string \<Rightarrow> u32" where
  "posix_crc init d = NOT (crc_bits init (concat (map byte_bits (map byte_of d @ octets (length d)))))"

lemma posix_crc_bytes: "posix_crc init d = NOT (crc_bytes init (map byte_of d @ octets (length d)))"
  by (simp only: posix_crc_def crc_bytes_bits)

lemma crc_final_posix:
  "length d < 2 ^ 32 \<Longrightarrow> crc_final (crc_data init d) (of_nat (length d)) = posix_crc init d"
  by (simp add: crc_final_octets posix_crc_bytes crc_data_bytes unat_of_nat take_bit_nat_eq_self)

lemma posix_crc_burst:
  assumes "length v = length w" "length w \<le> 4" "posix_crc init (xs @ v @ ys) = posix_crc init (xs @ w @ ys)"
  shows "v = w"
proof -
  let ?t = "map byte_of ys @ octets (length (xs @ w @ ys))"
  have "crc_bytes init (map byte_of xs @ map byte_of v @ ?t) = crc_bytes init (map byte_of xs @ map byte_of w @ ?t)"
    using assms(1,3) by (simp add: posix_crc_bytes)
  then have "map byte_of v = map byte_of w" using crc_burst[of "map byte_of v" "map byte_of w" init "map byte_of xs" ?t] assms(1,2) by simp
  then show ?thesis using byte_of_inj by (metis inj_map_eq_map injI)
qed

end
