(* ===== verification/Crc_Tool.thy ===== *)
theory Crc_Tool
  imports Crc_Sum
begin

text \<open>
  The program \<open>crc\<close>, \<^verbatim>\<open>crc.c\<close>: the exclusion list, the line printed for a file, the walk over
  directories and the main program.

  The operating system and the C library are the record \<open>crc_world\<close> (the results of \<open>stat\<close>, \<open>open\<close>,
  \<open>readdir\<close>, the user and group tables, \<open>ctime\<close>, \<open>fnmatch\<close>, \<open>regexec\<close> and the memory image of a
  \<open>struct stat\<close>), libqmail is the record \<open>qlib\<close>. The static variables of the program are the
  record \<open>crc_st\<close>; its options are \<open>crc_opts\<close>. Warnings on the standard error stream are collected in
  \<open>st_warn\<close>.
\<close>

unbundle bit_operations_syntax

record stat_t =
  st_mode :: u32
  st_ino :: u64
  st_dev :: u64
  st_rdev :: u64
  st_size :: u64
  st_uid :: u32
  st_gid :: u32
  st_mtime :: int

datatype stat_result = StatOk stat_t | StatNoent | StatErr

datatype open_result = Opened "rd_event list" | OpenNoent | OpenErr

record crc_world =
  w_stat :: "string \<Rightarrow> stat_result"
  w_lstat :: "string \<Rightarrow> stat_result"
  w_open :: "string \<Rightarrow> open_result"
  w_readdir :: "string \<Rightarrow> string list option"
  w_getpwuid :: "u32 \<Rightarrow> string option"
  w_getgrgid :: "u32 \<Rightarrow> string option"
  w_ctime :: "int \<Rightarrow> string"
  w_fnmatch :: "string \<Rightarrow> string \<Rightarrow> bool"
  w_regex :: "string \<Rightarrow> string \<Rightarrow> bool option"
  w_image :: "stat_t \<Rightarrow> string"

record crc_opts =
  opt_e :: bool
  opt_b :: bool
  opt_w :: bool
  opt_l :: bool
  opt_R :: bool
  opt_r :: bool
  opt_s :: bool
  opt_W :: bool
  initial_crc :: u64
  pbuf :: string

record 'o crc_st =
  st_out :: 'o
  st_owner :: string
  st_group :: string
  st_prev_uid :: u32
  st_prev_gid :: u32
  st_fret :: u32
  st_tmp1 :: string
  st_warn :: "string list"

subsection \<open>The exclusion list\<close>

definition is_blank :: "char \<Rightarrow> bool" where
  "is_blank c \<longleftrightarrow> c = LF \<or> c = SP \<or> c = TAB"

definition striptrailingwhitespace :: "string \<Rightarrow> string" where
  "striptrailingwhitespace sa = rev (dropWhile is_blank (rev sa))"

definition first_char :: "string \<Rightarrow> char" where
  "first_char s = (case s of [] \<Rightarrow> NUL | c # cs \<Rightarrow> c)"

fun exclude_lines :: "getln_event list \<Rightarrow> string \<Rightarrow> string option" where
  "exclude_lines [] sa = Some sa"
| "exclude_lines (GlErr # es) sa = None"
| "exclude_lines (GlLine l m # es) sa =
     (if l = [] then Some sa
      else (let excl = striptrailingwhitespace l @ [NUL];
                sa = (if first_char excl \<noteq> NUL \<and> first_char excl \<noteq> CHR ''#'' then sa @ excl else sa)
            in if \<not> m then Some sa else exclude_lines es sa))"

text \<open>\<open>read_exclude_file\<close> returns 0 when there is no such file and -1 on an error.\<close>

definition read_exclude_file :: "'o qlib \<Rightarrow> crc_world \<Rightarrow> string \<Rightarrow> (string \<times> int) proc" where
  "read_exclude_file L W fn = (case w_open W fn of
     OpenNoent \<Rightarrow> Ret ([], 0)
   | OpenErr \<Rightarrow> Exits 111
   | Opened es \<Rightarrow> (case exclude_lines (getlns L es) [] of
       None \<Rightarrow> Ret ([], - 1)
     | Some sa \<Rightarrow> Ret (sa, 1)))"

definition entry_matches :: "crc_world \<Rightarrow> bool \<Rightarrow> string \<Rightarrow> string \<Rightarrow> bool" where
  "entry_matches W use_regex entry path \<longleftrightarrow>
     path = entry
     \<or> (length entry \<le> length path \<and> take (length entry) path = entry
        \<and> (drop (length entry) path = [] \<or> path ! length entry = CHR ''/'' \<or> path ! length entry = BSL
           \<or> last entry = CHR ''/'' \<or> last entry = BSL))
     \<or> (if use_regex then w_regex W entry path = Some True else w_fnmatch W entry path)"

function exclude_loop :: "crc_world \<Rightarrow> bool \<Rightarrow> string \<Rightarrow> string \<Rightarrow> bool" where
  "exclude_loop W use_regex path rest =
     (if rest = [] then False
      else (let entry = takeWhile (\<lambda>c. c \<noteq> NUL) rest in
        if entry = [] then False
        else if entry_matches W use_regex entry path then True
        else exclude_loop W use_regex path (drop (length entry + 1) rest)))"
  by auto
termination
  by (relation "measure (\<lambda>(W, r, p, rest). length rest)") (auto simp: Let_def)

declare exclude_loop.simps [simp del]

definition exclude_path :: "crc_world \<Rightarrow> crc_opts \<Rightarrow> string \<Rightarrow> bool" where
  "exclude_path W opts path \<longleftrightarrow> opt_e opts \<and> pbuf opts \<noteq> [] \<and> exclude_loop W (opt_r opts) path (pbuf opts)"

subsection \<open>The line of a file\<close>

definition owner_name :: "'o qlib \<Rightarrow> crc_world \<Rightarrow> u32 \<Rightarrow> string" where
  "owner_name L W uid = (case w_getpwuid W uid of Some n \<Rightarrow> n | None \<Rightarrow> fmt_ulong L (unat uid))"

definition group_name :: "'o qlib \<Rightarrow> crc_world \<Rightarrow> u32 \<Rightarrow> string" where
  "group_name L W gid = (case w_getgrgid W gid of Some n \<Rightarrow> n | None \<Rightarrow> fmt_ulong L (unat gid))"

definition cache_owner :: "'o qlib \<Rightarrow> crc_world \<Rightarrow> u32 \<Rightarrow> 'o crc_st \<Rightarrow> 'o crc_st" where
  "cache_owner L W uid st = (if uid \<noteq> st_prev_uid st
     then st\<lparr>st_owner := owner_name L W uid, st_prev_uid := uid\<rparr> else st)"

definition cache_group :: "'o qlib \<Rightarrow> crc_world \<Rightarrow> u32 \<Rightarrow> 'o crc_st \<Rightarrow> 'o crc_st" where
  "cache_group L W gid st = (if gid \<noteq> st_prev_gid st
     then st\<lparr>st_group := group_name L W gid, st_prev_gid := gid\<rparr> else st)"

definition tag_text :: "string option \<Rightarrow> string list" where
  "tag_text tag = (case tag of None \<Rightarrow> [] | Some t \<Rightarrow> ['',tag='', t])"

definition stats :: "'o qlib \<Rightarrow> crc_world \<Rightarrow> string \<Rightarrow> stat_t \<Rightarrow> string option \<Rightarrow> 'o crc_st \<Rightarrow> 'o crc_st proc" where
  "stats L W path sb tag st =
     (let st = cache_group L W (st_gid sb) (cache_owner L W (st_uid sb) st);
          a_time = take 24 (w_ctime W (st_mtime sb))
      in bindp (print_perm L (st_mode sb) (st_out st)) (\<lambda>ssout.
         bindp (puts_or_die L 111 ssout
             ([st_owner st, [TAB], st_group st, [TAB], drop 4 a_time, '' '', path] @ tag_text tag @ [[LF]]))
           (\<lambda>ssout. Ret (st\<lparr>st_out := ssout\<rparr>))))"

definition print_line :: "'o qlib \<Rightarrow> crc_world \<Rightarrow> string list \<Rightarrow> bool \<Rightarrow> string \<Rightarrow> stat_t \<Rightarrow> string option
    \<Rightarrow> 'o crc_st \<Rightarrow> 'o crc_st proc" where
  "print_line L W num statflag path sb tag st =
     bindp (puts_or_die L 111 (st_out st) num) (\<lambda>ssout.
     bindp (if statflag then stats L W path sb tag (st\<lparr>st_out := ssout\<rparr>)
            else bindp (put_or_die L 111 ssout [LF]) (\<lambda>ssout. Ret (st\<lparr>st_out := ssout\<rparr>))) (\<lambda>st.
     bindp (flush_or_die L 111 (st_out st)) (\<lambda>ssout. Ret (st\<lparr>st_out := ssout\<rparr>))))"

definition number_text :: "'o qlib \<Rightarrow> bool \<Rightarrow> u32 \<Rightarrow> string list" where
  "number_text L displayhex crc = (if displayhex
     then [''0x''] @ replicate (8 - length (fmt_xlong L (unat crc))) ''0'' @ [fmt_xlong L (unat crc)]
     else [fmt_ulong L (unat crc)])"

text \<open>The result of the functions that hash one path: the checksum, the line counter, the state. The flag
  \<open>statflag\<close> is 0 or 1 at every call of the program; -1, which prints nothing, is the value \<open>None\<close>.\<close>

type_synonym 'o crc_result = "(u32 \<times> u64 option \<times> 'o crc_st) proc"

definition show_crc :: "'o qlib \<Rightarrow> crc_world \<Rightarrow> bool option \<Rightarrow> string list \<Rightarrow> string \<Rightarrow> stat_t \<Rightarrow> string option
    \<Rightarrow> u32 \<Rightarrow> u64 option \<Rightarrow> 'o crc_st \<Rightarrow> 'o crc_result" where
  "show_crc L W statflag num path sb tag crc lcount st = (case statflag of
     None \<Rightarrow> Ret (crc, lcount, st)
   | Some f \<Rightarrow> bindp (print_line L W num f path sb tag st) (\<lambda>st. Ret (crc, lcount, st)))"

definition warn :: "string \<Rightarrow> 'o crc_st \<Rightarrow> 'o crc_st" where
  "warn m st = st\<lparr>st_warn := st_warn st @ [m]\<rparr>"

definition byte_crc :: "'o qlib \<Rightarrow> crc_world \<Rightarrow> crc_opts \<Rightarrow> string \<Rightarrow> u64 option \<Rightarrow> bool option \<Rightarrow> bool
    \<Rightarrow> string option \<Rightarrow> stat_t \<Rightarrow> 'o crc_st \<Rightarrow> 'o crc_result" where
  "byte_crc L W opts path lcount statflag displayhex tag sb st = (case w_open W path of
     OpenNoent \<Rightarrow> Ret (0, lcount, st)
   | OpenErr \<Rightarrow> Ret (CRC_ERROR, lcount, warn (path @ '': '') st)
   | Opened es \<Rightarrow> (case read_loop es (ucast (initial_crc opts)) 0 lcount of
       (None, lcount) \<Rightarrow> Ret (CRC_ERROR, lcount, st)
     | (Some (crc, n), lcount) \<Rightarrow>
         (let crc = crc_final crc n
          in show_crc L W statflag (number_text L displayhex crc) path sb tag crc lcount st)))"

definition line_crc :: "'o qlib \<Rightarrow> crc_world \<Rightarrow> crc_opts \<Rightarrow> string \<Rightarrow> u64 option \<Rightarrow> bool option \<Rightarrow> bool
    \<Rightarrow> string option \<Rightarrow> stat_t \<Rightarrow> 'o crc_st \<Rightarrow> 'o crc_result" where
  "line_crc L W opts path lcount statflag displayhex tag sb st = (case w_open W path of
     OpenNoent \<Rightarrow> Ret (0, lcount, st)
   | OpenErr \<Rightarrow> Ret (CRC_ERROR, lcount, warn (path @ '': '') st)
   | Opened es \<Rightarrow> bindp (line_loop (opt_w opts) (initial_crc opts) (getlns L es) 0 lcount) (\<lambda>r. case r of
       (None, lcount) \<Rightarrow> Ret (CRC_ERROR, lcount, warn (''read: '' @ path @ '': '') st)
     | (Some crc, lcount) \<Rightarrow> show_crc L W statflag (number_text L displayhex crc) path sb tag crc lcount st))"

text \<open>For anything but a regular file the checksum is over the memory image of a cleared \<open>struct stat\<close>
  that holds the mode, the inode, the devices and the size.\<close>

definition special_image :: "stat_t \<Rightarrow> stat_t" where
  "special_image st = \<lparr>st_mode = st_mode st, st_ino = st_ino st, st_dev = st_dev st, st_rdev = st_rdev st,
     st_size = st_size st, st_uid = 0, st_gid = 0, st_mtime = 0\<rparr>"

definition special_file_crc :: "'o qlib \<Rightarrow> crc_world \<Rightarrow> crc_opts \<Rightarrow> string \<Rightarrow> stat_t \<Rightarrow> bool option \<Rightarrow> bool
    \<Rightarrow> string option \<Rightarrow> u64 option \<Rightarrow> 'o crc_st \<Rightarrow> 'o crc_result" where
  "special_file_crc L W opts path sb statflag displayhex tag lcount st =
     (let img = w_image W (special_image sb);
          crc = crc_final (crc_data (ucast (initial_crc opts)) img) (of_nat (length img))
      in if displayhex \<and> statflag \<noteq> None \<and> 8 < length (fmt_xlong L (unat crc)) then Wild
         else show_crc L W statflag (number_text L displayhex crc) path sb tag crc lcount st)"

subsection \<open>The walk over directories\<close>

definition S_ISREG :: "stat_t \<Rightarrow> bool" where
  "S_ISREG sb \<longleftrightarrow> st_mode sb AND 0xF000 = 0x8000"

definition S_ISDIR :: "stat_t \<Rightarrow> bool" where
  "S_ISDIR sb \<longleftrightarrow> st_mode sb AND 0xF000 = 0x4000"

definition note_error :: "u32 \<Rightarrow> 'o crc_st \<Rightarrow> 'o crc_st" where
  "note_error crc st = (if st_fret st = 0 \<and> crc = CRC_ERROR then st\<lparr>st_fret := CRC_ERROR\<rparr> else st)"

fun walk :: "(string \<Rightarrow> 'o crc_st \<Rightarrow> 'o crc_result) \<Rightarrow> string list \<Rightarrow> 'o crc_st \<Rightarrow> 'o crc_st proc" where
  "walk rec [] st = Ret st"
| "walk rec (d # ds) st =
     (if d = ''.'' \<or> d = ''..'' then walk rec ds st
      else (let len = length (st_tmp1 st); st = st\<lparr>st_tmp1 := st_tmp1 st @ ''/'' @ d\<rparr>
        in bindp (rec (st_tmp1 st) st) (\<lambda>(crc, _, st).
             walk rec ds ((note_error crc st)\<lparr>st_tmp1 := take len (st_tmp1 st)\<rparr>))))"

text \<open>A path that the walk found: what is done with it before its contents are looked at.\<close>

datatype found = Skip u32 "string option" | Found stat_t

definition look_up :: "crc_world \<Rightarrow> crc_opts \<Rightarrow> string \<Rightarrow> found" where
  "look_up W opts path =
     (if exclude_path W opts path then Skip 0 None
      else (case (if opt_s opts then w_stat W path else w_lstat W path) of
          StatNoent \<Rightarrow> Skip CRC_ERROR None
        | StatErr \<Rightarrow> Skip CRC_ERROR (Some (path @ '': ''))
        | StatOk sb \<Rightarrow>
            if \<not> opt_s opts \<and> opt_b opts \<and> (case w_stat W path of StatOk _ \<Rightarrow> False | _ \<Rightarrow> True)
            then (if opt_W opts then Skip CRC_ERROR (Some (''Broken link '' @ path @ '': '')) else Skip 0 None)
            else Found sb))"

definition warn_some :: "string option \<Rightarrow> 'o crc_st \<Rightarrow> 'o crc_st" where
  "warn_some m st = (case m of None \<Rightarrow> st | Some m \<Rightarrow> warn m st)"

definition regular_crc :: "'o qlib \<Rightarrow> crc_world \<Rightarrow> crc_opts \<Rightarrow> bool option \<Rightarrow> bool \<Rightarrow> string option
    \<Rightarrow> string \<Rightarrow> u64 option \<Rightarrow> stat_t \<Rightarrow> 'o crc_st \<Rightarrow> 'o crc_result" where
  "regular_crc L W opts statflag displayhex tag path lcount sb st =
     bindp (if opt_l opts then line_crc L W opts path lcount statflag displayhex tag sb st
            else byte_crc L W opts path lcount statflag displayhex tag sb st)
       (\<lambda>(crc, lcount, st). Ret (if opt_R opts then st_fret st else crc, lcount, st))"

text \<open>The recursive part: what is done below a path is a parameter of the step.\<close>

definition plain_path :: "string \<Rightarrow> string" where
  "plain_path p = (if first_char p = CHR ''-'' then tl p else p)"

definition printcrc_step :: "(string \<Rightarrow> string \<Rightarrow> stat_t \<Rightarrow> 'o crc_st \<Rightarrow> 'o crc_st proc) \<Rightarrow> 'o qlib \<Rightarrow> crc_world
    \<Rightarrow> crc_opts \<Rightarrow> bool option \<Rightarrow> bool \<Rightarrow> string option \<Rightarrow> string \<Rightarrow> u64 option \<Rightarrow> 'o crc_st \<Rightarrow> 'o crc_result" where
  "printcrc_step below L W opts statflag displayhex tag p lcount st =
     (let do_dirs_only = (first_char p = CHR ''-''); path = plain_path p
      in case look_up W opts path of
        Skip r m \<Rightarrow> Ret (r, lcount, warn_some m st)
      | Found sb \<Rightarrow>
          (let lcount = map_option (\<lambda>_. 0) lcount in
           if \<not> S_ISREG sb then
             (if do_dirs_only \<and> \<not> S_ISDIR sb then Ret (0, lcount, st)
              else bindp (special_file_crc L W opts path sb statflag displayhex tag lcount st) (\<lambda>(crc, lcount, st).
                if \<not> opt_R opts then Ret (crc, lcount, st)
                else bindp (below p path sb (note_error crc st)) (\<lambda>st. Ret (st_fret st, lcount, st))))
           else if do_dirs_only then Ret (0, lcount, st)
           else regular_crc L W opts statflag displayhex tag path lcount sb st))"

definition scan_dir :: "crc_world \<Rightarrow> (string \<Rightarrow> 'o crc_st \<Rightarrow> 'o crc_result) \<Rightarrow> string \<Rightarrow> string \<Rightarrow> stat_t \<Rightarrow> 'o crc_st
    \<Rightarrow> 'o crc_st proc" where
  "scan_dir W rec p path sb st =
     (let st = st\<lparr>st_tmp1 := (if first_char p = CHR ''-'' then CHR ''-'' # path else path)\<rparr>
      in if S_ISDIR sb
         then (case w_readdir W path of None \<Rightarrow> Ret st | Some names \<Rightarrow> walk rec names st)
         else Ret st)"

fun printcrc :: "nat \<Rightarrow> 'o qlib \<Rightarrow> crc_world \<Rightarrow> crc_opts \<Rightarrow> bool option \<Rightarrow> bool \<Rightarrow> string option
    \<Rightarrow> string \<Rightarrow> u64 option \<Rightarrow> 'o crc_st \<Rightarrow> 'o crc_result" where
  "printcrc 0 L W opts statflag displayhex tag p lcount st = Deep"
| "printcrc (Suc n) L W opts statflag displayhex tag p lcount st =
     printcrc_step (scan_dir W (\<lambda>p st. printcrc n L W opts statflag displayhex tag p (Some 0) st))
       L W opts statflag displayhex tag p lcount st"

subsection \<open>The main program\<close>

record crc_args =
  a_opts :: crc_opts
  a_stat :: bool
  a_hex :: bool
  a_tag :: "string option"
  a_input :: "string option"
  a_exclude :: "string option"
  a_output :: "string option"

definition crc_option :: "'o qlib \<Rightarrow> char \<Rightarrow> string \<Rightarrow> crc_args \<Rightarrow> crc_args proc" where
  "crc_option L c optarg a = (let o1 = a_opts a in
     if c = CHR ''b'' then Ret (a\<lparr>a_opts := o1\<lparr>opt_b := True\<rparr>\<rparr>)
     else if c = CHR ''d'' then Ret (a\<lparr>a_hex := False\<rparr>)
     else if c = CHR ''e'' then Ret (a\<lparr>a_opts := o1\<lparr>opt_e := True\<rparr>, a_exclude := Some optarg\<rparr>)
     else if c = CHR ''f'' then Ret (a\<lparr>a_input := Some optarg\<rparr>)
     else if c = CHR ''i'' then Ret (a\<lparr>a_opts := o1\<lparr>initial_crc := word_of_int (scan_long L optarg)\<rparr>\<rparr>)
     else if c = CHR ''l'' then Ret (a\<lparr>a_opts := o1\<lparr>opt_l := True\<rparr>\<rparr>)
     else if c = CHR ''r'' then Ret (a\<lparr>a_opts := o1\<lparr>opt_r := True\<rparr>\<rparr>)
     else if c = CHR ''R'' then Ret (a\<lparr>a_opts := o1\<lparr>opt_R := True\<rparr>\<rparr>)
     else if c = CHR ''s'' then Ret (a\<lparr>a_opts := o1\<lparr>opt_s := True\<rparr>\<rparr>)
     else if c = CHR ''t'' then Ret (a\<lparr>a_tag := Some optarg\<rparr>)
     else if c = CHR ''o'' then Ret (a\<lparr>a_output := Some optarg\<rparr>)
     else if c = CHR ''v'' then Ret (a\<lparr>a_stat := True\<rparr>)
     else if c = CHR ''w'' then Ret (a\<lparr>a_opts := o1\<lparr>opt_w := True\<rparr>\<rparr>)
     else if c = CHR ''W'' then Ret (a\<lparr>a_opts := o1\<lparr>opt_W := True\<rparr>\<rparr>)
     else Exits 100)"

fun crc_options :: "'o qlib \<Rightarrow> (char \<times> string) list \<Rightarrow> crc_args \<Rightarrow> crc_args proc" where
  "crc_options L [] a = Ret a"
| "crc_options L ((c, optarg) # os) a = bindp (crc_option L c optarg a) (\<lambda>a. crc_options L os a)"

definition crc_defaults :: crc_args where
  "crc_defaults = \<lparr>a_opts = \<lparr>opt_e = False, opt_b = False, opt_w = False, opt_l = False, opt_R = False, opt_r = False,
       opt_s = False, opt_W = False, initial_crc = 0, pbuf = []\<rparr>,
     a_stat = False, a_hex = True, a_tag = None, a_input = None, a_exclude = None, a_output = None\<rparr>"

definition load_excludes :: "'o qlib \<Rightarrow> crc_world \<Rightarrow> crc_args \<Rightarrow> crc_args proc" where
  "load_excludes L W a = (case a_exclude a of
     None \<Rightarrow> Ret a
   | Some fn \<Rightarrow> bindp (read_exclude_file L W fn) (\<lambda>(sa, c).
       if c = - 1 then Exits 111
       else if c = 0 then Ret (a\<lparr>a_opts := (a_opts a)\<lparr>opt_e := False, pbuf := sa\<rparr>\<rparr>)
       else Ret (a\<lparr>a_opts := (a_opts a)\<lparr>pbuf := sa @ [NUL]\<rparr>\<rparr>)))"

text \<open>One line of the list file: the path and the tag. The bytes from the last blank back over blanks are
  cleared; the path is what is then left up to the first cleared byte.\<close>

fun cut_tail :: "string \<Rightarrow> nat \<Rightarrow> string" where
  "cut_tail s 0 = s"
| "cut_tail s (Suc c) = (if s ! Suc c = SP \<or> s ! Suc c = TAB \<or> s ! Suc c = CR
     then cut_tail (s[Suc c := NUL]) c else s)"

definition is_lead :: "char \<Rightarrow> bool" where
  "is_lead c \<longleftrightarrow> c = SP \<or> c = TAB"

definition list_entry :: "'o qlib \<Rightarrow> string \<Rightarrow> string \<times> string option" where
  "list_entry L l = (let s = takeWhile (\<lambda>d. d \<noteq> NUL) (take (trim_tail l) l);
       lead = length (takeWhile is_lead s);
       c = str_rchr L s SP;
       tag = (if c < length s then Some (drop (c + 1) s) else None);
       s' = (if c < length s then cut_tail s c else s)
     in (takeWhile (\<lambda>d. d \<noteq> NUL) (drop lead s'), tag))"

definition first_of_line :: "string \<Rightarrow> char" where
  "first_of_line l = first_char (dropWhile is_lead (takeWhile (\<lambda>d. d \<noteq> NUL) (take (trim_tail l) l)))"

definition add_status :: "u32 \<Rightarrow> int \<Rightarrow> int" where
  "add_status r retval = (if r = CRC_ERROR \<or> retval \<noteq> 0 then 111 else 0)"

fun list_loop :: "nat \<Rightarrow> 'o qlib \<Rightarrow> crc_world \<Rightarrow> crc_args \<Rightarrow> string \<Rightarrow> getln_event list \<Rightarrow> int \<Rightarrow> 'o crc_st
    \<Rightarrow> (int option \<times> 'o crc_st) proc" where
  "list_loop n L W a fn [] retval st = Ret (Some retval, st)"
| "list_loop n L W a fn (GlErr # es) retval st = Ret (None, warn (''read: '' @ fn @ '': '') st)"
| "list_loop n L W a fn (GlLine l m # es) retval st =
     (if l = [] then Ret (Some retval, st)
      else if \<not> opt_R (a_opts a) \<and> first_of_line l = CHR ''-''
      then list_loop n L W a fn es retval (warn (''Entry in '' @ fn @ '' starts with -'') st)
      else if first_of_line l = CHR ''#'' then list_loop n L W a fn es retval st
      else (case list_entry L l of (path, tag) \<Rightarrow>
        bindp (printcrc n L W (a_opts a) (Some (a_stat a)) (a_hex a) tag path (Some 0) st) (\<lambda>(r, _, st).
          list_loop n L W a fn es (add_status r retval) st)))"

fun arg_loop :: "nat \<Rightarrow> 'o qlib \<Rightarrow> crc_world \<Rightarrow> crc_args \<Rightarrow> string list \<Rightarrow> int \<Rightarrow> 'o crc_st \<Rightarrow> (int \<times> 'o crc_st) proc" where
  "arg_loop n L W a [] retval st = Ret (retval, st)"
| "arg_loop n L W a (p # ps) retval st =
     (let st = (if \<not> opt_R (a_opts a) \<and> first_char p = CHR ''-'' then warn (''Input '' @ p @ '' starts with -'') st else st)
      in bindp (printcrc n L W (a_opts a) (Some (a_stat a)) (a_hex a) (a_tag a) p (Some 0) st) (\<lambda>(r, _, st).
           arg_loop n L W a ps (add_status r retval) st))"

definition crc_start :: "'o \<Rightarrow> 'o crc_st" where
  "crc_start ssout = \<lparr>st_out = ssout, st_owner = [], st_group = [], st_prev_uid = - 9999, st_prev_gid = - 9999,
     st_fret = 0, st_tmp1 = [], st_warn = []\<rparr>"

definition crc_main :: "nat \<Rightarrow> 'o qlib \<Rightarrow> crc_world \<Rightarrow> (string \<Rightarrow> 'o option) \<Rightarrow> 'o \<Rightarrow> (char \<times> string) list \<Rightarrow> string list
    \<Rightarrow> (int \<times> 'o crc_st) proc" where
  "crc_main n L W create stdout opts args =
     (if opts = [] \<and> args = [] then Exits 0
      else bindp (crc_options L opts crc_defaults) (\<lambda>a.
        bindp (load_excludes L W a) (\<lambda>a.
        bindp (case a_output a of None \<Rightarrow> Ret stdout
                | Some fn \<Rightarrow> (case create fn of None \<Rightarrow> Exits 111 | Some f \<Rightarrow> Ret f)) (\<lambda>ssout.
        bindp (case a_input a of None \<Rightarrow> Ret (Some 0, crc_start ssout)
                | Some fn \<Rightarrow> (case w_open W fn of
                      Opened es \<Rightarrow> list_loop n L W a fn (getlns L es) 0 (crc_start ssout)
                    | _ \<Rightarrow> Exits 111)) (\<lambda>(r, st).
          case r of None \<Rightarrow> Ret (- 1, st) | Some retval \<Rightarrow> arg_loop n L W a args retval st)))))"

end
