(* ===== verification/Crc_Spec.thy ===== *)
theory Crc_Spec
  imports Crc_Tool
begin

text \<open>
  What the program \<open>crc\<close> does: the line it prints for a file, the names it caches, the exclusion list,
  the walk over a directory tree and the status it reports.
\<close>

unbundle bit_operations_syntax

subsection \<open>What is printed\<close>

definition hex8 :: "'o qlib \<Rightarrow> u32 \<Rightarrow> string" where
  "hex8 L crc = replicate (8 - length (fmt_xlong L (unat crc))) CHR ''0'' @ fmt_xlong L (unat crc)"

definition stats_text :: "crc_world \<Rightarrow> string \<Rightarrow> string \<Rightarrow> stat_t \<Rightarrow> string \<Rightarrow> string option \<Rightarrow> string" where
  "stats_text W own grp sb path tag = '' '' @ perm_string (st_mode sb) @ '' '' @ own @ [TAB] @ grp @ [TAB]
     @ drop 4 (take 24 (w_ctime W (st_mtime sb))) @ '' '' @ path @ concat (tag_text tag) @ [LF]"

definition crc_line :: "'o qlib \<Rightarrow> crc_world \<Rightarrow> u32 \<Rightarrow> stat_t \<Rightarrow> string \<Rightarrow> string option \<Rightarrow> string" where
  "crc_line L W crc sb path tag = ''0x'' @ hex8 L crc
     @ stats_text W (owner_name L W (st_uid sb)) (group_name L W (st_gid sb)) sb path tag"

text \<open>The cached names: they belong to the last user and group, except that before the first file the
  cache holds empty names under the number -9999.\<close>

definition cache_ok :: "'o qlib \<Rightarrow> crc_world \<Rightarrow> 'o crc_st \<Rightarrow> bool" where
  "cache_ok L W st \<longleftrightarrow> (st_prev_uid st \<noteq> - 9999 \<longrightarrow> st_owner st = owner_name L W (st_prev_uid st))
     \<and> (st_prev_gid st \<noteq> - 9999 \<longrightarrow> st_group st = group_name L W (st_prev_gid st))"

definition known_ids :: "stat_t \<Rightarrow> bool" where
  "known_ids sb \<longleftrightarrow> st_uid sb \<noteq> - 9999 \<and> st_gid sb \<noteq> - 9999"

definition cached :: "'o qlib \<Rightarrow> crc_world \<Rightarrow> stat_t \<Rightarrow> 'o crc_st \<Rightarrow> 'o crc_st" where
  "cached L W sb st = cache_group L W (st_gid sb) (cache_owner L W (st_uid sb) st)"

lemma cached_out [simp]: "st_out (cached L W sb st) = st_out st"
  by (simp add: cached_def cache_group_def cache_owner_def)

lemma cached_ok:
  assumes "cache_ok L W st" "known_ids sb"
  shows "cache_ok L W (cached L W sb st)" "st_owner (cached L W sb st) = owner_name L W (st_uid sb)"
    "st_group (cached L W sb st) = group_name L W (st_gid sb)"
  using assms by (auto simp: cached_def cache_group_def cache_owner_def cache_ok_def known_ids_def)

lemma cache_ok_out [simp]: "cache_ok L W (st\<lparr>st_out := x\<rparr>) = cache_ok L W st"
  by (simp add: cache_ok_def)

lemma cache_ok_start: "cache_ok L W (crc_start x)"
  by (simp add: cache_ok_def crc_start_def)

lemma concat_number: "concat (number_text L True crc) = ''0x'' @ hex8 L crc"
  by (simp add: number_text_def hex8_def concat_replicate_single)

context qmail
begin

lemma print_perm_good:
  assumes "good o1"
  shows "\<exists>o2. print_perm L perm o1 = Ret o2 \<and> sent o2 = sent o1 @ '' '' @ perm_string perm @ '' '' \<and> good o2"
proof -
  obtain o2 where o2: "puts_or_die L 111 o1 ['' '', perm_string perm, '' ''] = Ret o2"
    "sent o2 = sent o1 @ concat ['' '', perm_string perm, '' '']" "good o2"
    using puts_good[OF assms] by blast
  then show ?thesis using flush_good[of o2 111] by (auto simp: print_perm_def simp del: puts_or_die.simps)
qed

lemma stats_good:
  assumes "good (st_out st)"
  shows "\<exists>o2. stats L W path sb tag st = Ret ((cached L W sb st)\<lparr>st_out := o2\<rparr>) \<and> good o2
    \<and> sent o2 = sent (st_out st) @ stats_text W (st_owner (cached L W sb st)) (st_group (cached L W sb st)) sb path tag"
proof -
  let ?st = "cached L W sb st"
  let ?t = "[st_owner ?st, [TAB], st_group ?st, [TAB], drop 4 (take 24 (w_ctime W (st_mtime sb))), '' '', path] @ tag_text tag @ [[LF]]"
  obtain o1 where o1: "print_perm L (st_mode sb) (st_out ?st) = Ret o1"
    "sent o1 = sent (st_out st) @ '' '' @ perm_string (st_mode sb) @ '' ''" "good o1"
    using print_perm_good[of "st_out ?st"] assms by auto
  obtain o2 where o2: "puts_or_die L 111 o1 ?t = Ret o2" "sent o2 = sent o1 @ concat ?t" "good o2"
    using puts_good[OF o1(3), of 111 ?t] by blast
  show ?thesis
    using o1 o2 by (intro exI[of _ o2]) (simp add: stats_def Let_def cached_def[symmetric] stats_text_def del: puts_or_die.simps)
qed

lemma print_line_good:
  assumes "good (st_out st)"
  shows "\<exists>o2. print_line L W num True path sb tag st = Ret ((cached L W sb st)\<lparr>st_out := o2\<rparr>) \<and> good o2
    \<and> sent o2 = sent (st_out st) @ concat num
        @ stats_text W (st_owner (cached L W sb st)) (st_group (cached L W sb st)) sb path tag"
proof -
  obtain o1 where o1: "puts_or_die L 111 (st_out st) num = Ret o1" "sent o1 = sent (st_out st) @ concat num" "good o1"
    using puts_good[OF assms] by blast
  have eq: "cached L W sb (st\<lparr>st_out := o1\<rparr>) = (cached L W sb st)\<lparr>st_out := o1\<rparr>"
    by (simp add: cached_def cache_owner_def cache_group_def)
  obtain o2 where o2: "stats L W path sb tag (st\<lparr>st_out := o1\<rparr>) = Ret ((cached L W sb st)\<lparr>st_out := o2\<rparr>)" "good o2"
    "sent o2 = sent o1 @ stats_text W (st_owner (cached L W sb st)) (st_group (cached L W sb st)) sb path tag"
    using stats_good[of "st\<lparr>st_out := o1\<rparr>" W path sb tag] o1(3) by (auto simp: eq)
  obtain o3 where "flush_or_die L 111 o2 = Ret o3" "sent o3 = sent o2" "good o3" using flush_good[OF o2(2)] by blast
  then show ?thesis using o1 o2 by (intro exI[of _ o3]) (simp add: print_line_def)
qed

lemma show_crc_good:
  assumes "good (st_out st)" "cache_ok L W st" "known_ids sb"
  shows "\<exists>st'. show_crc L W (Some True) (number_text L True crc) path sb tag crc lc st = Ret (crc, lc, st')
    \<and> good (st_out st') \<and> cache_ok L W st' \<and> sent (st_out st') = sent (st_out st) @ crc_line L W crc sb path tag"
proof -
  obtain o2 where "print_line L W (number_text L True crc) True path sb tag st = Ret ((cached L W sb st)\<lparr>st_out := o2\<rparr>)"
    "good o2" "sent o2 = sent (st_out st) @ concat (number_text L True crc)
        @ stats_text W (st_owner (cached L W sb st)) (st_group (cached L W sb st)) sb path tag"
    using print_line_good[OF assms(1), of W "number_text L True crc" path sb tag] by blast
  then show ?thesis using cached_ok[OF assms(2,3)]
    by (simp add: show_crc_def concat_number crc_line_def)
qed

lemma byte_crc_good:
  assumes "good (st_out st)" "cache_ok L W st" "known_ids sb"
    and "w_open W path = Opened es" "read_all es = (d, True)" "length d < 2 ^ 32"
  shows "\<exists>st'. byte_crc L W opts path lc (Some True) True tag sb st
      = Ret (posix_crc (ucast (initial_crc opts)) d, add_lines lc (count_newlines d), st')
    \<and> good (st_out st') \<and> cache_ok L W st'
    \<and> sent (st_out st') = sent (st_out st) @ crc_line L W (posix_crc (ucast (initial_crc opts)) d) sb path tag"
  using show_crc_good[OF assms(1-3), of "posix_crc (ucast (initial_crc opts)) d" path tag "add_lines lc (count_newlines d)"]
    assms(4-6)
  by (simp add: byte_crc_def read_loop_all crc_final_posix Let_def)

lemma hex8_length: "length (hex8 L crc) = 8"
proof -
  have "unat crc < 16 ^ 8" using unsigned_less[of crc] by simp
  then show ?thesis using xlong_length[of "unat crc" 8] by (simp add: hex8_def)
qed

lemma hex8_digits: "set (hex8 L crc) \<subseteq> set ''0123456789abcdef''"
  using xlong_digits[of "unat crc"] by (auto simp: hex8_def)

lemma numval_zeros: "numval b (replicate k CHR ''0'' @ s) = numval b s"
  by (induction k) (simp_all add: numval_def digit_val_def of_char_def)

lemma hex8_val: "numval 16 (hex8 L crc) = unat crc"
  by (simp add: hex8_def numval_zeros xlong_val)

lemma hex8_inj: "hex8 L a = hex8 L b \<Longrightarrow> a = b"
  by (metis hex8_val unsigned_word_eqI)

end

lemma show_crc_value: "show_crc L W sf num path sb tag crc lc st = Ret (c, lc', st') \<Longrightarrow> c = crc"
  by (auto simp: show_crc_def bindp_Ret_iff split: option.splits)

lemma byte_crc_value:
  assumes "w_open W path = Opened es" "read_all es = (d, True)" "length d < 2 ^ 32"
    and "byte_crc L W opts path lc sf hex tag sb st = Ret (c, lc', st')"
  shows "c = posix_crc (ucast (initial_crc opts)) d"
  using assms show_crc_value by (simp add: byte_crc_def read_loop_all crc_final_posix Let_def) blast

subsection \<open>The walk without its static buffer\<close>

text \<open>\<open>printcrc\<close> keeps the path of the directory it is in in a static variable, which the calls for the entries
  overwrite. The walk below passes the directory as an argument instead.\<close>

fun visit :: "(string \<Rightarrow> 'o crc_st \<Rightarrow> 'o crc_result) \<Rightarrow> string \<Rightarrow> string list \<Rightarrow> 'o crc_st \<Rightarrow> 'o crc_st proc" where
  "visit rec dir [] st = Ret st"
| "visit rec dir (d # ds) st =
     (if d = ''.'' \<or> d = ''..'' then visit rec dir ds st
      else bindp (rec (dir @ ''/'' @ d) st) (\<lambda>(crc, _, st). visit rec dir ds (note_error crc st)))"

definition scan_tree :: "crc_world \<Rightarrow> (string \<Rightarrow> 'o crc_st \<Rightarrow> 'o crc_result) \<Rightarrow> string \<Rightarrow> string \<Rightarrow> stat_t \<Rightarrow> 'o crc_st
    \<Rightarrow> 'o crc_st proc" where
  "scan_tree W rec p path sb st = (if S_ISDIR sb
     then (case w_readdir W path of None \<Rightarrow> Ret st | Some names \<Rightarrow> visit rec p names st)
     else Ret st)"

fun printcrc_tree :: "nat \<Rightarrow> 'o qlib \<Rightarrow> crc_world \<Rightarrow> crc_opts \<Rightarrow> bool option \<Rightarrow> bool \<Rightarrow> string option
    \<Rightarrow> string \<Rightarrow> u64 option \<Rightarrow> 'o crc_st \<Rightarrow> 'o crc_result" where
  "printcrc_tree 0 L W opts statflag displayhex tag p lcount st = Deep"
| "printcrc_tree (Suc n) L W opts statflag displayhex tag p lcount st =
     printcrc_step (scan_tree W (\<lambda>p st. printcrc_tree n L W opts statflag displayhex tag p (Some 0) st))
       L W opts statflag displayhex tag p lcount st"

definition upd :: "string \<Rightarrow> 'o crc_st \<Rightarrow> 'o crc_st" where
  "upd t st = st\<lparr>st_tmp1 := t\<rparr>"

definition updr :: "string \<Rightarrow> u32 \<times> u64 option \<times> 'o crc_st \<Rightarrow> u32 \<times> u64 option \<times> 'o crc_st" where
  "updr t = (\<lambda>(r, lc, st). (r, lc, upd t st))"

lemma upd_simps [simp]:
  "st_out (upd t st) = st_out st" "st_owner (upd t st) = st_owner st" "st_group (upd t st) = st_group st"
  "st_prev_uid (upd t st) = st_prev_uid st" "st_prev_gid (upd t st) = st_prev_gid st" "st_fret (upd t st) = st_fret st"
  "st_tmp1 (upd t st) = t" "st_warn (upd t st) = st_warn st" "upd t (upd u st) = upd t st" "upd (st_tmp1 st) st = st"
  "(upd t st)\<lparr>st_out := x\<rparr> = upd t (st\<lparr>st_out := x\<rparr>)" "updr t (r, lc, st) = (r, lc, upd t st)"
  "(upd t st)\<lparr>st_tmp1 := u\<rparr> = upd u st" "upd t (st\<lparr>st_tmp1 := u\<rparr>) = upd t st"
  by (simp_all add: upd_def updr_def)

lemma map_bindp: "map_proc f (bindp m g) = bindp m (\<lambda>x. map_proc f (g x))"
  by (cases m) simp_all

lemma bindp_assoc: "bindp (bindp m f) g = bindp m (\<lambda>x. bindp (f x) g)"
  by (cases m) simp_all

lemma bindp_map: "bindp (map_proc f m) g = bindp m (\<lambda>x. g (f x))"
  by (cases m) simp_all

lemma warn_upd [simp]: "warn m (upd t st) = upd t (warn m st)" "warn_some w (upd t st) = upd t (warn_some w st)"
  by (simp_all add: warn_def upd_def warn_some_def split: option.split)

lemma note_error_upd [simp]: "note_error r (upd t st) = upd t (note_error r st)"
  by (simp add: note_error_def upd_def)

lemma cache_upd: "cache_group L W g (cache_owner L W u (upd t st)) = upd t (cache_group L W g (cache_owner L W u st))"
  by (simp add: cache_group_def cache_owner_def upd_def)

lemma stats_upd: "stats L W path sb tag (upd t st) = map_proc (upd t) (stats L W path sb tag st)"
  by (simp add: stats_def cache_upd Let_def map_bindp)

lemma print_line_upd: "print_line L W num f path sb tag (upd t st) = map_proc (upd t) (print_line L W num f path sb tag st)"
  by (cases f) (simp_all add: print_line_def map_bindp stats_upd bindp_map bindp_assoc)

lemma show_crc_upd:
  "show_crc L W sf num path sb tag crc lc (upd t st) = map_proc (updr t) (show_crc L W sf num path sb tag crc lc st)"
  by (simp add: show_crc_def print_line_upd map_bindp bindp_map split: option.split)

lemma special_upd:
  "special_file_crc L W opts path sb sf hex tag lc (upd t st)
     = map_proc (updr t) (special_file_crc L W opts path sb sf hex tag lc st)"
  by (auto simp: special_file_crc_def Let_def show_crc_upd)

lemma byte_upd:
  "byte_crc L W opts path lc sf hex tag sb (upd t st) = map_proc (updr t) (byte_crc L W opts path lc sf hex tag sb st)"
  by (simp add: byte_crc_def show_crc_upd Let_def split: open_result.split prod.split option.split)

lemma line_upd:
  "line_crc L W opts path lc sf hex tag sb (upd t st) = map_proc (updr t) (line_crc L W opts path lc sf hex tag sb st)"
proof (cases "w_open W path")
  case (Opened es)
  then show ?thesis
    by (cases "line_loop (opt_w opts) (initial_crc opts) (getlns L es) 0 lc")
      (simp_all add: line_crc_def show_crc_upd split: prod.split option.split)
qed (simp_all add: line_crc_def)

lemmas hash_upd = special_upd byte_upd line_upd

lemma hash_keeps_tmp1:
  assumes "f (upd (st_tmp1 st) st) = map_proc (updr (st_tmp1 st)) (f st)" "f st = Ret (r, lc, st')"
  shows "st_tmp1 st' = st_tmp1 st"
proof -
  have "Ret (r, lc, st') = map_proc (updr (st_tmp1 st)) (Ret (r, lc, st'))"
    using assms(1) unfolding upd_simps(10) assms(2) .
  then have "st' = upd (st_tmp1 st) st'" by simp
  then have "st_tmp1 st' = st_tmp1 (upd (st_tmp1 st) st')" by (rule arg_cong)
  then show ?thesis by simp
qed

lemma walk_visit:
  assumes rec1: "\<And>p st r lc st'. rec p st = Ret (r, lc, st') \<Longrightarrow> st_tmp1 st' = p \<or> st_tmp1 st' = st_tmp1 st"
    and rec2: "\<And>p st. map_proc (updr []) (rec p st) = rec' p (upd [] st)"
  shows "map_proc (upd []) (walk rec ds st) = visit rec' (st_tmp1 st) ds (upd [] st)
    \<and> (walk rec ds st = Ret st' \<longrightarrow> st_tmp1 st' = st_tmp1 st)"
proof (induction ds arbitrary: st)
  case (Cons d ds)
  let ?q = "st_tmp1 st" and ?p = "st_tmp1 st @ ''/'' @ d"
  show ?case
  proof (cases "d = ''.'' \<or> d = ''..''")
    case False
    show ?thesis
    proof (cases "rec ?p (st\<lparr>st_tmp1 := ?p\<rparr>)")
      case (Ret x)
      obtain r lc st1 where x: "x = (r, lc, st1)" by (cases x)
      have t: "st_tmp1 st1 = ?p" using rec1[of ?p "st\<lparr>st_tmp1 := ?p\<rparr>" r lc st1] Ret x by simp
      let ?st2 = "(note_error r st1)\<lparr>st_tmp1 := take (length ?q) (st_tmp1 st1)\<rparr>"
      have q: "st_tmp1 ?st2 = ?q" using t by simp
      have r': "rec' ?p (upd [] st) = Ret (r, lc, upd [] st1)" using rec2[of ?p "st\<lparr>st_tmp1 := ?p\<rparr>"] Ret x by simp
      have step: "walk rec (d # ds) st = walk rec ds ?st2" using False Ret x by (simp add: Let_def)
      have step': "visit rec' ?q (d # ds) (upd [] st) = visit rec' ?q ds (upd [] (note_error r st1))"
        using False r' by simp
      have e: "upd [] ?st2 = upd [] (note_error r st1)" by simp
      show ?thesis using Cons.IH[of ?st2] unfolding step step' q e .
    next
      case (Exits k)
      then have "rec' ?p (upd [] st) = Exits k" using rec2[of ?p "st\<lparr>st_tmp1 := ?p\<rparr>"] by simp
      then show ?thesis using False Exits by (simp add: Let_def)
    next
      case Wild
      then have "rec' ?p (upd [] st) = Wild" using rec2[of ?p "st\<lparr>st_tmp1 := ?p\<rparr>"] by simp
      then show ?thesis using False Wild by (simp add: Let_def)
    next
      case Deep
      then have "rec' ?p (upd [] st) = Deep" using rec2[of ?p "st\<lparr>st_tmp1 := ?p\<rparr>"] by simp
      then show ?thesis using False Deep by (simp add: Let_def)
    qed
  qed (use Cons.IH[of st] in auto)
qed simp

lemma bindp_eqI: "(\<And>x. m = Ret x \<Longrightarrow> f x = g x) \<Longrightarrow> bindp m f = bindp m g"
  by (cases m) simp_all

lemma regular_upd:
  "regular_crc L W opts sf hex tag path lc sb (upd t st) = map_proc (updr t) (regular_crc L W opts sf hex tag path lc sb st)"
  by (auto simp: regular_crc_def hash_upd map_bindp bindp_map updr_def intro!: bindp_eqI)

lemma printcrc_step_upd:
  assumes "\<And>p sb st. map_proc (upd t) (below p (plain_path p) sb st) = below' p (plain_path p) sb (upd t st)"
  shows "map_proc (updr t) (printcrc_step below L W opts sf hex tag p lc st)
    = printcrc_step below' L W opts sf hex tag p lc (upd t st)"
proof -
  have "map_proc (updr t) (bindp (below p (plain_path p) sb st) (\<lambda>st. Ret (st_fret st, lc, st)))
      = bindp (below' p (plain_path p) sb (upd t st)) (\<lambda>st. Ret (st_fret st, lc, st))" for p sb st lc
    unfolding assms[symmetric] by (simp add: map_bindp bindp_map)
  then show ?thesis
    by (simp add: printcrc_step_def Let_def special_upd regular_upd map_bindp bindp_map split: found.split)
      (auto simp: updr_def map_bindp intro!: bindp_eqI)
qed

lemma printcrc_step_tmp1:
  assumes "\<And>p sb st st'. below p (plain_path p) sb st = Ret st' \<Longrightarrow> st_tmp1 st' = p"
    and "printcrc_step below L W opts sf hex tag p lc st = Ret (r, lc', st')"
  shows "st_tmp1 st' = p \<or> st_tmp1 st' = st_tmp1 st"
proof -
  have sp: "special_file_crc L W opts path sb sf hex tag lc st = Ret (a, b, st1) \<Longrightarrow> st_tmp1 st1 = st_tmp1 st" for path sb lc a b st1
    by (rule hash_keeps_tmp1[of "special_file_crc L W opts path sb sf hex tag lc", OF special_upd])
  have rg: "regular_crc L W opts sf hex tag path lc sb st = Ret (a, b, st1) \<Longrightarrow> st_tmp1 st1 = st_tmp1 st" for path sb lc a b st1
    by (rule hash_keeps_tmp1[of "regular_crc L W opts sf hex tag path lc sb", OF regular_upd])
  show ?thesis using assms(2)
    by (auto simp: printcrc_step_def Let_def bindp_Ret_iff warn_some_def warn_def dest: sp rg assms(1)
        split: found.splits if_splits option.splits)
qed

lemma printcrc_tree_lemma:
  "map_proc (updr []) (printcrc n L W opts sf hex tag p lc st) = printcrc_tree n L W opts sf hex tag p lc (upd [] st)
   \<and> (printcrc n L W opts sf hex tag p lc st = Ret (r, lc', st') \<longrightarrow> st_tmp1 st' = p \<or> st_tmp1 st' = st_tmp1 st)"
proof (induction n arbitrary: p lc st r lc' st')
  case (Suc n)
  let ?rec = "\<lambda>p st. printcrc n L W opts sf hex tag p (Some 0) st"
  let ?rec' = "\<lambda>p st. printcrc_tree n L W opts sf hex tag p (Some 0) st"
  have W1: "\<And>p st r lc st'. ?rec p st = Ret (r, lc, st') \<Longrightarrow> st_tmp1 st' = p \<or> st_tmp1 st' = st_tmp1 st"
    using Suc.IH by blast
  have W2: "\<And>p st. map_proc (updr []) (?rec p st) = ?rec' p (upd [] st)" using Suc.IH by blast
  have ww: "map_proc (upd []) (walk ?rec ds st) = visit ?rec' (st_tmp1 st) ds (upd [] st)
      \<and> (walk ?rec ds st = Ret st' \<longrightarrow> st_tmp1 st' = st_tmp1 st)" for ds st st'
    by (rule walk_visit) (use W1 W2 in blast)+
  have p: "(if first_char p = CHR ''-'' then CHR ''-'' # plain_path p else plain_path p) = p" for p
    by (cases p) (simp_all add: first_char_def plain_path_def)
  have s1: "map_proc (upd []) (scan_dir W ?rec p (plain_path p) sb st) = scan_tree W ?rec' p (plain_path p) sb (upd [] st)" for p sb st
    unfolding scan_dir_def scan_tree_def p using ww[where st = "st\<lparr>st_tmp1 := p\<rparr>"] by (simp add: Let_def split: option.split)
  have s2: "scan_dir W ?rec p (plain_path p) sb st = Ret st' \<Longrightarrow> st_tmp1 st' = p" for p sb st st'
    unfolding scan_dir_def p using ww[where st = "st\<lparr>st_tmp1 := p\<rparr>"] by (auto simp: Let_def split: option.splits if_splits)
  show ?case
    using printcrc_step_upd[of "[]" "scan_dir W ?rec" "scan_tree W ?rec'" L W opts sf hex tag p lc st, OF s1]
      printcrc_step_tmp1[of "scan_dir W ?rec" L W opts sf hex tag p lc st r lc' st', OF s2] by simp
qed simp

subsection \<open>Depth\<close>

lemma bindp_Deep_iff: "bindp m f = Deep \<longleftrightarrow> m = Deep \<or> (\<exists>x. m = Ret x \<and> f x = Deep)"
  by (cases m) simp_all

lemma out_not_deep [simp]: "put_or_die L k o1 s \<noteq> Deep" "flush_or_die L k o1 \<noteq> Deep" "puts_or_die L k o1 ss \<noteq> Deep"
proof -
  show p: "put_or_die L k o1 s \<noteq> Deep" for o1 s by (simp add: put_or_die_def split: option.split)
  show "flush_or_die L k o1 \<noteq> Deep" by (simp add: flush_or_die_def split: option.split)
  show "puts_or_die L k o1 ss \<noteq> Deep" by (induction ss arbitrary: o1) (simp_all add: bindp_Deep_iff p)
qed

lemma show_not_deep [simp]: "show_crc L W sf num path sb tag crc lc st \<noteq> Deep"
  by (simp add: show_crc_def print_line_def stats_def print_perm_def bindp_Deep_iff Let_def del: puts_or_die.simps
      split: option.split)

lemma line_loop_not_deep [simp]: "line_loop w init es tot lc \<noteq> Deep"
  by (induction w init es tot lc rule: line_loop.induct) (auto split: option.split)

lemma hash_not_deep [simp]:
  "special_file_crc L W opts path sb sf hex tag lc st \<noteq> Deep" "regular_crc L W opts sf hex tag path lc sb st \<noteq> Deep"
proof -
  show "special_file_crc L W opts path sb sf hex tag lc st \<noteq> Deep" by (simp add: special_file_crc_def Let_def)
  have "byte_crc L W opts path lc sf hex tag sb st \<noteq> Deep" "line_crc L W opts path lc sf hex tag sb st \<noteq> Deep"
    by (auto simp: byte_crc_def line_crc_def Let_def bindp_Deep_iff split: open_result.split prod.split option.splits)
  then show "regular_crc L W opts sf hex tag path lc sb st \<noteq> Deep" by (simp add: regular_crc_def bindp_Deep_iff split_beta)
qed

lemma walk_not_deep:
  "(\<And>q st. rec (q) st = Deep \<Longrightarrow> \<not> P q) \<Longrightarrow> (\<And>d. d \<in> set ds \<Longrightarrow> d \<noteq> ''.'' \<Longrightarrow> d \<noteq> ''..'' \<Longrightarrow> P (dir @ ''/'' @ d))
    \<Longrightarrow> visit rec dir ds st \<noteq> Deep"
  by (induction ds arbitrary: st) (auto simp: bindp_Deep_iff)

lemma plain_path_child: "plain_path (p @ ''/'' @ d) = plain_path p @ ''/'' @ d"
  by (cases p) (simp_all add: plain_path_def first_char_def)

definition finite_tree :: "crc_world \<Rightarrow> (string \<Rightarrow> nat) \<Rightarrow> bool" where
  "finite_tree W rank \<longleftrightarrow> (\<forall>path names d. w_readdir W path = Some names \<longrightarrow> d \<in> set names \<longrightarrow> d \<noteq> ''.'' \<longrightarrow> d \<noteq> ''..''
     \<longrightarrow> rank (path @ ''/'' @ d) < rank path)"

lemma printcrc_tree_not_deep:
  "finite_tree W rank \<Longrightarrow> rank (plain_path p) < n \<Longrightarrow> printcrc_tree n L W opts sf hex tag p lc st \<noteq> Deep"
proof (induction n arbitrary: p lc st)
  case (Suc n)
  let ?rec = "\<lambda>p st. printcrc_tree n L W opts sf hex tag p (Some 0) st"
  have v: "visit ?rec p names st \<noteq> Deep" if "w_readdir W (plain_path p) = Some names" for names st
  proof (rule walk_not_deep[where P = "\<lambda>q. rank (plain_path q) < n"])
    show "\<And>q st. ?rec q st = Deep \<Longrightarrow> \<not> rank (plain_path q) < n" using Suc.IH Suc.prems(1) by blast
    show "\<And>d. d \<in> set names \<Longrightarrow> d \<noteq> ''.'' \<Longrightarrow> d \<noteq> ''..'' \<Longrightarrow> rank (plain_path (p @ ''/'' @ d)) < n"
      using Suc.prems that unfolding finite_tree_def plain_path_child by (meson less_trans_Suc not_less_eq order_less_trans)
  qed
  have "scan_tree W ?rec p (plain_path p) sb st \<noteq> Deep" for sb st
    using v by (simp add: scan_tree_def split: option.split)
  then show ?case
    by (auto simp: printcrc_step_def Let_def bindp_Deep_iff split: found.splits)
qed simp

lemma printcrc_not_deep:
  assumes "finite_tree W rank" "rank (plain_path p) < n"
  shows "printcrc n L W opts sf hex tag p lc st \<noteq> Deep"
proof
  assume "printcrc n L W opts sf hex tag p lc st = Deep"
  then have "printcrc_tree n L W opts sf hex tag p lc (upd [] st) = Deep"
    using printcrc_tree_lemma[of n L W opts sf hex tag p lc st] by simp
  then show False using printcrc_tree_not_deep[OF assms] by blast
qed

subsection \<open>Line mode\<close>

lemma line_sum_posix: "length l < 2 ^ 32 \<Longrightarrow> line_sum init l (int (length l)) = posix_crc (ucast init) l"
  using crc_final_posix[of l "ucast init"] by (simp add: line_sum_def)

lemma line_loop_plain:
  assumes "\<forall>l \<in> set ls. l \<noteq> [] \<and> length l < 2 ^ 32"
  shows "line_loop False init (map line_event ls) tot lc
    = Ret (Some (tot + sum_list (map (posix_crc (ucast init)) ls)), add_lines lc (length ls))"
  using assms by (induction ls arbitrary: tot lc) (simp_all add: line_event_def line_part_def line_sum_posix algebra_simps)

lemma blank_line_part: "line_part True (replicate k SP @ [LF]) = Some ([LF], - int k)"
proof -
  have "takeWhile is_trailing (rev (replicate k SP @ [LF])) = LF # replicate k SP"
    by (simp add: is_trailing_def takeWhile_eq_all_conv)
  then have "trim_tail (replicate k SP @ [LF]) = 0" by (simp add: trim_tail_def)
  moreover have "trim_lead (replicate k SP @ [LF]) n = Some ([LF], n - int k)" for n
    by (induction k arbitrary: n) simp_all
  ultimately show ?thesis by (simp add: line_part_def)
qed

subsection \<open>The exclusion list\<close>

definition exclude_entries :: "string \<Rightarrow> string list" where
  "exclude_entries d = filter (\<lambda>e. e \<noteq> [] \<and> first_char e \<noteq> CHR ''#'') (map striptrailingwhitespace (file_lines d))"

definition packed :: "string list \<Rightarrow> string" where
  "packed es = concat (map (\<lambda>e. e @ [NUL]) es)"

lemma strip_no_nul: "NUL \<notin> set l \<Longrightarrow> NUL \<notin> set (striptrailingwhitespace l)"
  by (auto simp: striptrailingwhitespace_def dest: set_dropWhileD)

lemma first_char_nul: "NUL \<notin> set e \<Longrightarrow> first_char (e @ [NUL]) \<noteq> NUL \<longleftrightarrow> e \<noteq> []"
  by (cases e) (auto simp: first_char_def)

lemma first_char_snoc: "e \<noteq> [] \<Longrightarrow> first_char (e @ x) = first_char e"
  by (cases e) (simp_all add: first_char_def)

text \<open>All lines of a file but the last one end with a newline.\<close>

lemma file_lines_tail: "file_lines d = l # ls \<Longrightarrow> last l \<noteq> LF \<Longrightarrow> ls = []"
proof (induction d arbitrary: l ls)
  case (Cons c cs)
  then show ?case using file_lines_nonempty[of _ cs] by (auto split: if_splits list.splits)
qed simp

lemma file_lines_suffix: "file_lines d = l # ls \<Longrightarrow> file_lines (concat ls) = ls"
proof (induction d arbitrary: l ls)
  case (Cons c cs)
  then show ?case using concat_file_lines[of cs] by (auto split: if_splits list.splits)
qed simp

lemma exclude_lines_file:
  "NUL \<notin> set d \<Longrightarrow> exclude_lines (map line_event (file_lines d)) sa = Some (sa @ packed (exclude_entries d))"
proof (induction "length d" arbitrary: d sa rule: less_induct)
  case less
  show ?case
  proof (cases "file_lines d")
    case (Cons l ls)
    have d: "d = l @ concat ls" using concat_file_lines[of d] Cons by simp
    have l: "l \<noteq> []" using file_lines_nonempty[of l d] Cons by simp
    have ls: "file_lines (concat ls) = ls" by (rule file_lines_suffix[OF Cons])
    let ?e = "striptrailingwhitespace l"
    let ?sa = "if ?e \<noteq> [] \<and> first_char ?e \<noteq> CHR ''#'' then sa @ ?e @ [NUL] else sa"
    have sa: "(if first_char (?e @ [NUL]) \<noteq> NUL \<and> first_char (?e @ [NUL]) \<noteq> CHR ''#'' then sa @ ?e @ [NUL] else sa) = ?sa"
      using first_char_nul[of ?e] strip_no_nul[of l] first_char_snoc[of ?e "[NUL]"] less.prems d by auto
    have pk: "sa @ packed (exclude_entries d) = ?sa @ packed (exclude_entries (concat ls))"
      using Cons ls by (simp add: exclude_entries_def packed_def)
    have IH: "exclude_lines (map line_event ls) ?sa = Some (?sa @ packed (exclude_entries (concat ls)))"
      using less.hyps[of "concat ls" ?sa] less.prems d l ls by simp
    have step: "exclude_lines (map line_event (file_lines d)) sa
        = (if last l \<noteq> LF then Some ?sa else exclude_lines (map line_event ls) ?sa)"
      using l unfolding Cons sa[symmetric] by (simp add: line_event_def Let_def)
    show ?thesis
    proof (cases "last l = LF")
      case False
      then have "ls = []" using file_lines_tail[OF Cons] by simp
      then show ?thesis using False step pk by (simp add: packed_def exclude_entries_def)
    qed (use step pk IH in simp)
  qed (simp add: exclude_entries_def packed_def)
qed

lemma exclude_loop_packed:
  "\<forall>e \<in> set es. e \<noteq> [] \<and> NUL \<notin> set e \<Longrightarrow>
     exclude_loop W r path (packed es @ [NUL]) \<longleftrightarrow> (\<exists>e \<in> set es. entry_matches W r e path)"
proof (induction es)
  case Nil
  then show ?case by (simp add: packed_def exclude_loop.simps)
next
  case (Cons e es)
  have "takeWhile (\<lambda>c. c \<noteq> NUL) (packed (e # es) @ [NUL]) = e" "drop (length e + 1) (packed (e # es) @ [NUL]) = packed es @ [NUL]"
    using Cons.prems takeWhile_neq_append[of NUL e] by (simp_all add: packed_def)
  moreover have "packed (e # es) @ [NUL] \<noteq> []" by simp
  ultimately have "exclude_loop W r path (packed (e # es) @ [NUL])
      = (entry_matches W r e path \<or> exclude_loop W r path (packed es @ [NUL]))"
    using Cons.prems exclude_loop.simps[of W r path "packed (e # es) @ [NUL]"] by (simp add: Let_def)
  then show ?case using Cons by simp
qed

lemma exclude_entries_ok: "NUL \<notin> set d \<Longrightarrow> e \<in> set (exclude_entries d) \<Longrightarrow> e \<noteq> [] \<and> NUL \<notin> set e"
proof -
  assume nul: "NUL \<notin> set d" and "e \<in> set (exclude_entries d)"
  then obtain l where l: "l \<in> set (file_lines d)" "e = striptrailingwhitespace l" "e \<noteq> []" by (auto simp: exclude_entries_def)
  have "set l \<subseteq> set (concat (file_lines d))" using l(1) by auto
  then have "NUL \<notin> set l" using nul by (auto simp: concat_file_lines)
  then show ?thesis using l strip_no_nul by blast
qed

context qmail
begin

lemma exclude_path_file:
  assumes "a_exclude a = Some fn" "opt_e (a_opts a)" "w_open W fn = Opened es" "read_all es = (d, True)" "NUL \<notin> set d"
  shows "\<exists>a'. load_excludes L W a = Ret a' \<and> (\<forall>path. exclude_path W (a_opts a') path
    \<longleftrightarrow> (\<exists>e \<in> set (exclude_entries d). entry_matches W (opt_r (a_opts a)) e path))"
proof -
  have "read_exclude_file L W fn = Ret (packed (exclude_entries d), 1)"
    using assms(3-5) getlns_ok[of es d] by (simp add: read_exclude_file_def exclude_lines_file)
  then show ?thesis using assms exclude_loop_packed[of "exclude_entries d" W "opt_r (a_opts a)"] exclude_entries_ok[of d]
    by (auto simp: load_excludes_def exclude_path_def)
qed

end

subsection \<open>The status\<close>

lemma posix_crc_empty: "posix_crc 0 [] = CRC_ERROR"
  by (simp add: posix_crc_bytes octets.simps CRC_ERROR_def)

lemma look_up_plain:
  "\<not> opt_e opts \<Longrightarrow> \<not> opt_s opts \<Longrightarrow> \<not> opt_b opts \<Longrightarrow> w_lstat W path = StatOk sb \<Longrightarrow> look_up W opts path = Found sb"
  by (simp add: look_up_def exclude_path_def)

context qmail
begin

lemma print_line_short:
  assumes "good (st_out st)"
  shows "\<exists>o2. print_line L W num False path sb tag st = Ret (st\<lparr>st_out := o2\<rparr>) \<and> good o2
    \<and> sent o2 = sent (st_out st) @ concat num @ [LF]"
proof -
  obtain o1 where o1: "puts_or_die L 111 (st_out st) num = Ret o1" "sent o1 = sent (st_out st) @ concat num" "good o1"
    using puts_good[OF assms] by blast
  obtain o2 where o2: "put_or_die L 111 o1 [LF] = Ret o2" "sent o2 = sent o1 @ [LF]" "good o2"
    using put_good[OF o1(3)] by blast
  obtain o3 where "flush_or_die L 111 o2 = Ret o3" "sent o3 = sent o2" "good o3" using flush_good[OF o2(3)] by blast
  then show ?thesis using o1 o2 by (intro exI[of _ o3]) (simp add: print_line_def)
qed

lemma crc_main_regular:
  assumes "good o1" "first_char path \<noteq> CHR ''-''" "w_lstat W path = StatOk sb" "S_ISREG sb"
    and "w_open W path = Opened es" "read_all es = (d, True)" "length d < 2 ^ 32"
  shows "\<exists>st. crc_main (Suc n) L W create o1 [] [path] = Ret (if posix_crc 0 d = CRC_ERROR then 111 else 0, st)
    \<and> sent (st_out st) = sent o1 @ ''0x'' @ hex8 L (posix_crc 0 d) @ [LF]"
proof -
  let ?c = "posix_crc 0 d" and ?st = "crc_start o1" and ?o = "a_opts crc_defaults"
  obtain o2 where o2: "print_line L W (number_text L True ?c) False path sb None ?st = Ret (?st\<lparr>st_out := o2\<rparr>)"
    "sent o2 = sent o1 @ concat (number_text L True ?c) @ [LF]"
    using print_line_short[of ?st W "number_text L True ?c" path sb None] assms(1) by (auto simp: crc_start_def)
  have p: "plain_path path = path" using assms(2) by (simp add: plain_path_def)
  have opts: "\<not> opt_e ?o" "\<not> opt_s ?o" "\<not> opt_b ?o" "\<not> opt_R ?o" "\<not> opt_l ?o" "initial_crc ?o = 0"
    by (simp_all add: crc_defaults_def)
  have "byte_crc L W ?o path (Some 0) (Some False) True None sb ?st
      = Ret (?c, Some (0 + of_nat (count_newlines d)), ?st\<lparr>st_out := o2\<rparr>)"
    using assms(5-7) o2(1) opts(6)
    by (simp add: byte_crc_def read_loop_all crc_final_posix[where init = 0, simplified] Let_def show_crc_def add_lines_def)
  then have "printcrc (Suc n) L W ?o (Some False) True None path (Some 0) ?st
      = Ret (?c, Some (0 + of_nat (count_newlines d)), ?st\<lparr>st_out := o2\<rparr>)"
    using assms(2,4) look_up_plain[OF opts(1-3) assms(3)] opts(4,5)
    by (simp add: printcrc_step_def p Let_def regular_crc_def)
  moreover have "a_stat crc_defaults = False" "a_hex crc_defaults = True" "a_tag crc_defaults = None"
    "a_exclude crc_defaults = None" "a_output crc_defaults = None" "a_input crc_defaults = None"
    by (simp_all add: crc_defaults_def)
  ultimately show ?thesis using o2(2) assms(2) opts(4)
    by (simp add: crc_main_def load_excludes_def add_status_def concat_number del: printcrc.simps)
qed

end

lemma recursive_open_error:
  assumes "opt_R opts" "\<not> opt_l opts" "first_char path \<noteq> CHR ''-''" "look_up W opts path = Found sb" "S_ISREG sb"
    and "w_open W path = OpenErr"
  shows "printcrc (Suc n) L W opts sf hex tag path lc st
    = Ret (st_fret st, map_option (\<lambda>_. 0) lc, warn (path @ '': '') st)"
  using assms by (simp add: printcrc_step_def plain_path_def Let_def regular_crc_def byte_crc_def warn_def)

end
