(* ===== verification/Crc_Gen.thy ===== *)
theory Crc_Gen
  imports Crc_Spec
begin

text \<open>
  The program that prints the table (\<^verbatim>\<open>crc.c\<close> compiled with \<^verbatim>\<open>CRCTAB\<close>): its loops and the text it
  writes.
\<close>

unbundle bit_operations_syntax

text \<open>The separator after an entry. The \<open>else\<close> of the source belongs to the inner \<open>if\<close>, so that after a
  successful first write a second one follows, and the last row has none.\<close>

definition gen_separator :: "'o qlib \<Rightarrow> nat \<Rightarrow> nat \<Rightarrow> 'o \<Rightarrow> 'o proc" where
  "gen_separator L i k ssout = (if i < 50
     then bindp (put_or_die L 111 ssout (if k < 5 then '', '' else [CHR '','', LF])) (\<lambda>ssout.
       if k < 5 then put_or_die L 111 ssout '', '' else Ret ssout)
     else Ret ssout)"

definition gen_entry :: "'o qlib \<Rightarrow> u64 list \<Rightarrow> nat \<Rightarrow> nat \<Rightarrow> 'o \<Rightarrow> 'o proc" where
  "gen_entry L r i k ssout = (let d = fmt_xlong L (unat (remainder r (i * 5 + k))) in
     bindp (puts_or_die L 111 ssout ([''0x''] @ replicate (8 - length d) ''0'' @ [d])) (\<lambda>ssout.
       gen_separator L i k ssout))"

fun gen_row :: "'o qlib \<Rightarrow> u64 list \<Rightarrow> nat \<Rightarrow> nat list \<Rightarrow> 'o \<Rightarrow> 'o proc" where
  "gen_row L r i [] ssout = Ret ssout"
| "gen_row L r i (k # ks) ssout = bindp (gen_entry L r i k ssout) (\<lambda>ssout. gen_row L r i ks ssout)"

fun gen_rows :: "'o qlib \<Rightarrow> u64 list \<Rightarrow> nat list \<Rightarrow> 'o \<Rightarrow> 'o proc" where
  "gen_rows L r [] ssout = Ret ssout"
| "gen_rows L r (i # is) ssout = bindp (gen_row L r i [1..<6] ssout) (\<lambda>ssout. gen_rows L r is ssout)"

definition crctab_main :: "'o qlib \<Rightarrow> 'o \<Rightarrow> 'o proc" where
  "crctab_main L stdout = (let r = fill_r (replicate 8 0) in
     bindp (put_or_die L 111 stdout (''unsigned long crctab[256] = {'' @ [LF] @ ''0x0,'' @ [LF])) (\<lambda>ssout.
     bindp (gen_rows L r [0..<51] ssout) (\<lambda>ssout.
     bindp (put_or_die L 111 ssout ([LF] @ ''};'' @ [LF])) (\<lambda>ssout. flush_or_die L 111 ssout))))"

definition sep_text :: "nat \<Rightarrow> nat \<Rightarrow> string" where
  "sep_text i k = (if i < 50 then if k < 5 then '', , '' else [CHR '','', LF] else [])"

definition entry_text :: "'o qlib \<Rightarrow> nat \<Rightarrow> nat \<Rightarrow> string" where
  "entry_text L i k = ''0x'' @ hex8 L (ucast (crctab ! (i * 5 + k))) @ sep_text i k"

definition table_text :: "'o qlib \<Rightarrow> string" where
  "table_text L = ''unsigned long crctab[256] = {'' @ [LF] @ ''0x0,'' @ [LF]
     @ concat (map (\<lambda>i. concat (map (entry_text L i) [1..<6])) [0..<51]) @ [LF] @ ''};'' @ [LF]"

lemma remainder_crctab:
  assumes "m < 256"
  shows "remainder (fill_r (replicate 8 0)) m = crctab ! m"
    "unat (remainder (fill_r (replicate 8 0)) m) = unat (ucast (crctab ! m) :: u32)"
proof -
  show 1: "remainder (fill_r (replicate 8 0)) m = crctab ! m"
    using assms crctab_generated nth_map_upt[of m 256 0 "remainder (fill_r (replicate 8 0))"] by simp
  have "crctab ! m = ucast (ucast (crctab ! m) :: u32)" using crctab_ref[OF assms] by (simp add: table_ref_def ucast_twice)
  moreover have "unat (ucast (x :: u32) :: u64) = unat x" for x by (simp add: unsigned_ucast_eq take_bit_nat_eq_self order_less_trans[OF unsigned_less])
  ultimately show "unat (remainder (fill_r (replicate 8 0)) m) = unat (ucast (crctab ! m) :: u32)"
    unfolding 1 by metis
qed

context qmail
begin

lemma gen_entry_good:
  assumes "good o1" "i * 5 + k < 256"
  shows "\<exists>o2. gen_entry L (fill_r (replicate 8 0)) i k o1 = Ret o2 \<and> good o2 \<and> sent o2 = sent o1 @ entry_text L i k"
proof -
  let ?d = "fmt_xlong L (unat (remainder (fill_r (replicate 8 0)) (i * 5 + k)))"
  let ?t = "[''0x''] @ replicate (8 - length ?d) ''0'' @ [?d]"
  have t: "concat ?t = ''0x'' @ hex8 L (ucast (crctab ! (i * 5 + k)))"
    using remainder_crctab(2)[OF assms(2)] by (simp add: hex8_def concat_replicate_single)
  obtain o2 where o2: "puts_or_die L 111 o1 ?t = Ret o2" "sent o2 = sent o1 @ concat ?t" "good o2"
    using puts_good[OF assms(1), of 111 ?t] by blast
  have "\<exists>o3. gen_separator L i k o2 = Ret o3 \<and> good o3 \<and> sent o3 = sent o2 @ sep_text i k"
  proof -
    obtain o3 where o3: "put_or_die L 111 o2 (if k < 5 then '', '' else [CHR '','', LF]) = Ret o3"
      "sent o3 = sent o2 @ (if k < 5 then '', '' else [CHR '','', LF])" "good o3" using put_good[OF o2(3)] by blast
    obtain o4 where "put_or_die L 111 o3 '', '' = Ret o4" "sent o4 = sent o3 @ '', ''" "good o4" using put_good[OF o3(3)] by blast
    then show ?thesis using o2(3) o3 by (cases "i < 50"; cases "k < 5") (simp_all add: gen_separator_def sep_text_def)
  qed
  then show ?thesis using o2 t by (auto simp: gen_entry_def Let_def entry_text_def simp del: puts_or_die.simps)
qed

lemma gen_row_good:
  "good o1 \<Longrightarrow> \<forall>k \<in> set ks. i * 5 + k < 256 \<Longrightarrow>
    \<exists>o2. gen_row L (fill_r (replicate 8 0)) i ks o1 = Ret o2 \<and> good o2 \<and> sent o2 = sent o1 @ concat (map (entry_text L i) ks)"
proof (induction ks arbitrary: o1)
  case (Cons k ks)
  obtain o2 where o2: "gen_entry L (fill_r (replicate 8 0)) i k o1 = Ret o2" "good o2" "sent o2 = sent o1 @ entry_text L i k"
    using gen_entry_good[of o1 i k] Cons.prems by auto
  then show ?case using Cons.IH[OF o2(2)] Cons.prems by auto
qed simp

lemma gen_rows_good:
  "good o1 \<Longrightarrow> \<forall>i \<in> set is. i < 51 \<Longrightarrow>
    \<exists>o2. gen_rows L (fill_r (replicate 8 0)) is o1 = Ret o2 \<and> good o2
      \<and> sent o2 = sent o1 @ concat (map (\<lambda>i. concat (map (entry_text L i) [1..<6])) is)"
proof (induction "is" arbitrary: o1)
  case (Cons i "is")
  obtain o2 where o2: "gen_row L (fill_r (replicate 8 0)) i [1..<6] o1 = Ret o2" "good o2"
    "sent o2 = sent o1 @ concat (map (entry_text L i) [1..<6])"
    using gen_row_good[of o1 "[1..<6]" i] Cons.prems by fastforce
  then show ?case using Cons.IH[OF o2(2)] Cons.prems by auto
qed simp

lemma crctab_main_good:
  assumes "good o1"
  shows "\<exists>o2. crctab_main L o1 = Ret o2 \<and> sent o2 = sent o1 @ table_text L"
proof -
  obtain o2 where o2: "put_or_die L 111 o1 (''unsigned long crctab[256] = {'' @ [LF] @ ''0x0,'' @ [LF]) = Ret o2" "good o2"
    "sent o2 = sent o1 @ ''unsigned long crctab[256] = {'' @ [LF] @ ''0x0,'' @ [LF]" using put_good[OF assms] by metis
  obtain o3 where o3: "gen_rows L (fill_r (replicate 8 0)) [0..<51] o2 = Ret o3" "good o3"
    "sent o3 = sent o2 @ concat (map (\<lambda>i. concat (map (entry_text L i) [1..<6])) [0..<51])"
    using gen_rows_good[OF o2(2), of "[0..<51]"] by auto
  obtain o4 where o4: "put_or_die L 111 o3 ([LF] @ ''};'' @ [LF]) = Ret o4" "good o4" "sent o4 = sent o3 @ [LF] @ ''};'' @ [LF]"
    using put_good[OF o3(2)] by metis
  obtain o5 where "flush_or_die L 111 o4 = Ret o5" "sent o5 = sent o4" using flush_good[OF o4(2)] by blast
  then show ?thesis using o2 o3 o4 by (simp add: crctab_main_def table_text_def)
qed

end

end
