(* ===== verification/Crcdiff_Index.thy ===== *)
theory Crcdiff_Index
  imports Process Crc_Table
begin

text \<open>
  The hash index of \<^verbatim>\<open>crcdiff.c\<close>: the hash function, the loops over the slots of a table (open addressing
  with linear probing) and the size of a table. The loop over the slots is a \<open>partial_function\<close>:
  it would run forever in a full table. The locale \<open>first_index\<close> is the contract of an index: a
  lookup gives the position of the first entry with the key. It is interpreted on the tables.
\<close>

unbundle bit_operations_syntax

definition hash :: "string \<Rightarrow> u64" where
  "hash s = fold (\<lambda>c h. h * 33 + ucast (of_char c :: u8)) s 5381"

record htab =
  slot :: "nat list"
  hmask :: nat

partial_function (option) probe :: "(nat \<Rightarrow> bool) \<Rightarrow> htab \<Rightarrow> nat \<Rightarrow> nat option" where
  "probe same t h = (if length (slot t) \<le> h then None
     else if slot t ! h = 0 then Some h
     else if same (slot t ! h - 1) then Some h
     else probe same t ((h + 1) AND hmask t))"

definition first_slot :: "htab \<Rightarrow> string \<Rightarrow> nat" where
  "first_slot t key = unat (hash key AND of_nat (hmask t))"

text \<open>The position of the slot for a key, given the keys of the list.\<close>

definition find_slot :: "string list \<Rightarrow> htab \<Rightarrow> string \<Rightarrow> nat option" where
  "find_slot keys t key = probe (\<lambda>i. keys ! i = key) t (first_slot t key)"

definition index_entry :: "string list \<Rightarrow> nat \<Rightarrow> htab \<Rightarrow> htab option" where
  "index_entry keys i t = (case find_slot keys t (keys ! i) of
     None \<Rightarrow> None
   | Some h \<Rightarrow> Some (if slot t ! h = 0 then t\<lparr>slot := (slot t)[h := i + 1]\<rparr> else t))"

definition lookup :: "string list \<Rightarrow> htab \<Rightarrow> string \<Rightarrow> nat option" where
  "lookup keys t key = map_option (\<lambda>h. slot t ! h) (find_slot keys t key)"

function table_size :: "nat \<Rightarrow> nat \<Rightarrow> nat" where
  "table_size n sz = (if 0 < sz \<and> sz < n * 2 + 2 then table_size n (sz * 2) else sz)"
  by auto
termination by (relation "measure (\<lambda>(n, sz). n * 2 + 2 - sz)") auto

declare table_size.simps [simp del]

fun index_entries :: "string list \<Rightarrow> nat list \<Rightarrow> htab \<Rightarrow> htab option" where
  "index_entries keys [] t = Some t"
| "index_entries keys (i # is) t = (case index_entry keys i t of None \<Rightarrow> None | Some t \<Rightarrow> index_entries keys is t)"

definition empty_table :: "nat \<Rightarrow> htab" where
  "empty_table sz = \<lparr>slot = replicate sz 0, hmask = sz - 1\<rparr>"

definition build_index :: "string list \<Rightarrow> htab option" where
  "build_index keys = index_entries keys [0..<length keys] (empty_table (table_size (length keys) 16))"

subsection \<open>The contract\<close>

text \<open>The position of the first key that is equal, counted from 1; 0 when there is none.\<close>

fun first_pos :: "'k list \<Rightarrow> 'k \<Rightarrow> nat" where
  "first_pos [] x = 0"
| "first_pos (k # ks) x = (if k = x then 1 else if first_pos ks x = 0 then 0 else first_pos ks x + 1)"

lemma first_pos_0: "first_pos ks x = 0 \<longleftrightarrow> x \<notin> set ks"
  by (induction ks) auto

lemma first_pos_eq:
  "j < length ks \<Longrightarrow> ks ! j = x \<Longrightarrow> \<forall>i < j. ks ! i \<noteq> x \<Longrightarrow> first_pos ks x = j + 1"
proof (induction ks arbitrary: j)
  case (Cons k ks)
  then show ?case
  proof (cases j)
    case (Suc i)
    have "\<forall>m < i. ks ! m \<noteq> x" using Cons.prems(3) Suc by (metis Suc_less_eq nth_Cons_Suc)
    then show ?thesis using Cons Suc by (metis One_nat_def Suc_eq_plus1 Suc_less_eq first_pos.simps(2) length_Cons nat.distinct(1) nth_Cons_0 nth_Cons_Suc zero_less_Suc)
  qed auto
qed simp

lemma first_posD:
  "first_pos ks x = Suc j \<Longrightarrow> j < length ks \<and> ks ! j = x \<and> (\<forall>i < j. ks ! i \<noteq> x)"
proof (induction ks arbitrary: j)
  case (Cons k ks)
  show ?case
  proof (cases "k = x")
    case False
    then obtain m where m: "first_pos ks x = Suc m" "j = Suc m"
      using Cons.prems by (cases "first_pos ks x") (auto split: if_splits)
    then show ?thesis using Cons.IH[OF m(1)] False less_Suc_eq_0_disj by auto
  qed (use Cons.prems in simp)
qed simp

locale first_index =
  fixes build :: "'k list \<Rightarrow> 't option"
    and get :: "'k list \<Rightarrow> 't \<Rightarrow> 'k \<Rightarrow> nat option"
    and fits :: "'k list \<Rightarrow> bool"
  assumes build_get: "fits ks \<Longrightarrow> \<exists>t. build ks = Some t \<and> (\<forall>x. get ks t x = Some (first_pos ks x))"
begin

lemma get_mem: "fits ks \<Longrightarrow> build ks = Some t \<Longrightarrow> get ks t x = Some 0 \<longleftrightarrow> x \<notin> set ks"
  using build_get[of ks] first_pos_0[of ks x] by auto

end

subsection \<open>The tables meet the contract\<close>

definition reached :: "nat \<Rightarrow> htab \<Rightarrow> string \<Rightarrow> nat \<Rightarrow> bool" where
  "reached k t x h \<longleftrightarrow> (\<exists>d. h = (first_slot t x + d) mod 2 ^ k
     \<and> (\<forall>e < d. slot t ! ((first_slot t x + e) mod 2 ^ k) \<noteq> 0))"

definition slot_ok :: "string list \<Rightarrow> nat \<Rightarrow> nat \<Rightarrow> htab \<Rightarrow> nat \<Rightarrow> bool" where
  "slot_ok keys k m t h \<longleftrightarrow> slot t ! h \<noteq> 0 \<longrightarrow> slot t ! h \<le> m
     \<and> (\<forall>i < slot t ! h - 1. keys ! i \<noteq> keys ! (slot t ! h - 1)) \<and> reached k t (keys ! (slot t ! h - 1)) h"

definition tab_ok :: "string list \<Rightarrow> nat \<Rightarrow> nat \<Rightarrow> htab \<Rightarrow> bool" where
  "tab_ok keys k m t \<longleftrightarrow> k < 64 \<and> length (slot t) = 2 ^ k \<and> hmask t = 2 ^ k - 1 \<and> m \<le> length keys
     \<and> card {h. h < 2 ^ k \<and> slot t ! h \<noteq> 0} \<le> m
     \<and> (\<forall>h < 2 ^ k. slot_ok keys k m t h)
     \<and> (\<forall>i < m. \<exists>h < 2 ^ k. slot t ! h \<noteq> 0 \<and> keys ! (slot t ! h - 1) = keys ! i)"

lemma tab_okD:
  assumes "tab_ok keys k m t"
  shows "h < 2 ^ k \<Longrightarrow> slot_ok keys k m t h"
    and "i < m \<Longrightarrow> \<exists>h < 2 ^ k. slot t ! h \<noteq> 0 \<and> keys ! (slot t ! h - 1) = keys ! i"
  using assms by (simp_all add: tab_ok_def)

lemma and_mask_mod: "(n::nat) AND (2 ^ k - 1) = n mod 2 ^ k"
  using take_bit_eq_mask[of k n] by (simp add: take_bit_eq_mod mask_eq_exp_minus_1)

lemma first_slot_less:
  assumes "k < 64" "hmask t = 2 ^ k - 1"
  shows "first_slot t x < 2 ^ k"
proof -
  have "of_nat (2 ^ k - 1) = (Bit_Operations.mask k :: u64)"
    by (simp add: mask_eq_exp_minus_1 of_nat_diff)
  then have "first_slot t x = unat (take_bit k (hash x))" using assms by (simp add: first_slot_def take_bit_eq_mask)
  also have "\<dots> < 2 ^ k" using take_bit_nat_less_exp[of k "unat (hash x)"] by (simp add: unsigned_take_bit_eq)
  finally show ?thesis .
qed

lemma probe_finds:
  assumes "length (slot t) = 2 ^ k" "hmask t = 2 ^ k - 1"
    and "\<forall>e < d. slot t ! ((h + e) mod 2 ^ k) \<noteq> 0 \<and> \<not> same (slot t ! ((h + e) mod 2 ^ k) - 1)"
    and "slot t ! ((h + d) mod 2 ^ k) = 0 \<or> same (slot t ! ((h + d) mod 2 ^ k) - 1)" "h < 2 ^ k"
  shows "probe same t h = Some ((h + d) mod 2 ^ k)"
  using assms
proof (induction d arbitrary: h)
  case 0
  then show ?case by (subst probe.simps) auto
next
  case (Suc d)
  let ?h = "(h + 1) mod 2 ^ k"
  have "slot t ! h \<noteq> 0 \<and> \<not> same (slot t ! h - 1)" using Suc.prems(3)[rule_format, of 0] Suc.prems(5) by simp
  then have step: "probe same t h = probe same t ?h"
    using Suc.prems(1,2,5) and_mask_mod[of "h + 1" k] by (subst probe.simps) simp
  have shift: "(?h + e) mod 2 ^ k = (h + Suc e) mod 2 ^ k" for e by (simp add: mod_add_left_eq)
  have "probe same t ?h = Some ((?h + d) mod 2 ^ k)"
    using Suc.prems by (intro Suc.IH) (simp_all only: shift, auto)
  then show ?case using step shift by simp
qed

lemma find_slot_spec:
  assumes "tab_ok keys k m t" "m < 2 ^ k"
  obtains h d where "find_slot keys t x = Some h" "h < 2 ^ k" "h = (first_slot t x + d) mod 2 ^ k"
    "\<forall>e < d. slot t ! ((first_slot t x + e) mod 2 ^ k) \<noteq> 0 \<and> keys ! (slot t ! ((first_slot t x + e) mod 2 ^ k) - 1) \<noteq> x"
    "slot t ! h = 0 \<or> keys ! (slot t ! h - 1) = x"
proof -
  let ?f = "first_slot t x"
  let ?P = "\<lambda>d. slot t ! ((?f + d) mod 2 ^ k) = 0 \<or> keys ! (slot t ! ((?f + d) mod 2 ^ k) - 1) = x"
  have t: "k < 64" "length (slot t) = 2 ^ k" "hmask t = 2 ^ k - 1" "card {h. h < 2 ^ k \<and> slot t ! h \<noteq> 0} \<le> m"
    using assms(1) by (simp_all add: tab_ok_def)
  have f: "?f < 2 ^ k" by (rule first_slot_less[OF t(1,3)])
  have "\<exists>h < 2 ^ k. slot t ! h = 0"
  proof (rule ccontr)
    assume "\<not> ?thesis"
    then have "{h. h < 2 ^ k \<and> slot t ! h \<noteq> 0} = {..<2 ^ k}" by auto
    then show False using t(4) assms(2) by simp
  qed
  then obtain h where h: "h < 2 ^ k" "slot t ! h = 0" by blast
  have "(?f + (h + 2 ^ k - ?f)) mod 2 ^ k = h" using f h(1) by simp
  then have ex: "\<exists>d. ?P d" using h(2) by metis
  define d where "d = (LEAST d. ?P d)"
  have d: "?P d" unfolding d_def by (rule LeastI_ex[OF ex])
  have least: "\<forall>e < d. \<not> ?P e" unfolding d_def using not_less_Least by blast
  have "find_slot keys t x = Some ((?f + d) mod 2 ^ k)"
    unfolding find_slot_def by (rule probe_finds[OF t(2,3)]) (use d least f in auto)
  then show ?thesis using that[of "(?f + d) mod 2 ^ k" d] d least by simp
qed

lemma lookup_first:
  assumes "tab_ok keys k m t" "m < 2 ^ k"
  shows "lookup keys t x = Some (first_pos (take m keys) x)"
proof -
  obtain h d where h: "find_slot keys t x = Some h" "h < 2 ^ k" "h = (first_slot t x + d) mod 2 ^ k"
    and before: "\<forall>e < d. slot t ! ((first_slot t x + e) mod 2 ^ k) \<noteq> 0
        \<and> keys ! (slot t ! ((first_slot t x + e) mod 2 ^ k) - 1) \<noteq> x"
    and at: "slot t ! h = 0 \<or> keys ! (slot t ! h - 1) = x" by (rule find_slot_spec[OF assms, of x])
  have m: "m \<le> length keys" using assms(1) by (simp add: tab_ok_def)
  show ?thesis
  proof (cases "slot t ! h = 0")
    case True
    have "keys ! i \<noteq> x" if i: "i < m" for i
    proof
      assume "keys ! i = x"
      then obtain h' where h': "h' < 2 ^ k" "slot t ! h' \<noteq> 0" "keys ! (slot t ! h' - 1) = x"
        using tab_okD(2)[OF assms(1) i] by metis
      then have "reached k t x h'" using tab_okD(1)[OF assms(1) h'(1)] by (simp add: slot_ok_def)
      then obtain d' where d': "h' = (first_slot t x + d') mod 2 ^ k"
        "\<forall>e < d'. slot t ! ((first_slot t x + e) mod 2 ^ k) \<noteq> 0" unfolding reached_def by blast
      have "d' < d \<or> d' = d \<or> d < d'" by auto
      then show False using before d' h h' True by auto
    qed
    then have "x \<notin> set (take m keys)" by (auto simp: in_set_conv_nth)
    then show ?thesis using h(1) True first_pos_0[of "take m keys" x] by (simp add: lookup_def)
  next
    case False
    let ?j = "slot t ! h - 1"
    have j: "slot t ! h \<le> m" "\<forall>i < ?j. keys ! i \<noteq> keys ! ?j" using tab_okD(1)[OF assms(1) h(2)] False by (simp_all add: slot_ok_def)
    have "first_pos (take m keys) x = ?j + 1"
      using j False at m by (intro first_pos_eq) auto
    then show ?thesis using h(1) False by (simp add: lookup_def)
  qed
qed

lemma index_entry_ok:
  assumes "tab_ok keys k m t" "m < 2 ^ k" "m < length keys"
  shows "\<exists>t'. index_entry keys m t = Some t' \<and> tab_ok keys k (m + 1) t'"
proof -
  let ?x = "keys ! m"
  obtain h d where h: "find_slot keys t ?x = Some h" "h < 2 ^ k" "h = (first_slot t ?x + d) mod 2 ^ k"
    and before: "\<forall>e < d. slot t ! ((first_slot t ?x + e) mod 2 ^ k) \<noteq> 0
        \<and> keys ! (slot t ! ((first_slot t ?x + e) mod 2 ^ k) - 1) \<noteq> ?x"
    and at: "slot t ! h = 0 \<or> keys ! (slot t ! h - 1) = ?x" by (rule find_slot_spec[OF assms(1,2), of ?x])
  show ?thesis
  proof (cases "slot t ! h = 0")
    case False
    have "tab_ok keys k (m + 1) t"
      unfolding tab_ok_def
    proof (intro conjI allI impI)
      fix i assume "i < m + 1"
      then show "\<exists>h < 2 ^ k. slot t ! h \<noteq> 0 \<and> keys ! (slot t ! h - 1) = keys ! i"
        using tab_okD(2)[OF assms(1), of i] False at h(2) by (cases "i = m") auto
    qed (use assms tab_okD(1)[OF assms(1)] in \<open>auto simp: tab_ok_def slot_ok_def\<close>)
    then show ?thesis using False h(1) by (simp add: index_entry_def)
  next
    case True
    let ?t = "t\<lparr>slot := (slot t)[h := m + 1]\<rparr>"
    have len: "length (slot t) = 2 ^ k" using assms(1) by (simp add: tab_ok_def)
    have fs: "first_slot ?t y = first_slot t y" for y by (simp add: first_slot_def)
    have sl: "slot ?t ! g = (if g = h then m + 1 else slot t ! g)" if "g < 2 ^ k" for g using that len by simp
    have nz: "slot ?t ! (n mod 2 ^ k) \<noteq> 0" if "slot t ! (n mod 2 ^ k) \<noteq> 0" for n using that sl[of "n mod 2 ^ k"] by simp
    have grow: "reached k t y g \<Longrightarrow> reached k ?t y g" for y g unfolding reached_def fs using nz by blast
    have new: "keys ! i \<noteq> ?x" if "i < m" for i
    proof
      assume "keys ! i = ?x"
      then have "?x \<in> set (take m keys)" using that assms(3) by (metis in_set_conv_nth length_take min.absorb4 nth_take)
      moreover have "first_pos (take m keys) ?x = 0"
        using lookup_first[OF assms(1,2), of ?x] h(1) True by (simp add: lookup_def)
      ultimately show False by (simp add: first_pos_0)
    qed
    have "{g. g < 2 ^ k \<and> slot ?t ! g \<noteq> 0} \<subseteq> insert h {g. g < 2 ^ k \<and> slot t ! g \<noteq> 0}" using sl by auto
    then have "card {g. g < 2 ^ k \<and> slot ?t ! g \<noteq> 0} \<le> card (insert h {g. g < 2 ^ k \<and> slot t ! g \<noteq> 0})"
      by (intro card_mono) auto
    also have "\<dots> \<le> Suc (card {g. g < 2 ^ k \<and> slot t ! g \<noteq> 0})" by (simp add: card_insert_if)
    also have "\<dots> \<le> m + 1" using assms(1) by (simp add: tab_ok_def)
    finally have card: "card {g. g < 2 ^ k \<and> slot ?t ! g \<noteq> 0} \<le> m + 1" .
    have "reached k t ?x h" unfolding reached_def using h(3) before by blast
    then have slots: "slot_ok keys k (m + 1) ?t g" if "g < 2 ^ k" for g
      using that tab_okD(1)[OF assms(1), of g] sl[of g] grow new by (cases "g = h") (auto simp: slot_ok_def simp del: nth_list_update)
    have keys: "\<exists>g < 2 ^ k. slot ?t ! g \<noteq> 0 \<and> keys ! (slot ?t ! g - 1) = keys ! i" if i: "i < m + 1" for i
    proof (cases "i = m")
      case True
      then show ?thesis using sl[OF h(2)] h(2) by (intro exI[of _ h]) (simp del: nth_list_update)
    next
      case False
      then obtain g where g: "g < 2 ^ k" "slot t ! g \<noteq> 0" "keys ! (slot t ! g - 1) = keys ! i"
        using tab_okD(2)[OF assms(1), of i] i by auto
      then show ?thesis using sl[OF g(1)] True by (intro exI[of _ g]) (auto simp del: nth_list_update)
    qed
    have "tab_ok keys k (m + 1) ?t"
      using assms(1,3) card slots keys len by (simp add: tab_ok_def del: nth_list_update)
    then show ?thesis using True h(1) by (simp add: index_entry_def)
  qed
qed

lemma index_entries_ok:
  "tab_ok keys k m t \<Longrightarrow> m + j \<le> length keys \<Longrightarrow> m + j < 2 ^ k \<Longrightarrow>
    \<exists>t'. index_entries keys [m..<m + j] t = Some t' \<and> tab_ok keys k (m + j) t'"
proof (induction j arbitrary: m t)
  case (Suc j)
  obtain t1 where t1: "index_entry keys m t = Some t1" "tab_ok keys k (m + 1) t1"
    using index_entry_ok[OF Suc.prems(1)] Suc.prems by auto
  have "[m..<m + Suc j] = m # [m + 1..<m + 1 + j]" using upt_conv_Cons[of m "m + Suc j"] by simp
  then show ?case using t1 Suc.IH[OF t1(2)] Suc.prems by (simp del: upt_Suc)
qed simp

lemma table_size_power: "\<exists>j \<ge> i. table_size n (2 ^ i) = 2 ^ j \<and> n * 2 + 2 \<le> 2 ^ j \<and> (2 ^ i < n * 2 + 2 \<longrightarrow> 2 ^ j < 2 * (n * 2 + 2)) \<and> (\<not> 2 ^ i < n * 2 + 2 \<longrightarrow> j = i)"
proof (induction "n * 2 + 2 - 2 ^ i" arbitrary: i rule: less_induct)
  case less
  show ?case
  proof (cases "2 ^ i < n * 2 + 2")
    case True
    have "n * 2 + 2 - 2 ^ Suc i < n * 2 + 2 - 2 ^ i" using True by (simp add: diff_less_mono2)
    from less[OF this] obtain j where "j \<ge> Suc i" "table_size n (2 ^ Suc i) = 2 ^ j" "n * 2 + 2 \<le> 2 ^ j"
      "2 ^ Suc i < n * 2 + 2 \<longrightarrow> 2 ^ j < 2 * (n * 2 + 2)" "\<not> 2 ^ Suc i < n * 2 + 2 \<longrightarrow> j = Suc i" by blast
    then show ?thesis using True table_size.simps[of n "2 ^ i"] by (intro exI[of _ j]) (auto simp: mult.commute)
  next
    case False
    then show ?thesis using table_size.simps[of n "2 ^ i"] by (intro exI[of _ i]) auto
  qed
qed

lemma empty_table_ok: "k < 64 \<Longrightarrow> tab_ok keys k 0 (empty_table (2 ^ k))"
  by (simp add: tab_ok_def empty_table_def slot_ok_def)

lemma build_index_ok:
  assumes "length keys < 2 ^ 60"
  shows "\<exists>k t. build_index keys = Some t \<and> tab_ok keys k (length keys) t \<and> length keys < 2 ^ k"
proof -
  let ?n = "length keys"
  obtain k where k: "table_size ?n 16 = 2 ^ k" "?n * 2 + 2 \<le> 2 ^ k"
    "16 < ?n * 2 + 2 \<longrightarrow> 2 ^ k < 2 * (?n * 2 + 2)" "\<not> 16 < ?n * 2 + 2 \<longrightarrow> k = 4"
    using table_size_power[of 4 ?n] by auto
  have "(2::nat) ^ k < 2 ^ 64" using k(3,4) assms by (cases "16 < ?n * 2 + 2") auto
  then have "k < 64" using power_less_imp_less_exp[of "2::nat" k 64] by linarith
  then show ?thesis
    using index_entries_ok[OF empty_table_ok, of k ?n keys] k(1,2)
    by (intro exI[of _ k]) (auto simp: build_index_def)
qed

lemma build_index_lookup:
  assumes "length keys < 2 ^ 60"
  shows "\<exists>t. build_index keys = Some t \<and> (\<forall>x. lookup keys t x = Some (first_pos keys x))"
  using build_index_ok[OF assms] lookup_first[of keys _ "length keys"] by fastforce

interpretation hashed: first_index build_index lookup "\<lambda>keys. length keys < 2 ^ 60"
  by unfold_locales (rule build_index_lookup)

end
