(* ===== verification/Crcdiff.thy ===== *)
theory Crcdiff
  imports Crcdiff_Index Crc_Spec
begin

text \<open>
  The program \<open>crcdiff\<close>, \<^verbatim>\<open>crcdiff.c\<close>: parsing of the lines that \<open>crc -v\<close> prints, the two indexed lists,
  the comparison and the summary.

  A line is the block of its bytes (the terminator after it is readable); the pointers of the
  structure \<open>entry\<close> are positions in it. \<open>strptime\<close> of the C library, which depends on the locale,
  is a parameter \<open>tm\<close> that says which texts it accepts. The static counters of the program and its
  output are the record \<open>cd_st\<close>, messages on the standard error stream are collected in \<open>cd_err\<close>.
\<close>

unbundle bit_operations_syntax

subsection \<open>C strings in a block\<close>

definition cut_nul :: "string \<Rightarrow> string" where
  "cut_nul b = takeWhile (\<lambda>c. c \<noteq> NUL) b"

definition byte_at :: "string \<Rightarrow> nat \<Rightarrow> char ub" where
  "byte_at b i = (if i < length b then Some (b ! i) else if i = length b then Some NUL else None)"

definition text_at :: "string \<Rightarrow> nat \<Rightarrow> string ub" where
  "text_at b i = (if i \<le> length b then Some (cut_nul (drop i b)) else None)"

definition strchr :: "string \<Rightarrow> char \<Rightarrow> nat option" where
  "strchr s c = (if c \<in> set s then Some (length (takeWhile (\<lambda>d. d \<noteq> c) s)) else None)"

definition strrchr :: "string \<Rightarrow> char \<Rightarrow> nat option" where
  "strrchr s c = (if c \<in> set s then Some (length s - 1 - length (takeWhile (\<lambda>d. d \<noteq> c) (rev s))) else None)"

fun strstr :: "string \<Rightarrow> string \<Rightarrow> nat option" where
  "strstr [] pat = (if pat = [] then Some 0 else None)"
| "strstr (c # cs) pat = (if take (length pat) (c # cs) = pat then Some 0 else map_option Suc (strstr cs pat))"

definition strncmp_differs :: "string \<Rightarrow> string \<Rightarrow> nat \<Rightarrow> bool" where
  "strncmp_differs s t n \<longleftrightarrow> take n s \<noteq> take n t"

subsection \<open>Entries\<close>

record entry =
  ebytes :: string
  etail :: nat
  epath :: nat
  eplen :: nat
  eklen :: nat
  eolen :: u64

fun skip_fields :: "nat \<Rightarrow> string \<Rightarrow> string" where
  "skip_fields 0 s = s"
| "skip_fields (Suc n) s = skip_fields n (dropWhile (\<lambda>c. c = SP) (dropWhile (\<lambda>c. c \<noteq> SP) s))"

definition tag_mark :: string where
  "tag_mark = '',tag=''"

definition make_entry :: "string \<Rightarrow> nat \<Rightarrow> nat \<Rightarrow> entry" where
  "make_entry b t p = (let s = cut_nul b in
     \<lparr>ebytes = b, etail = t, epath = p, eplen = length s - p,
      eklen = (case strstr s tag_mark of Some k \<Rightarrow> k | None \<Rightarrow> length b), eolen = of_nat t - 21\<rparr>)"

definition parse :: "(string \<Rightarrow> bool) \<Rightarrow> string \<Rightarrow> entry option" where
  "parse tm b = (let s = cut_nul b in
     if length b < 23 then None
     else (case strrchr s TAB of
         None \<Rightarrow> None
       | Some t \<Rightarrow>
           if t = 0 \<or> strchr s TAB = Some t then None
           else (let u = drop (t + 1) s in
             if \<not> tm u then None
             else (let r = skip_fields 4 u; p = length s - length r in
               if r = [] \<or> p - t \<noteq> 22 then None
               else Some (make_entry b t p)))))"

definition pkey :: "entry \<Rightarrow> string" where
  "pkey e = take (eplen e) (drop (epath e) (ebytes e))"

definition kkey :: "entry \<Rightarrow> string" where
  "kkey e = take (eklen e) (ebytes e)"

subsection \<open>Reading a list\<close>

definition line_bytes :: "string \<Rightarrow> bool \<Rightarrow> string" where
  "line_bytes l m = (if m then butlast l else l)"

fun load_lines :: "'o qlib \<Rightarrow> (string \<Rightarrow> bool) \<Rightarrow> string \<Rightarrow> int \<Rightarrow> getln_event list \<Rightarrow> entry list \<Rightarrow> string list
    \<Rightarrow> entry list option \<times> string list" where
  "load_lines L tm fn which [] l err = (Some l, err)"
| "load_lines L tm fn which (GlErr # es) l err = (None, err @ [''read: '' @ fn @ '': ''])"
| "load_lines L tm fn which (GlLine s m # es) l err =
     (if s = [] then (Some l, err)
      else (let b = line_bytes s m in
        case parse tm b of
          None \<Rightarrow> load_lines L tm fn which es l
              (err @ [fn @ '': Error in input data'' @ fmt_int L which @ ''['' @ cut_nul b @ '']''])
        | Some e \<Rightarrow> load_lines L tm fn which es (l @ [e]) err))"

definition load :: "'o qlib \<Rightarrow> (string \<Rightarrow> bool) \<Rightarrow> (string \<Rightarrow> open_result) \<Rightarrow> string \<Rightarrow> int \<Rightarrow> string list
    \<Rightarrow> (entry list option \<times> string list) proc" where
  "load L tm opn fn which err = (case opn fn of
     Opened es \<Rightarrow> Ret (load_lines L tm fn which (getlns L es) [] err)
   | _ \<Rightarrow> Exits (- 111))"

text \<open>The array of critical names: its entries and the number of entries allocated. The variable \<open>n\<close>,
  the size that \<open>load_critical\<close> knows of, is local to a call and starts at 0.\<close>

type_synonym crit_array = "string list \<times> nat"

fun critical_lines :: "string \<Rightarrow> getln_event list \<Rightarrow> nat \<Rightarrow> crit_array \<Rightarrow> string list \<Rightarrow> (crit_array \<times> string list) proc" where
  "critical_lines fn [] n crit err = Ret (crit, err)"
| "critical_lines fn (GlErr # es) n crit err = Ret (crit, err @ [''read: '' @ fn @ '': ''])"
| "critical_lines fn (GlLine s m # es) n crit err =
     (if s = [] then Ret (crit, err)
      else if m \<and> length s \<le> 1 then critical_lines fn es n crit err
      else (let ncrit = length (fst crit);
                n1 = (if ncrit = n then (if n \<noteq> 0 then n * 2 else 64) else n);
                cap = (if ncrit = n then n1 else snd crit)
            in if ncrit < cap
               then critical_lines fn es n1 (fst crit @ [cut_nul (line_bytes s m)], cap) err
               else Wild))"

definition load_critical :: "'o qlib \<Rightarrow> (string \<Rightarrow> open_result) \<Rightarrow> string \<Rightarrow> crit_array \<Rightarrow> string list
    \<Rightarrow> (crit_array \<times> string list) proc" where
  "load_critical L opn fn crit err = (case opn fn of
     Opened es \<Rightarrow> critical_lines fn (getlns L es) 0 crit err
   | _ \<Rightarrow> Exits (- 111))"

subsection \<open>The index of a list\<close>

fun build_loop :: "string list \<Rightarrow> string list \<Rightarrow> nat list \<Rightarrow> htab \<Rightarrow> htab \<Rightarrow> (htab \<times> htab) option" where
  "build_loop ps ks [] byp byk = Some (byp, byk)"
| "build_loop ps ks (i # is) byp byk =
     (case index_entry ps i byp of
        None \<Rightarrow> None
      | Some byp \<Rightarrow> (case index_entry ks i byk of None \<Rightarrow> None | Some byk \<Rightarrow> build_loop ps ks is byp byk))"

definition build :: "cenv \<Rightarrow> entry list \<Rightarrow> (htab \<times> htab) option proc" where
  "build M l = (let sz = table_size (length l) 16 in
     if \<not> mm_ok M ''calloc'' (sz * 8) then Ret None
     else of_ub (map_option Some (build_loop (map pkey l) (map kkey l) [0..<length l] (empty_table sz) (empty_table sz))))"

definition find_entry :: "entry list \<Rightarrow> htab \<times> htab \<Rightarrow> entry \<Rightarrow> nat option" where
  "find_entry l tabs e = do {
     a \<leftarrow> lookup (map pkey l) (fst tabs) (pkey e);
     b \<leftarrow> lookup (map kkey l) (snd tabs) (kkey e);
     Some (if a \<noteq> 0 \<and> b \<noteq> 0 then (if a < b then a else b) else if a \<noteq> 0 then a else b) }"

subsection \<open>Reports\<close>

record cd_opts =
  o_crc :: bool
  o_ignore_changed :: bool
  o_ignore_dir :: bool
  o_crit :: crit_array

record 'o cd_st =
  cd_out :: 'o
  cd_err :: "string list"
  add_count :: u64
  del_count :: u64
  changed_count :: u64
  perm_count :: u64
  owner_count :: u64
  mod_count :: u64
  crit_l1_count :: u64
  crit_l2_count :: u64

definition untagged :: "string \<Rightarrow> string" where
  "untagged p = (case strstr p tag_mark of None \<Rightarrow> p | Some k \<Rightarrow> take k p)"

definition is_critical :: "cd_opts \<Rightarrow> entry \<Rightarrow> bool" where
  "is_critical opts e \<longleftrightarrow> untagged (pkey e) \<in> set (fst (o_crit opts))"

definition cd_warn :: "'o qlib \<Rightarrow> string \<Rightarrow> entry \<Rightarrow> 'o cd_st \<Rightarrow> 'o cd_st proc" where
  "cd_warn L m e st =
     bindp (flush_or_die L (- 111) (cd_out st)) (\<lambda>o1.
     bindp (of_ub (text_at (ebytes e) 11)) (\<lambda>t.
       Ret (st\<lparr>cd_out := o1, cd_err := cd_err st @ [m @ t]\<rparr>)))"

definition l2 :: "'o qlib \<Rightarrow> cd_opts \<Rightarrow> string \<Rightarrow> entry \<Rightarrow> 'o cd_st \<Rightarrow> 'o cd_st proc" where
  "l2 L opts tag e st = (if is_critical opts e
     then bindp (cd_warn L (''L2 < '' @ tag) e st) (\<lambda>st. Ret (st\<lparr>crit_l2_count := crit_l2_count st + 1\<rparr>))
     else Ret st)"

definition pr :: "'o qlib \<Rightarrow> cd_opts \<Rightarrow> string \<Rightarrow> entry \<Rightarrow> 'o cd_st \<Rightarrow> 'o cd_st proc" where
  "pr L opts what e st =
     bindp (of_ub (text_at (ebytes e) (if o_crc opts then 0 else 11))) (\<lambda>t.
     bindp (put_or_die L (- 111) (cd_out st) (what @ t @ [LF])) (\<lambda>o1. Ret (st\<lparr>cd_out := o1\<rparr>)))"

definition suid :: "entry \<Rightarrow> nat \<Rightarrow> bool ub" where
  "suid e len = do {
     c \<leftarrow> byte_at (ebytes e) (len + 4);
     (if c = CHR ''s'' then Some True
      else do { d \<leftarrow> byte_at (ebytes e) (len + 7); Some (d = CHR ''s'') }) }"

definition l1_one :: "'o qlib \<Rightarrow> string \<Rightarrow> entry \<Rightarrow> nat \<Rightarrow> bool \<times> 'o cd_st \<Rightarrow> (bool \<times> 'o cd_st) proc" where
  "l1_one L m e len fst1 = (case fst1 of (flag, st) \<Rightarrow>
     bindp (of_ub (suid e len)) (\<lambda>s.
       if s then bindp (cd_warn L m e st) (\<lambda>st.
         Ret (True, if flag then st else st\<lparr>crit_l1_count := crit_l1_count st + 1\<rparr>))
       else Ret (flag, st)))"

definition l1 :: "'o qlib \<Rightarrow> entry \<Rightarrow> entry \<Rightarrow> nat \<Rightarrow> nat \<Rightarrow> bool \<times> 'o cd_st \<Rightarrow> (bool \<times> 'o cd_st) proc" where
  "l1 L old new len1 len2 fst1 =
     bindp (l1_one L ''L1 < '' old len1 fst1) (\<lambda>fst1. l1_one L ''L1 > '' new len2 fst1)"

subsection \<open>The comparison\<close>

definition report_deleted :: "'o qlib \<Rightarrow> cd_opts \<Rightarrow> entry \<Rightarrow> 'o cd_st \<Rightarrow> 'o cd_st proc" where
  "report_deleted L opts old st =
     bindp (pr L opts ''deleted    '' old st) (\<lambda>st.
     bindp (l2 L opts ''<'' old st) (\<lambda>st. Ret (st\<lparr>del_count := del_count st + 1\<rparr>)))"

definition report_added :: "'o qlib \<Rightarrow> cd_opts \<Rightarrow> entry \<Rightarrow> 'o cd_st \<Rightarrow> 'o cd_st proc" where
  "report_added L opts new st =
     bindp (pr L opts ''added      '' new st) (\<lambda>st.
     bindp (l2 L opts ''>'' new st) (\<lambda>st. Ret (st\<lparr>add_count := add_count st + 1\<rparr>)))"

definition both_dirs :: "entry \<Rightarrow> entry \<Rightarrow> nat \<Rightarrow> nat \<Rightarrow> bool ub" where
  "both_dirs old new len1 len2 = do {
     c \<leftarrow> byte_at (ebytes old) (len1 + 1);
     (if c \<noteq> CHR ''d'' then Some False
      else do { d \<leftarrow> byte_at (ebytes new) (len2 + 1); Some (d = CHR ''d'') }) }"

definition report_crc :: "'o qlib \<Rightarrow> cd_opts \<Rightarrow> entry \<Rightarrow> entry \<Rightarrow> nat \<Rightarrow> nat \<Rightarrow> 'o cd_st \<Rightarrow> 'o cd_st proc" where
  "report_crc L opts old new len1 len2 st =
     bindp (if o_ignore_dir opts then Ret False else of_ub (both_dirs old new len1 len2)) (\<lambda>dirs.
       if dirs then
         (if \<not> o_ignore_changed opts \<and> cut_nul (drop (etail new) (ebytes new)) = cut_nul (drop (etail old) (ebytes old))
          then bindp (pr L opts ''changed    '' new st) (\<lambda>st.
               bindp (l2 L opts ''>'' new st) (\<lambda>st. Ret (st\<lparr>changed_count := changed_count st + 1\<rparr>)))
          else Ret st)
       else
         bindp (pr L opts ''replaced<  '' old st) (\<lambda>st.
         bindp (pr L opts ''replaced>  '' new st) (\<lambda>st.
         bindp (l2 L opts ''>'' new st) (\<lambda>st. Ret (st\<lparr>mod_count := mod_count st + 1\<rparr>)))))"

definition report_perm :: "'o qlib \<Rightarrow> cd_opts \<Rightarrow> entry \<Rightarrow> entry \<Rightarrow> nat \<Rightarrow> nat \<Rightarrow> bool \<times> 'o cd_st \<Rightarrow> (bool \<times> 'o cd_st) proc" where
  "report_perm L opts old new len1 len2 fst1 =
     bindp (pr L opts ''permiss<   '' old (snd fst1)) (\<lambda>st.
     bindp (pr L opts ''permiss>   '' new st) (\<lambda>st.
     bindp (l1 L old new len1 len2 (fst fst1, st)) (\<lambda>(flag, st). Ret (flag, st\<lparr>perm_count := perm_count st + 1\<rparr>))))"

definition report_owner :: "'o qlib \<Rightarrow> cd_opts \<Rightarrow> entry \<Rightarrow> entry \<Rightarrow> nat \<Rightarrow> nat \<Rightarrow> bool \<times> 'o cd_st \<Rightarrow> (bool \<times> 'o cd_st) proc" where
  "report_owner L opts old new len1 len2 fst1 =
     bindp (pr L opts ''own/grp<   '' old (snd fst1)) (\<lambda>st.
     bindp (pr L opts ''own/grp>   '' new st) (\<lambda>st.
     bindp (l1 L old new len1 len2 (fst fst1, st)) (\<lambda>(flag, st). Ret (flag, st\<lparr>owner_count := owner_count st + 1\<rparr>))))"

definition crc_len :: "entry \<Rightarrow> nat ub" where
  "crc_len e = strchr (cut_nul (ebytes e)) SP"

definition compare_entries :: "'o qlib \<Rightarrow> cd_opts \<Rightarrow> entry \<Rightarrow> entry \<Rightarrow> 'o cd_st \<Rightarrow> 'o cd_st proc" where
  "compare_entries L opts old new st =
     bindp (of_ub (crc_len old)) (\<lambda>len1.
     bindp (of_ub (crc_len new)) (\<lambda>len2.
     let mx = max len1 len2 in
     bindp (if strncmp_differs (cut_nul (ebytes new)) (cut_nul (ebytes old)) mx
            then report_crc L opts old new len1 len2 st else Ret st) (\<lambda>st.
     bindp (of_ub (text_at (ebytes new) (len2 + 1))) (\<lambda>pn.
     bindp (of_ub (text_at (ebytes old) (len1 + 1))) (\<lambda>po.
     bindp (if strncmp_differs pn po mx then report_perm L opts old new len1 len2 (False, st) else Ret (False, st)) (\<lambda>fst1.
     bindp (of_ub (text_at (ebytes new) (len2 + 12))) (\<lambda>on1.
     bindp (of_ub (text_at (ebytes old) (len1 + 12))) (\<lambda>oo.
     bindp (if strncmp_differs on1 oo (unat (max (eolen new) (eolen old)))
            then report_owner L opts old new len1 len2 fst1 else Ret fst1) (\<lambda>(_, st). Ret st)))))))))"

fun pass1 :: "'o qlib \<Rightarrow> cd_opts \<Rightarrow> (entry \<Rightarrow> nat option) \<Rightarrow> entry list \<Rightarrow> entry list \<Rightarrow> 'o cd_st \<Rightarrow> 'o cd_st proc" where
  "pass1 L opts get news [] st = Ret st"
| "pass1 L opts get news (old # olds) st =
     bindp (of_ub (get old)) (\<lambda>m.
     bindp (if m = 0 then report_deleted L opts old st
            else if kkey old = kkey (news ! (m - 1)) then Ret st
            else compare_entries L opts old (news ! (m - 1)) st) (\<lambda>st.
       pass1 L opts get news olds st))"

fun pass2 :: "'o qlib \<Rightarrow> cd_opts \<Rightarrow> (entry \<Rightarrow> nat option) \<Rightarrow> entry list \<Rightarrow> 'o cd_st \<Rightarrow> 'o cd_st proc" where
  "pass2 L opts get [] st = Ret st"
| "pass2 L opts get (new # news) st =
     bindp (of_ub (get new)) (\<lambda>m.
     bindp (if m = 0 then report_added L opts new st else Ret st) (\<lambda>st. pass2 L opts get news st))"

subsection \<open>The main program\<close>

definition no_changes :: "'o cd_st \<Rightarrow> bool" where
  "no_changes st \<longleftrightarrow> add_count st = 0 \<and> del_count st = 0 \<and> changed_count st = 0 \<and> perm_count st = 0
     \<and> owner_count st = 0 \<and> mod_count st = 0"

definition num_line :: "'o qlib \<Rightarrow> string \<Rightarrow> u64 \<Rightarrow> string" where
  "num_line L s n = s @ fmt_ulong L (unat n) @ [LF]"

definition rule_line :: string where
  "rule_line = ''--------------------------'' @ [LF]"

definition summary :: "'o qlib \<Rightarrow> cd_opts \<Rightarrow> 'o cd_st \<Rightarrow> string list" where
  "summary L opts st =
     [[LF] @ fmt_ulong L (unat (add_count st + del_count st + changed_count st + perm_count st + owner_count st + mod_count st))
        @ '' Changes detected'' @ [LF],
      rule_line,
      num_line L ''1. added               : '' (add_count st),
      num_line L ''2. deleted             : '' (del_count st),
      num_line L ''3. replaced            : '' (mod_count st)]
     @ (if o_ignore_changed opts
        then [num_line L ''4. permission  changes : '' (perm_count st),
              num_line L ''5. owner/group changes : '' (owner_count st)]
        else [num_line L ''4. changed             : '' (changed_count st),
              num_line L ''5. permission  changes : '' (perm_count st),
              num_line L ''6. owner/group changes : '' (owner_count st)])
     @ (if crit_l1_count st \<noteq> 0 \<or> crit_l2_count st \<noteq> 0
        then [[LF], ''NOTE: Critical Changes'' @ [LF],
              num_line L ''1. critical L1 changes : '' (crit_l1_count st),
              num_line L ''2. critical L2 changes : '' (crit_l2_count st)]
        else [])
     @ [rule_line]"

definition finish :: "'o qlib \<Rightarrow> cd_opts \<Rightarrow> 'o cd_st \<Rightarrow> (int \<times> 'o cd_st) proc" where
  "finish L opts st =
     bindp (puts_or_die L (- 111) (cd_out st) (if no_changes st then [''0 changes detected'' @ [LF]] else summary L opts st)) (\<lambda>o1.
     bindp (flush_or_die L (- 111) o1) (\<lambda>o1. Ret (if no_changes st then 0 else 1, st\<lparr>cd_out := o1\<rparr>)))"

definition compare_lists :: "cenv \<Rightarrow> 'o qlib \<Rightarrow> cd_opts \<Rightarrow> entry list \<Rightarrow> entry list \<Rightarrow> 'o cd_st \<Rightarrow> (int \<times> 'o cd_st) proc" where
  "compare_lists M L opts l1s l2s st =
     bindp (build M l2s) (\<lambda>t2. case t2 of None \<Rightarrow> Exits (- 111) | Some t2 \<Rightarrow>
     bindp (build M l1s) (\<lambda>t1. case t1 of None \<Rightarrow> Exits (- 111) | Some t1 \<Rightarrow>
     bindp (pass1 L opts (find_entry l2s t2) l2s l1s st) (\<lambda>st.
     bindp (pass2 L opts (find_entry l1s t1) l2s st) (\<lambda>st. finish L opts st))))"

fun cd_options :: "'o qlib \<Rightarrow> (string \<Rightarrow> open_result) \<Rightarrow> (char \<times> string) list \<Rightarrow> cd_opts \<Rightarrow> string list \<Rightarrow> (cd_opts \<times> string list) proc" where
  "cd_options L opn [] opts err = Ret (opts, err)"
| "cd_options L opn ((c, optarg) # os) opts err =
     (if c = CHR ''C'' then cd_options L opn os (opts\<lparr>o_crc := True\<rparr>) err
      else if c = CHR ''c'' then
        bindp (load_critical L opn optarg (o_crit opts) err) (\<lambda>(crit, err).
          cd_options L opn os (opts\<lparr>o_crit := crit\<rparr>) err)
      else if c = CHR ''i'' then cd_options L opn os (opts\<lparr>o_ignore_changed := True\<rparr>) err
      else if c = CHR ''d'' then cd_options L opn os (opts\<lparr>o_ignore_dir := True\<rparr>) err
      else Exits (- 100))"

definition cd_start :: "'o \<Rightarrow> string list \<Rightarrow> 'o cd_st" where
  "cd_start o1 err = \<lparr>cd_out = o1, cd_err = err, add_count = 0, del_count = 0, changed_count = 0, perm_count = 0,
     owner_count = 0, mod_count = 0, crit_l1_count = 0, crit_l2_count = 0\<rparr>"

definition crcdiff_main :: "cenv \<Rightarrow> 'o qlib \<Rightarrow> (string \<Rightarrow> bool) \<Rightarrow> (string \<Rightarrow> open_result) \<Rightarrow> 'o \<Rightarrow> (char \<times> string) list
    \<Rightarrow> string list \<Rightarrow> (int \<times> 'o cd_st) proc" where
  "crcdiff_main M L tm opn stdout opts args =
     bindp (cd_options L opn opts \<lparr>o_crc = False, o_ignore_changed = False, o_ignore_dir = False, o_crit = ([], 0)\<rparr> [])
       (\<lambda>(opts, err). case args of
          [fn1, fn2] \<Rightarrow>
            bindp (load L tm opn fn1 1 err) (\<lambda>(l1s, err). case l1s of None \<Rightarrow> Exits (- 111) | Some l1s \<Rightarrow>
            bindp (load L tm opn fn2 2 err) (\<lambda>(l2s, err). case l2s of None \<Rightarrow> Exits (- 111) | Some l2s \<Rightarrow>
              compare_lists M L opts l1s l2s (cd_start stdout err)))
        | _ \<Rightarrow> Exits (- 100))"

end
