(* ===== verification/Crcdiff_Spec.thy ===== *)
theory Crcdiff_Spec
  imports Crcdiff
begin

text \<open>
  What \<open>crcdiff\<close> reports. The comparison over the hash tables is the comparison over the plain lists; the
  counters are the numbers of the changes that a specification finds in the lists; a line that
  \<open>crc -v\<close> prints is parsed back into its parts.
\<close>

unbundle bit_operations_syntax

subsection \<open>The tables give the first match\<close>

fun first_where :: "('a \<Rightarrow> bool) \<Rightarrow> 'a list \<Rightarrow> nat" where
  "first_where P [] = 0"
| "first_where P (x # xs) = (if P x then 1 else if first_where P xs = 0 then 0 else first_where P xs + 1)"

definition same_file :: "entry \<Rightarrow> entry \<Rightarrow> bool" where
  "same_file e x \<longleftrightarrow> pkey x = pkey e \<or> kkey x = kkey e"

lemma first_pos_where: "first_pos (map f l) x = first_where (\<lambda>e. f e = x) l"
  by (induction l) auto

lemma first_where_0: "first_where P l = 0 \<longleftrightarrow> (\<forall>x \<in> set l. \<not> P x)"
  by (induction l) auto

lemma first_where_Suc: "first_where P l = Suc m \<Longrightarrow> m < length l \<and> P (l ! m) \<and> (\<forall>i < m. \<not> P (l ! i))"
proof (induction l arbitrary: m)
  case (Cons x xs)
  show ?case
  proof (cases "P x")
    case False
    then obtain k where k: "first_where P xs = Suc k" "m = Suc k"
      using Cons.prems by (cases "first_where P xs") (auto split: if_splits)
    then show ?thesis using Cons.IH[OF k(1)] False less_Suc_eq_0_disj by auto
  qed (use Cons.prems in simp)
qed simp

lemma first_where_or:
  "(let a = first_where P l; b = first_where Q l in
     if a \<noteq> 0 \<and> b \<noteq> 0 then (if a < b then a else b) else if a \<noteq> 0 then a else b) = first_where (\<lambda>x. P x \<or> Q x) l"
  by (induction l) (auto simp: Let_def split: if_splits)

lemma build_loop_pair:
  "index_entries ps is byp = Some tp \<Longrightarrow> index_entries ks is byk = Some tk \<Longrightarrow> build_loop ps ks is byp byk = Some (tp, tk)"
  by (induction "is" arbitrary: byp byk) (auto split: option.splits)

definition fits :: "cenv \<Rightarrow> entry list \<Rightarrow> bool" where
  "fits M l \<longleftrightarrow> length l < 2 ^ 60 \<and> mm_ok M ''calloc'' (table_size (length l) 16 * 8)"

lemma build_find:
  assumes "fits M l"
  shows "\<exists>tabs. build M l = Ret (Some tabs) \<and> (\<forall>e. find_entry l tabs e = Some (first_where (same_file e) l))"
proof -
  obtain tp where tp: "build_index (map pkey l) = Some tp" "\<And>x. lookup (map pkey l) tp x = Some (first_pos (map pkey l) x)"
    using hashed.build_get[of "map pkey l"] assms by (auto simp: fits_def)
  obtain tk where tk: "build_index (map kkey l) = Some tk" "\<And>x. lookup (map kkey l) tk x = Some (first_pos (map kkey l) x)"
    using hashed.build_get[of "map kkey l"] assms by (auto simp: fits_def)
  have "build M l = Ret (Some (tp, tk))"
    using assms build_loop_pair[of "map pkey l" "[0..<length l]"] tp(1) tk(1)
    by (simp add: build_def fits_def build_index_def Let_def)
  moreover have "find_entry l (tp, tk) e = Some (first_where (same_file e) l)" for e
    using first_where_or[of "\<lambda>x. pkey x = pkey e" l "\<lambda>x. kkey x = kkey e"]
    by (simp add: find_entry_def tp(2) tk(2) first_pos_where Let_def same_file_def[abs_def])
  ultimately show ?thesis by blast
qed

definition compare_naive :: "'o qlib \<Rightarrow> cd_opts \<Rightarrow> entry list \<Rightarrow> entry list \<Rightarrow> 'o cd_st \<Rightarrow> (int \<times> 'o cd_st) proc" where
  "compare_naive L opts l1s l2s st =
     bindp (pass1 L opts (\<lambda>e. Some (first_where (same_file e) l2s)) l2s l1s st) (\<lambda>st.
     bindp (pass2 L opts (\<lambda>e. Some (first_where (same_file e) l1s)) l2s st) (\<lambda>st. finish L opts st))"

lemma compare_lists_naive:
  assumes "fits M l1s" "fits M l2s"
  shows "compare_lists M L opts l1s l2s st = compare_naive L opts l1s l2s st"
proof -
  obtain t2 where t2: "build M l2s = Ret (Some t2)" "find_entry l2s t2 = (\<lambda>e. Some (first_where (same_file e) l2s))"
    using build_find[OF assms(2)] by blast
  obtain t1 where t1: "build M l1s = Ret (Some t1)" "find_entry l1s t1 = (\<lambda>e. Some (first_where (same_file e) l1s))"
    using build_find[OF assms(1)] by blast
  show ?thesis by (simp add: compare_lists_def compare_naive_def t1 t2)
qed

subsection \<open>The changes that are counted\<close>

datatype change = Deleted | Changed | Replaced | Permission | Owner | Added

fun cnt :: "'o cd_st \<Rightarrow> change \<Rightarrow> u64" where
  "cnt st Deleted = del_count st"
| "cnt st Changed = changed_count st"
| "cnt st Replaced = mod_count st"
| "cnt st Permission = perm_count st"
| "cnt st Owner = owner_count st"
| "cnt st Added = add_count st"

definition entry_wf :: "entry \<Rightarrow> bool" where
  "entry_wf e \<longleftrightarrow> (case crc_len e of None \<Rightarrow> False | Some k \<Rightarrow> k + 12 \<le> length (ebytes e)) \<and> 11 \<le> length (ebytes e)"

definition width :: "entry \<Rightarrow> nat" where
  "width e = length (takeWhile (\<lambda>c. c \<noteq> SP) (cut_nul (ebytes e)))"

definition col :: "entry \<Rightarrow> nat \<Rightarrow> string" where
  "col e i = cut_nul (drop (width e + i) (ebytes e))"

definition is_dir_line :: "entry \<Rightarrow> bool" where
  "is_dir_line e \<longleftrightarrow> ebytes e ! (width e + 1) = CHR ''d''"

definition crc_change :: "cd_opts \<Rightarrow> entry \<Rightarrow> entry \<Rightarrow> change list" where
  "crc_change opts old new =
     (if \<not> o_ignore_dir opts \<and> is_dir_line old \<and> is_dir_line new
      then (if \<not> o_ignore_changed opts \<and> cut_nul (drop (etail new) (ebytes new)) = cut_nul (drop (etail old) (ebytes old))
            then [Changed] else [])
      else [Replaced])"

definition differences :: "cd_opts \<Rightarrow> entry \<Rightarrow> entry \<Rightarrow> change list" where
  "differences opts old new = (let mx = max (width old) (width new) in
     (if take mx (cut_nul (ebytes new)) \<noteq> take mx (cut_nul (ebytes old)) then crc_change opts old new else [])
     @ (if take mx (col new 1) \<noteq> take mx (col old 1) then [Permission] else [])
     @ (let n = unat (max (eolen new) (eolen old)) in if take n (col new 12) \<noteq> take n (col old 12) then [Owner] else []))"

definition changes_of :: "cd_opts \<Rightarrow> entry list \<Rightarrow> entry \<Rightarrow> change list" where
  "changes_of opts news old = (case first_where (same_file old) news of
     0 \<Rightarrow> [Deleted]
   | Suc m \<Rightarrow> if kkey old = kkey (news ! m) then [] else differences opts old (news ! m))"

definition additions :: "entry list \<Rightarrow> entry \<Rightarrow> change list" where
  "additions olds new = (if first_where (same_file new) olds = 0 then [Added] else [])"

definition all_changes :: "cd_opts \<Rightarrow> entry list \<Rightarrow> entry list \<Rightarrow> change list" where
  "all_changes opts l1s l2s = concat (map (changes_of opts l2s) l1s) @ concat (map (additions l1s) l2s)"

definition counted :: "('o \<Rightarrow> bool) \<Rightarrow> ('x \<Rightarrow> 'o cd_st) \<Rightarrow> 'o cd_st \<Rightarrow> change list \<Rightarrow> 'x proc \<Rightarrow> bool" where
  "counted good pj st cs m \<longleftrightarrow> (\<exists>x. m = Ret x \<and> good (cd_out (pj x)) \<and> (\<forall>c. cnt (pj x) c = cnt st c + of_nat (count_list cs c)))"

lemma counted_bind:
  assumes "counted good pj st cs m" "\<And>x. good (cd_out (pj x)) \<Longrightarrow> counted good pq (pj x) ds (f x)"
  shows "counted good pq st (cs @ ds) (bindp m f)"
proof -
  obtain x where x: "m = Ret x" "good (cd_out (pj x))" "\<And>c. cnt (pj x) c = cnt st c + of_nat (count_list cs c)"
    using assms(1) by (auto simp: counted_def)
  obtain y where "f x = Ret y" "good (cd_out (pq y))" "\<And>c. cnt (pq y) c = cnt (pj x) c + of_nat (count_list ds c)"
    using assms(2)[OF x(2)] by (auto simp: counted_def)
  then show ?thesis using x by (auto simp: counted_def add.assoc)
qed

lemma counted_ret: "good (cd_out (pj x)) \<Longrightarrow> (\<And>c. cnt (pj x) c = cnt st c + of_nat (count_list cs c)) \<Longrightarrow> counted good pj st cs (Ret x)"
  by (simp add: counted_def)

lemma entry_wfD:
  assumes "entry_wf e"
  shows "crc_len e = Some (width e)" "width e + 12 \<le> length (ebytes e)" "11 \<le> length (ebytes e)"
  using assms by (auto simp: entry_wf_def crc_len_def strchr_def width_def split: option.splits if_splits)

lemma text_at_wf: "entry_wf e \<Longrightarrow> i \<le> 12 \<Longrightarrow> text_at (ebytes e) (width e + i) = Some (col e i)"
  using entry_wfD(2)[of e] by (simp add: text_at_def col_def)

lemma text_at_11: "entry_wf e \<Longrightarrow> text_at (ebytes e) 11 = Some (cut_nul (drop 11 (ebytes e)))"
  using entry_wfD(3)[of e] by (simp add: text_at_def)

lemma byte_at_wf: "entry_wf e \<Longrightarrow> i < 12 \<Longrightarrow> byte_at (ebytes e) (width e + i) = Some (ebytes e ! (width e + i))"
  using entry_wfD(2)[of e] by (simp add: byte_at_def)

lemma suid_wf: "entry_wf e \<Longrightarrow> suid e (width e) = Some (ebytes e ! (width e + 4) = CHR ''s'' \<or> ebytes e ! (width e + 7) = CHR ''s'')"
  by (simp add: suid_def byte_at_wf)

lemma cnt_other [simp]:
  "cnt (st\<lparr>cd_out := x\<rparr>) c = cnt st c" "cnt (st\<lparr>cd_out := x, cd_err := y\<rparr>) c = cnt st c"
  "cnt (st\<lparr>crit_l1_count := n\<rparr>) c = cnt st c" "cnt (st\<lparr>crit_l2_count := n\<rparr>) c = cnt st c"
  by (cases c; simp)+

lemma cnt_incr:
  "cnt (st\<lparr>del_count := del_count st + 1\<rparr>) c = cnt st c + of_nat (count_list [Deleted] c)"
  "cnt (st\<lparr>changed_count := changed_count st + 1\<rparr>) c = cnt st c + of_nat (count_list [Changed] c)"
  "cnt (st\<lparr>mod_count := mod_count st + 1\<rparr>) c = cnt st c + of_nat (count_list [Replaced] c)"
  "cnt (st\<lparr>perm_count := perm_count st + 1\<rparr>) c = cnt st c + of_nat (count_list [Permission] c)"
  "cnt (st\<lparr>owner_count := owner_count st + 1\<rparr>) c = cnt st c + of_nat (count_list [Owner] c)"
  "cnt (st\<lparr>add_count := add_count st + 1\<rparr>) c = cnt st c + of_nat (count_list [Added] c)"
  by (cases c; simp)+

context qmail
begin

lemma pr_counted:
  assumes "good (cd_out st)" "entry_wf e"
  shows "counted good id st [] (pr L opts what e st)"
proof -
  obtain t where t: "text_at (ebytes e) (if o_crc opts then 0 else 11) = Some t"
    using text_at_11[OF assms(2)] by (cases "o_crc opts") (auto simp: text_at_def)
  obtain o2 where "put_or_die L (- 111) (cd_out st) (what @ t @ [LF]) = Ret o2" "good o2"
    using put_good[OF assms(1), of "- 111" "what @ t @ [LF]"] by blast
  then show ?thesis using t by (simp add: pr_def counted_def)
qed

lemma cd_warn_counted:
  assumes "good (cd_out st)" "entry_wf e"
  shows "counted good id st [] (cd_warn L m e st)"
proof -
  obtain o2 where "flush_or_die L (- 111) (cd_out st) = Ret o2" "good o2" using flush_good[OF assms(1)] by blast
  then show ?thesis using text_at_11[OF assms(2)] by (simp add: cd_warn_def counted_def)
qed

lemma l2_counted:
  assumes "good (cd_out st)" "entry_wf e"
  shows "counted good id st [] (l2 L opts tag e st)"
proof (cases "is_critical opts e")
  case True
  have "counted good id st ([] @ []) (bindp (cd_warn L (''L2 < '' @ tag) e st) (\<lambda>st. Ret (st\<lparr>crit_l2_count := crit_l2_count st + 1\<rparr>)))"
    by (rule counted_bind[OF cd_warn_counted[OF assms]]) (simp add: counted_def)
  then show ?thesis using True by (simp add: l2_def)
qed (simp add: l2_def counted_def assms)

lemma l1_one_counted:
  assumes "good (cd_out st)" "entry_wf e"
  shows "counted good snd st [] (l1_one L m e (width e) (flag, st))"
proof (cases "ebytes e ! (width e + 4) = CHR ''s'' \<or> ebytes e ! (width e + 7) = CHR ''s''")
  case True
  have "counted good snd st ([] @ []) (bindp (cd_warn L m e st) (\<lambda>st.
         Ret (True, if flag then st else st\<lparr>crit_l1_count := crit_l1_count st + 1\<rparr>)))"
    by (rule counted_bind[OF cd_warn_counted[OF assms]]) (simp add: counted_def)
  then show ?thesis using True suid_wf[OF assms(2)] by (simp add: l1_one_def)
qed (use suid_wf[OF assms(2)] assms in \<open>simp add: l1_one_def counted_def\<close>)

lemma l1_counted:
  assumes "good (cd_out st)" "entry_wf old" "entry_wf new"
  shows "counted good snd st [] (l1 L old new (width old) (width new) (flag, st))"
proof -
  have "counted good snd st ([] @ []) (l1 L old new (width old) (width new) (flag, st))"
    unfolding l1_def
  proof (rule counted_bind[OF l1_one_counted[OF assms(1,2)]])
    fix x :: "bool \<times> 'o cd_st"
    assume "good (cd_out (snd x))"
    then show "counted good snd (snd x) [] (l1_one L ''L1 > '' new (width new) x)"
      using l1_one_counted[of "snd x" new "''L1 > ''" "fst x"] assms(3) by simp
  qed
  then show ?thesis by simp
qed

lemma pr_l2_counted:
  assumes "good (cd_out st)" "entry_wf e" "\<And>st c. cnt (f st) c = cnt st c + of_nat (count_list [k] c)" "\<And>st. cd_out (f st) = cd_out st"
  shows "counted good id st [k] (bindp (pr L opts what e st) (\<lambda>st. bindp (l2 L opts tag e st) (\<lambda>st. Ret (f st))))"
proof -
  have "counted good id st ([] @ [] @ [k]) (bindp (pr L opts what e st) (\<lambda>st. bindp (l2 L opts tag e st) (\<lambda>st. Ret (f st))))"
  proof (rule counted_bind[OF pr_counted[OF assms(1,2)]])
    fix x :: "'o cd_st"
    assume x: "good (cd_out (id x))"
    have "counted good id x ([] @ [k]) (bindp (l2 L opts tag e x) (\<lambda>st. Ret (f st)))"
    proof (rule counted_bind[OF l2_counted])
      show "good (cd_out x)" "entry_wf e" using x assms(2) by simp_all
      fix y :: "'o cd_st"
      assume "good (cd_out (id y))"
      then show "counted good id (id y) [k] (Ret (f y))" by (intro counted_ret) (simp_all add: assms(3,4) del: count_list.simps)
    qed
    then show "counted good id (id x) ([] @ [k]) (bindp (l2 L opts tag e x) (\<lambda>st. Ret (f st)))" by simp
  qed
  then show ?thesis by simp
qed

lemma pr2_counted:
  assumes "good (cd_out st)" "entry_wf old" "entry_wf new" "\<And>st. good (cd_out st) \<Longrightarrow> counted good pj st cs (g st)"
  shows "counted good pj st cs (bindp (pr L opts w1 old st) (\<lambda>st. bindp (pr L opts w2 new st) g))"
proof -
  have "counted good pj st ([] @ [] @ cs) (bindp (pr L opts w1 old st) (\<lambda>st. bindp (pr L opts w2 new st) g))"
  proof (rule counted_bind[OF pr_counted[OF assms(1,2)]])
    fix x :: "'o cd_st"
    assume "good (cd_out (id x))"
    then show "counted good pj (id x) ([] @ cs) (bindp (pr L opts w2 new x) g)"
      using counted_bind[OF pr_counted[of x new opts w2], of pj cs g] assms(3,4) by simp
  qed
  then show ?thesis by simp
qed

lemma report_perm_counted:
  assumes "good (cd_out st)" "entry_wf old" "entry_wf new"
  shows "counted good snd st [Permission] (report_perm L opts old new (width old) (width new) (flag, st))"
    and "counted good snd st [Owner] (report_owner L opts old new (width old) (width new) (flag, st))"
proof -
  have l: "counted good snd st ([] @ [k]) (bindp (l1 L old new (width old) (width new) (flag, st)) (\<lambda>(flag, st). Ret (flag, f st)))"
    if "good (cd_out st)" "\<And>st c. cnt (f st) c = cnt st c + of_nat (count_list [k] c)" "\<And>st. cd_out (f st) = cd_out st" for st k f
  proof (rule counted_bind[OF l1_counted[OF that(1) assms(2,3)]])
    fix x :: "bool \<times> 'o cd_st"
    assume "good (cd_out (snd x))"
    then show "counted good snd (snd x) [k] (case x of (flag, st) \<Rightarrow> Ret (flag, f st))"
      using that(2,3) by (cases x) (simp add: counted_def del: count_list.simps)
  qed
  show "counted good snd st [Permission] (report_perm L opts old new (width old) (width new) (flag, st))"
    unfolding report_perm_def fst_conv snd_conv
    using l[where k = Permission, OF _ cnt_incr(4)] by (intro pr2_counted[OF assms]) simp
  show "counted good snd st [Owner] (report_owner L opts old new (width old) (width new) (flag, st))"
    unfolding report_owner_def fst_conv snd_conv
    using l[where k = Owner, OF _ cnt_incr(5)] by (intro pr2_counted[OF assms]) simp
qed

lemma report_crc_counted:
  assumes "good (cd_out st)" "entry_wf old" "entry_wf new"
  shows "counted good id st (crc_change opts old new) (report_crc L opts old new (width old) (width new) st)"
proof -
  have d: "both_dirs old new (width old) (width new) = Some (is_dir_line old \<and> is_dir_line new)"
    using byte_at_wf[of old 1] byte_at_wf[of new 1] assms(2,3) by (simp add: both_dirs_def is_dir_line_def)
  have r: "counted good id st [Replaced] (bindp (pr L opts ''replaced<  '' old st) (\<lambda>st.
         bindp (pr L opts ''replaced>  '' new st) (\<lambda>st.
         bindp (l2 L opts ''>'' new st) (\<lambda>st. Ret (st\<lparr>mod_count := mod_count st + 1\<rparr>)))))"
  proof (rule pr2_counted[OF assms])
    fix st :: "'o cd_st"
    assume g: "good (cd_out st)"
    have "counted good id st ([] @ [Replaced]) (bindp (l2 L opts ''>'' new st) (\<lambda>st. Ret (st\<lparr>mod_count := mod_count st + 1\<rparr>)))"
      by (rule counted_bind[OF l2_counted[OF g assms(3)]]) (simp add: counted_def cnt_incr(3)[simplified])
    then show "counted good id st [Replaced] (bindp (l2 L opts ''>'' new st) (\<lambda>st. Ret (st\<lparr>mod_count := mod_count st + 1\<rparr>)))" by simp
  qed
  have c: "counted good id st [Changed] (bindp (pr L opts ''changed    '' new st) (\<lambda>st.
      bindp (l2 L opts ''>'' new st) (\<lambda>st. Ret (st\<lparr>changed_count := changed_count st + 1\<rparr>))))"
    by (rule pr_l2_counted[OF assms(1,3) cnt_incr(2)]) simp
  have n: "counted good id st [] (Ret st)" using assms(1) by (simp add: counted_def)
  show ?thesis using r c n d
    by (cases "o_ignore_dir opts"; cases "is_dir_line old"; cases "is_dir_line new"; cases "o_ignore_changed opts")
      (simp_all add: report_crc_def crc_change_def)
qed

lemma counted_if:
  "(P \<Longrightarrow> counted good pj st cs a) \<Longrightarrow> (\<not> P \<Longrightarrow> counted good pj st ds b) \<Longrightarrow>
     counted good pj st (if P then cs else ds) (if P then a else b)"
  by simp

lemma compare_entries_counted:
  assumes "good (cd_out st)" "entry_wf old" "entry_wf new"
  shows "counted good id st (differences opts old new) (compare_entries L opts old new st)"
proof -
  let ?mx = "max (width old) (width new)" and ?n = "unat (max (eolen new) (eolen old))"
  let ?p = "take ?mx (col new 1) \<noteq> take ?mx (col old 1)" and ?o = "take ?n (col new 12) \<noteq> take ?n (col old 12)"
  let ?c = "take ?mx (cut_nul (ebytes new)) \<noteq> take ?mx (cut_nul (ebytes old))"
  have eq: "compare_entries L opts old new st =
     bindp (if ?c then report_crc L opts old new (width old) (width new) st else Ret st) (\<lambda>st.
     bindp (if ?p then report_perm L opts old new (width old) (width new) (False, st) else Ret (False, st)) (\<lambda>x.
     bindp (if ?o then report_owner L opts old new (width old) (width new) x else Ret x) (\<lambda>(_, st). Ret st)))"
    by (simp only: compare_entries_def entry_wfD(1)[OF assms(2)] entry_wfD(1)[OF assms(3)] of_ub_simps bindp.simps Let_def
        text_at_wf[OF assms(2), of 1, simplified] text_at_wf[OF assms(3), of 1, simplified]
        text_at_wf[OF assms(2), of 12, simplified] text_at_wf[OF assms(3), of 12, simplified]
        strncmp_differs_def One_nat_def add_Suc_right add_0_right)
  have o1: "counted good id (snd x) ((if ?o then [Owner] else []) @ [])
      (bindp (if ?o then report_owner L opts old new (width old) (width new) x else Ret x) (\<lambda>(_, st). Ret st))"
    if g: "good (cd_out (snd x))" for x
  proof (rule counted_bind[where pj = snd])
    show "counted good snd (snd x) (if ?o then [Owner] else []) (if ?o then report_owner L opts old new (width old) (width new) x else Ret x)"
      using report_perm_counted(2)[OF g assms(2,3), of opts "fst x"] g by (intro counted_if) (simp_all add: counted_def)
  qed (simp add: counted_def split_beta)
  have p1: "counted good id st ((if ?p then [Permission] else []) @ (if ?o then [Owner] else []) @ [])
     (bindp (if ?p then report_perm L opts old new (width old) (width new) (False, st) else Ret (False, st)) (\<lambda>x.
     bindp (if ?o then report_owner L opts old new (width old) (width new) x else Ret x) (\<lambda>(_, st). Ret st)))"
    if g: "good (cd_out st)" for st
  proof (rule counted_bind[where pj = snd, OF _ o1])
    show "counted good snd st (if ?p then [Permission] else []) (if ?p then report_perm L opts old new (width old) (width new) (False, st) else Ret (False, st))"
      using report_perm_counted(1)[OF g assms(2,3), of opts False] g by (intro counted_if) (simp_all add: counted_def)
  qed
  have "counted good id st ((if ?c then crc_change opts old new else []) @ (if ?p then [Permission] else []) @ (if ?o then [Owner] else []) @ [])
      (compare_entries L opts old new st)"
    unfolding eq
  proof (rule counted_bind[where pj = id])
    show "counted good id st (if ?c then crc_change opts old new else []) (if ?c then report_crc L opts old new (width old) (width new) st else Ret st)"
      using report_crc_counted[OF assms, of opts] assms(1) by (intro counted_if) (simp_all add: counted_def)
  qed (use p1 in simp)
  then show ?thesis by (simp add: differences_def Let_def)
qed

lemma pass1_counted:
  "good (cd_out st) \<Longrightarrow> \<forall>e \<in> set olds. entry_wf e \<Longrightarrow> \<forall>e \<in> set news. entry_wf e \<Longrightarrow>
    counted good id st (concat (map (changes_of opts news) olds))
      (pass1 L opts (\<lambda>e. Some (first_where (same_file e) news)) news olds st)"
proof (induction olds arbitrary: st)
  case (Cons old olds)
  let ?m = "first_where (same_file old) news"
  have "counted good id st (changes_of opts news old) (if ?m = 0 then report_deleted L opts old st
            else if kkey old = kkey (news ! (?m - 1)) then Ret st
            else compare_entries L opts old (news ! (?m - 1)) st)"
  proof (cases ?m)
    case 0
    then show ?thesis using pr_l2_counted[OF Cons.prems(1) _ cnt_incr(1), of old opts "''deleted    ''" "''<''"] Cons.prems(2)
      by (simp add: changes_of_def report_deleted_def)
  next
    case (Suc k)
    then have "entry_wf (news ! k)" using first_where_Suc[OF Suc] Cons.prems(3) by simp
    then show ?thesis using Suc compare_entries_counted[OF Cons.prems(1), of old "news ! k" opts] Cons.prems
      by (simp add: changes_of_def counted_def)
  qed
  then show ?case unfolding pass1.simps of_ub_simps bindp.simps list.map concat.simps
    by (rule counted_bind) (use Cons in simp)
qed (simp add: counted_def)

lemma pass2_counted:
  "good (cd_out st) \<Longrightarrow> \<forall>e \<in> set news. entry_wf e \<Longrightarrow>
    counted good id st (concat (map (additions olds) news))
      (pass2 L opts (\<lambda>e. Some (first_where (same_file e) olds)) news st)"
proof (induction news arbitrary: st)
  case (Cons new news)
  let ?m = "first_where (same_file new) olds"
  have "counted good id st (additions olds new) (if ?m = 0 then report_added L opts new st else Ret st)"
    using pr_l2_counted[OF Cons.prems(1) _ cnt_incr(6), of new opts "''added      ''" "''>''"] Cons.prems
    by (simp add: additions_def report_added_def counted_def[of _ _ _ "[]"])
  then show ?case unfolding pass2.simps of_ub_simps bindp.simps list.map concat.simps
    by (rule counted_bind) (use Cons in simp)
qed (simp add: counted_def)

lemma compare_counts:
  assumes "fits M l1s" "fits M l2s" "\<forall>e \<in> set l1s. entry_wf e" "\<forall>e \<in> set l2s. entry_wf e" "good o1"
  shows "\<exists>r st. compare_lists M L opts l1s l2s (cd_start o1 err) = Ret (r, st)
    \<and> (\<forall>c. cnt st c = of_nat (count_list (all_changes opts l1s l2s) c))
    \<and> r = (if \<forall>c. cnt st c = 0 then 0 else 1)"
proof -
  let ?c1 = "concat (map (changes_of opts l2s) l1s)" and ?c2 = "concat (map (additions l1s) l2s)"
  have "counted good id (cd_start o1 err) (?c1 @ ?c2)
      (bindp (pass1 L opts (\<lambda>e. Some (first_where (same_file e) l2s)) l2s l1s (cd_start o1 err)) (\<lambda>st.
         pass2 L opts (\<lambda>e. Some (first_where (same_file e) l1s)) l2s st))"
    by (rule counted_bind[OF pass1_counted]) (use assms in \<open>simp_all add: pass2_counted cd_start_def\<close>)
  then obtain st where st: "bindp (pass1 L opts (\<lambda>e. Some (first_where (same_file e) l2s)) l2s l1s (cd_start o1 err)) (\<lambda>st.
         pass2 L opts (\<lambda>e. Some (first_where (same_file e) l1s)) l2s st) = Ret st" "good (cd_out st)"
    "\<And>c. cnt st c = cnt (cd_start o1 err) c + of_nat (count_list (?c1 @ ?c2) c)" by (auto simp: counted_def)
  have zero: "cnt (cd_start o1 err) c = 0" for c by (cases c) (simp_all add: cd_start_def)
  have nc: "no_changes st \<longleftrightarrow> (\<forall>c. cnt st c = 0)"
  proof
    assume "no_changes st"
    then have "cnt st c = 0" for c by (cases c) (simp_all add: no_changes_def)
    then show "\<forall>c. cnt st c = 0" by blast
  next
    assume a: "\<forall>c. cnt st c = 0"
    show "no_changes st" using a[rule_format, of Deleted] a[rule_format, of Changed] a[rule_format, of Replaced]
        a[rule_format, of Permission] a[rule_format, of Owner] a[rule_format, of Added] by (simp add: no_changes_def)
  qed
  let ?t = "if no_changes st then [''0 changes detected'' @ [LF]] else summary L opts st"
  obtain o2 where o2: "puts_or_die L (- 111) (cd_out st) ?t = Ret o2" "good o2" using puts_good[OF st(2), of "- 111" ?t] by blast
  obtain o3 where o3: "flush_or_die L (- 111) o2 = Ret o3" using flush_good[OF o2(2)] by blast
  have "compare_lists M L opts l1s l2s (cd_start o1 err) = finish L opts st"
    using st(1) by (simp add: compare_lists_naive[OF assms(1,2)] compare_naive_def flip: bindp_assoc)
  also have "\<dots> = Ret (if no_changes st then 0 else 1, st\<lparr>cd_out := o3\<rparr>)"
    unfolding finish_def o2(1) bindp.simps o3 ..
  finally show ?thesis using st(3) zero nc by (intro exI conjI) (auto simp: all_changes_def)
qed

end

lemma no_differences:
  assumes "distinct (map pkey l2s)" "set l1s = set l2s"
  shows "all_changes opts l1s l2s = []"
proof -
  have c: "changes_of opts l2s e = []" if e: "e \<in> set l2s" for e
  proof -
    have "first_where (same_file e) l2s \<noteq> 0" using e by (auto simp: first_where_0 same_file_def)
    then obtain m where m: "first_where (same_file e) l2s = Suc m" by (cases "first_where (same_file e) l2s") auto
    have l: "m < length l2s" "same_file e (l2s ! m)" using first_where_Suc[OF m] by auto
    have "kkey (l2s ! m) = kkey e"
    proof (cases "pkey (l2s ! m) = pkey e")
      case True
      then have "l2s ! m = e" using assms(1) e l(1) by (metis distinct_map inj_on_contraD nth_mem)
      then show ?thesis by simp
    qed (use l(2) in \<open>simp add: same_file_def\<close>)
    then show ?thesis by (simp add: changes_of_def m)
  qed
  have a: "additions l1s e = []" if "e \<in> set l2s" for e
    using that assms(2) by (auto simp: additions_def first_where_0 same_file_def)
  show ?thesis using c a assms(2) by (simp add: all_changes_def)
qed

subsection \<open>Directories and \<open>-d\<close>\<close>

text \<open>The checksum of a directory is over its inode and size; with \<open>-d\<close> a change of it is reported as a
  replacement, without \<open>-d\<close> it is left out when the time stamp changed too.\<close>

lemma directory_option:
  assumes "is_dir_line old" "is_dir_line new" "cut_nul (drop (etail new) (ebytes new)) \<noteq> cut_nul (drop (etail old) (ebytes old))"
  shows "crc_change opts old new = (if o_ignore_dir opts then [Replaced] else [])"
  using assms by (simp add: crc_change_def)

lemma changes_of_once: "count_list (changes_of opts news old) k \<le> 1"
  by (cases k) (auto simp: changes_of_def differences_def crc_change_def Let_def split: nat.split)

lemma count_list_concat: "count_list (concat xss) k = sum_list (map (\<lambda>xs. count_list xs k) xss)"
  by (induction xss) (simp_all add: count_list_append)

lemma replaced_at_most: "count_list (all_changes opts l1s l2s) Replaced \<le> length l1s"
proof -
  have "count_list (concat (map (changes_of opts l2s) l1s)) Replaced \<le> length l1s"
    using sum_list_mono[of l1s "\<lambda>e. count_list (changes_of opts l2s e) Replaced" "\<lambda>_. 1"] changes_of_once
    by (simp add: count_list_concat o_def sum_list_triv)
  moreover have "count_list (concat (map (additions l1s) l2s)) Replaced = 0"
    by (simp add: count_list_0_iff additions_def)
  ultimately show ?thesis by (simp add: all_changes_def count_list_append)
qed

lemma first_where_only:
  assumes "x \<in> set l" "P x" "\<forall>y \<in> set l. P y \<longrightarrow> y = x"
  obtains m where "first_where P l = Suc m" "l ! m = x"
proof (cases "first_where P l")
  case 0
  then show ?thesis using assms(1,2) by (simp add: first_where_0)
next
  case (Suc m)
  then show ?thesis using first_where_Suc[OF Suc] assms(3) that by force
qed

lemma replaced_counted:
  assumes "\<forall>k. cnt st k = of_nat (count_list (all_changes opts l1s l2s) k)" "Replaced \<in> set (all_changes opts l1s l2s)"
    and "length l1s < 2 ^ 60"
  shows "mod_count st \<noteq> 0"
proof -
  let ?n = "count_list (all_changes opts l1s l2s) Replaced"
  have "0 < ?n" "?n < 2 ^ 64"
    using assms(2,3) replaced_at_most[of opts l1s l2s] by (auto simp: count_list_0_iff intro!: gr0I)
  then have "(of_nat ?n :: u64) \<noteq> 0" by (simp add: word_of_nat_eq_0_iff) (auto dest: dvd_imp_le)
  then show ?thesis using assms(1)[rule_format, of Replaced] by simp
qed

subsection \<open>The shape of an entry\<close>

lemma skip_fields_suffix: "\<exists>p. s = p @ skip_fields n s"
proof (induction n arbitrary: s)
  case (Suc n)
  let ?d = "dropWhile (\<lambda>c. c \<noteq> SP) s"
  obtain p where p: "dropWhile (\<lambda>c. c = SP) ?d = p @ skip_fields (Suc n) s"
    using Suc.IH[of "dropWhile (\<lambda>c. c = SP) ?d"] unfolding skip_fields.simps by blast
  have "s = takeWhile (\<lambda>c. c \<noteq> SP) s @ takeWhile (\<lambda>c. c = SP) ?d @ p @ skip_fields (Suc n) s"
    unfolding p[symmetric] takeWhile_dropWhile_id ..
  then have "s = (takeWhile (\<lambda>c. c \<noteq> SP) s @ takeWhile (\<lambda>c. c = SP) ?d @ p) @ skip_fields (Suc n) s" by simp
  then show ?case by blast
qed simp

lemma skip_fields_space: "skip_fields (Suc n) s \<noteq> [] \<Longrightarrow> SP \<in> set s"
proof (rule ccontr)
  assume "skip_fields (Suc n) s \<noteq> []" "SP \<notin> set s"
  moreover have "skip_fields n [] = []" by (induction n) simp_all
  moreover have "dropWhile (\<lambda>c. c \<noteq> SP) s = []" using \<open>SP \<notin> set s\<close> by (induction s) auto
  ultimately show False by simp
qed

lemma takeWhile_shorter: "x \<in> set s \<Longrightarrow> length (takeWhile (\<lambda>d. d \<noteq> x) s) < length s"
  by (induction s) auto

lemma strstr_less: "strstr s pat = Some k \<Longrightarrow> k \<le> length s"
  by (induction s arbitrary: k) (auto split: if_splits)

lemma cut_nul_length: "length (cut_nul b) \<le> length b"
  by (simp add: cut_nul_def length_takeWhile_le)

lemma parse_shape:
  assumes "parse tm b = Some e"
  shows "ebytes e = b \<and> 23 \<le> length b \<and> epath e = etail e + 22 \<and> epath e + eplen e = length (cut_nul b) \<and> 0 < eplen e
    \<and> eklen e \<le> length b \<and> (\<exists>k. crc_len e = Some k \<and> k < length b)"
proof -
  let ?s = "cut_nul b"
  obtain t where t: "strrchr ?s TAB = Some t" "23 \<le> length b" "skip_fields 4 (drop (t + 1) ?s) \<noteq> []"
      "length ?s - length (skip_fields 4 (drop (t + 1) ?s)) - t = 22"
      "e = make_entry b t (length ?s - length (skip_fields 4 (drop (t + 1) ?s)))"
    using assms by (auto simp: parse_def Let_def split: if_splits option.splits)
  obtain p where p: "drop (t + 1) ?s = p @ skip_fields 4 (drop (t + 1) ?s)" using skip_fields_suffix by blast
  have sp: "SP \<in> set ?s" using skip_fields_space[of 3 "drop (t + 1) ?s"] t(3) by (auto simp: eval_nat_numeral dest: in_set_dropD)
  have crc: "crc_len e = Some (length (takeWhile (\<lambda>d. d \<noteq> SP) ?s))" using sp t(5) by (simp add: crc_len_def strchr_def make_entry_def Let_def)
  have "length (takeWhile (\<lambda>d. d \<noteq> SP) ?s) < length ?s" by (rule takeWhile_shorter[OF sp])
  then have lt: "length (takeWhile (\<lambda>d. d \<noteq> SP) ?s) < length b" using cut_nul_length[of b] by simp
  have len: "length ?s = t + 22 + length (skip_fields 4 (drop (t + 1) ?s))" using t(4) arg_cong[OF p, of length] by simp
  have k: "eklen e \<le> length b" using t(5) strstr_less[of ?s tag_mark] cut_nul_length[of b]
    by (auto simp: make_entry_def Let_def split: option.splits)
  have "length ?s - length (skip_fields 4 (drop (t + 1) ?s)) = t + 22" using len by linarith
  then have e: "e = make_entry b t (t + 22)" using t(5) by (simp only:)
  have gt: "t + 22 < length ?s" using len t(3) by (metis length_greater_0_conv less_add_same_cancel1)
  show ?thesis using t(2) crc lt k gt unfolding e by (simp add: make_entry_def Let_def)
qed

subsection \<open>The critical list\<close>

lemma critical_lines_first:
  "length (fst crit) \<le> n \<Longrightarrow> snd crit = n \<Longrightarrow> \<exists>r. critical_lines fn es n crit err = Ret r"
  by (induction fn es n crit err rule: critical_lines.induct) (auto simp: Let_def)

lemma critical_lines_second:
  assumes "s \<noteq> []" "\<not> (m \<and> length s \<le> 1)" "length (fst crit) = snd crit" "snd crit \<noteq> 0"
  shows "critical_lines fn (GlLine s m # es) 0 crit err = Wild"
  using assms by auto

end
