(* ===== verification/Crcdiff_Lines.thy ===== *)
theory Crcdiff_Lines
  imports Crcdiff_Spec
begin

text \<open>
  The two programs together: a line printed by \<open>crc -v\<close> is read by \<open>crcdiff\<close> into the parts it was made
  of.
\<close>

unbundle bit_operations_syntax

lemma strchr_first: "c \<notin> set a \<Longrightarrow> strchr (a @ c # r) c = Some (length a)"
  by (simp add: strchr_def takeWhile_neq_append)

lemma strrchr_last: "c \<notin> set r \<Longrightarrow> strrchr (a @ c # r) c = Some (length a)"
  using takeWhile_neq_append[of c "rev r" "rev a"] by (simp add: strrchr_def)

lemma strstr_first: "c \<notin> set a \<Longrightarrow> strstr (a @ (c # pat) @ r) (c # pat) = Some (length a)"
proof (induction a)
  case Nil
  show ?case by simp
next
  case (Cons x xs)
  then have "take (length (c # pat)) (x # xs @ (c # pat) @ r) \<noteq> c # pat" by auto
  then show ?case using Cons by simp
qed

lemma strstr_none: "c \<notin> set a \<Longrightarrow> strstr a (c # pat) = None"
  by (induction a) auto

lemma dropWhile_left: "dropWhile P s \<noteq> [] \<Longrightarrow> dropWhile P (s @ t) = dropWhile P s @ t"
  by (induction s) auto

lemma skip_fields_append: "skip_fields n s \<noteq> [] \<Longrightarrow> skip_fields n (s @ t) = skip_fields n s @ t"
proof (induction n arbitrary: s)
  case (Suc n)
  let ?d = "dropWhile (\<lambda>c. c \<noteq> SP) s" and ?e = "dropWhile (\<lambda>c. c = SP) (dropWhile (\<lambda>c. c \<noteq> SP) s)"
  have nil: "skip_fields n [] = []" by (induction n) simp_all
  have e: "?e \<noteq> []"
  proof
    assume z: "?e = []"
    have "skip_fields (Suc n) s = []" by (simp only: skip_fields.simps z nil)
    then show False using Suc.prems by blast
  qed
  have d: "?d \<noteq> []"
  proof
    assume z: "?d = []"
    have "?e = []" by (simp only: z dropWhile.simps)
    then show False using e by blast
  qed
  have "skip_fields (Suc n) (s @ t) = skip_fields n (?e @ t)"
    by (simp only: skip_fields.simps dropWhile_left[OF d] dropWhile_left[OF e])
  also have "\<dots> = skip_fields n ?e @ t" by (rule Suc.IH) (use Suc.prems in simp)
  finally show ?case by simp
qed simp

lemma skip_fields_Suc: "skip_fields (Suc n) s = skip_fields 1 (skip_fields n s)"
  by (induction n arbitrary: s) simp_all

text \<open>A date of four fields: the last 20 bytes of what \<open>ctime\<close> prints.\<close>

definition date_ok :: "string \<Rightarrow> bool" where
  "date_ok d \<longleftrightarrow> length d = 20 \<and> skip_fields 3 d \<noteq> [] \<and> SP \<notin> set (skip_fields 3 d)"

lemma date_skip: "date_ok d \<Longrightarrow> x \<noteq> [] \<Longrightarrow> hd x \<noteq> SP \<Longrightarrow> skip_fields 4 (d @ SP # x) = x"
proof -
  assume d: "date_ok d" "x \<noteq> []" "hd x \<noteq> SP"
  have "skip_fields (Suc 3) (d @ SP # x) = skip_fields 1 (skip_fields 3 d @ SP # x)"
    unfolding skip_fields_Suc using skip_fields_append[of 3 d] d(1) by (simp add: date_ok_def)
  also have "\<dots> = dropWhile (\<lambda>c. c = SP) (SP # x)" using d(1) dropWhile_neq_append[of SP "skip_fields 3 d" x] by (simp add: date_ok_def)
  also have "\<dots> = x" using d(2,3) by (cases x) auto
  finally show ?thesis by (simp add: eval_nat_numeral)
qed

lemma perm_chars: "set (perm_string p) \<subseteq> set ''dbcplsrwxStT-''" "length (perm_string p) = 10"
proof -
  have "mode_type p \<in> set ''dbcplsrwxStT-''" by (simp add: mode_type_def Let_def)
  moreover have "c \<in> set ''dbcplsrwxStT-'' \<Longrightarrow> flag_char p m c \<in> set ''dbcplsrwxStT-''" for m c by (simp add: flag_char_def)
  moreover have "c \<in> set ''dbcplsrwxStT-'' \<Longrightarrow> e \<in> set ''dbcplsrwxStT-'' \<Longrightarrow> exec_char p m n c e \<in> set ''dbcplsrwxStT-''" for m n c e
    by (simp add: exec_char_def)
  ultimately show "set (perm_string p) \<subseteq> set ''dbcplsrwxStT-''"
    by (simp only: perm_string_def set_simps insert_subset empty_subsetI) simp
qed (simp add: perm_string_def)

definition plain :: "string \<Rightarrow> bool" where
  "plain s \<longleftrightarrow> NUL \<notin> set s \<and> TAB \<notin> set s \<and> CHR '','' \<notin> set s"

definition base_line :: "string \<Rightarrow> string \<Rightarrow> string \<Rightarrow> string \<Rightarrow> string \<Rightarrow> string \<Rightarrow> string" where
  "base_line h q own grp d path = ''0x'' @ h @ '' '' @ q @ '' '' @ own @ [TAB] @ grp @ [TAB] @ d @ '' '' @ path"

lemma cut_nul_id: "NUL \<notin> set s \<Longrightarrow> cut_nul s = s"
  by (simp add: cut_nul_def takeWhile_neq_id)

lemma tag_text_plain: "case tag of None \<Rightarrow> True | Some g \<Rightarrow> NUL \<notin> set g \<and> TAB \<notin> set g \<Longrightarrow>
    NUL \<notin> set (concat (tag_text tag)) \<and> TAB \<notin> set (concat (tag_text tag))"
  by (cases tag) (auto simp: tag_text_def)

lemma parse_intro:
  assumes "cut_nul b = b" "23 \<le> length b" "strrchr b TAB = Some t" "0 < t" "strchr b TAB \<noteq> Some t"
    and "drop (t + 1) b = u" "tm u" "skip_fields 4 u = r" "r \<noteq> []" "length b = t + 22 + length r"
  shows "parse tm b = Some (make_entry b t (t + 22))"
  using assms by (simp add: parse_def)

lemma parse_line:
  assumes "length h = 8" "length q = 10" "plain h" "plain q" "plain own" "plain grp" "plain d" "plain path"
    and "date_ok d" "path \<noteq> []" "hd path \<noteq> SP" "case tag of None \<Rightarrow> True | Some g \<Rightarrow> NUL \<notin> set g \<and> TAB \<notin> set g"
    and tm: "tm (d @ '' '' @ path @ concat (tag_text tag))"
  shows "parse tm (base_line h q own grp d path @ concat (tag_text tag)) = Some
    \<lparr>ebytes = base_line h q own grp d path @ concat (tag_text tag), etail = 23 + length own + length grp,
     epath = 45 + length own + length grp, eplen = length (path @ concat (tag_text tag)),
     eklen = length (base_line h q own grp d path), eolen = of_nat (length own + length grp + 2)\<rparr>"
proof -
  let ?g = "concat (tag_text tag)"
  let ?A = "''0x'' @ h @ '' '' @ q @ '' '' @ own" and ?C = "d @ SP # path @ ?g"
  let ?base = "base_line h q own grp d path"
  let ?b = "?base @ ?g"
  have b: "?b = ?A @ TAB # grp @ TAB # ?C" by (simp add: base_line_def)
  have g: "NUL \<notin> set ?g" "TAB \<notin> set ?g" using tag_text_plain[OF assms(12)] by auto
  have nul: "NUL \<notin> set ?b" unfolding b using assms(3-8) g by (auto simp: plain_def)
  have tab: "TAB \<notin> set ?A" "TAB \<notin> set ?C" using assms(3-8) g by (auto simp: plain_def)
  have d: "length d = 20" using assms(9) by (simp add: date_ok_def)
  have lA: "length ?A = 22 + length own" using assms(1,2) by simp
  have lb: "length ?b = 45 + length own + length grp + length (path @ ?g)"
    unfolding b using lA d by simp
  have t: "strrchr ?b TAB = Some (23 + length own + length grp)"
    using strrchr_last[OF tab(2), of "?A @ TAB # grp"] lA unfolding b by simp
  have t1: "strchr ?b TAB = Some (22 + length own)"
    using strchr_first[OF tab(1), of "grp @ TAB # ?C"] lA unfolding b by simp
  have u: "drop (23 + length own + length grp + 1) ?b = ?C"
  proof -
    have "?b = (?A @ TAB # grp @ [TAB]) @ ?C" using b by simp
    moreover have "length (?A @ TAB # grp @ [TAB]) = 23 + length own + length grp + 1" using lA by simp
    ultimately show ?thesis by (metis append_eq_conv_conj)
  qed
  have r: "skip_fields 4 ?C = path @ ?g" using date_skip[OF assms(9), of "path @ ?g"] assms(10,11) by simp
  have k: "(case strstr ?b tag_mark of Some k \<Rightarrow> k | None \<Rightarrow> length ?b) = length ?base"
  proof -
    have comma: "CHR '','' \<notin> set ?base" using assms(3-8) by (auto simp: plain_def base_line_def)
    show ?thesis
    proof (cases tag)
      case None
      then show ?thesis using strstr_none[OF comma, of "''tag=''"] by (simp add: tag_mark_def tag_text_def)
    next
      case (Some x)
      then show ?thesis using strstr_first[OF comma, of "''tag=''" x] by (simp add: tag_mark_def tag_text_def)
    qed
  qed
  have "parse tm ?b = Some (make_entry ?b (23 + length own + length grp) (23 + length own + length grp + 22))"
  proof (rule parse_intro[OF cut_nul_id[OF nul] _ t _ _ _ _ r])
    show "drop (23 + length own + length grp + 1) ?b = ?C" by (rule u)
    show "tm ?C" using tm by simp
  qed (use lb t1 assms(10) in simp_all)
  then show ?thesis
    unfolding make_entry_def cut_nul_id[OF nul] Let_def k using lb by simp
qed


text \<open>The line of a file, without its newline, as \<open>crcdiff\<close> reads it.\<close>

definition line_ok :: "'o qlib \<Rightarrow> crc_world \<Rightarrow> (string \<Rightarrow> bool) \<Rightarrow> stat_t \<Rightarrow> string \<Rightarrow> string option \<Rightarrow> bool" where
  "line_ok L W tm sb path tag \<longleftrightarrow> (let d = drop 4 (take 24 (w_ctime W (st_mtime sb))) in
     plain (owner_name L W (st_uid sb)) \<and> plain (group_name L W (st_gid sb)) \<and> plain d \<and> plain path \<and> date_ok d
     \<and> path \<noteq> [] \<and> hd path \<noteq> SP \<and> (case tag of None \<Rightarrow> True | Some g \<Rightarrow> NUL \<notin> set g \<and> TAB \<notin> set g)
     \<and> tm (d @ '' '' @ path @ concat (tag_text tag)))"

definition crc_entry :: "'o qlib \<Rightarrow> crc_world \<Rightarrow> u32 \<Rightarrow> stat_t \<Rightarrow> string \<Rightarrow> string option \<Rightarrow> entry" where
  "crc_entry L W crc sb path tag = (let own = owner_name L W (st_uid sb); grp = group_name L W (st_gid sb);
       base = base_line (hex8 L crc) (perm_string (st_mode sb)) own grp (drop 4 (take 24 (w_ctime W (st_mtime sb)))) path
     in \<lparr>ebytes = base @ concat (tag_text tag), etail = 23 + length own + length grp,
         epath = 45 + length own + length grp, eplen = length (path @ concat (tag_text tag)),
         eklen = length base, eolen = of_nat (length own + length grp + 2)\<rparr>)"

lemma cut_nul_Cons: "NUL \<notin> set a \<Longrightarrow> c \<noteq> NUL \<Longrightarrow> cut_nul (a @ c # r) = a @ c # cut_nul r"
  by (induction a) (auto simp: cut_nul_def)

context qmail
begin

lemma parse_crc_line:
  assumes "line_ok L W tm sb path tag"
  shows "parse tm (butlast (crc_line L W crc sb path tag)) = Some (crc_entry L W crc sb path tag)"
proof -
  have h: "plain (hex8 L crc)" using hex8_digits[of crc] by (auto simp: plain_def)
  have q: "plain (perm_string (st_mode sb))" using perm_chars(1)[of "st_mode sb"] by (auto simp: plain_def)
  have "butlast (crc_line L W crc sb path tag)
      = base_line (hex8 L crc) (perm_string (st_mode sb)) (owner_name L W (st_uid sb)) (group_name L W (st_gid sb))
          (drop 4 (take 24 (w_ctime W (st_mtime sb)))) path @ concat (tag_text tag)"
    by (simp add: crc_line_def stats_text_def base_line_def butlast_append)
  then show ?thesis
    using parse_line[OF hex8_length perm_chars(2) h q, where own = "owner_name L W (st_uid sb)" and
        grp = "group_name L W (st_gid sb)" and d = "drop 4 (take 24 (w_ctime W (st_mtime sb)))" and path = path
        and tag = tag and tm = tm] assms
    by (simp add: line_ok_def crc_entry_def Let_def)
qed

lemma crc_entry_width: "width (crc_entry L W crc sb path tag) = 10"
proof -
  let ?A = "''0x'' @ hex8 L crc"
  have A: "SP \<notin> set ?A" "NUL \<notin> set ?A" using hex8_digits[of crc] by auto
  have sp: "SP \<noteq> NUL" by simp
  obtain r where r: "ebytes (crc_entry L W crc sb path tag) = ?A @ SP # r"
    by (simp add: crc_entry_def base_line_def Let_def)
  show ?thesis using takeWhile_neq_append[OF A(1), of "cut_nul r"]
    by (simp only: width_def r cut_nul_Cons[OF A(2) sp]) (simp add: hex8_length)
qed

lemma crc_entry_bytes:
  "\<exists>r. ebytes (crc_entry L W crc sb path tag) = (''0x'' @ hex8 L crc @ '' '') @ perm_string (st_mode sb) @ SP # r"
  by (simp add: crc_entry_def base_line_def Let_def)

lemma crc_entry_perm:
  assumes "i < 10"
  shows "ebytes (crc_entry L W crc sb path tag) ! (11 + i) = perm_string (st_mode sb) ! i"
proof -
  obtain r where r: "ebytes (crc_entry L W crc sb path tag) = (''0x'' @ hex8 L crc @ '' '') @ perm_string (st_mode sb) @ SP # r"
    using crc_entry_bytes by blast
  have "length (''0x'' @ hex8 L crc @ '' '') = 11" by (simp add: hex8_length)
  then show ?thesis using assms perm_chars(2)[of "st_mode sb"] unfolding r
    by (simp only: nth_append) simp
qed

lemma crc_entry_wf: "entry_wf (crc_entry L W crc sb path tag)"
proof -
  let ?e = "crc_entry L W crc sb path tag"
  obtain r where r: "ebytes ?e = (''0x'' @ hex8 L crc @ '' '') @ perm_string (st_mode sb) @ SP # r"
    using crc_entry_bytes by blast
  have len: "22 \<le> length (ebytes ?e)" unfolding r using perm_chars(2)[of "st_mode sb"] by (simp add: hex8_length)
  have "NUL \<notin> set (''0x'' @ hex8 L crc)" using hex8_digits[of crc] by auto
  moreover have "ebytes ?e = (''0x'' @ hex8 L crc) @ SP # perm_string (st_mode sb) @ SP # r" unfolding r by simp
  ultimately have "SP \<in> set (cut_nul (ebytes ?e))" using cut_nul_Cons[of "''0x'' @ hex8 L crc" SP] by simp
  then have "crc_len ?e = Some (width ?e)" by (simp add: crc_len_def strchr_def width_def)
  then show ?thesis using len crc_entry_width[of W crc sb path tag] by (simp add: entry_wf_def)
qed

lemma crc_entry_suid:
  "suid (crc_entry L W crc sb path tag) (width (crc_entry L W crc sb path tag))
    = Some (st_mode sb AND 0x800 \<noteq> 0 \<and> st_mode sb AND 0x40 \<noteq> 0 \<or> st_mode sb AND 0x400 \<noteq> 0 \<and> st_mode sb AND 0x08 \<noteq> 0)"
proof -
  let ?e = "crc_entry L W crc sb path tag" and ?p = "st_mode sb"
  have "ebytes ?e ! (width ?e + 4) = perm_string ?p ! 3" "ebytes ?e ! (width ?e + 7) = perm_string ?p ! 6"
    using crc_entry_perm[of 3 W crc sb path tag] crc_entry_perm[of 6 W crc sb path tag] crc_entry_width[of W crc sb path tag] by simp_all
  note at = this
  have "perm_string ?p ! 3 = CHR ''s'' \<longleftrightarrow> ?p AND 0x800 \<noteq> 0 \<and> ?p AND 0x40 \<noteq> 0"
    "perm_string ?p ! 6 = CHR ''s'' \<longleftrightarrow> ?p AND 0x400 \<noteq> 0 \<and> ?p AND 0x08 \<noteq> 0"
    by (simp_all add: perm_string_def exec_char_def)
  then show ?thesis by (simp only: suid_wf[OF crc_entry_wf] at)
qed

lemma crc_entry_keys:
  assumes "line_ok L W tm sb path tag"
  shows "pkey (crc_entry L W crc sb path tag) = path @ concat (tag_text tag)"
    "kkey (crc_entry L W crc sb path tag) = base_line (hex8 L crc) (perm_string (st_mode sb)) (owner_name L W (st_uid sb))
       (group_name L W (st_gid sb)) (drop 4 (take 24 (w_ctime W (st_mtime sb)))) path"
proof -
  let ?own = "owner_name L W (st_uid sb)" and ?grp = "group_name L W (st_gid sb)" and ?d = "drop 4 (take 24 (w_ctime W (st_mtime sb)))"
  have "length ?d = 20" using assms by (simp add: line_ok_def date_ok_def Let_def)
  then have "length (''0x'' @ hex8 L crc @ '' '' @ perm_string (st_mode sb) @ '' '' @ ?own @ [TAB] @ ?grp @ [TAB] @ ?d @ '' '')
      = 45 + length ?own + length ?grp" using perm_chars(2)[of "st_mode sb"] by (simp add: hex8_length)
  moreover have "ebytes (crc_entry L W crc sb path tag)
      = (''0x'' @ hex8 L crc @ '' '' @ perm_string (st_mode sb) @ '' '' @ ?own @ [TAB] @ ?grp @ [TAB] @ ?d @ '' '') @ path @ concat (tag_text tag)"
    by (simp add: crc_entry_def base_line_def Let_def)
  ultimately have "drop (45 + length ?own + length ?grp) (ebytes (crc_entry L W crc sb path tag)) = path @ concat (tag_text tag)"
    by (metis append_eq_conv_conj)
  then show "pkey (crc_entry L W crc sb path tag) = path @ concat (tag_text tag)"
    by (simp add: pkey_def crc_entry_def Let_def)
  show "kkey (crc_entry L W crc sb path tag) = base_line (hex8 L crc) (perm_string (st_mode sb)) ?own ?grp ?d path"
    by (simp add: kkey_def crc_entry_def Let_def)
qed

lemma crc_entry_dir: "is_dir_line (crc_entry L W crc sb path tag) \<longleftrightarrow> S_ISDIR sb"
proof -
  have "ebytes (crc_entry L W crc sb path tag) ! (width (crc_entry L W crc sb path tag) + 1) = mode_type (st_mode sb)"
    using crc_entry_perm[of 0 W crc sb path tag] crc_entry_width[of W crc sb path tag] by (simp add: perm_string_def)
  then show ?thesis by (auto simp: is_dir_line_def S_ISDIR_def mode_type_def Let_def)
qed

lemma crc_entry_crc:
  "take 10 (cut_nul (ebytes (crc_entry L W crc sb path tag))) = ''0x'' @ hex8 L crc"
proof -
  obtain r where r: "ebytes (crc_entry L W crc sb path tag) = (''0x'' @ hex8 L crc) @ SP # r"
    by (simp add: crc_entry_def base_line_def Let_def)
  have "NUL \<notin> set (''0x'' @ hex8 L crc)" using hex8_digits[of crc] by auto
  then show ?thesis using cut_nul_Cons[of "''0x'' @ hex8 L crc" SP r] unfolding r by (simp add: hex8_length)
qed

lemma crc_change_seen:
  assumes "c1 \<noteq> c2" "\<not> S_ISDIR sb1"
  shows "Replaced \<in> set (differences opts (crc_entry L W1 c1 sb1 path1 tag1) (crc_entry L W2 c2 sb2 path2 tag2))"
proof -
  have "hex8 L c2 \<noteq> hex8 L c1" using hex8_inj[of c2 c1] assms(1) by blast
  then show ?thesis using assms(2)
    by (simp add: differences_def crc_entry_width crc_entry_crc crc_change_def crc_entry_dir Let_def)
qed

lemma replaced_found:
  assumes "line_ok L W tm sb path tag" "line_ok L W' tm sb' path tag" "c \<noteq> c'" "\<not> S_ISDIR sb"
    and "old = crc_entry L W c sb path tag" "new = crc_entry L W' c' sb' path tag"
    and "old \<in> set l1s" "new \<in> set l2s" "\<forall>e \<in> set l2s. same_file old e \<longrightarrow> e = new"
  shows "Replaced \<in> set (all_changes opts l1s l2s)"
proof -
  have k: "pkey old = pkey new" unfolding assms(5,6) using crc_entry_keys(1) assms(1,2) by metis
  have h: "hex8 L c \<noteq> hex8 L c'" using hex8_inj assms(3) by blast
  have n: "kkey old \<noteq> kkey new"
  proof
    assume "kkey old = kkey new"
    then have "take 10 (kkey old) = take 10 (kkey new)" by simp
    then show False using h unfolding assms(5,6) crc_entry_keys(2)[OF assms(1)] crc_entry_keys(2)[OF assms(2)]
      by (simp add: base_line_def hex8_length)
  qed
  have "same_file old new" using k by (simp add: same_file_def)
  then obtain m where "first_where (same_file old) l2s = Suc m" "l2s ! m = new"
    by (rule first_where_only[OF assms(8) _ assms(9)])
  then have "changes_of opts l2s old = differences opts old new" using n by (simp add: changes_of_def)
  moreover have "Replaced \<in> set (differences opts old new)" unfolding assms(5,6) by (rule crc_change_seen[OF assms(3,4)])
  ultimately have "Replaced \<in> set (changes_of opts l2s old)" by simp
  then have "Replaced \<in> set (concat (map (changes_of opts l2s) l1s))" using assms(7) by auto
  then show ?thesis by (simp add: all_changes_def)
qed

end
end
