(* ===== verification/Crc_Samples.thy ===== *)
theory Crc_Samples
  imports Crc_Gen Crcdiff_Lines
begin

text \<open>
  Concrete inputs of the checksum tools: a file system with a directory and three files, the lines the
  program prints for them, and two lists to compare.
\<close>

unbundle bit_operations_syntax

definition sample_stat :: "u32 \<Rightarrow> stat_t" where
  "sample_stat m = \<lparr>st_mode = m, st_ino = 7, st_dev = 1, st_rdev = 0, st_size = 3, st_uid = 0, st_gid = 0, st_mtime = 0\<rparr>"

definition sample_lstat :: "string \<Rightarrow> stat_result" where
  "sample_lstat p = (if p = ''d'' then StatOk (sample_stat 0x41ED)
     else if p = ''d/a'' \<or> p = ''e'' then StatOk (sample_stat 0x81A4) else if p = ''d/b'' then StatOk (sample_stat 0x89ED) else StatNoent)"

definition sample_world :: crc_world where
  "sample_world = \<lparr>w_stat = sample_lstat, w_lstat = sample_lstat,
     w_open = (\<lambda>p. if p = ''d/a'' then Opened [RdData ''a'', RdIntr, RdData ''bc''] else if p = ''e'' then Opened []
        else if p = ''x'' then Opened [RdData (''#c'' @ [LF] @ ''d/a '' @ [LF] @ ''t'')] else OpenErr),
     w_readdir = (\<lambda>p. if p = ''d'' then Some [''.'', ''a'', ''b''] else None),
     w_getpwuid = (\<lambda>u. if u = 0 then Some ''root'' else None), w_getgrgid = (\<lambda>g. None),
     w_ctime = (\<lambda>t. ''Thu Jan  1 00:00:00 1970'' @ [LF]), w_fnmatch = (\<lambda>e p. False), w_regex = (\<lambda>e p. None),
     w_image = (\<lambda>st. ''img'')\<rparr>"

lemma sample_world_sel [simp]:
  "w_lstat sample_world = sample_lstat" "w_open sample_world ''d/a'' = Opened [RdData ''a'', RdIntr, RdData ''bc'']"
  "w_open sample_world ''e'' = Opened []" "w_open sample_world ''d/b'' = OpenErr"
  "w_open sample_world ''x'' = Opened [RdData (''#c'' @ [LF] @ ''d/a '' @ [LF] @ ''t'')]"
  "w_getpwuid sample_world u = (if u = 0 then Some ''root'' else None)" "w_getgrgid sample_world g = None"
  "w_ctime sample_world t = ''Thu Jan  1 00:00:00 1970'' @ [LF]" "w_fnmatch sample_world e p = False"
  "w_readdir sample_world p = (if p = ''d'' then Some [''.'', ''a'', ''b''] else None)"
  by (simp_all add: sample_world_def)

definition empty_out :: out_t where
  "empty_out = \<lparr>odata = [], oplan = []\<rparr>"

lemma empty_out_sel [simp]: "odata empty_out = []" "oplan empty_out = []"
  by (simp_all add: empty_out_def)

lemma sample_stat_ids: "known_ids (sample_stat m)"
  by (simp add: known_ids_def sample_stat_def)

lemma sample_regular: "S_ISREG (sample_stat 0x81A4)" "\<not> S_ISDIR (sample_stat 0x81A4)"
  by (simp_all add: S_ISREG_def S_ISDIR_def sample_stat_def)

lemma sample_finite: "finite_tree sample_world (\<lambda>p. if p = ''d'' then 1 else 0)"
  by (auto simp: finite_tree_def)

lemma sample_line_ok:
  "line_ok qref sample_world (\<lambda>s. True) (sample_stat m) ''d/a'' (Some ''os'')"
  "line_ok qref sample_world (\<lambda>s. True) (sample_stat m) ''d/a'' None"
  "line_ok qref sample_world (\<lambda>s. True) (sample_stat m) ''d/b'' None"
  by (simp_all add: line_ok_def Let_def sample_stat_def plain_def date_ok_def owner_name_def group_name_def eval_nat_numeral digits.simps)

definition sample_old :: "entry list" where
  "sample_old = [crc_entry qref sample_world 1 (sample_stat 0x81A4) ''d/a'' None]"

definition sample_new :: "entry list" where
  "sample_new = [crc_entry qref sample_world 2 (sample_stat 0x81A4) ''d/a'' None]"

lemma sample_fits: "fits big_memory sample_old" "fits big_memory sample_new"
  by (simp_all add: fits_def sample_old_def sample_new_def)

lemma sample_wf: "\<forall>e \<in> set sample_old. entry_wf e" "\<forall>e \<in> set sample_new. entry_wf e"
  by (simp_all add: sample_old_def sample_new_def ref.crc_entry_wf)

lemma digits_all_ones: "digits 16 4294967295 = ''ffffffff''"
  by (simp add: digits.simps)

lemma hex8_error: "hex8 qref CRC_ERROR = ''ffffffff''"
  by (simp add: hex8_def CRC_ERROR_def digits_all_ones unsigned_minus_1_eq_mask mask_eq_exp_minus_1)

text \<open>The file system after a byte of the first file has changed, and the lines that are printed before and after.\<close>

definition sample_changed :: crc_world where
  "sample_changed = sample_world\<lparr>w_open := (\<lambda>p. Opened [RdData ''ax'', RdData ''c''])\<rparr>"

lemma sample_changed_ok: "line_ok qref sample_changed (\<lambda>s. True) (sample_stat m) ''d/a'' None"
  by (simp add: sample_changed_def line_ok_def Let_def sample_stat_def plain_def date_ok_def owner_name_def group_name_def eval_nat_numeral digits.simps)

lemma crc_line_end: "\<exists>t. crc_line L W c sb path tag = t @ [LF]"
  by (auto simp: crc_line_def stats_text_def Let_def)

lemma sample_run:
  "\<exists>d lc. byte_crc qref sample_world (a_opts crc_defaults) ''d/a'' None (Some True) True None (sample_stat 0x81A4) (crc_start empty_out) = Ret (posix_crc 0 ''abc'', lc, d)
    \<and> odata (st_out d) = butlast (crc_line qref sample_world (posix_crc 0 ''abc'') (sample_stat 0x81A4) ''d/a'' None) @ [LF]"
  "\<exists>d lc. byte_crc qref sample_changed (a_opts crc_defaults) ''d/a'' None (Some True) True None (sample_stat 0x81A4) (crc_start empty_out) = Ret (posix_crc 0 ''axc'', lc, d)
    \<and> odata (st_out d) = butlast (crc_line qref sample_changed (posix_crc 0 ''axc'') (sample_stat 0x81A4) ''d/a'' None) @ [LF]"
proof -
  have b: "butlast (crc_line L W c sb path tag) @ [LF] = crc_line L W c sb path tag" for L :: "out_t qlib" and W c sb path tag
    using crc_line_end[of L W c sb path tag] by auto
  have o: "initial_crc (a_opts crc_defaults) = 0" by (simp add: crc_defaults_def)
  show "\<exists>d lc. byte_crc qref sample_world (a_opts crc_defaults) ''d/a'' None (Some True) True None (sample_stat 0x81A4) (crc_start empty_out) = Ret (posix_crc 0 ''abc'', lc, d)
    \<and> odata (st_out d) = butlast (crc_line qref sample_world (posix_crc 0 ''abc'') (sample_stat 0x81A4) ''d/a'' None) @ [LF]"
    unfolding b using ref.byte_crc_good[of "crc_start empty_out" sample_world "sample_stat 0x81A4" "''d/a''" "[RdData ''a'', RdIntr, RdData ''bc'']" "''abc''" "a_opts crc_defaults" None None] o
    by (auto simp: crc_start_def cache_ok_start[unfolded crc_start_def] sample_stat_ids)
  show "\<exists>d lc. byte_crc qref sample_changed (a_opts crc_defaults) ''d/a'' None (Some True) True None (sample_stat 0x81A4) (crc_start empty_out) = Ret (posix_crc 0 ''axc'', lc, d)
    \<and> odata (st_out d) = butlast (crc_line qref sample_changed (posix_crc 0 ''axc'') (sample_stat 0x81A4) ''d/a'' None) @ [LF]"
    unfolding b using ref.byte_crc_good[of "crc_start empty_out" sample_changed "sample_stat 0x81A4" "''d/a''" "[RdData ''ax'', RdData ''c'']" "''axc''" "a_opts crc_defaults" None None] o
    by (auto simp: crc_start_def cache_ok_start[unfolded crc_start_def] sample_stat_ids sample_changed_def)
qed

end
