(* ===== verification/Qstr.thy ===== *)
theory Qstr
  imports Process
begin

text \<open>
  The string functions of libqmail that the account and directory code calls: \<open>str_len\<close>, \<open>str_copy\<close>,
  \<open>str_chr\<close>, \<open>str_str\<close>, \<open>str_diffn\<close> and the number scanners. They are the fields of the record \<open>qstr\<close>; the
  locale \<open>qstrings\<close> states what their manual pages promise. A string argument is the list of its bytes
  without the terminator, except for \<open>str_len\<close> and \<open>str_copy\<close>, which get the memory at the pointer.
\<close>

record qstr =
  str_len :: "string \<Rightarrow> nat"
  str_copy :: "string \<Rightarrow> string \<Rightarrow> string"
  str_chr :: "string \<Rightarrow> char \<Rightarrow> nat"
  str_str :: "string \<Rightarrow> string \<Rightarrow> nat option"
  str_diffn :: "string \<Rightarrow> string \<Rightarrow> nat \<Rightarrow> int"
  scan_uint :: "string \<Rightarrow> nat"
  scan_int :: "string \<Rightarrow> int"

definition all_digits :: "string \<Rightarrow> bool" where
  "all_digits s \<longleftrightarrow> s \<noteq> [] \<and> set s \<subseteq> set ''0123456789''"

locale qstrings =
  fixes Q :: qstr
  assumes len_cstr: "NUL \<notin> set s \<Longrightarrow> str_len Q (s @ NUL # r) = length s"
    and copy_cstr: "NUL \<notin> set t \<Longrightarrow> length t < length m \<Longrightarrow> str_copy Q m t = t @ NUL # drop (length t + 1) m"
    and chr_first: "c \<notin> set s \<Longrightarrow> str_chr Q (s @ c # t) c = length s"
    and chr_none: "c \<notin> set s \<Longrightarrow> str_chr Q s c = length s"
    and diffn_zero: "NUL \<notin> set s \<Longrightarrow> NUL \<notin> set t \<Longrightarrow>
      str_diffn Q s t n = 0 \<longleftrightarrow> take n (s @ [NUL]) = take n (t @ [NUL])"
    and uint_val: "all_digits s \<Longrightarrow> numval 10 s < 2 ^ 32 \<Longrightarrow> scan_uint Q s = numval 10 s"
    and int_val: "all_digits s \<Longrightarrow> numval 10 s < 2 ^ 31 \<Longrightarrow> scan_int Q s = int (numval 10 s)"
begin

lemma chr_cases: "str_chr Q s c = length (takeWhile (\<lambda>d. d \<noteq> c) s)"
proof (cases "c \<in> set s")
  case True
  then obtain a b where s: "s = a @ c # b" "c \<notin> set a" using split_list_first by metis
  then show ?thesis using chr_first[of c a b] takeWhile_neq_append[of c a b] by simp
next
  case False
  show ?thesis by (simp only: chr_none[OF False] takeWhile_neq_id[OF False])
qed

lemma chr_mem: "str_chr Q s c < length s \<longleftrightarrow> c \<in> set s"
  unfolding chr_cases by (induction s) auto

end

subsection \<open>A reference implementation\<close>

fun ref_str_str :: "string \<Rightarrow> string \<Rightarrow> nat option" where
  "ref_str_str [] pat = (if pat = [] then Some 0 else None)"
| "ref_str_str (c # cs) pat = (if take (length pat) (c # cs) = pat then Some 0 else map_option Suc (ref_str_str cs pat))"

definition leading_digits :: "string \<Rightarrow> string" where
  "leading_digits s = takeWhile (\<lambda>c. c \<in> set ''0123456789'') s"

definition qstr_ref :: qstr where
  "qstr_ref = \<lparr>str_len = (\<lambda>m. length (takeWhile (\<lambda>c. c \<noteq> NUL) m)), str_copy = (\<lambda>m t. t @ NUL # drop (length t + 1) m),
     str_chr = (\<lambda>s c. length (takeWhile (\<lambda>d. d \<noteq> c) s)), str_str = ref_str_str,
     str_diffn = (\<lambda>s t n. if take n (s @ [NUL]) = take n (t @ [NUL]) then 0 else 1),
     scan_uint = (\<lambda>s. numval 10 (leading_digits s) mod 2 ^ 32),
     scan_int = (\<lambda>s. int (numval 10 (leading_digits s)))\<rparr>"

lemma leading_all: "all_digits s \<Longrightarrow> leading_digits s = s"
  unfolding all_digits_def leading_digits_def by (simp add: takeWhile_eq_all_conv subset_iff)

interpretation ref_str: qstrings qstr_ref
  by unfold_locales (simp_all add: qstr_ref_def takeWhile_neq_append takeWhile_neq_id leading_all)

end
