(* ===== verification/Bigdir.thy ===== *)
theory Bigdir
  imports Qstr Crc_Table
begin

text \<open>
  The allocator of user directories (\<^verbatim>\<open>dir_control.h\<close>, \<^verbatim>\<open>init_dir_control.c\<close>, \<^verbatim>\<open>inc_dir.c\<close>,
  \<^verbatim>\<open>inc_dir_control.c\<close>, \<^verbatim>\<open>next_big_dir.c\<close>): users of a domain are spread over directories with one, two and
  then three levels of one character each, so many users per directory.

  The arrays of the structure are lists; an index outside an array is undefined behaviour. The string
  functions of libqmail are the parameter \<open>Q\<close>.
\<close>

definition MAX_DIR_LEVELS :: nat where "MAX_DIR_LEVELS = 3"

definition MAX_USERS_PER_LEVEL :: int where "MAX_USERS_PER_LEVEL = 100"

definition MAX_DIR_NAME :: nat where "MAX_DIR_NAME = 300"

definition MAX_DIR_LIST :: int where "MAX_DIR_LIST = 62"

record vdir_type =
  level_cur :: int
  level_max :: int
  level_start :: "int list"
  level_end :: "int list"
  level_mod :: "int list"
  level_index :: "int list"
  cur_users :: u64
  the_dir :: string

definition dirlist :: string where
  "dirlist = ''0123456789ABCDEFGHIJKLMNOPQRSTUVWXYZabcdefghijklmnopqrstuvwxyz''"

definition aget :: "'a list \<Rightarrow> int \<Rightarrow> 'a ub" where
  "aget xs i = (if 0 \<le> i \<and> nat i < length xs then Some (xs ! nat i) else None)"

definition aput :: "'a list \<Rightarrow> int \<Rightarrow> 'a \<Rightarrow> 'a list ub" where
  "aput xs i x = (if 0 \<le> i \<and> nat i < length xs then Some (xs[nat i := x]) else None)"

definition init_dir_control :: "vdir_type \<Rightarrow> vdir_type ub" where
  "init_dir_control vbuf = do {
     d \<leftarrow> aput (the_dir vbuf) 0 NUL;
     Some \<lparr>level_cur = 0, level_max = int MAX_DIR_LEVELS, level_start = replicate MAX_DIR_LEVELS 0,
       level_end = replicate MAX_DIR_LEVELS (MAX_DIR_LIST - 1),
       level_mod = map (\<lambda>i. int i * 2) [0..<MAX_DIR_LEVELS],
       level_index = replicate MAX_DIR_LEVELS 0, cur_users = 0, the_dir = d\<rparr> }"

subsection \<open>The next name on a level\<close>

function next_scan :: "char \<Rightarrow> int \<Rightarrow> int \<Rightarrow> int ub" where
  "next_scan in_char i in_end = (if i < in_end + 1
     then do { c \<leftarrow> aget dirlist i; (if c \<noteq> in_char then next_scan in_char (i + 1) in_end else Some i) }
     else Some i)"
  by auto
termination by (relation "measure (\<lambda>(c, i, e). nat (e + 1 - i))") auto

declare next_scan.simps [simp del]

definition next_char :: "char \<Rightarrow> int \<Rightarrow> int \<Rightarrow> char ub" where
  "next_char in_char in_start in_end = do {
     i \<leftarrow> next_scan in_char in_start in_end;
     aget dirlist (if i + 1 \<ge> in_end + 1 then in_start else i + 1) }"

definition dir_wraps :: "vdir_type \<Rightarrow> nat \<Rightarrow> bool ub" where
  "dir_wraps vdir k = do {
     m \<leftarrow> aget (level_mod vdir) (int k);
     c \<leftarrow> aget (the_dir vdir) m;
     e \<leftarrow> aget (level_end vdir) (int k);
     z \<leftarrow> aget dirlist e;
     Some (c = z) }"

definition dir_restart :: "vdir_type \<Rightarrow> nat \<Rightarrow> vdir_type ub" where
  "dir_restart vdir k = do {
     s \<leftarrow> aget (level_start vdir) (int k);
     a \<leftarrow> aget dirlist s;
     m \<leftarrow> aget (level_mod vdir) (int k);
     d \<leftarrow> aput (the_dir vdir) m a;
     x \<leftarrow> aput (level_index vdir) (int k) s;
     Some (vdir\<lparr>the_dir := d, level_index := x\<rparr>) }"

definition dir_advance :: "vdir_type \<Rightarrow> nat \<Rightarrow> vdir_type ub" where
  "dir_advance vdir k = do {
     m \<leftarrow> aget (level_mod vdir) (int k);
     c \<leftarrow> aget (the_dir vdir) m;
     s \<leftarrow> aget (level_start vdir) (int k);
     e \<leftarrow> aget (level_end vdir) (int k);
     a \<leftarrow> next_char c s e;
     d \<leftarrow> aput (the_dir vdir) m a;
     i \<leftarrow> aget (level_index vdir) (int k);
     x \<leftarrow> aput (level_index vdir) (int k) (i + 1);
     Some (vdir\<lparr>the_dir := d, level_index := x\<rparr>) }"

fun inc_dir :: "nat \<Rightarrow> vdir_type \<Rightarrow> vdir_type ub" where
  "inc_dir 0 vdir = do { w \<leftarrow> dir_wraps vdir 0; (if w then dir_restart vdir 0 else dir_advance vdir 0) }"
| "inc_dir (Suc k) vdir = do {
     w \<leftarrow> dir_wraps vdir (Suc k);
     (if w then do { v \<leftarrow> dir_restart vdir (Suc k); inc_dir k v } else dir_advance vdir (Suc k)) }"

declare inc_dir.simps [simp del]

definition inc_dir_int :: "int \<Rightarrow> vdir_type \<Rightarrow> vdir_type ub" where
  "inc_dir_int k vdir = (if k < 0 then None else inc_dir (nat k) vdir)"

subsection \<open>The next directory\<close>

definition add_slash :: "qstr \<Rightarrow> vdir_type \<Rightarrow> vdir_type ub" where
  "add_slash Q vdir = (let len = str_len Q (the_dir vdir) in
     if len < MAX_DIR_NAME then
       (if len + 1 < length (the_dir vdir)
        then Some (vdir\<lparr>the_dir := take len (the_dir vdir) @ str_copy Q (drop len (the_dir vdir)) ''/''\<rparr>)
        else None)
     else Some vdir)"

definition deeper :: "qstr \<Rightarrow> vdir_type \<Rightarrow> vdir_type ub" where
  "deeper Q vdir = do {
     v \<leftarrow> inc_dir_int (level_cur vdir) vdir;
     add_slash Q (v\<lparr>level_cur := level_cur v + 1\<rparr>) }"

definition level_full :: "vdir_type \<Rightarrow> int \<Rightarrow> bool ub" where
  "level_full vdir k = do {
     i \<leftarrow> aget (level_index vdir) k;
     e \<leftarrow> aget (level_end vdir) k;
     Some (i = e) }"

definition next_level :: "qstr \<Rightarrow> vdir_type \<Rightarrow> vdir_type ub" where
  "next_level Q vdir = do {
     full \<leftarrow> level_full vdir (level_cur vdir);
     (if full then
        (if level_cur vdir = 0 then deeper Q vdir
         else if level_cur vdir = 1 then do {
           f0 \<leftarrow> level_full vdir 0;
           f1 \<leftarrow> level_full vdir 1;
           (if f0 \<and> f1 then deeper Q vdir else Some vdir) }
         else Some vdir)
      else Some vdir) }"

definition first_dir :: "vdir_type \<Rightarrow> vdir_type ub" where
  "first_dir vdir = do {
     s \<leftarrow> aget (level_start vdir) 0;
     a \<leftarrow> aget dirlist s;
     d \<leftarrow> aput (the_dir vdir) 0 a;
     d \<leftarrow> aput d 1 NUL;
     Some (vdir\<lparr>the_dir := d\<rparr>) }"

definition users_per_level :: "int \<Rightarrow> u64" where
  "users_per_level max_users_per_level =
     word_of_int (if max_users_per_level \<noteq> 0 then max_users_per_level else MAX_USERS_PER_LEVEL)"

definition inc_dir_control :: "qstr \<Rightarrow> vdir_type \<Rightarrow> int \<Rightarrow> vdir_type ub" where
  "inc_dir_control Q vdir max_users_per_level = (let v = vdir\<lparr>cur_users := cur_users vdir + 1\<rparr> in
     if cur_users v mod users_per_level max_users_per_level = 0 then do {
       c \<leftarrow> aget (the_dir v) 0;
       (if c = NUL then first_dir v
        else do { v \<leftarrow> next_level Q v; inc_dir_int (level_cur v) v }) }
     else Some v)"

definition next_big_dir :: "qstr \<Rightarrow> int \<Rightarrow> vdir_type \<Rightarrow> (vdir_type \<times> string) ub" where
  "next_big_dir Q n vdir = do {
     v \<leftarrow> inc_dir_control Q vdir n;
     s \<leftarrow> cstr_at (the_dir v) 0;
     Some (v, s) }"

end
