(* ===== verification/Bigdir_Spec.thy ===== *)
theory Bigdir_Spec
  imports Bigdir
begin

text \<open>
  What the allocator promises: the directory of the n-th user depends on the number of full directories
  only; it is the k-th name of the enumeration of all names with one, two and three characters. The
  names are distinct, so that no directory gets more users than the limit until all are used.
\<close>

subsection \<open>Names\<close>

definition dg :: "nat \<Rightarrow> char" where
  "dg i = dirlist ! i"

lemma dirlist_facts: "length dirlist = 62" "distinct dirlist" "NUL \<notin> set dirlist" "CHR ''/'' \<notin> set dirlist"
  by (simp_all add: dirlist_def)

lemma aget_int: "aget xs (int i) = (if i < length xs then Some (xs ! i) else None)"
  by (simp add: aget_def)

lemma aput_int: "aput xs (int i) x = (if i < length xs then Some (xs[i := x]) else None)"
  by (simp add: aput_def)

lemma dg_mem: "i < 62 \<Longrightarrow> dg i \<in> set dirlist"
  by (simp add: dg_def dirlist_facts(1))

lemma dg_props: "i < 62 \<Longrightarrow> dg i \<noteq> NUL" "i < 62 \<Longrightarrow> dg i \<noteq> CHR ''/''" "i < 62 \<Longrightarrow> j < 62 \<Longrightarrow> dg i = dg j \<longleftrightarrow> i = j"
proof -
  show "i < 62 \<Longrightarrow> dg i \<noteq> NUL" "i < 62 \<Longrightarrow> dg i \<noteq> CHR ''/''" using dg_mem[of i] dirlist_facts(3,4) by metis+
  show "i < 62 \<Longrightarrow> j < 62 \<Longrightarrow> dg i = dg j \<longleftrightarrow> i = j" using dirlist_facts(1,2) by (simp add: dg_def nth_eq_iff_index_eq)
qed

lemma aget_dirlist: "i < 62 \<Longrightarrow> aget dirlist (int i) = Some (dg i)"
  by (simp add: aget_int dg_def dirlist_facts)

lemma next_scan_found: "i \<le> j \<Longrightarrow> j < 62 \<Longrightarrow> next_scan (dg j) (int i) 61 = Some (int j)"
proof (induction "j - i" arbitrary: i)
  case 0
  then show ?case using next_scan.simps[of "dg j" "int i" 61] aget_dirlist[of i] by simp
next
  case (Suc d)
  then have "next_scan (dg j) (int (i + 1)) 61 = Some (int j)" by (intro Suc(1)) auto
  then show ?case using Suc(2-) next_scan.simps[of "dg j" "int i" 61] aget_dirlist[of i] dg_props(3)[of i j] by (simp add: add.commute)
qed

lemma next_scan_none: "i \<le> 62 \<Longrightarrow> next_scan NUL (int i) 61 = Some 62"
proof (induction "62 - i" arbitrary: i)
  case 0
  then show ?case using next_scan.simps[of NUL "int i" 61] by simp
next
  case (Suc d)
  then have "next_scan NUL (int (i + 1)) 61 = Some 62" by (intro Suc(1)) auto
  then show ?case using Suc(2-) next_scan.simps[of NUL "int i" 61] aget_dirlist[of i] dg_props(1)[of i] by (simp add: add.commute)
qed

lemma next_char_dg: "i < 61 \<Longrightarrow> next_char (dg i) 0 61 = Some (dg (i + 1))" "next_char NUL 0 61 = Some (dg 0)"
  using next_scan_found[of 0 i] next_scan_none[of 0] aget_dirlist[of "i + 1"] aget_dirlist[of 0]
  by (simp_all add: next_char_def add.commute)

subsection \<open>The states that are reached\<close>

definition vd :: "u64 \<Rightarrow> int \<Rightarrow> int list \<Rightarrow> string \<Rightarrow> vdir_type" where
  "vd n lc idx t = \<lparr>level_cur = lc, level_max = 3, level_start = [0, 0, 0], level_end = [61, 61, 61], level_mod = [0, 2, 4],
     level_index = idx, cur_users = n, the_dir = t @ replicate (300 - length t) NUL\<rparr>"

lemma vd_sel [simp]:
  "level_cur (vd n lc idx t) = lc" "cur_users (vd n lc idx t) = n" "level_index (vd n lc idx t) = idx"
  "(vd n lc idx t)\<lparr>cur_users := n'\<rparr> = vd n' lc idx t" "(vd n lc idx t)\<lparr>level_cur := lc'\<rparr> = vd n lc' idx t"
  "level_end (vd n lc idx t) = [61, 61, 61]" "the_dir (vd n lc idx t) = t @ replicate (300 - length t) NUL"
  "level_start (vd n lc idx t) = [0, 0, 0]" "level_mod (vd n lc idx t) = [0, 2, 4]"
  by (simp_all add: vd_def)

definition level_pos :: "nat \<Rightarrow> nat" where
  "level_pos k = 2 * k"

definition slot_of :: "nat \<Rightarrow> string \<Rightarrow> char \<Rightarrow> bool" where
  "slot_of k t c \<longleftrightarrow> k < 3 \<and> length t < 300 \<and> (level_pos k < length t \<and> t ! (level_pos k) = c \<or> level_pos k = length t \<and> c = NUL)"

definition put_at :: "nat \<Rightarrow> string \<Rightarrow> char \<Rightarrow> string" where
  "put_at k t c = (if level_pos k < length t then t[level_pos k := c] else t @ [c])"

lemma fixed_arrays:
  assumes "k < 3"
  shows "aget [0, 2, 4] (int k) = Some (int (level_pos k))" "aget [61, 61, 61] (int k) = Some (61 :: int)" "aget [0, 0, 0] (int k) = Some (0 :: int)"
proof -
  have "k = 0 \<or> k = 1 \<or> k = 2" using assms by auto
  then show "aget [0, 2, 4] (int k) = Some (int (level_pos k))" "aget [61, 61, 61] (int k) = Some (61 :: int)" "aget [0, 0, 0] (int k) = Some (0 :: int)"
    by (auto simp: aget_def level_pos_def)
qed

lemma pad_step: "n < 300 \<Longrightarrow> replicate (300 - n) NUL = NUL # replicate (299 - n) NUL"
proof -
  assume "n < 300"
  then have "300 - n = Suc (299 - n)" by simp
  then show ?thesis by (simp only: replicate_Suc)
qed

lemma slot_read: "slot_of k t c \<Longrightarrow> aget (t @ replicate (300 - length t) NUL) (int (level_pos k)) = Some c"
  by (auto simp: slot_of_def aget_int nth_append)

lemma slot_write:
  assumes "slot_of k t c"
  shows "aput (t @ replicate (300 - length t) NUL) (int (level_pos k)) x = Some (put_at k t x @ replicate (300 - length (put_at k t x)) NUL)"
proof (cases "level_pos k < length t")
  case False
  then have "level_pos k = length t" "length t < 300" using assms by (auto simp: slot_of_def)
  then show ?thesis using pad_step[of "length t"] by (simp add: aput_int put_at_def list_update_append)
qed (use assms in \<open>auto simp: slot_of_def aput_int put_at_def list_update_append\<close>)

lemma slot_wraps:
  assumes "slot_of k t c"
  shows "dir_wraps (vd n lc idx t) k = Some (c = dg 61)"
proof -
  have k: "k < 3" using assms by (simp add: slot_of_def)
  show ?thesis using slot_read[OF assms] aget_dirlist[of 61] by (simp add: dir_wraps_def fixed_arrays[OF k])
qed

lemma slot_restart:
  assumes "slot_of k t c" "length idx = 3"
  shows "dir_restart (vd n lc idx t) k = Some (vd n lc (idx[k := 0]) (put_at k t (dg 0)))"
proof -
  have k: "k < 3" using assms by (simp add: slot_of_def)
  have "aput idx (int k) 0 = Some (idx[k := 0])" using assms k by (simp add: aput_int)
  then show ?thesis using slot_write[OF assms(1), of "dg 0"] aget_dirlist[of 0]
    by (simp add: dir_restart_def fixed_arrays[OF k] vd_def)
qed

lemma slot_advance:
  assumes "slot_of k t c" "length idx = 3" "next_char c 0 61 = Some d"
  shows "dir_advance (vd n lc idx t) k = Some (vd n lc (idx[k := idx ! k + 1]) (put_at k t d))"
proof -
  have k: "k < 3" using assms by (simp add: slot_of_def)
  have "aget idx (int k) = Some (idx ! k)" "aput idx (int k) (idx ! k + 1) = Some (idx[k := idx ! k + 1])"
    using assms k by (simp_all add: aput_int aget_int)
  then show ?thesis using slot_write[OF assms(1), of d] slot_read[OF assms(1)] assms(3)
    by (simp add: dir_advance_def fixed_arrays[OF k] vd_def)
qed

subsection \<open>One step\<close>

lemma inc_new:
  assumes "slot_of k t NUL" "length idx = 3"
  shows "inc_dir k (vd n lc idx t) = Some (vd n lc (idx[k := idx ! k + 1]) (put_at k t (dg 0)))"
  using slot_wraps[OF assms(1)] slot_advance[OF assms next_char_dg(2)] dg_props(1)[of 61]
  by (cases k) (simp_all add: inc_dir.simps)

lemma inc_plain:
  assumes "slot_of k t (dg b)" "length idx = 3" "b < 61"
  shows "inc_dir k (vd n lc idx t) = Some (vd n lc (idx[k := idx ! k + 1]) (put_at k t (dg (b + 1))))"
  using slot_wraps[OF assms(1)] slot_advance[OF assms(1,2) next_char_dg(1)[OF assms(3)]] dg_props(3)[of b 61] assms(3)
  by (cases k) (simp_all add: inc_dir.simps)

lemma inc_wrap:
  assumes "slot_of k t (dg 61)" "length idx = 3"
  shows "inc_dir k (vd n lc idx t) = (let v = vd n lc (idx[k := 0]) (put_at k t (dg 0)) in
    case k of 0 \<Rightarrow> Some v | Suc j \<Rightarrow> inc_dir j v)"
  using slot_wraps[OF assms(1)] slot_restart[OF assms]
  by (cases k) (simp_all add: inc_dir.simps)

fun name_text :: "nat list \<Rightarrow> string" where
  "name_text [] = []"
| "name_text [a] = [dg a]"
| "name_text (a # ds) = dg a # CHR ''/'' # name_text ds"

fun next_digits :: "nat list \<Rightarrow> nat list" where
  "next_digits [] = [0]"
| "next_digits [a] = (if a < 61 then [a + 1] else [0, 0])"
| "next_digits [a, b] = (if b < 61 then [a, b + 1] else if a < 61 then [a + 1, 0] else [0, 0, 0])"
| "next_digits [a, b, c] = (if c < 61 then [a, b, c + 1] else if b < 61 then [a, b + 1, 0]
     else if a < 61 then [a + 1, 0, 0] else [0, 0, 0])"
| "next_digits ds = ds"

text \<open>The state after a number of steps. On the second level the index of the first name is one too high,
  until the first level moves on; on the third level the indexes are not looked at any more.\<close>

fun reached_dir :: "u64 \<Rightarrow> nat list \<Rightarrow> vdir_type \<Rightarrow> bool" where
  "reached_dir n [] v \<longleftrightarrow> v = vd n 0 [0, 0, 0] []"
| "reached_dir n [a] v \<longleftrightarrow> a < 62 \<and> v = vd n 0 [int a, 0, 0] [dg a]"
| "reached_dir n [a, b] v \<longleftrightarrow> a < 62 \<and> b < 62
     \<and> v = vd n 1 [int a, if a = 0 then int b + 1 else int b, 0] (name_text [a, b])"
| "reached_dir n [a, b, c] v \<longleftrightarrow> a < 62 \<and> b < 62 \<and> c < 62
     \<and> (\<exists>idx. length idx = 3 \<and> v = vd n 2 idx (name_text [a, b, c]))"
| "reached_dir n ds v \<longleftrightarrow> False"

lemma reached_text: "reached_dir n ds v \<Longrightarrow> the_dir v = name_text ds @ replicate (300 - length (name_text ds)) NUL \<and> cur_users v = n"
  by (induction n ds v rule: reached_dir.induct) auto

definition at_three :: "u64 \<Rightarrow> string \<Rightarrow> vdir_type option \<Rightarrow> bool" where
  "at_three n t r \<longleftrightarrow> (\<exists>idx. length idx = 3 \<and> r = Some (vd n 2 idx t))"

lemma at_threeI [simp]: "length idx = 3 \<Longrightarrow> at_three n t (Some (vd n 2 idx t))"
  by (auto simp: at_three_def)

lemma level_full_vd:
  "k < 3 \<Longrightarrow> length idx = 3 \<Longrightarrow> level_full (vd n lc idx t) (int k) = Some (idx ! k = 61)"
  using fixed_arrays(2)[of k] by (simp add: level_full_def aget_int)

lemma level_full_nums:
  "length idx = 3 \<Longrightarrow> level_full (vd n lc idx t) 0 = Some (idx ! 0 = 61)"
  "length idx = 3 \<Longrightarrow> level_full (vd n lc idx t) 1 = Some (idx ! 1 = 61)"
  "length idx = 3 \<Longrightarrow> level_full (vd n lc idx t) 2 = Some (idx ! 2 = 61)"
  using level_full_vd[of 0 idx n lc t] level_full_vd[of 1 idx n lc t] level_full_vd[of 2 idx n lc t] by simp_all

context qstrings
begin

lemma add_slash_vd:
  assumes "NUL \<notin> set t" "length t < 299"
  shows "add_slash Q (vd n lc idx t) = Some (vd n lc idx (t @ ''/''))"
proof -
  have r: "replicate (300 - length t) NUL = NUL # NUL # replicate (298 - length t) NUL"
    using pad_step[of "length t"] pad_step[of "length t + 1"] assms(2) by simp
  have "str_len Q (t @ replicate (300 - length t) NUL) = length t" unfolding r by (rule len_cstr[OF assms(1)])
  moreover have "str_copy Q (replicate (300 - length t) NUL) ''/'' = ''/'' @ replicate (299 - length t) NUL"
    using copy_cstr[of "''/''" "replicate (300 - length t) NUL"] assms(2) pad_step[of "length t + 1"] unfolding r by simp
  ultimately show ?thesis using assms(2) by (simp add: add_slash_def MAX_DIR_NAME_def vd_def)
qed

lemma deeper_vd:
  assumes "inc_dir (nat lc) (vd n lc idx t) = Some (vd n lc idx' t')" "0 \<le> lc" "NUL \<notin> set t'" "length t' < 299"
  shows "deeper Q (vd n lc idx t) = Some (vd n (lc + 1) idx' (t' @ ''/''))"
  using assms add_slash_vd[OF assms(3,4)] by (simp add: deeper_def inc_dir_int_def)

lemma step1:
  assumes "reached_dir n [a] v"
  shows "\<exists>w. do { v \<leftarrow> next_level Q v; inc_dir_int (level_cur v) v } = Some w \<and> reached_dir n (next_digits [a]) w"
proof (cases "a = 61")
  case True
  have s0: "slot_of 0 [dg 61] (dg 61)" and s1: "slot_of 1 [dg 0, CHR ''/''] NUL" by (simp_all add: slot_of_def level_pos_def)
  have "inc_dir (nat 0) (vd n 0 [61, 0, 0] [dg 61]) = Some (vd n 0 [0, 0, 0] [dg 0])"
    using inc_wrap[OF s0, of "[61, 0, 0]"] by (simp add: put_at_def level_pos_def)
  then have "deeper Q (vd n 0 [61, 0, 0] [dg 61]) = Some (vd n 1 [0, 0, 0] [dg 0, CHR ''/''])"
    using deeper_vd[of 0 n "[61, 0, 0]" "[dg 61]" "[0, 0, 0]" "[dg 0]"] dg_props(1)[of 0] by simp
  moreover have "inc_dir 1 (vd n 1 [0, 0, 0] [dg 0, CHR ''/'']) = Some (vd n 1 [0, 1, 0] [dg 0, CHR ''/'', dg 0])"
    using inc_new[OF s1, of "[0, 0, 0]"] by (simp add: put_at_def level_pos_def)
  ultimately show ?thesis using assms True by (simp add: next_level_def level_full_nums inc_dir_int_def)
next
  case False
  have s0: "slot_of 0 [dg a] (dg a)" by (simp add: slot_of_def level_pos_def)
  show ?thesis using assms False inc_plain[OF s0, of "[int a, 0, 0]"]
    by (simp add: next_level_def level_full_nums inc_dir_int_def put_at_def level_pos_def add.commute)
qed

lemma stay2:
  assumes "\<not> (idx ! 0 = 61 \<and> idx ! 1 = 61)" "length idx = 3"
  shows "next_level Q (vd n 1 idx t) = Some (vd n 1 idx t)"
  using assms by (auto simp: next_level_def level_full_nums)

lemma step2:
  assumes "reached_dir n [a, b] v"
  shows "\<exists>w. do { v \<leftarrow> next_level Q v; inc_dir_int (level_cur v) v } = Some w \<and> reached_dir n (next_digits [a, b]) w"
proof -
  let ?t = "[dg a, CHR ''/'', dg b]" and ?idx = "[int a, if a = 0 then int b + 1 else int b, 0]"
  have v: "v = vd n 1 ?idx ?t" "a < 62" "b < 62" using assms by simp_all
  have s1: "slot_of 1 ?t (dg b)" by (simp add: slot_of_def level_pos_def)
  have s0: "slot_of 0 [dg a, CHR ''/'', dg 0] (dg a)" by (simp add: slot_of_def level_pos_def)
  consider (plain) "b < 61" | (carry) "b = 61" "a < 61" | (deep) "b = 61" "a = 61" using v by linarith
  then show ?thesis
  proof cases
    case plain
    then have "next_level Q v = Some v" unfolding v(1) by (intro stay2) auto
    then show ?thesis using inc_plain[OF s1, of ?idx n 1] plain v
      by (cases "a = 0") (simp_all add: inc_dir_int_def put_at_def level_pos_def add.commute)
  next
    case carry
    then have "next_level Q v = Some v" unfolding v(1) by (intro stay2) auto
    moreover have "inc_dir 1 v = inc_dir 0 (vd n 1 [int a, 0, 0] [dg a, CHR ''/'', dg 0])"
      using inc_wrap[of 1 ?t ?idx n 1] s1 carry v(1) by (simp add: put_at_def level_pos_def)
    ultimately show ?thesis using inc_plain[OF s0, of "[int a, 0, 0]" n 1] carry v(1)
      by (simp add: inc_dir_int_def put_at_def level_pos_def add.commute)
  next
    case deep
    have "inc_dir 1 (vd n 1 ?idx ?t) = inc_dir 0 (vd n 1 [int a, 0, 0] [dg a, CHR ''/'', dg 0])"
      using inc_wrap[of 1 ?t ?idx n 1] s1 deep by (simp add: put_at_def level_pos_def)
    also have "\<dots> = Some (vd n 1 [0, 0, 0] [dg 0, CHR ''/'', dg 0])"
      using inc_wrap[of 0 "[dg a, CHR ''/'', dg 0]" "[int a, 0, 0]" n 1] s0 deep by (simp add: put_at_def level_pos_def)
    finally have "deeper Q (vd n 1 ?idx ?t) = Some (vd n 2 [0, 0, 0] [dg 0, CHR ''/'', dg 0, CHR ''/''])"
      using deeper_vd[of 1 n ?idx ?t "[0, 0, 0]" "[dg 0, CHR ''/'', dg 0]"] dg_props(1)[of 0] by simp
    then have "next_level Q v = Some (vd n 2 [0, 0, 0] [dg 0, CHR ''/'', dg 0, CHR ''/''])"
      using deep v(1) by (simp add: next_level_def level_full_nums)
    moreover have "slot_of 2 [dg 0, CHR ''/'', dg 0, CHR ''/''] NUL" by (simp add: slot_of_def level_pos_def)
    ultimately show ?thesis using inc_new[of 2 "[dg 0, CHR ''/'', dg 0, CHR ''/'']" "[0, 0, 0]" n 2] deep
      by (simp add: inc_dir_int_def put_at_def level_pos_def) (rule exI[of _ "[0, 0, 1]"], simp)
  qed
qed

lemma step3:
  assumes "reached_dir n [a, b, c] v"
  shows "\<exists>w. do { v \<leftarrow> next_level Q v; inc_dir_int (level_cur v) v } = Some w \<and> reached_dir n (next_digits [a, b, c]) w"
proof -
  let ?t = "\<lambda>a b c. [dg a, CHR ''/'', dg b, CHR ''/'', dg c]"
  obtain idx where v: "v = vd n 2 idx (?t a b c)" "length idx = 3" "a < 62" "b < 62" "c < 62" using assms by auto
  have nl: "next_level Q v = Some v" using v(1,2) by (simp add: next_level_def level_full_nums)
  have s: "slot_of 2 (?t a b c) (dg c)" "slot_of 1 (?t a b c) (dg b)" "slot_of 0 (?t a b c) (dg a)" for a b c
    by (simp_all add: slot_of_def level_pos_def)
  have i0: "at_three n (?t (if a < 61 then a + 1 else 0) b c) (inc_dir 0 (vd n 2 idx (?t a b c)))"
    if "length idx = 3" "a < 62" for idx a b c
    using that inc_plain[OF s(3), of idx a n 2 b c] inc_wrap[of 0 "?t a b c" idx n 2] s(3)[of a b c] by (cases "a = 61") (simp_all add: put_at_def level_pos_def)
  have i1: "at_three n (if b < 61 then ?t a (b + 1) c else ?t (if a < 61 then a + 1 else 0) 0 c) (inc_dir 1 (vd n 2 idx (?t a b c)))"
    if "length idx = 3" "a < 62" "b < 62" for idx a b c
    using that inc_plain[OF s(2), of idx b n 2 a c] inc_wrap[of 1 "?t a b c" idx n 2] s(2)[of a b c] i0[of "idx[1 := 0]" a 0 c]
    by (cases "b = 61"; cases "a = 61") (simp_all add: put_at_def level_pos_def)
  have "at_three n (name_text (next_digits [a, b, c])) (inc_dir 2 v)"
    using v inc_plain[OF s(1), of idx c n 2 a b] inc_wrap[of 2 "?t a b c" idx n 2] s(1)[of a b c] i1[of "idx[2 := 0]" a b 0]
    by (cases "c = 61"; cases "b = 61"; cases "a = 61") (simp_all add: put_at_def level_pos_def numeral_2_eq_2)
  then obtain idx' where "length idx' = 3" "inc_dir 2 v = Some (vd n 2 idx' (name_text (next_digits [a, b, c])))"
    by (auto simp: at_three_def)
  then show ?thesis using nl v by (auto simp: inc_dir_int_def)
qed

lemma step:
  assumes "reached_dir n ds v"
  shows "\<exists>w. do { c \<leftarrow> aget (the_dir v) 0;
       (if c = NUL then first_dir v else do { v \<leftarrow> next_level Q v; inc_dir_int (level_cur v) v }) } = Some w
     \<and> reached_dir n (next_digits ds) w"
proof -
  have nz: "aget (the_dir v) 0 = Some (dg a)" if "ds = a # r" for a r
    using that reached_text[OF assms] by (cases r) (simp_all add: aget_def)
  have z: "dg a \<noteq> NUL" if "ds = a # r" for a r
    using that assms dg_props(1)[of a] by (induction n ds v rule: reached_dir.induct) auto
  consider "ds = []" | a where "ds = [a]" | a b where "ds = [a, b]" | a b c where "ds = [a, b, c]"
    using assms by (induction n ds v rule: reached_dir.induct) auto
  then show ?thesis
  proof cases
    case 1
    have r: "replicate 300 NUL = NUL # NUL # replicate 298 NUL"
      using pad_step[of 0] pad_step[of 1] by simp
    have v: "v = vd n 0 [0, 0, 0] []" using assms 1 by simp
    have "the_dir v = NUL # NUL # replicate 298 NUL" unfolding v vd_sel using r by simp
    moreover have "vd n 0 [0, 0, 0] [dg 0] = v\<lparr>the_dir := dg 0 # NUL # replicate 298 NUL\<rparr>"
      using pad_step[of 1] by (simp add: v vd_def)
    moreover have "dirlist \<noteq> []" by (simp add: dirlist_def)
    ultimately show ?thesis using 1 by (simp add: first_dir_def aget_def aput_def v[symmetric]) (simp add: v dg_def)
  qed (use assms step1 step2 step3 nz z in \<open>simp_all del: next_digits.simps reached_dir.simps\<close>)
qed

end

subsection \<open>Many users\<close>

fun alloc_users :: "qstr \<Rightarrow> int \<Rightarrow> nat \<Rightarrow> vdir_type \<Rightarrow> vdir_type ub" where
  "alloc_users Q m 0 v = Some v"
| "alloc_users Q m (Suc n) v = do { v \<leftarrow> alloc_users Q m n v; inc_dir_control Q v m }"

definition dir_digits :: "nat \<Rightarrow> nat list" where
  "dir_digits k = (next_digits ^^ k) []"

lemma users_mod:
  assumes "0 < u" "u < 2 ^ 31" "n < 2 ^ 64"
  shows "(of_nat n :: u64) mod users_per_level (int u) = 0 \<longleftrightarrow> n mod u = 0"
proof -
  have "users_per_level (int u) = of_nat u" using assms(1) by (simp add: users_per_level_def)
  moreover have "unat ((of_nat n :: u64) mod of_nat u) = n mod u"
    using assms by (simp add: unat_mod unat_of_nat take_bit_nat_eq_self)
  ultimately show ?thesis by (metis unat_0 unat_eq_0)
qed

lemma reached_users: "reached_dir n ds v \<Longrightarrow> reached_dir n' ds (v\<lparr>cur_users := n'\<rparr>)"
  by (induction n ds v rule: reached_dir.induct) auto

context qstrings
begin

lemma alloc_reaches:
  assumes "reached_dir 0 [] v" "0 < u" "u < 2 ^ 31" "n < 2 ^ 64"
  shows "\<exists>w. alloc_users Q (int u) n v = Some w \<and> reached_dir (of_nat n) (dir_digits (n div u)) w"
  using assms(4)
proof (induction n)
  case 0
  then show ?case using assms(1) by (simp add: dir_digits_def)
next
  case (Suc n)
  obtain w where w: "alloc_users Q (int u) n v = Some w" "reached_dir (of_nat n) (dir_digits (n div u)) w" using Suc by auto
  let ?w = "w\<lparr>cur_users := of_nat (Suc n)\<rparr>"
  have cu: "cur_users w + 1 = of_nat (Suc n)" using reached_text[OF w(2)] by simp
  have w1: "reached_dir (of_nat (Suc n)) (dir_digits (n div u)) ?w" by (rule reached_users[OF w(2)])
  show ?case
  proof (cases "Suc n mod u = 0")
    case True
    then have d: "dir_digits (Suc n div u) = next_digits (dir_digits (n div u))"
      using div_Suc[of n u] by (simp add: dir_digits_def)
    have "inc_dir_control Q w (int u) = do { c \<leftarrow> aget (the_dir ?w) 0;
       (if c = NUL then first_dir ?w else do { v \<leftarrow> next_level Q ?w; inc_dir_int (level_cur v) v }) }"
      using users_mod[OF assms(2,3) Suc.prems] True unfolding inc_dir_control_def cu Let_def by (simp del: of_nat_Suc)
    then show ?thesis unfolding d alloc_users.simps w(1) Option.bind.simps by (simp only:) (rule step[OF w1])
  next
    case False
    then have "Suc n div u = n div u" using div_Suc[of n u] by simp
    then show ?thesis using w1 w(1) False users_mod[OF assms(2,3) Suc.prems] by (simp add: inc_dir_control_def cu Let_def del: of_nat_Suc)
  qed
qed

end

subsection \<open>The names are distinct\<close>

fun dir_rank :: "nat list \<Rightarrow> nat" where
  "dir_rank [a] = a + 1"
| "dir_rank [a, b] = 62 * a + b + 63"
| "dir_rank [a, b, c] = 3844 * a + 62 * b + c + 3907"
| "dir_rank ds = 0"

fun digits_ok :: "nat list \<Rightarrow> bool" where
  "digits_ok ds \<longleftrightarrow> length ds \<le> 3 \<and> (\<forall>d \<in> set ds. d < 62)"

lemma rank_next: "digits_ok ds \<Longrightarrow> ds \<noteq> [61, 61, 61] \<Longrightarrow> dir_rank (next_digits ds) = dir_rank ds + 1"
  by (induction ds rule: next_digits.induct) auto

lemma digits_ok_next: "digits_ok ds \<Longrightarrow> digits_ok (next_digits ds)"
  by (induction ds rule: next_digits.induct) auto

lemma dir_digits_ok: "digits_ok (dir_digits k)"
  by (induction k) (simp_all add: dir_digits_def digits_ok_next del: digits_ok.simps, simp)

definition max_dirs :: nat where
  "max_dirs = 62 + 62 ^ 2 + 62 ^ 3"

lemma rank_dir_digits: "k \<le> max_dirs \<Longrightarrow> dir_rank (dir_digits k) = k"
proof (induction k)
  case (Suc k)
  have k: "dir_rank (dir_digits k) = k" "k < max_dirs" using Suc by auto
  then have "dir_digits k \<noteq> [61, 61, 61]" by (auto simp: max_dirs_def)
  then show ?case using rank_next[OF dir_digits_ok[of k]] k(1) by (simp add: dir_digits_def)
qed (simp add: dir_digits_def)

lemma dg_inj: "inj_on dg {..<62}"
  by (auto simp: inj_on_def dg_props(3))

lemma name_text_inj:
  assumes "digits_ok ds" "digits_ok es" "name_text ds = name_text es"
  shows "ds = es"
  using assms
proof (induction ds arbitrary: es rule: name_text.induct)
  case 1
  then show ?case by (cases es rule: name_text.cases) auto
next
  case (2 a)
  then show ?case by (cases es rule: name_text.cases) (auto simp: dg_props(3))
next
  case (3 a b ds)
  show ?case
  proof (cases es rule: name_text.cases)
    case (3 c d es')
    then have "name_text (b # ds) = name_text (d # es')" "digits_ok (b # ds)" "digits_ok (d # es')" "a = c"
      using 3(1) \<open>name_text (a # b # ds) = name_text es\<close> \<open>digits_ok (a # b # ds)\<close> \<open>digits_ok es\<close> dg_props(3)[of a c] by auto
    then show ?thesis using "3.IH" 3 by metis
  qed (use 3 in auto)
qed

lemma name_text_ok: "digits_ok ds \<Longrightarrow> NUL \<notin> set (name_text ds) \<and> length (name_text ds) < 300"
proof -
  assume ok: "digits_ok ds"
  have "NUL \<notin> set (name_text ds)" using ok
  proof (induction ds rule: name_text.induct)
    case (2 a)
    then show ?case using dg_props(1)[of a] by auto
  next
    case (3 a b ds)
    then show ?case using dg_props(1)[of a] by auto
  qed simp
  moreover have "length (name_text ds) \<le> 2 * length ds" by (induction ds rule: name_text.induct) auto
  ultimately show ?thesis using ok by simp
qed

lemma reached_name:
  assumes "reached_dir n ds v" "digits_ok ds"
  shows "cstr_at (the_dir v) 0 = Some (name_text ds)"
proof -
  have "the_dir v = [] @ name_text ds @ NUL # replicate (299 - length (name_text ds)) NUL"
    using reached_text[OF assms(1)] pad_step[of "length (name_text ds)"] name_text_ok[OF assms(2)] by simp
  then show ?thesis using cstr_at_mid[of "name_text ds" 0 "[]"] name_text_ok[OF assms(2)] by simp
qed

definition user_dir :: "nat \<Rightarrow> nat \<Rightarrow> string" where
  "user_dir u n = name_text (dir_digits (n div u))"

lemma user_dir_eq:
  assumes "0 < u" "n < u * (max_dirs + 1)" "m < u * (max_dirs + 1)"
  shows "user_dir u n = user_dir u m \<longleftrightarrow> n div u = m div u"
proof
  assume "user_dir u n = user_dir u m"
  then have "dir_digits (n div u) = dir_digits (m div u)" using name_text_inj[OF dir_digits_ok dir_digits_ok] by (simp add: user_dir_def)
  moreover have "n div u \<le> max_dirs" "m div u \<le> max_dirs"
    using assms less_mult_imp_div_less[of n "max_dirs + 1" u] less_mult_imp_div_less[of m "max_dirs + 1" u] by (simp_all add: mult.commute)
  ultimately show "n div u = m div u" using rank_dir_digits by metis
qed (simp add: user_dir_def)

lemma user_dir_card:
  assumes "0 < u" "N \<le> u * (max_dirs + 1)"
  shows "card {n. n < N \<and> user_dir u n = d} \<le> u"
proof (cases "\<exists>m < N. user_dir u m = d")
  case True
  then obtain m where m: "m < N" "user_dir u m = d" by blast
  have "{n. n < N \<and> user_dir u n = d} \<subseteq> {n. n div u = m div u}"
  proof
    fix n assume "n \<in> {n. n < N \<and> user_dir u n = d}"
    then show "n \<in> {n. n div u = m div u}" using m user_dir_eq[OF assms(1), of n m] assms(2) by simp
  qed
  also have "\<dots> \<subseteq> {m div u * u..<m div u * u + u}"
  proof
    fix n assume "n \<in> {n. n div u = m div u}"
    then show "n \<in> {m div u * u..<m div u * u + u}" using div_mult_mod_eq[of n u] mod_less_divisor[OF assms(1), of n] by auto
  qed
  finally show ?thesis using card_mono[of "{m div u * u..<m div u * u + u}"] by fastforce
next
  case False
  then have none: "{n. n < N \<and> user_dir u n = d} = {}" by blast
  show ?thesis unfolding none by simp
qed

lemma init_reached:
  assumes "the_dir v = replicate 300 NUL"
  shows "\<exists>w. init_dir_control v = Some w \<and> reached_dir 0 [] w"
proof -
  have "aput (replicate 300 NUL) 0 NUL = Some (replicate 300 NUL)" using list_update_id[of "replicate 300 NUL" 0] by (simp add: aput_def)
  then show ?thesis using assms
    by (simp add: init_dir_control_def MAX_DIR_LEVELS_def MAX_DIR_LIST_def vd_def eval_nat_numeral)
qed

context qstrings
begin

lemma next_dir_name:
  assumes "the_dir v = replicate 300 NUL" "0 < u" "u < 2 ^ 31" "n + 1 < 2 ^ 64"
  shows "\<exists>v0 w w'. init_dir_control v = Some v0 \<and> alloc_users Q (int u) n v0 = Some w
    \<and> next_big_dir Q (int u) w = Some (w', user_dir u (n + 1)) \<and> cur_users w' = of_nat (n + 1)"
proof -
  obtain v0 where v0: "init_dir_control v = Some v0" "reached_dir 0 [] v0" using init_reached[OF assms(1)] by blast
  obtain w' where w': "alloc_users Q (int u) (n + 1) v0 = Some w'" "reached_dir (of_nat (n + 1)) (dir_digits ((n + 1) div u)) w'"
    using alloc_reaches[OF v0(2) assms(2,3), of "n + 1"] assms(4) by blast
  obtain w where w: "alloc_users Q (int u) n v0 = Some w" "inc_dir_control Q w (int u) = Some w'"
    using w'(1) by (auto simp: bind_eq_Some_conv)
  have "cstr_at (the_dir w') 0 = Some (user_dir u (n + 1))"
    unfolding user_dir_def by (rule reached_name[OF w'(2) dir_digits_ok])
  then show ?thesis using v0 w reached_text[OF w'(2)] by (auto simp: next_big_dir_def)
qed

lemma next_dir_balanced:
  assumes "the_dir v = replicate 300 NUL" "init_dir_control v = Some v0" "0 < u" "u < 2 ^ 31" "N < u * (max_dirs + 1)"
  shows "card {n. n < N \<and> (\<exists>w w'. alloc_users Q (int u) n v0 = Some w \<and> next_big_dir Q (int u) w = Some (w', d))} \<le> u"
proof -
  have "u * (max_dirs + 1) \<le> 2 ^ 31 * 242235" using assms(4) by (intro mult_le_mono) (simp_all add: max_dirs_def)
  then have big: "n < N \<Longrightarrow> n + 1 < 2 ^ 64" for n using assms(5) by simp
  let ?A = "{n. n < N \<and> (\<exists>w w'. alloc_users Q (int u) n v0 = Some w \<and> next_big_dir Q (int u) w = Some (w', d))}"
  have "user_dir u (n + 1) = d" if "n < N" "alloc_users Q (int u) n v0 = Some w" "next_big_dir Q (int u) w = Some (w', d)" for n w w'
    using next_dir_name[OF assms(1,3,4) big[OF that(1)]] assms(2) that by auto
  then have "Suc ` ?A \<subseteq> {m. m < N + 1 \<and> user_dir u m = d}" by fastforce
  moreover have "finite {m. m < N + 1 \<and> user_dir u m = d}" by simp
  ultimately have "card (Suc ` ?A) \<le> card {m. m < N + 1 \<and> user_dir u m = d}" by (rule card_mono[rotated])
  also have "\<dots> \<le> u" using user_dir_card[OF assms(3), of "N + 1"] assms(5) by simp
  finally show ?thesis by (simp add: card_image)
qed

end

end
