(* ===== verification/Bigdir_Store.thy ===== *)
theory Bigdir_Store
  imports Bigdir_Spec
begin

text \<open>
  The directory allocator with its table in the database: \<^verbatim>\<open>GetPrefix.c\<close>, \<^verbatim>\<open>vread_dir_control.c\<close>,
  \<^verbatim>\<open>vwrite_dir_control.c\<close>, \<^verbatim>\<open>vcreate_dir_control.c\<close>, \<^verbatim>\<open>open_big_dir.c\<close>, \<^verbatim>\<open>close_big_dir.c\<close>,
  \<^verbatim>\<open>dec_dir_control.c\<close> and \<^verbatim>\<open>backfill.c\<close>.

  The database server and the files are a value of type \<open>'d\<close>; the functions that reach them are the record
  \<open>bd_env\<close>. The static variables of the C functions (the structure \<open>vdir\<close>, the buffer of \<open>GetPrefix\<close>, one
  statement buffer for each of the three functions that build a statement) are the record \<open>bd_st\<close>. A \<open>stralloc\<close>
  is the list of its bytes; that it cannot grow, which ends the process, is left out. Messages on the
  standard error stream are left out. The name that \<open>GetPrefix\<close> returns is a pointer into its buffer; in
  \<open>dec_dir_control\<close>, where \<open>backfill\<close> appends to that buffer before the name is used, the model is that of a
  buffer with room for the second name, which is not moved.
\<close>

datatype sql_result = SqlOk | SqlNoTable | SqlErr

datatype line_result = LineNone | LineErr | LineIs string bool

datatype append_result = AppendFail | AppendOk

record 'd bd_env =
  e_iopen :: "'d \<Rightarrow> 'd \<times> bool"
  e_query :: "'d \<Rightarrow> string \<Rightarrow> 'd \<times> sql_result"
  e_store_result :: "'d \<Rightarrow> string list option option"
  e_create_table :: "'d \<Rightarrow> string \<Rightarrow> 'd \<times> bool"
  e_get_assign :: "string \<Rightarrow> string option"
  e_update_file :: "'d \<Rightarrow> string \<Rightarrow> string \<Rightarrow> 'd \<times> bool"
  e_chown :: "'d \<Rightarrow> string \<Rightarrow> 'd"
  e_is_root :: bool
  e_first_line :: "'d \<Rightarrow> string \<Rightarrow> line_result"
  e_remove_line :: "'d \<Rightarrow> string \<Rightarrow> string \<Rightarrow> 'd \<times> int"
  e_getDbLock :: "'d \<Rightarrow> string \<Rightarrow> 'd \<times> bool"
  e_delDbLock :: "'d \<Rightarrow> string \<Rightarrow> 'd"
  e_append :: "'d \<Rightarrow> string \<Rightarrow> string \<Rightarrow> 'd \<times> append_result"
  e_filesystem :: "string \<Rightarrow> string option"
  e_base_path :: string
  e_fmt_ulong :: "nat \<Rightarrow> string"
  e_scan_ulong :: "string \<Rightarrow> nat"
  e_str_copyb :: "string \<Rightarrow> string \<Rightarrow> nat \<Rightarrow> string"
  e_str :: qstr

record 'd bd_st =
  s_db :: 'd
  s_vdir :: vdir_type
  s_prefix :: string
  s_read_sql :: string
  s_write_sql :: string
  s_create_sql :: string

text \<open>The string at the start of a buffer that was terminated.\<close>

definition head_str :: "string \<Rightarrow> string" where
  "head_str b = takeWhile (\<lambda>c. c \<noteq> NUL) b"

lemma head_str_first: "NUL \<in> set b \<Longrightarrow> head_str (b @ r) = head_str b"
  by (simp add: head_str_def)

lemma head_str_less: "NUL \<in> set b \<Longrightarrow> length (head_str b) < length b"
  by (induction b) (auto simp: head_str_def)

lemma head_str_new: "NUL \<notin> set s \<Longrightarrow> head_str (s @ NUL # r) = s"
  unfolding head_str_def by (rule takeWhile_neq_append)

subsection \<open>The name of the table\<close>

definition suffix_of :: "char \<Rightarrow> string" where
  "suffix_of c = (let ch = of_char (tolower c) :: nat in
     if of_char CHR ''a'' \<le> ch \<and> ch \<le> of_char CHR ''e'' then ''A2E''
     else if of_char CHR ''f'' \<le> ch \<and> ch \<le> of_char CHR ''k'' then ''F2K''
     else if of_char CHR ''l'' \<le> ch \<and> ch \<le> of_char CHR ''p'' then ''L2P''
     else if of_char CHR ''q'' \<le> ch \<and> ch \<le> of_char CHR ''s'' then ''Q2S''
     else ''T2Z'')"

fun flat_slashes :: "string \<Rightarrow> string" where
  "flat_slashes [] = []"
| "flat_slashes (c # cs) = (if c = NUL then c # cs else (if c = CHR ''/'' then CHR ''_'' else c) # flat_slashes cs)"

definition GetPrefix :: "'d bd_env \<Rightarrow> 'd bd_st \<Rightarrow> string \<Rightarrow> string \<Rightarrow> 'd bd_st \<times> string option" where
  "GetPrefix E st user path = (if user = [] then (st, Some '' '')
     else (let base_path = (if path \<noteq> [] then path else e_base_path E) in
       case e_filesystem E base_path of
         None \<Rightarrow> (st, None)
       | Some p \<Rightarrow>
           (let p = (if str_diffn (e_str E) p ''/'' 2 = 0 then ''root'' else p);
                buf = flat_slashes (s_prefix st @ p @ ''_'' @ suffix_of (hd user) @ [NUL])
            in (st\<lparr>s_prefix := buf\<rparr>, Some (head_str buf)))))"

subsection \<open>The table\<close>

definition sql_columns :: string where
  "sql_columns = ''cur_users, level_cur, level_max, '' @ ''level_start0, level_start1, level_start2, ''
     @ ''level_end0, level_end1, level_end2, '' @ ''level_mod0, level_mod1, level_mod2, ''
     @ ''level_index0, level_index1, level_index2, the_dir''"

definition read_sql :: "string \<Rightarrow> string \<Rightarrow> string" where
  "read_sql filename domain = ''select high_priority '' @ sql_columns @ '' from dir_control'' @ filename
     @ '' where domain = '' @ [DQ] @ domain @ [DQ]"

definition insert_sql :: "string \<Rightarrow> string \<Rightarrow> string list \<Rightarrow> string \<Rightarrow> string" where
  "insert_sql table_name domain nums dir = ''replace low_priority into dir_control'' @ table_name @ '' (domain, ''
     @ sql_columns @ '') '' @ ''values ('' @ [DQ] @ domain @ [DQ] @ '', ''
     @ concat (map (\<lambda>n. n @ '', '') nums) @ [DQ] @ dir @ [DQ] @ '')''"

definition ulong_of :: "int \<Rightarrow> nat" where
  "ulong_of i = unat (word_of_int i :: u64)"

text \<open>The numbers of a row, in the order of the columns.\<close>

definition row_nums :: "'d bd_env \<Rightarrow> vdir_type \<Rightarrow> string list" where
  "row_nums E v = e_fmt_ulong E (unat (cur_users v)) # map (\<lambda>i. e_fmt_ulong E (ulong_of i))
     ([level_cur v, level_max v] @ level_start v @ level_end v @ level_mod v @ level_index v)"

definition vdir_shape :: "vdir_type \<Rightarrow> bool" where
  "vdir_shape v \<longleftrightarrow> length (level_start v) = 3 \<and> length (level_end v) = 3 \<and> length (level_mod v) = 3
     \<and> length (level_index v) = 3 \<and> length (the_dir v) = MAX_DIR_NAME \<and> NUL \<in> set (the_dir v)"

definition note_filesystem :: "'d bd_env \<Rightarrow> bool \<Rightarrow> string option \<Rightarrow> string \<Rightarrow> 'd bd_st \<Rightarrow> 'd bd_st \<times> int" where
  "note_filesystem E own ptr table_name st = (case ptr of
     None \<Rightarrow> (st, 0)
   | Some dir \<Rightarrow> (let fn = dir @ ''/.filesystems'' in
       case e_update_file E (s_db st) fn table_name of
         (d, False) \<Rightarrow> (st\<lparr>s_db := d\<rparr>, - 1)
       | (d, True) \<Rightarrow> (st\<lparr>s_db := (if own then e_chown E d fn else d)\<rparr>, 0)))"

definition domain_dir :: "'d bd_env \<Rightarrow> string \<Rightarrow> string option option" where
  "domain_dir E domain = (if domain = [] then Some None
     else (case e_get_assign E domain of None \<Rightarrow> None | Some p \<Rightarrow> Some (Some p)))"

definition vcreate_dir_control :: "'d bd_env \<Rightarrow> string \<Rightarrow> string \<Rightarrow> 'd bd_st \<Rightarrow> 'd bd_st \<times> int" where
  "vcreate_dir_control E filename domain st = (case domain_dir E domain of
     None \<Rightarrow> (st, - 1)
   | Some ptr \<Rightarrow> (case e_iopen E (s_db st) of
       (d, False) \<Rightarrow> (st\<lparr>s_db := d\<rparr>, 1)
     | (d, True) \<Rightarrow> (case e_create_table E d (''dir_control'' @ filename) of
         (d, False) \<Rightarrow> (st\<lparr>s_db := d\<rparr>, 1)
       | (d, True) \<Rightarrow>
           (let buf = s_create_sql st @ insert_sql filename domain
                  ([''0'', ''0'', e_fmt_ulong E MAX_DIR_LEVELS] @ replicate 3 ''0''
                   @ replicate 3 (e_fmt_ulong E (nat (MAX_DIR_LIST - 1))) @ [''0'', ''2'', ''4''] @ replicate 3 ''0'') [] @ [NUL];
                st = st\<lparr>s_create_sql := buf\<rparr>
            in case e_query E d (head_str buf) of
                 (d, SqlOk) \<Rightarrow> note_filesystem E (e_is_root E) ptr filename (st\<lparr>s_db := d\<rparr>)
               | (d, _) \<Rightarrow> (st\<lparr>s_db := d\<rparr>, 1)))))"

definition read_row :: "'d bd_env \<Rightarrow> string list \<Rightarrow> vdir_type \<Rightarrow> vdir_type ub" where
  "read_row E row v = (if length row < 16 then None
     else (let n = (\<lambda>i. scan_int (e_str E) (row ! i)) in
       Some \<lparr>level_cur = n 1, level_max = n 2, level_start = map n [3, 4, 5], level_end = map n [6, 7, 8],
         level_mod = map n [9, 10, 11], level_index = map n [12, 13, 14],
         cur_users = of_nat (e_scan_ulong E (row ! 0)), the_dir = e_str_copyb E (the_dir v) (row ! 15) MAX_DIR_NAME\<rparr>))"

definition reset_vdir :: "'d bd_st \<Rightarrow> ('d bd_st \<times> int) ub" where
  "reset_vdir st = do { v \<leftarrow> init_dir_control (s_vdir st); Some (st\<lparr>s_vdir := v\<rparr>, 0) }"

definition vread_dir_control :: "'d bd_env \<Rightarrow> string \<Rightarrow> string \<Rightarrow> 'd bd_st \<Rightarrow> ('d bd_st \<times> int) ub" where
  "vread_dir_control E filename domain st = (case e_iopen E (s_db st) of
     (d, False) \<Rightarrow> Some (st\<lparr>s_db := d\<rparr>, - 1)
   | (d, True) \<Rightarrow>
       (let buf = s_read_sql st @ read_sql filename domain @ [NUL] in
        case e_query E d (head_str buf) of
          (d, SqlNoTable) \<Rightarrow> (case vcreate_dir_control E filename domain (st\<lparr>s_db := d, s_read_sql := buf\<rparr>) of
              (st, r) \<Rightarrow> if r \<noteq> 0 then Some (st, - 1) else reset_vdir st)
        | (d, SqlErr) \<Rightarrow> Some (st\<lparr>s_db := d, s_read_sql := buf\<rparr>, - 1)
        | (d, SqlOk) \<Rightarrow> (let st = st\<lparr>s_db := d, s_read_sql := buf\<rparr> in
            case e_store_result E d of
              None \<Rightarrow> Some (st, 1)
            | Some None \<Rightarrow> reset_vdir st
            | Some (Some row) \<Rightarrow> do { v \<leftarrow> read_row E row (s_vdir st); Some (st\<lparr>s_vdir := v\<rparr>, 0) })))"

definition write_sql :: "'d bd_env \<Rightarrow> string \<Rightarrow> string \<Rightarrow> vdir_type \<Rightarrow> string" where
  "write_sql E table_name domain v = insert_sql table_name domain (row_nums E v) (head_str (the_dir v))"

definition vwrite_dir_control :: "'d bd_env \<Rightarrow> string \<Rightarrow> string \<Rightarrow> 'd bd_st \<Rightarrow> 'd bd_st \<times> int" where
  "vwrite_dir_control E table_name domain st = (case domain_dir E domain of
     None \<Rightarrow> (st, - 1)
   | Some ptr \<Rightarrow> (case e_iopen E (s_db st) of
       (d, False) \<Rightarrow> (st\<lparr>s_db := d\<rparr>, - 1)
     | (d, True) \<Rightarrow>
         (let buf = s_write_sql st @ write_sql E table_name domain (s_vdir st) @ [NUL];
              st = st\<lparr>s_write_sql := buf\<rparr>
          in case e_query E d (head_str buf) of
               (d, SqlOk) \<Rightarrow> note_filesystem E True ptr table_name (st\<lparr>s_db := d\<rparr>)
             | (d, SqlErr) \<Rightarrow> (st\<lparr>s_db := d\<rparr>, - 1)
             | (d, SqlNoTable) \<Rightarrow>
                 (let st = fst (vcreate_dir_control E table_name domain (st\<lparr>s_db := d\<rparr>))
                  in case e_query E (s_db st) (head_str buf) of
                       (d, SqlOk) \<Rightarrow> note_filesystem E True ptr table_name (st\<lparr>s_db := d\<rparr>)
                     | (d, _) \<Rightarrow> (st\<lparr>s_db := d\<rparr>, - 1)))))"

subsection \<open>The operations\<close>

definition open_big_dir :: "'d bd_env \<Rightarrow> string \<Rightarrow> string \<Rightarrow> string \<Rightarrow> 'd bd_st \<Rightarrow> ('d bd_st \<times> string option) ub" where
  "open_big_dir E username domain path st = (case GetPrefix E st username path of
     (st, None) \<Rightarrow> Some (st, None)
   | (st, Some p) \<Rightarrow> do {
       (st, r) \<leftarrow> vread_dir_control E p domain st;
       Some (st, if r \<noteq> 0 then None else Some p) })"

definition close_big_dir :: "'d bd_env \<Rightarrow> string \<Rightarrow> string \<Rightarrow> 'd bd_st \<Rightarrow> 'd bd_st \<times> int" where
  "close_big_dir E table_name domain st = vwrite_dir_control E table_name domain st"

text \<open>The list of directories that lost a user: \<open>operation\<close> 1 takes an entry off the list, 2 appends one.\<close>

definition list_file :: "string \<Rightarrow> string \<Rightarrow> string" where
  "list_file dir prefix = dir @ ''/.'' @ prefix"

definition take_entry :: "'d bd_env \<Rightarrow> string \<Rightarrow> string \<Rightarrow> string \<Rightarrow> 'd bd_st \<Rightarrow> ('d bd_st \<times> string option) ub" where
  "take_entry E filename prefix domain st = (case e_first_line E (s_db st) filename of
     LineIs l m \<Rightarrow> (let entry = (if m then butlast l else l) in
       if l = [] \<or> m \<and> entry = [] then Some (st, None)
       else (case e_remove_line E (s_db st) (head_str entry) filename of
           (d, r) \<Rightarrow> if r \<noteq> 1 then Some (st\<lparr>s_db := d\<rparr>, None)
             else do {
               (st, _) \<leftarrow> vread_dir_control E prefix domain (st\<lparr>s_db := d\<rparr>);
               (let v = s_vdir st; v = (if cur_users v \<noteq> 0 then v\<lparr>cur_users := cur_users v + 1\<rparr> else v);
                    st = fst (vwrite_dir_control E prefix domain (st\<lparr>s_vdir := v\<rparr>))
                in Some (st, Some (head_str entry))) }))
   | _ \<Rightarrow> Some (st, None))"

text \<open>The part of a path behind the domain, the path being cut before the user name: the bytes of the copy of
  the path, with the byte before the name (or the first one) cleared when it is a slash.\<close>

definition cut_user :: "qstr \<Rightarrow> string \<Rightarrow> string \<Rightarrow> string" where
  "cut_user Q path username = (case str_str Q path username of
     None \<Rightarrow> path
   | Some i \<Rightarrow> (let j = i - 1 in if j < length path \<and> path ! j = CHR ''/'' then take j path else path))"

definition after_domain :: "qstr \<Rightarrow> string \<Rightarrow> string \<Rightarrow> string option" where
  "after_domain Q line domain = (case str_str Q line domain of
     None \<Rightarrow> None
   | Some i \<Rightarrow> (let r = drop (i + length domain) line; r = (if r \<noteq> [] \<and> hd r = CHR ''/'' then tl r else r)
       in if r = [] then None else Some r))"

definition put_entry :: "'d bd_env \<Rightarrow> string \<Rightarrow> string \<Rightarrow> string \<Rightarrow> string \<Rightarrow> 'd bd_st \<Rightarrow> 'd bd_st \<times> string option" where
  "put_entry E filename username domain path st = (case after_domain (e_str E) (cut_user (e_str E) path username) domain of
     None \<Rightarrow> (st, None)
   | Some r \<Rightarrow> (case e_getDbLock E (s_db st) filename of
       (d, False) \<Rightarrow> (st\<lparr>s_db := d\<rparr>, None)
     | (d, True) \<Rightarrow> (case e_append E d filename r of
         (d, AppendFail) \<Rightarrow> (st\<lparr>s_db := e_delDbLock E d filename\<rparr>, None)
       | (d, AppendOk) \<Rightarrow> (st\<lparr>s_db := e_delDbLock E d filename\<rparr>, Some r))))"

definition backfill :: "'d bd_env \<Rightarrow> string \<Rightarrow> string \<Rightarrow> string \<Rightarrow> int \<Rightarrow> 'd bd_st \<Rightarrow> ('d bd_st \<times> string option) ub" where
  "backfill E username domain path operation st = (if domain = [] then Some (st, None)
     else (case e_get_assign E domain of
         None \<Rightarrow> Some (st, None)
       | Some dir \<Rightarrow> (case GetPrefix E st username path of
           (st, None) \<Rightarrow> Some (st, None)
         | (st, Some p) \<Rightarrow>
             if operation = 1 then take_entry E (list_file dir p) p domain st
             else if operation = 2 then Some (put_entry E (list_file dir p) username domain path st)
             else Some (st, None))))"

definition dec_dir_control :: "'d bd_env \<Rightarrow> string \<Rightarrow> string \<Rightarrow> string \<Rightarrow> 'd bd_st \<Rightarrow> ('d bd_st \<times> int) ub" where
  "dec_dir_control E path user domain st = (case GetPrefix E st user path of
     (st, None) \<Rightarrow> Some (st, - 1)
   | (st, Some p) \<Rightarrow> do {
       (st, _) \<leftarrow> backfill E user domain path 2 st;
       (st, _) \<leftarrow> vread_dir_control E p domain st;
       (let v = s_vdir st; v = (if cur_users v \<noteq> 0 then v\<lparr>cur_users := cur_users v - 1\<rparr> else v)
        in Some (vwrite_dir_control E p domain (st\<lparr>s_vdir := v\<rparr>))) })"

text \<open>What \<open>make_user_dir\<close> and \<open>vreorg\<close> do to get the directory of a user.\<close>

definition assign_dir :: "'d bd_env \<Rightarrow> int \<Rightarrow> string \<Rightarrow> string \<Rightarrow> string \<Rightarrow> 'd bd_st \<Rightarrow> ('d bd_st \<times> string option) ub" where
  "assign_dir E users username domain path st = do {
     (st, fname) \<leftarrow> open_big_dir E username domain path st;
     (case fname of
        None \<Rightarrow> Some (st, None)
      | Some fname \<Rightarrow> do {
          (v, dir) \<leftarrow> next_big_dir (e_str E) users (s_vdir st);
          (let st = fst (close_big_dir E fname domain (st\<lparr>s_vdir := v\<rparr>)) in Some (st, Some dir)) }) }"

end
