(* ===== verification/Bigdir_Store_Spec.thy ===== *)
theory Bigdir_Store_Spec
  imports Bigdir_Store
begin

text \<open>
  What the stored allocator promises and where it fails: a row of the table holds the state completely, and
  the static statement buffers, which are appended to and never cleared, make every call after the first one
  of a process send the statements of the first call.
\<close>

subsection \<open>A row holds the state\<close>

locale bd_text = qstrings "e_str E" for E :: "'d bd_env" +
  assumes fmt_digits: "all_digits (e_fmt_ulong E n)"
    and fmt_val: "numval 10 (e_fmt_ulong E n) = n"
    and ulong_scan: "all_digits s \<Longrightarrow> numval 10 s < 2 ^ 64 \<Longrightarrow> e_scan_ulong E s = numval 10 s"
    and copyb_cstr: "NUL \<notin> set t \<Longrightarrow> length t < n \<Longrightarrow> n \<le> length m \<Longrightarrow> e_str_copyb E m t n = t @ NUL # drop (length t + 1) m"
begin

lemma int_field: "0 \<le> i \<Longrightarrow> i < 2 ^ 31 \<Longrightarrow> scan_int (e_str E) (e_fmt_ulong E (ulong_of i)) = i"
proof -
  assume i: "0 \<le> i" "i < 2 ^ 31"
  then have "ulong_of i = nat i" by (simp add: ulong_of_def unat_eq_nat_uint uint_word_of_int_eq take_bit_int_eq_self)
  moreover have "nat i < 2 ^ 31" using i by simp
  ultimately show ?thesis using int_val[OF fmt_digits, of "nat i"] i by (simp add: fmt_val)
qed

lemma users_field: "of_nat (e_scan_ulong E (e_fmt_ulong E (unat n))) = (n :: u64)"
  using ulong_scan[OF fmt_digits, of "unat n"] unsigned_less[of n, where ?'a = nat] by (simp add: fmt_val)

lemma row_back:
  assumes "vdir_shape v" "length (the_dir w) = MAX_DIR_NAME"
    and "\<forall>i \<in> set ([level_cur v, level_max v] @ level_start v @ level_end v @ level_mod v @ level_index v). 0 \<le> i \<and> i < 2 ^ 31"
  shows "\<exists>d. read_row E (row_nums E v @ [head_str (the_dir v)]) w = Some (v\<lparr>the_dir := d\<rparr>)
    \<and> head_str d = head_str (the_dir v)"
proof -
  obtain s0 s1 s2 where s: "level_start v = [s0, s1, s2]" using assms(1) by (auto simp: vdir_shape_def length_Suc_conv numeral_3_eq_3)
  obtain e0 e1 e2 where e: "level_end v = [e0, e1, e2]" using assms(1) by (auto simp: vdir_shape_def length_Suc_conv numeral_3_eq_3)
  obtain m0 m1 m2 where m: "level_mod v = [m0, m1, m2]" using assms(1) by (auto simp: vdir_shape_def length_Suc_conv numeral_3_eq_3)
  obtain i0 i1 i2 where i: "level_index v = [i0, i1, i2]" using assms(1) by (auto simp: vdir_shape_def length_Suc_conv numeral_3_eq_3)
  let ?t = "head_str (the_dir v)" and ?d = "head_str (the_dir v) @ NUL # drop (length (head_str (the_dir v)) + 1) (the_dir w)"
  have t: "NUL \<notin> set ?t" by (auto simp: head_str_def dest: set_takeWhileD)
  have "length ?t < length (the_dir v)" 
    using head_str_less[of "the_dir v"] assms(1) by (simp only: vdir_shape_def)
  then have c: "e_str_copyb E (the_dir w) ?t MAX_DIR_NAME = ?d"
    using assms(1,2) copyb_cstr[OF t, of MAX_DIR_NAME "the_dir w"] by (simp add: vdir_shape_def)
  have n: "scan_int (e_str E) (e_fmt_ulong E (ulong_of i)) = i"
    if "i \<in> set ([level_cur v, level_max v] @ level_start v @ level_end v @ level_mod v @ level_index v)" for i
    using that assms(3) int_field by blast
  note ns = n[unfolded s e m i, simplified]
  have "read_row E (row_nums E v @ [?t]) w = Some (v\<lparr>the_dir := ?d\<rparr>)"
    using ns by (simp add: read_row_def row_nums_def s e m i users_field c Let_def)
  moreover have "head_str ?d = ?t" by (rule head_str_new[OF t])
  ultimately show ?thesis by blast
qed

end

subsection \<open>Statements are sent again\<close>

text \<open>A server that accepts every statement; the value of type \<open>'d\<close> is the list of the statements sent.\<close>

definition logs :: "string list bd_env \<Rightarrow> bool" where
  "logs E \<longleftrightarrow> (\<forall>d. e_iopen E d = (d, True)) \<and> (\<forall>d q. e_query E d q = (d @ [q], SqlOk))
     \<and> (\<forall>d f t. fst (e_update_file E d f t) = d) \<and> (\<forall>d f. e_chown E d f = d)"

lemma flat_head:
  "NUL \<in> set b \<Longrightarrow> flat_slashes (b @ r) = flat_slashes b @ r" "NUL \<in> set b \<Longrightarrow> NUL \<in> set (flat_slashes b)"
  by (induction b) auto

lemma flat_slashes_idem: "head_str (flat_slashes (flat_slashes b @ r)) = head_str (flat_slashes b)" if "NUL \<in> set b"
  using that by (induction b) (auto simp: head_str_def)

lemma head_sent: "NUL \<in> set b \<Longrightarrow> head_str (b @ s @ [NUL]) = head_str b \<and> NUL \<in> set (b @ s @ [NUL])"
  by (simp add: head_str_first)

lemma note_filesystem_log:
  assumes "logs E" "note_filesystem E own ptr t st = (st', r)"
  shows "s_db st' = s_db st \<and> s_write_sql st' = s_write_sql st \<and> s_read_sql st' = s_read_sql st \<and> s_vdir st' = s_vdir st
    \<and> s_prefix st' = s_prefix st"
proof (cases ptr)
  case (Some dir)
  obtain d b where u: "e_update_file E (s_db st) (dir @ ''/.filesystems'') t = (d, b)" by force
  have "d = s_db st" using assms(1) u by (metis logs_def fst_conv)
  then show ?thesis using assms Some u by (cases b) (auto simp: note_filesystem_def logs_def Let_def)
qed (use assms in \<open>auto simp: note_filesystem_def\<close>)

lemma vwrite_log:
  assumes "logs E" "domain_dir E domain = Some ptr" "vwrite_dir_control E t domain st = (st', r)"
  shows "s_db st' = s_db st @ [head_str (s_write_sql st @ write_sql E t domain (s_vdir st) @ [NUL])]
    \<and> s_write_sql st' = s_write_sql st @ write_sql E t domain (s_vdir st) @ [NUL] \<and> s_read_sql st' = s_read_sql st
    \<and> s_prefix st' = s_prefix st \<and> s_vdir st' = s_vdir st"
proof -
  let ?b = "s_write_sql st @ write_sql E t domain (s_vdir st) @ [NUL]"
  have "note_filesystem E True ptr t (st\<lparr>s_write_sql := ?b, s_db := s_db st @ [head_str ?b]\<rparr>) = (st', r)"
    using assms by (simp add: vwrite_dir_control_def logs_def Let_def)
  from note_filesystem_log[OF assms(1) this] show ?thesis by simp
qed

lemma vread_log:
  assumes "logs E" "vread_dir_control E p domain st = Some (st', r)"
  shows "s_db st' = s_db st @ [head_str (s_read_sql st @ read_sql p domain @ [NUL])]
    \<and> s_read_sql st' = s_read_sql st @ read_sql p domain @ [NUL] \<and> s_write_sql st' = s_write_sql st \<and> s_prefix st' = s_prefix st"
  using assms by (auto simp: vread_dir_control_def logs_def Let_def reset_vdir_def bind_eq_Some_conv split: option.splits)

lemma GetPrefix_used:
  assumes "GetPrefix E st user path = (st', Some p)" "user \<noteq> []"
  shows "s_db st' = s_db st \<and> s_read_sql st' = s_read_sql st \<and> s_write_sql st' = s_write_sql st \<and> p = head_str (s_prefix st')
    \<and> (\<exists>b. NUL \<in> set b \<and> s_prefix st' = flat_slashes b)"
proof -
  obtain f where f: "e_filesystem E (if path \<noteq> [] then path else e_base_path E) = Some f"
    using assms by (auto simp: GetPrefix_def Let_def split: option.splits)
  let ?f = "if str_diffn (e_str E) f ''/'' 2 = 0 then ''root'' else f"
  have "st' = st\<lparr>s_prefix := flat_slashes (s_prefix st @ ?f @ ''_'' @ suffix_of (hd user) @ [NUL])\<rparr>" "p = head_str (s_prefix st')"
    using assms f by (auto simp: GetPrefix_def Let_def)
  moreover have "NUL \<in> set (s_prefix st @ ?f @ ''_'' @ suffix_of (hd user) @ [NUL])" by simp
  ultimately show ?thesis by fastforce
qed

definition used :: "'d bd_st \<Rightarrow> string \<Rightarrow> string \<Rightarrow> bool" where
  "used st R W \<longleftrightarrow> NUL \<in> set (s_read_sql st) \<and> head_str (s_read_sql st) = R
     \<and> NUL \<in> set (s_write_sql st) \<and> head_str (s_write_sql st) = W"

lemma assign_log:
  assumes "logs E" "assign_dir E n user domain path st = Some (st', Some dir)" "e_get_assign E domain \<noteq> None" "user \<noteq> []"
  shows "\<exists>p. s_db st' = s_db st @ [head_str (s_read_sql st @ read_sql p domain @ [NUL]),
      head_str (s_write_sql st @ write_sql E p domain (s_vdir st') @ [NUL])]
    \<and> s_read_sql st' = s_read_sql st @ read_sql p domain @ [NUL]
    \<and> s_write_sql st' = s_write_sql st @ write_sql E p domain (s_vdir st') @ [NUL]"
proof -
  obtain st1 p where op: "open_big_dir E user domain path st = Some (st1, Some p)"
    using assms(2) by (auto simp: assign_dir_def bind_eq_Some_conv split: option.splits)
  obtain v where v: "st' = fst (close_big_dir E p domain (st1\<lparr>s_vdir := v\<rparr>))"
    using assms(2) op by (auto simp: assign_dir_def bind_eq_Some_conv Let_def)
  obtain st0 where g: "GetPrefix E st user path = (st0, Some p)" and rd: "\<exists>r. vread_dir_control E p domain st0 = Some (st1, r)"
    using op by (auto simp: open_big_dir_def bind_eq_Some_conv split: prod.splits option.splits if_splits)
  have d: "\<exists>ptr. domain_dir E domain = Some ptr" using assms(3) by (auto simp: domain_dir_def)
  obtain r where w: "vwrite_dir_control E p domain (st1\<lparr>s_vdir := v\<rparr>) = (st', r)" using v by (metis close_big_dir_def prod.collapse)
  have "s_db st0 = s_db st" "s_read_sql st0 = s_read_sql st" "s_write_sql st0 = s_write_sql st" using GetPrefix_used[OF g assms(4)] by auto
  then show ?thesis using vread_log[OF assms(1)] rd d vwrite_log[OF assms(1) _ w] by (intro exI[of _ p]) fastforce
qed

lemma assign_again:
  assumes "logs E" "assign_dir E n user domain path st = Some (st', Some dir)" "e_get_assign E domain \<noteq> None" "user \<noteq> []" "used st R W"
  shows "s_db st' = s_db st @ [R, W] \<and> used st' R W"
proof -
  obtain p where p: "s_db st' = s_db st @ [head_str (s_read_sql st @ read_sql p domain @ [NUL]),
      head_str (s_write_sql st @ write_sql E p domain (s_vdir st') @ [NUL])]"
    "s_read_sql st' = s_read_sql st @ read_sql p domain @ [NUL]"
    "s_write_sql st' = s_write_sql st @ write_sql E p domain (s_vdir st') @ [NUL]"
    using assign_log[OF assms(1-4)] by blast
  then show ?thesis using assms(5) by (simp add: used_def head_str_first)
qed

lemma assign_first:
  assumes "logs E" "assign_dir E n user domain path st = Some (st', Some dir)" "e_get_assign E domain \<noteq> None" "user \<noteq> []"
    and "s_read_sql st = []" "s_write_sql st = []"
  shows "\<exists>p. let R = head_str (read_sql p domain @ [NUL]); W = head_str (write_sql E p domain (s_vdir st') @ [NUL])
    in s_db st' = s_db st @ [R, W] \<and> used st' R W"
  using assign_log[OF assms(1-4)] assms(5,6) by (auto simp: Let_def used_def)

subsection \<open>A reference environment\<close>

definition log_env :: "string list option option \<Rightarrow> string list bd_env" where
  "log_env row = \<lparr>e_iopen = (\<lambda>d. (d, True)), e_query = (\<lambda>d q. (d @ [q], SqlOk)), e_store_result = (\<lambda>d. row),
     e_create_table = (\<lambda>d t. (d, True)), e_get_assign = (\<lambda>d. Some (''/var/'' @ d)), e_update_file = (\<lambda>d f t. (d, True)),
     e_chown = (\<lambda>d f. d), e_is_root = False, e_first_line = (\<lambda>d f. LineNone), e_remove_line = (\<lambda>d l f. (d, 0)),
     e_getDbLock = (\<lambda>d f. (d, True)), e_delDbLock = (\<lambda>d f. d), e_append = (\<lambda>d f r. (d, AppendOk)),
     e_filesystem = (\<lambda>p. Some ''/home''), e_base_path = ''/home'', e_fmt_ulong = digits 10,
     e_scan_ulong = (\<lambda>s. numval 10 (leading_digits s)), e_str_copyb = (\<lambda>m t n. t @ NUL # drop (length t + 1) m), e_str = qstr_ref\<rparr>"

lemma logs_log_env: "logs (log_env row)"
  by (simp add: logs_def log_env_def)

interpretation log_text: bd_text "log_env row"
proof -
  have q: "e_str (log_env row) = qstr_ref" by (simp add: log_env_def)
  show "bd_text (log_env row)"
    unfolding bd_text_def bd_text_axioms_def q
    using ref_str.qstrings_axioms digits_set[of 10] digits_val[of 10]
    by (auto simp: log_env_def all_digits_def leading_all)
qed

end
