(* ===== verification/Account.thy ===== *)
theory Account
  imports Qstr Crc_Table
begin

text \<open>
  Small parsers of the account code: \<^verbatim>\<open>parse_email.c\<close>, \<^verbatim>\<open>remove_quotes.c\<close>, \<^verbatim>\<open>addressToken.c\<close>,
  \<^verbatim>\<open>isvalid_domain.c\<close>, \<^verbatim>\<open>lowerit.c\<close>, \<^verbatim>\<open>passwd_policy.c\<close> and \<^verbatim>\<open>parse_quota.c\<close>. Strings are without their
  terminator; the classification of characters is that of the C locale.
\<close>

definition isspace :: "char \<Rightarrow> bool" where
  "isspace c \<longleftrightarrow> c = SP \<or> (9 \<le> (of_char c :: nat) \<and> (of_char c :: nat) \<le> 13)"

definition isdigit :: "char \<Rightarrow> bool" where
  "isdigit c \<longleftrightarrow> 48 \<le> (of_char c :: nat) \<and> (of_char c :: nat) \<le> 57"

definition isupper :: "char \<Rightarrow> bool" where
  "isupper c \<longleftrightarrow> 65 \<le> (of_char c :: nat) \<and> (of_char c :: nat) \<le> 90"

definition isalpha :: "char \<Rightarrow> bool" where
  "isalpha c \<longleftrightarrow> isupper c \<or> (97 \<le> (of_char c :: nat) \<and> (of_char c :: nat) \<le> 122)"

definition isalnum :: "char \<Rightarrow> bool" where
  "isalnum c \<longleftrightarrow> isalpha c \<or> isdigit c"

subsection \<open>Addresses\<close>

text \<open>A \<open>stralloc\<close>: the bytes written and the length.\<close>

record stralloc =
  sa_s :: string
  sa_len :: nat

definition sa_copyb :: "string \<Rightarrow> stralloc" where
  "sa_copyb x = \<lparr>sa_s = x, sa_len = length x\<rparr>"

definition sa_0 :: "stralloc \<Rightarrow> stralloc" where
  "sa_0 sa = \<lparr>sa_s = take (sa_len sa) (sa_s sa) @ [NUL], sa_len = sa_len sa + 1\<rparr>"

definition sa_str :: "stralloc \<Rightarrow> string" where
  "sa_str sa = takeWhile (\<lambda>c. c \<noteq> NUL) (sa_s sa)"

definition ATCHARS :: string where
  "ATCHARS = ''@%:''"

definition is_atchar :: "qstr \<Rightarrow> char \<Rightarrow> bool" where
  "is_atchar Q c \<longleftrightarrow> str_chr Q ATCHARS c < length ATCHARS"

definition set_str :: "cenv \<Rightarrow> string \<Rightarrow> stralloc option" where
  "set_str M x = (if mm_ok M ''stralloc'' (length x + 1)
     then (let sa = sa_0 (sa_copyb x) in Some (sa\<lparr>sa_len := sa_len sa - 1\<rparr>)) else None)"

definition clear_str :: "cenv \<Rightarrow> stralloc \<Rightarrow> stralloc option" where
  "clear_str M sa = (if mm_ok M ''stralloc'' (sa_len sa + 1) then Some ((sa_0 sa)\<lparr>sa_len := 0\<rparr>) else None)"

definition parse_email :: "cenv \<Rightarrow> qstr \<Rightarrow> string \<Rightarrow> string \<Rightarrow> stralloc \<Rightarrow> stralloc \<Rightarrow> stralloc \<times> stralloc \<times> int" where
  "parse_email M Q default_domain email user domain =
     (let name = takeWhile (\<lambda>c. \<not> is_atchar Q c) email; rest = dropWhile (\<lambda>c. \<not> is_atchar Q c) email in
      case (if name \<noteq> [] then set_str M name else clear_str M user) of
        None \<Rightarrow> (user, domain, - 1)
      | Some user \<Rightarrow> (case set_str M (if rest \<noteq> [] then tl rest else default_domain) of
          None \<Rightarrow> (user, domain, - 1)
        | Some domain \<Rightarrow> (user, domain, 0)))"

definition remove_quotes :: "string option \<Rightarrow> string option \<times> int" where
  "remove_quotes address = (case address of
     None \<Rightarrow> (None, 1)
   | Some a \<Rightarrow> (case dropWhile isspace a of
       [] \<Rightarrow> (Some a, 1)
     | c # r \<Rightarrow> if c = DQ then (Some (takeWhile (\<lambda>d. d \<noteq> DQ) r), 0) else (Some a, 0)))"

text \<open>\<open>addressToken\<close>: the text from the static index on, the index and the flag that says whether a quoted part
  is being skipped. The result is the token, the new index and the text left. A token that ends with the
  string lets the loop step over the terminator, which is undefined.\<close>

fun token_loop :: "string \<Rightarrow> nat \<Rightarrow> bool \<Rightarrow> (string \<times> nat \<times> string) ub" where
  "token_loop [] n skip = Some ([], n, [])"
| "token_loop (c # cs) n skip =
     (if c = CHR '','' then Some ([], n, c # cs)
      else if isspace c \<or> c = CHR ''<'' \<or> c = CHR ''>'' then token_loop cs (n + 1) skip
      else if \<not> skip \<and> c = DQ then token_loop cs (n + 1) True
      else if \<not> skip then
        (let w = takeWhile (\<lambda>d. d \<noteq> CHR '','' \<and> d \<noteq> DQ) (c # cs); rest = drop (length w) (c # cs)
         in if rest = [] then None else Some (w, n + length w, rest))
      else token_loop cs (n + 1) (c \<noteq> DQ))"

definition addressToken :: "string \<Rightarrow> nat \<Rightarrow> (nat \<times> string option) ub" where
  "addressToken email_list idx = (if length email_list < idx then None
     else (let s = drop idx email_list in
       if s = [] then Some (idx, None)
       else do {
         (email, n, rest) \<leftarrow> token_loop s idx False;
         Some (if rest \<noteq> [] \<and> hd rest = CHR '','' then n + 1 else n, Some email) }))"

definition rewindAddrToken :: nat where
  "rewindAddrToken = 0"

subsection \<open>Names\<close>

definition MAX_PW_DOMAIN :: nat where
  "MAX_PW_DOMAIN = 67"

definition domain_char :: "char \<Rightarrow> bool" where
  "domain_char c \<longleftrightarrow> c = CHR ''-'' \<or> c = CHR ''.'' \<or> isalnum c"

definition isvalid_domain :: "string option \<Rightarrow> int" where
  "isvalid_domain domain = (case domain of
     None \<Rightarrow> 1
   | Some d \<Rightarrow> if list_ex (\<lambda>c. \<not> domain_char c) d then 0 else if length d > MAX_PW_DOMAIN then 0 else 1)"

definition lowerit :: "string \<Rightarrow> string" where
  "lowerit instr = map (\<lambda>c. if isupper c then tolower c else c) instr"

subsection \<open>Passwords\<close>

datatype policy_error = TooShort | WhiteSpace | SameTwice | NotAlphaNumeric | Restricted | Reused

definition get_dict :: "string \<Rightarrow> int" where "get_dict passwd = 0"

definition get_hist :: "string \<Rightarrow> int" where "get_hist passwd = 0"

fun policy_scan :: "string \<Rightarrow> bool \<Rightarrow> bool \<Rightarrow> policy_error + (bool \<times> bool)" where
  "policy_scan [] alpha numeric = Inr (alpha, numeric)"
| "policy_scan (c # cs) alpha numeric =
     (if isspace c then Inl WhiteSpace
      else if cs \<noteq> [] \<and> c = hd cs then Inl SameTwice
      else policy_scan cs (alpha \<or> isalpha c) (numeric \<or> isdigit c))"

definition passwd_policy :: "qstr \<Rightarrow> string \<Rightarrow> policy_error option" where
  "passwd_policy Q passwd = (if str_len Q (passwd @ [NUL]) < 8 then Some TooShort
     else (case policy_scan passwd False False of
         Inl e \<Rightarrow> Some e
       | Inr (alpha, numeric) \<Rightarrow>
           if \<not> alpha \<or> \<not> numeric then Some NotAlphaNumeric
           else if get_dict passwd \<noteq> 0 then Some Restricted
           else if get_hist passwd \<noteq> 0 then Some Reused
           else None))"

subsection \<open>Quotas\<close>

text \<open>\<open>strtoll\<close> of the C library with base 0.\<close>

definition LLONG_MAX :: int where "LLONG_MAX = 2 ^ 63 - 1"

definition LLONG_MIN :: int where "LLONG_MIN = - (2 ^ 63)"

definition digit_in :: "nat \<Rightarrow> char \<Rightarrow> nat option" where
  "digit_in b c = (let d = (if isdigit c then of_char c - 48
       else if isupper c then of_char c - 55 else if isalpha c then of_char c - 87 else 36 :: nat)
     in if d < b then Some d else None)"

fun digits_value :: "nat \<Rightarrow> int \<Rightarrow> string \<Rightarrow> int" where
  "digits_value b acc [] = acc"
| "digits_value b acc (c # cs) = (case digit_in b c of None \<Rightarrow> acc | Some d \<Rightarrow> digits_value b (acc * int b + int d) cs)"

definition unsigned_value :: "string \<Rightarrow> int" where
  "unsigned_value s =
     (if take 1 s = ''0'' \<and> (take 1 (drop 1 s) = ''x'' \<or> take 1 (drop 1 s) = ''X'') \<and> drop 2 s \<noteq> [] \<and> digit_in 16 (hd (drop 2 s)) \<noteq> None
      then digits_value 16 0 (drop 2 s)
      else if take 1 s = ''0'' then digits_value 8 0 s else digits_value 10 0 s)"

definition clamp :: "int \<Rightarrow> int" where
  "clamp n = (if n > LLONG_MAX then LLONG_MAX else if n < LLONG_MIN then LLONG_MIN else n)"

definition strtoll :: "string \<Rightarrow> int" where
  "strtoll s = (case dropWhile isspace s of
     [] \<Rightarrow> 0
   | c # cs \<Rightarrow> clamp (if c = CHR ''-'' then - unsigned_value cs else if c = CHR ''+'' then unsigned_value cs
       else unsigned_value (c # cs)))"

definition is_limit :: "int \<Rightarrow> bool" where
  "is_limit n \<longleftrightarrow> n = LLONG_MIN \<or> n = LLONG_MAX"

fun quota_factor :: "string \<Rightarrow> int" where
  "quota_factor [] = 1"
| "quota_factor (c # cs) =
     (if c = CHR ''k'' \<or> c = CHR ''K'' then 1024
      else if c = CHR ''m'' \<or> c = CHR ''M'' then 1048576
      else if c = CHR ''g'' \<or> c = CHR ''G'' then 1073741824
      else quota_factor cs)"

text \<open>The result and the count that is stored (\<open>None\<close> when the caller passes no place for it). A product
  outside the range of \<open>long long\<close> is undefined.\<close>

definition parse_quota :: "qstr \<Rightarrow> string \<Rightarrow> int option \<Rightarrow> (int \<times> int option) ub" where
  "parse_quota Q quota count = (let i = str_chr Q quota CHR '','';
       size = (if i < length quota then take i quota else quota);
       count = (case count of None \<Rightarrow> None
         | Some _ \<Rightarrow> Some (if i < length quota then strtoll (drop (i + 1) quota) else 0))
     in if i < length quota \<and> count \<noteq> None \<and> is_limit (the count) then Some (- 1, count)
        else if str_diffn Q size ''NOQUOTA'' 8 = 0 then Some (0, count)
        else if is_limit (strtoll size) then Some (- 1, count)
        else (let r = strtoll size * quota_factor quota in
          if LLONG_MIN \<le> r \<and> r \<le> LLONG_MAX then Some (r, count) else None))"

end
