(* ===== verification/Pwstruct.thy ===== *)
theory Pwstruct
  imports Account
begin

text \<open>
  The text form of a password entry: the printer in \<^verbatim>\<open>ProcessInFifo.c\<close> and the parser \<^verbatim>\<open>strToPw.c\<close>, with the
  static variables of the parser. The parser works on a private copy with a colon appended; it writes
  terminators into the copy and reads the fields as strings. Reading past the copy is undefined.
\<close>

unbundle bit_operations_syntax

record passwd =
  pw_name :: string
  pw_passwd :: string
  pw_uid :: u32
  pw_gid :: u32
  pw_gecos :: string
  pw_dir :: string
  pw_shell :: string

record pw_st =
  p_struct :: string
  p_ent :: passwd
  is_overquota :: int
  is_inactive :: int
  userNotFound :: int

definition BOUNCE_MAIL :: u32 where
  "BOUNCE_MAIL = 0x10"

subsection \<open>The parser\<close>

definition cstr_of :: "string \<Rightarrow> string" where
  "cstr_of b = takeWhile (\<lambda>c. c \<noteq> NUL) b"

definition up_to :: "char \<Rightarrow> string \<Rightarrow> string" where
  "up_to c s = takeWhile (\<lambda>d. d \<noteq> c) s"

definition set_field :: "qstr \<Rightarrow> nat \<Rightarrow> string \<Rightarrow> pw_st \<Rightarrow> pw_st" where
  "set_field Q row s st = (let e = p_ent st in
     if row = 0 then st\<lparr>p_ent := e\<lparr>pw_name := up_to CHR ''@'' s\<rparr>\<rparr>
     else if row = 1 then st\<lparr>p_ent := e\<lparr>pw_passwd := s\<rparr>\<rparr>
     else if row = 2 then st\<lparr>p_ent := e\<lparr>pw_uid := of_nat (scan_uint Q s)\<rparr>\<rparr>
     else if row = 3 then (let g = of_nat (scan_uint Q s) in
       st\<lparr>p_ent := e\<lparr>pw_gid := g\<rparr>, is_overquota := (if g AND BOUNCE_MAIL \<noteq> 0 then 1 else is_overquota st)\<rparr>)
     else if row = 4 then st\<lparr>p_ent := e\<lparr>pw_gecos := s\<rparr>\<rparr>
     else if row = 5 then st\<lparr>p_ent := e\<lparr>pw_dir := s\<rparr>\<rparr>
     else if row = 6 then st\<lparr>p_ent := e\<lparr>pw_shell := s\<rparr>\<rparr>
     else if row = 7 then st\<lparr>is_inactive := scan_int Q s\<rparr>
     else st)"

definition scram_mark :: string where
  "scram_mark = ''{SCRAM-SHA-''"

text \<open>The length of the field at the start of a text that holds a colon. A SCRAM password goes on for two more
  colons, looked for from twelve bytes behind its first colon; when the text ends before, the parser runs over
  the terminator.\<close>

definition scram_end :: "string \<Rightarrow> nat ub" where
  "scram_end s = (let i = length (up_to CHR '':'' s) in
     if length s < i + 12 then None
     else (let t = drop (i + 12) s; j = length (up_to CHR '':'' t) in
       if j \<ge> length t then None
       else (let t' = drop (j + 1) t; k = length (up_to CHR '':'' t') in
         if k \<ge> length t' then None else Some (i + 12 + (j + 1) + k))))"

definition field_end :: "qstr \<Rightarrow> nat \<Rightarrow> nat \<Rightarrow> string \<Rightarrow> nat ub" where
  "field_end Q colon_count row s =
     (if colon_count > 8 \<and> row = 1 \<and> str_diffn Q s scram_mark 11 = 0 then scram_end s
      else Some (length (up_to CHR '':'' s)))"

lemma field_end_drop: "field_end Q cc row s = Some i \<Longrightarrow> CHR '':'' \<in> set s \<Longrightarrow> length (drop (i + 1) s) < length s"
  by (cases s) auto

function pw_loop :: "qstr \<Rightarrow> nat \<Rightarrow> nat \<Rightarrow> string \<Rightarrow> pw_st \<Rightarrow> (pw_st \<times> bool) ub" where
  "pw_loop Q colon_count row s st =
     (if CHR '':'' \<notin> set s then Some (st, False)
      else (case field_end Q colon_count row s of
          None \<Rightarrow> None
        | Some i \<Rightarrow> (let st = set_field Q row (take i s) st in
            if row + 1 = 8 then Some (st, True) else pw_loop Q colon_count (row + 1) (drop (i + 1) s) st)))"
  by auto
termination by (relation "measure (\<lambda>(Q, cc, row, s, st). length s)") (auto dest: field_end_drop)

declare pw_loop.simps [simp del]

definition colons :: "string \<Rightarrow> nat" where
  "colons s = length (filter (\<lambda>c. c = CHR '':'') s)"

definition all_set :: "passwd \<Rightarrow> bool" where
  "all_set e \<longleftrightarrow> pw_name e \<noteq> [] \<and> pw_passwd e \<noteq> [] \<and> pw_gecos e \<noteq> [] \<and> pw_dir e \<noteq> [] \<and> pw_shell e \<noteq> []"

definition parse_fresh :: "qstr \<Rightarrow> string \<Rightarrow> string \<Rightarrow> pw_st \<Rightarrow> (pw_st \<times> bool) ub" where
  "parse_fresh Q content s st =
     (let st = st\<lparr>is_overquota := 0, is_inactive := 0, userNotFound := 0, p_struct := content\<rparr> in
      if str_diffn Q s ''No such user'' 12 = 0 then Some (st\<lparr>userNotFound := 1\<rparr>, False)
      else pw_loop Q (colons s) 0 s st)"

text \<open>The argument \<open>len\<close> counts the terminator. The result says whether the entry is returned.\<close>

definition strToPw :: "qstr \<Rightarrow> string \<Rightarrow> nat \<Rightarrow> pw_st \<Rightarrow> (pw_st \<times> bool) ub" where
  "strToPw Q pwbuf len st = (if pwbuf = [] then Some (st, False)
     else (let n = (if str_diffn Q pwbuf ''PWSTRUCT='' 9 = 0 then 9 else 0) in
       if len < n + 1 \<or> length pwbuf + 1 < len - 1 then None
       else (let content = take (len - n - 1) (drop n (pwbuf @ [NUL])); s = cstr_of (content @ '':'') in
         if p_struct st \<noteq> [] \<and> str_diffn Q (cstr_of (p_struct st)) s (len - n) = 0
         then Some (st, all_set (p_ent st))
         else parse_fresh Q content s st)))"

subsection \<open>The printer\<close>

definition pw_text :: "(nat \<Rightarrow> string) \<Rightarrow> (int \<Rightarrow> string) \<Rightarrow> passwd \<Rightarrow> string \<Rightarrow> int \<Rightarrow> string" where
  "pw_text fu fi pw real_domain inactive = ''PWSTRUCT='' @ pw_name pw @ ''@'' @ real_domain @ '':'' @ pw_passwd pw @ '':''
     @ fu (unat (pw_uid pw)) @ '':'' @ fu (unat (pw_gid pw)) @ '':'' @ pw_gecos pw @ '':'' @ pw_dir pw @ '':''
     @ pw_shell pw @ '':'' @ fi inactive"

end
