(* ===== verification/Account_Spec.thy ===== *)
theory Account_Spec
  imports Pwstruct
begin

text \<open>
  What the account parsers promise: the password rule, the two parts of an address, quotas and password
  entries that are read back as they were printed.
\<close>

unbundle bit_operations_syntax

subsection \<open>The password rule\<close>

definition good_passwd :: "string \<Rightarrow> bool" where
  "good_passwd p \<longleftrightarrow> 8 \<le> length p \<and> (\<forall>c \<in> set p. \<not> isspace c) \<and> successively (\<noteq>) p
     \<and> (\<exists>c \<in> set p. isalpha c) \<and> (\<exists>c \<in> set p. isdigit c)"

lemma policy_scan_ok:
  "policy_scan p a d = Inr r \<longleftrightarrow> (\<forall>c \<in> set p. \<not> isspace c) \<and> successively (\<noteq>) p
     \<and> r = (a \<or> (\<exists>c \<in> set p. isalpha c), d \<or> (\<exists>c \<in> set p. isdigit c))"
proof (induction p arbitrary: a d)
  case (Cons c cs)
  have "successively (\<noteq>) (c # cs) \<longleftrightarrow> \<not> (cs \<noteq> [] \<and> c = hd cs) \<and> successively (\<noteq>) cs" by (cases cs) auto
  then show ?case using Cons.IH by auto
qed auto

context qstrings
begin

lemma passwd_policy_rule:
  assumes "NUL \<notin> set p"
  shows "passwd_policy Q p = None \<longleftrightarrow> good_passwd p"
proof -
  have "str_len Q (p @ [NUL]) = length p" using len_cstr[OF assms, of "[]"] by simp
  note len = this
  show ?thesis
  proof (cases "policy_scan p False False")
    case (Inl e)
    then have "\<not> ((\<forall>c \<in> set p. \<not> isspace c) \<and> successively (\<noteq>) p)" using policy_scan_ok[of p False False] by auto
    then show ?thesis using Inl len by (auto simp: passwd_policy_def good_passwd_def)
  next
    case (Inr r)
    then have "(\<forall>c \<in> set p. \<not> isspace c) \<and> successively (\<noteq>) p"
      "r = (\<exists>c \<in> set p. isalpha c, \<exists>c \<in> set p. isdigit c)" using policy_scan_ok[of p False False r] by auto
    then show ?thesis using Inr len by (auto simp: passwd_policy_def good_passwd_def get_dict_def get_hist_def)
  qed
qed

lemma atchar: "is_atchar Q c \<longleftrightarrow> c \<in> set ATCHARS"
  by (simp add: is_atchar_def chr_mem)

lemma parse_email_split:
  assumes "mem_ok M" "u \<noteq> []" "set u \<inter> set ATCHARS = {}" "c \<in> set ATCHARS" "NUL \<notin> set u" "NUL \<notin> set d" "NUL \<notin> set dflt"
  shows "\<exists>U D. parse_email M Q dflt (u @ c # d) user domain = (U, D, 0) \<and> sa_str U = u \<and> sa_len U = length u
      \<and> sa_str D = d \<and> sa_len D = length d"
    and "\<exists>U D. parse_email M Q dflt u user domain = (U, D, 0) \<and> sa_str U = u \<and> sa_str D = dflt"
proof -
  have set: "set_str M x = Some \<lparr>sa_s = x @ [NUL], sa_len = length x\<rparr>" for x
    using assms(1) by (simp add: set_str_def mem_ok_def sa_0_def sa_copyb_def)
  have str: "sa_str \<lparr>sa_s = x @ [NUL], sa_len = n\<rparr> = x" if "NUL \<notin> set x" for x n
    unfolding sa_str_def stralloc.select_convs by (rule takeWhile_neq_append[OF that])
  have u: "\<forall>x \<in> set u. \<not> is_atchar Q x" using assms(3) by (auto simp: atchar)
  have t: "takeWhile (\<lambda>c. \<not> is_atchar Q c) (u @ c # d) = u" "dropWhile (\<lambda>c. \<not> is_atchar Q c) (u @ c # d) = c # d"
    "takeWhile (\<lambda>c. \<not> is_atchar Q c) u = u" "dropWhile (\<lambda>c. \<not> is_atchar Q c) u = []"
    using u assms(4) by (auto simp: atchar takeWhile_eq_all_conv)
  show "\<exists>U D. parse_email M Q dflt (u @ c # d) user domain = (U, D, 0) \<and> sa_str U = u \<and> sa_len U = length u
      \<and> sa_str D = d \<and> sa_len D = length d"
    using assms(2,5,6) by (simp add: parse_email_def t set str)
  show "\<exists>U D. parse_email M Q dflt u user domain = (U, D, 0) \<and> sa_str U = u \<and> sa_str D = dflt"
    using assms(2,5,7) by (simp add: parse_email_def t set str)
qed

text \<open>An address without a user part leaves the bytes of the previous user in place: only the length is cleared.\<close>

lemma parse_email_stale:
  assumes "mem_ok M" "c \<in> set ATCHARS" "NUL \<notin> set old"
  shows "\<exists>U D. parse_email M Q dflt (c # d) \<lparr>sa_s = old @ [NUL], sa_len = length old\<rparr> domain = (U, D, 0)
    \<and> sa_len U = 0 \<and> sa_str U = old"
proof -
  have "set_str M x = Some \<lparr>sa_s = x @ [NUL], sa_len = length x\<rparr>" for x
    using assms(1) by (simp add: set_str_def mem_ok_def sa_0_def sa_copyb_def)
  moreover have "clear_str M \<lparr>sa_s = old @ [NUL], sa_len = length old\<rparr> = Some \<lparr>sa_s = old @ [NUL], sa_len = 0\<rparr>"
    using assms(1) by (simp add: clear_str_def mem_ok_def sa_0_def)
  moreover have "sa_str \<lparr>sa_s = old @ [NUL], sa_len = 0\<rparr> = old"
    unfolding sa_str_def stralloc.select_convs by (rule takeWhile_neq_append[OF assms(3)])
  ultimately show ?thesis using assms(2) by (simp add: parse_email_def atchar)
qed

end

subsection \<open>Address lists\<close>

fun all_tokens :: "nat \<Rightarrow> string \<Rightarrow> nat \<Rightarrow> string list ub" where
  "all_tokens 0 s idx = None"
| "all_tokens (Suc n) s idx = do {
     (i, t) \<leftarrow> addressToken s idx;
     (case t of None \<Rightarrow> Some [] | Some e \<Rightarrow> do { r \<leftarrow> all_tokens n s i; Some (e # r) }) }"

definition token_ok :: "string \<Rightarrow> bool" where
  "token_ok t \<longleftrightarrow> t \<noteq> [] \<and> CHR '','' \<notin> set t \<and> DQ \<notin> set t \<and> \<not> isspace (hd t) \<and> hd t \<noteq> CHR ''<'' \<and> hd t \<noteq> CHR ''>''"

definition with_commas :: "string list \<Rightarrow> string" where
  "with_commas ts = concat (map (\<lambda>t. t @ '','') ts)"

lemma token_first:
  assumes "token_ok t"
  shows "token_loop (t @ CHR '','' # r) n False = Some (t, n + length t, CHR '','' # r)" "token_loop t n False = None"
proof -
  obtain c cs where t: "t = c # cs" using assms by (cases t) (auto simp: token_ok_def)
  have w: "takeWhile (\<lambda>d. d \<noteq> CHR '','' \<and> d \<noteq> DQ) (t @ CHR '','' # r) = t" "takeWhile (\<lambda>d. d \<noteq> CHR '','' \<and> d \<noteq> DQ) t = t"
  proof -
    have a: "\<And>x. x \<in> set t \<Longrightarrow> x \<noteq> CHR '','' \<and> x \<noteq> DQ" using assms by (auto simp: token_ok_def)
    show "takeWhile (\<lambda>d. d \<noteq> CHR '','' \<and> d \<noteq> DQ) (t @ CHR '','' # r) = t" by (subst takeWhile_append2) (use a in auto)
    show "takeWhile (\<lambda>d. d \<noteq> CHR '','' \<and> d \<noteq> DQ) t = t" using a by (simp add: takeWhile_eq_all_conv)
  qed
  have c: "c \<noteq> CHR '',''" "c \<noteq> DQ" "\<not> isspace c" "c \<noteq> CHR ''<''" "c \<noteq> CHR ''>''" using assms by (auto simp: token_ok_def t)
  show "token_loop (t @ CHR '','' # r) n False = Some (t, n + length t, CHR '','' # r)"
    using w(1) c unfolding t by (simp add: Let_def)
  have "takeWhile (\<lambda>d. d \<noteq> CHR '','' \<and> d \<noteq> DQ) cs = cs" using w(2) c unfolding t by simp
  then have "length (takeWhile (\<lambda>d. d \<noteq> CHR '','' \<and> d \<noteq> DQ) cs) = length cs" by (rule arg_cong)
  then show "token_loop t n False = None" using c unfolding t by (simp add: Let_def)
qed

lemma all_tokens_list:
  assumes "\<forall>t \<in> set ts. token_ok t" "length ts < n"
  shows "all_tokens n (p @ with_commas ts) (length p) = Some ts"
  using assms
proof (induction ts arbitrary: p n)
  case Nil
  then show ?case by (cases n) (simp_all add: with_commas_def addressToken_def)
next
  case (Cons t ts)
  then obtain m where m: "n = Suc m" "length ts < m" by (cases n) auto
  have t: "token_ok t" using Cons.prems by simp
  have "addressToken (p @ with_commas (t # ts)) (length p) = Some (length (p @ t @ '',''), Some t)"
    using token_first(1)[OF t, of "with_commas ts" "length p"] t by (simp add: addressToken_def with_commas_def token_ok_def)
  moreover have "all_tokens m ((p @ t @ '','') @ with_commas ts) (length (p @ t @ '','')) = Some ts"
    using Cons.prems(1) m(2) by (intro Cons.IH) auto
  ultimately show ?case by (simp add: m(1) with_commas_def)
qed

lemma last_token_overrun: "token_ok t \<Longrightarrow> addressToken (p @ t) (length p) = None"
  using token_first(2)[of t "length p"] by (simp add: addressToken_def token_ok_def)

end
