(* ===== verification/Quota_Spec.thy ===== *)
theory Quota_Spec
  imports Account_Spec
begin

text \<open>Quotas: the value of a numeral, a limit with a unit, and the form with a size and a count.\<close>

definition numeral10 :: "string \<Rightarrow> bool" where
  "numeral10 s \<longleftrightarrow> all_digits s \<and> hd s \<noteq> CHR ''0''"

lemma digit_table: "list_all (\<lambda>c. digit_in 10 c = Some (digit_val c) \<and> \<not> isspace c \<and> c \<notin> set ''-+kKmMgG,N'') ''0123456789''"
  by code_simp

lemma digit_chars:
  assumes "c \<in> set ''0123456789''"
  shows "digit_in 10 c = Some (digit_val c)" "\<not> isspace c" "c \<noteq> CHR ''-''" "c \<noteq> CHR ''+''"
    "quota_factor (c # cs) = quota_factor cs" "c \<noteq> CHR '',''" "c \<noteq> CHR ''N''"
proof -
  have "digit_in 10 c = Some (digit_val c) \<and> \<not> isspace c \<and> c \<notin> set ''-+kKmMgG,N''"
    using digit_table assms unfolding list_all_iff by blast
  then show "digit_in 10 c = Some (digit_val c)" "\<not> isspace c" "c \<noteq> CHR ''-''" "c \<noteq> CHR ''+''"
    "quota_factor (c # cs) = quota_factor cs" "c \<noteq> CHR '',''" "c \<noteq> CHR ''N''" by auto
qed

definition stops :: "string \<Rightarrow> bool" where
  "stops r \<longleftrightarrow> r = [] \<or> digit_in 10 (hd r) = None"

lemma digits_value_stops: "stops r \<Longrightarrow> digits_value 10 a r = a"
  by (cases r) (auto simp: stops_def)

lemma digits_value_numval:
  "set s \<subseteq> set ''0123456789'' \<Longrightarrow> stops r \<Longrightarrow> digits_value 10 (int a) (s @ r) = int (foldl (\<lambda>n c. 10 * n + digit_val c) a s)"
proof (induction s arbitrary: a)
  case (Cons c cs)
  have c: "digit_in 10 c = Some (digit_val c)" using Cons.prems digit_chars(1)[of c] by simp
  have "digits_value 10 (int (10 * a + digit_val c)) (cs @ r) = int (foldl (\<lambda>n c. 10 * n + digit_val c) (10 * a + digit_val c) cs)"
    using Cons by (intro Cons.IH) auto
  then show ?case using c by (simp add: mult.commute)
qed (simp add: digits_value_stops)

lemma strtoll_numeral:
  assumes "numeral10 s" "stops r" "numval 10 s < 2 ^ 63"
  shows "strtoll (s @ r) = int (numval 10 s)"
proof -
  obtain c cs where s: "s = c # cs" using assms(1) by (cases s) (auto simp: numeral10_def all_digits_def)
  have c: "c \<in> set ''0123456789''" "c \<noteq> CHR ''0''" using assms(1) s by (auto simp: numeral10_def all_digits_def)
  have "unsigned_value (s @ r) = int (numval 10 s)"
    using digits_value_numval[of s r 0] assms(1,2) c(2) by (simp add: unsigned_value_def s numval_def numeral10_def all_digits_def)
  moreover have "clamp (int (numval 10 s)) = int (numval 10 s)"
    using assms(3) by (simp add: clamp_def LLONG_MAX_def LLONG_MIN_def)
  ultimately show ?thesis using digit_chars(2-4)[OF c(1)] s by (simp add: strtoll_def)
qed

lemma numeral_chars: "numeral10 s \<Longrightarrow> quota_factor (s @ r) = quota_factor r \<and> CHR '','' \<notin> set s \<and> NUL \<notin> set s \<and> s \<noteq> []"
proof -
  assume n: "numeral10 s"
  have "quota_factor (s @ r) = quota_factor r" if "set s \<subseteq> set ''0123456789''"
    using that
  proof (induction s)
    case (Cons c cs)
    then show ?case using digit_chars(5)[of c "cs @ r"] by simp
  qed simp
  then show ?thesis using n by (auto simp: numeral10_def all_digits_def)
qed

lemma stops_unit: "c \<notin> set ''0123456789'' \<Longrightarrow> stops (c # r)"
proof -
  assume c: "c \<notin> set ''0123456789''"
  have "isdigit c \<Longrightarrow> c \<in> set ''0123456789''"
  proof -
    assume "isdigit c"
    then have "48 \<le> (of_char c :: nat)" "(of_char c :: nat) \<le> 57" by (simp_all add: isdigit_def)
    then have "(of_char c :: nat) = 48 \<or> (of_char c :: nat) = 49 \<or> (of_char c :: nat) = 50 \<or> (of_char c :: nat) = 51
      \<or> (of_char c :: nat) = 52 \<or> (of_char c :: nat) = 53 \<or> (of_char c :: nat) = 54 \<or> (of_char c :: nat) = 55
      \<or> (of_char c :: nat) = 56 \<or> (of_char c :: nat) = 57" by presburger
    then have "char_of (of_char c :: nat) \<in> set ''0123456789''" by (elim disjE) (simp_all only:, simp_all add: char_of_def bit_0)
    then show ?thesis by simp
  qed
  then have "\<not> isdigit c" using c by blast
  then show ?thesis by (auto simp: stops_def digit_in_def Let_def isupper_def isalpha_def)
qed

context qstrings
begin

lemma not_noquota:
  assumes "numeral10 s" "NUL \<notin> set r"
  shows "str_diffn Q (s @ r) ''NOQUOTA'' 8 \<noteq> 0"
proof -
  obtain c cs where s: "s = c # cs" "c \<in> set ''0123456789''" using assms(1) by (cases s) (auto simp: numeral10_def all_digits_def)
  have n: "NUL \<notin> set (s @ r)" "NUL \<notin> set ''NOQUOTA''" using numeral_chars[OF assms(1)] assms(2) by auto
  show ?thesis using diffn_zero[OF n, of 8] s digit_chars(7)[OF s(2)] by auto
qed

lemma quota_with_count:
  assumes "numeral10 s" "numeral10 t" "numval 10 s < 2 ^ 63 - 1" "numval 10 t < 2 ^ 63 - 1"
  shows "parse_quota Q (s @ ''S,'' @ t @ ''C'') (Some c) = Some (int (numval 10 s), Some (int (numval 10 t)))"
proof -
  let ?q = "s @ ''S,'' @ t @ ''C''"
  have q: "?q = (s @ ''S'') @ CHR '','' # t @ ''C''" by simp
  have "CHR '','' \<notin> set (s @ ''S'')" using numeral_chars[OF assms(1)] by simp
  then have i: "str_chr Q ?q CHR '','' = length s + 1" using chr_first[of "CHR '',''" "s @ ''S''" "t @ ''C''"] unfolding q by simp
  have n: "strtoll (s @ ''S'') = int (numval 10 s)" "strtoll (t @ ''C'') = int (numval 10 t)"
    using strtoll_numeral[OF assms(1), of "''S''"] strtoll_numeral[OF assms(2), of "''C''"] stops_unit assms(3,4) by auto
  have l: "\<not> is_limit (int (numval 10 s))" "\<not> is_limit (int (numval 10 t))"
    using assms(3,4) by (auto simp: is_limit_def LLONG_MAX_def LLONG_MIN_def)
  have f: "quota_factor ?q = 1"
    using numeral_chars[OF assms(1), of "''S,'' @ t @ ''C''"] numeral_chars[OF assms(2), of "''C''"] by simp
  have r: "LLONG_MIN \<le> int (numval 10 s)" "int (numval 10 s) \<le> LLONG_MAX" using assms(3) by (simp_all add: LLONG_MAX_def LLONG_MIN_def)
  show ?thesis unfolding parse_quota_def i
    using n l f r not_noquota[OF assms(1), of "''S''"] by (simp add: Let_def)
qed

lemma quota_unit:
  assumes "numeral10 s" "numval 10 s < 2 ^ 63 - 1" "u \<in> set ''kKmMgG''"
  shows "parse_quota Q (s @ [u]) None = (if int (numval 10 s) * quota_factor [u] \<le> LLONG_MAX
     then Some (int (numval 10 s) * quota_factor [u], None) else None)"
proof -
  have "CHR '','' \<notin> set (s @ [u])" using numeral_chars[OF assms(1)] assms(3) by auto
  then have i: "str_chr Q (s @ [u]) CHR '','' = length (s @ [u])" by (rule chr_none)
  have u: "u \<notin> set ''0123456789''" "NUL \<notin> set [u]" using assms(3) by auto
  have n: "strtoll (s @ [u]) = int (numval 10 s)" using strtoll_numeral[OF assms(1) stops_unit[OF u(1)]] assms(2) by simp
  have l: "\<not> is_limit (int (numval 10 s))" using assms(2) by (auto simp: is_limit_def LLONG_MAX_def LLONG_MIN_def)
  have f: "quota_factor (s @ [u]) = quota_factor [u]" using numeral_chars[OF assms(1)] by blast
  have "0 \<le> quota_factor [u]" by simp
  then have r: "LLONG_MIN \<le> int (numval 10 s) * quota_factor [u]"
    by (metis LLONG_MIN_def mult_nonneg_nonneg neg_le_0_iff_le of_nat_0_le_iff order_trans zero_le_numeral zero_le_power)
  show ?thesis unfolding parse_quota_def i
    using n l f r not_noquota[OF assms(1) u(2)] by (simp add: Let_def)
qed

end

end
