(* ===== verification/Pwstruct_Spec.thy ===== *)
theory Pwstruct_Spec
  imports Pwstruct Account_Spec
begin

text \<open>A password entry that the lookup service prints is read back by the parser, also with a SCRAM password
  that holds two colons.\<close>

unbundle bit_operations_syntax

abbreviation COLON :: char where "COLON \<equiv> CHR '':''"

definition clean :: "string \<Rightarrow> bool" where
  "clean s \<longleftrightarrow> COLON \<notin> set s \<and> NUL \<notin> set s"

definition scram_passwd :: "string \<Rightarrow> bool" where
  "scram_passwd p \<longleftrightarrow> (\<exists>a h c. p = (scram_mark @ a) @ COLON # h @ COLON # c \<and> clean a \<and> clean h \<and> clean c \<and> 11 \<le> length h)"

definition entry_clean :: "passwd \<Rightarrow> bool" where
  "entry_clean pw \<longleftrightarrow> clean (pw_name pw) \<and> CHR ''@'' \<notin> set (pw_name pw) \<and> SP \<notin> set (pw_name pw) \<and> (clean (pw_passwd pw) \<or> scram_passwd (pw_passwd pw))
     \<and> clean (pw_gecos pw) \<and> clean (pw_dir pw) \<and> clean (pw_shell pw)"

definition fits_fmt :: "(nat \<Rightarrow> string) \<Rightarrow> (int \<Rightarrow> string) \<Rightarrow> int \<Rightarrow> bool" where
  "fits_fmt fu fi n \<longleftrightarrow> (\<forall>k. all_digits (fu k) \<and> numval 10 (fu k) = k) \<and> all_digits (fi n) \<and> 0 \<le> n \<and> numval 10 (fi n) = nat n \<and> n < 2 ^ 31"

lemma up_to_first: "c \<notin> set a \<Longrightarrow> up_to c (a @ c # r) = a" "c \<notin> set a \<Longrightarrow> up_to c a = a"
  unfolding up_to_def by (rule takeWhile_neq_append takeWhile_neq_id, assumption)+

lemma pw_step:
  assumes "field_end Q cc row (f @ COLON # r) = Some (length f)"
  shows "pw_loop Q cc row (f @ COLON # r) st = (if row = 7 then Some (set_field Q row f st, True)
    else pw_loop Q cc (row + 1) r (set_field Q row f st))"
  using assms pw_loop.simps[of Q cc row "f @ COLON # r" st] by (simp add: Let_def)

lemma field_end_plain:
  assumes "COLON \<notin> set f" "row \<noteq> 1 \<or> cc \<le> 8"
  shows "field_end Q cc row (f @ COLON # r) = Some (length f)"
  using assms up_to_first(1)[OF assms(1), of r] by (auto simp: field_end_def)

lemma scram_end_ok:
  assumes "COLON \<notin> set a" "COLON \<notin> set h" "COLON \<notin> set c" "11 \<le> length h"
  shows "scram_end ((a @ COLON # h @ COLON # c) @ COLON # r) = Some (length (a @ COLON # h @ COLON # c))"
proof -
  let ?s = "(a @ COLON # h @ COLON # c) @ COLON # r"
  have i: "up_to COLON ?s = a" using up_to_first(1)[OF assms(1), of "h @ COLON # c @ COLON # r"] by simp
  have t: "drop (length a + 12) ?s = drop 11 h @ COLON # c @ COLON # r" using assms(4) by simp
  have j: "up_to COLON (drop 11 h @ COLON # c @ COLON # r) = drop 11 h"
    using assms(2) by (intro up_to_first(1)) (auto dest: in_set_dropD)
  have k: "up_to COLON (c @ COLON # r) = c" by (rule up_to_first(1)[OF assms(3)])
  show ?thesis unfolding scram_end_def i Let_def t j using assms(4) k by simp
qed

lemma colons_append [simp]: "colons (a @ b) = colons a + colons b" "colons [] = 0" "colons (c # s) = (if c = COLON then 1 else 0) + colons s"
  by (simp_all add: colons_def)

lemma colons_clean: "clean s \<Longrightarrow> colons s = 0"
  by (auto simp: colons_def clean_def filter_empty_conv)

context qstrings
begin

lemma field_end_passwd:
  assumes "clean p \<and> cc \<le> 8 \<or> scram_passwd p \<and> 8 < cc" "NUL \<notin> set r"
  shows "field_end Q cc 1 (p @ COLON # r) = Some (length p)"
  using assms(1)
proof
  assume "clean p \<and> cc \<le> 8"
  then show ?thesis by (intro field_end_plain) (auto simp: clean_def)
next
  assume p: "scram_passwd p \<and> 8 < cc"
  then obtain a h c where s: "p = (scram_mark @ a) @ COLON # h @ COLON # c" "clean a" "clean h" "clean c" "11 \<le> length h"
    by (auto simp: scram_passwd_def)
  have m: "COLON \<notin> set scram_mark" "NUL \<notin> set scram_mark" "length scram_mark = 11" by (simp_all add: scram_mark_def)
  have "str_diffn Q (p @ COLON # r) scram_mark 11 = 0"
    using diffn_zero[of "p @ COLON # r" scram_mark 11] s m assms(2) by (simp add: clean_def)
  moreover have "scram_end (p @ COLON # r) = Some (length p)"
    unfolding s(1) using s m by (intro scram_end_ok) (auto simp: clean_def)
  ultimately show ?thesis using p by (simp add: field_end_def)
qed

lemma pw_loop_text:
  assumes "\<And>f. f \<in> set [f0, f2, f3, f4, f5, f6, f7] \<Longrightarrow> clean f" "clean p \<and> cc \<le> 8 \<or> scram_passwd p \<and> 8 < cc"
  shows "pw_loop Q cc 0 (f0 @ COLON # p @ COLON # f2 @ COLON # f3 @ COLON # f4 @ COLON # f5 @ COLON # f6 @ COLON # f7 @ COLON # []) st
    = Some (set_field Q 7 f7 (set_field Q 6 f6 (set_field Q 5 f5 (set_field Q 4 f4 (set_field Q 3 f3 (set_field Q 2 f2
        (set_field Q 1 p (set_field Q 0 f0 st))))))), True)"
proof -
  have c: "COLON \<notin> set f" "NUL \<notin> set f" if "f \<in> set [f0, f2, f3, f4, f5, f6, f7]" for f using assms(1)[OF that] by (simp_all add: clean_def)
  have e: "field_end Q cc row (f @ COLON # r) = Some (length f)" if "f \<in> set [f0, f2, f3, f4, f5, f6, f7]" "row \<noteq> 1" for f row r
    using field_end_plain c(1)[OF that(1)] that(2) by blast
  have p: "field_end Q cc 1 (p @ COLON # f2 @ COLON # f3 @ COLON # f4 @ COLON # f5 @ COLON # f6 @ COLON # f7 @ COLON # []) = Some (length p)"
    using c(2) by (intro field_end_passwd[OF assms(2)]) auto
  show ?thesis using e pw_step[OF p] by (simp add: pw_step eval_nat_numeral)
qed

lemma set_fields:
  assumes "CHR ''@'' \<notin> set (pw_name pw)"
    and "scan_uint Q f2 = unat (pw_uid pw)" "scan_uint Q f3 = unat (pw_gid pw)" "scan_int Q f7 = inact"
  shows "set_field Q 7 f7 (set_field Q 6 (pw_shell pw) (set_field Q 5 (pw_dir pw) (set_field Q 4 (pw_gecos pw) (set_field Q 3 f3
      (set_field Q 2 f2 (set_field Q 1 (pw_passwd pw) (set_field Q 0 (pw_name pw @ CHR ''@'' # domn) st)))))))
    = st\<lparr>p_ent := pw, is_overquota := (if pw_gid pw AND BOUNCE_MAIL \<noteq> 0 then 1 else is_overquota st), is_inactive := inact\<rparr>"
  using assms up_to_first(1)[OF assms(1), of domn] by (simp add: set_field_def Let_def)

lemma all_digits_clean: "all_digits s \<Longrightarrow> clean s"
  by (auto simp: all_digits_def clean_def)

lemma diffn_prefix:
  assumes "NUL \<notin> set b" "NUL \<notin> set y" "str_diffn Q b y (length y) = 0"
  shows "\<exists>x. b = y @ x"
proof -
  have eq: "take (length y) (b @ [NUL]) = y" using diffn_zero[OF assms(1,2), of "length y"] assms(3) by simp
  have "length y \<le> length b"
  proof (rule ccontr)
    assume "\<not> length y \<le> length b"
    then have "y = b @ [NUL]" using eq by (cases "length y - length b") auto
    then show False using assms(2) by simp
  qed
  then have "take (length y) b = y" using eq by simp
  then have "b = y @ drop (length y) b" by (metis append_take_drop_id)
  then show ?thesis ..
qed

lemma strToPw_back:
  assumes "entry_clean pw" "clean domn" "fits_fmt fu fi n"
    and "t = pw_text fu fi pw domn n" "\<forall>x. cstr_of (p_struct st) \<noteq> drop 9 t @ COLON # x"
  shows "\<exists>st'. strToPw Q t (length t + 1) st = Some (st', True) \<and> p_ent st' = pw \<and> is_inactive st' = n
    \<and> is_overquota st' = (if pw_gid pw AND BOUNCE_MAIL \<noteq> 0 then 1 else 0) \<and> userNotFound st' = 0 \<and> p_struct st' = drop 9 t"
proof -
  let ?u = "fu (unat (pw_uid pw))" and ?g = "fu (unat (pw_gid pw))" and ?n = "pw_name pw @ CHR ''@'' # domn"
  define c where "c = ?n @ COLON # pw_passwd pw @ COLON # ?u @ COLON # ?g @ COLON # pw_gecos pw @ COLON # pw_dir pw @ COLON # pw_shell pw @ COLON # fi n"
  have t: "t = ''PWSTRUCT='' @ c" by (simp add: assms(4) pw_text_def c_def)
  have "clean ?n" using assms(1,2) by (simp add: entry_clean_def clean_def)
  moreover have "clean ?u" "clean ?g" "clean (fi n)" using assms(3) all_digits_clean by (simp_all add: fits_fmt_def)
  moreover have "clean (pw_gecos pw)" "clean (pw_dir pw)" "clean (pw_shell pw)" using assms(1) by (simp_all add: entry_clean_def)
  ultimately have cl: "clean f" if "f \<in> set [?n, ?u, ?g, pw_gecos pw, pw_dir pw, pw_shell pw, fi n]" for f
    using that by (simp only: set_simps insert_iff empty_iff) blast
  have pn: "NUL \<notin> set (pw_passwd pw)" using assms(1) by (auto simp: entry_clean_def clean_def scram_passwd_def scram_mark_def)
  have "NUL \<notin> set f" if "f \<in> set [?n, ?u, ?g, pw_gecos pw, pw_dir pw, pw_shell pw, fi n]" for f
    using cl[OF that] by (simp add: clean_def)
  moreover have "NUL \<notin> set (pw_name pw)" "NUL \<notin> set domn" using assms(1,2) by (simp_all add: entry_clean_def clean_def)
  ultimately have nul: "NUL \<notin> set c" using pn by (simp add: c_def)
  have pre: "str_diffn Q t ''PWSTRUCT='' 9 = 0"
    using diffn_zero[of t "''PWSTRUCT=''" 9] nul unfolding t by simp
  have s: "cstr_of (c @ '':'') = c @ '':''" unfolding cstr_of_def using nul by (intro takeWhile_neq_id) simp
  have cs: "NUL \<notin> set (cstr_of (p_struct st))" by (auto simp: cstr_of_def dest: set_takeWhileD)
  have content: "take (length t + 1 - 9 - 1) (drop 9 (t @ [NUL])) = c" by (simp add: t)
  have miss: "str_diffn Q (cstr_of (p_struct st)) (c @ '':'') (length t + 1 - 9) \<noteq> 0"
  proof
    assume "str_diffn Q (cstr_of (p_struct st)) (c @ '':'') (length t + 1 - 9) = 0"
    moreover have "length t + 1 - 9 = length (c @ '':'')" by (simp add: t)
    ultimately obtain x where "cstr_of (p_struct st) = (c @ '':'') @ x"
      using diffn_prefix[OF cs, of "c @ '':''"] nul by auto
    then show False using assms(5) by (simp add: t)
  qed
  have nosuch: "str_diffn Q (c @ '':'') ''No such user'' 12 \<noteq> 0"
  proof
    assume "str_diffn Q (c @ '':'') ''No such user'' 12 = 0"
    then have "take 12 ((c @ '':'') @ [NUL]) = take 12 (''No such user'' @ [NUL])" using diffn_zero[of "c @ '':''" "''No such user''" 12] nul by simp
    then have eq: "take 3 (take 12 ((c @ '':'') @ [NUL])) = ''No ''" by simp
    have "length (pw_name pw) = 0 \<or> length (pw_name pw) = 1 \<or> length (pw_name pw) = 2 \<or> 3 \<le> length (pw_name pw)" by presburger
    then show False using eq assms(1)
      by (auto simp: c_def entry_clean_def length_Suc_conv numeral_2_eq_2 numeral_3_eq_3 Suc_le_length_iff)
  qed
  have z: "colons (pw_name pw) = 0" "colons domn = 0" "colons (pw_gecos pw) = 0" "colons (pw_dir pw) = 0" "colons (pw_shell pw) = 0"
    using assms(1,2) colons_clean by (simp_all add: entry_clean_def)
  have z': "colons ?u = 0" "colons ?g = 0" "colons (fi n) = 0" using colons_clean cl by simp_all
  have n8: "colons (c @ '':'') = 8 + colons (pw_passwd pw)" by (simp add: c_def z z')
  have "clean (pw_passwd pw) \<or> scram_passwd (pw_passwd pw)" using assms(1) by (simp add: entry_clean_def)
  then have cc: "clean (pw_passwd pw) \<and> colons (c @ '':'') \<le> 8 \<or> scram_passwd (pw_passwd pw) \<and> 8 < colons (c @ '':'')"
    unfolding n8 by (auto simp: colons_clean scram_passwd_def)
  have u: "scan_uint Q ?u = unat (pw_uid pw)" "scan_uint Q ?g = unat (pw_gid pw)" "scan_int Q (fi n) = n"
    using assms(3) uint_val[of ?u] uint_val[of ?g] int_val[of "fi n"] unsigned_less[of "pw_uid pw", where ?'a = nat] unsigned_less[of "pw_gid pw", where ?'a = nat]
    by (auto simp: fits_fmt_def)
  have at: "CHR ''@'' \<notin> set (pw_name pw)" using assms(1) by (simp add: entry_clean_def)
  have "pw_loop Q (colons (c @ '':'')) 0 (c @ '':'') st0 = Some (st0\<lparr>p_ent := pw,
      is_overquota := (if pw_gid pw AND BOUNCE_MAIL \<noteq> 0 then 1 else is_overquota st0), is_inactive := n\<rparr>, True)" for st0
    using pw_loop_text[of ?n ?u ?g "pw_gecos pw" "pw_dir pw" "pw_shell pw" "fi n", OF cl cc, where st = st0]
      set_fields[OF at u, where domn = domn and st = st0] by (simp add: c_def)
  then show ?thesis using pre content s miss nosuch
    by (simp add: strToPw_def parse_fresh_def t Let_def)
qed

end

end
