(* ===== verification/Account_Samples.thy ===== *)
theory Account_Samples
  imports Bigdir_Store_Spec Quota_Spec Pwstruct_Spec
begin

text \<open>Concrete password entries and a server on which the properties are applied.\<close>

definition sample_pw :: passwd where
  "sample_pw = \<lparr>pw_name = ''bob'', pw_passwd = (scram_mark @ ''1}4096,salt'') @ COLON # ''0123456789abcdef'' @ COLON # ''xyz'',
     pw_uid = 555, pw_gid = 16, pw_gecos = ''Bob'', pw_dir = ''/home/bob'', pw_shell = ''NOQUOTA''\<rparr>"

lemma sample_pw_clean: "entry_clean sample_pw"
proof -
  have "scram_passwd (pw_passwd sample_pw)" unfolding scram_passwd_def sample_pw_def passwd.select_convs
    by (intro exI conjI, rule refl) (simp_all add: clean_def)
  then show ?thesis by (simp add: entry_clean_def sample_pw_def clean_def)
qed

definition new_pw_st :: pw_st where
  "new_pw_st = \<lparr>p_struct = [], p_ent = sample_pw\<lparr>pw_name := []\<rparr>, is_overquota = 0, is_inactive = 0, userNotFound = 0\<rparr>"

lemma ref_fmt: "0 \<le> n \<Longrightarrow> n < 2 ^ 31 \<Longrightarrow> fits_fmt (digits 10) (\<lambda>i. digits 10 (nat i)) n"
  using digits_set[of 10] digits_val[of 10] by (auto simp: fits_fmt_def all_digits_def)

definition sample_bd_st :: "string list bd_st" where
  "sample_bd_st = \<lparr>s_db = [], s_vdir = \<lparr>level_cur = 0, level_max = 0, level_start = [], level_end = [], level_mod = [], level_index = [],
     cur_users = 0, the_dir = ''ab''\<rparr>, s_prefix = [], s_read_sql = [], s_write_sql = [], s_create_sql = []\<rparr>"

lemma sample_step:
  assumes "the_dir (s_vdir st) = y # x" "u \<noteq> []" "d \<noteq> []"
  shows "\<exists>st1. assign_dir (log_env (Some None)) 0 u d ''/home'' st = Some (st1, Some []) \<and> the_dir (s_vdir st1) = NUL # x"
proof -
  let ?E = "log_env (Some None)"
  obtain st0 p where g: "GetPrefix ?E st u ''/home'' = (st0, Some p)" "s_vdir st0 = s_vdir st"
    using assms(2) by (simp add: GetPrefix_def log_env_def Let_def)
  obtain v where v: "init_dir_control (s_vdir st) = Some v" "the_dir v = NUL # x" "cur_users v = 0"
    using assms(1) by (simp add: init_dir_control_def aput_def)
  obtain st1 where rd: "vread_dir_control ?E p d st0 = Some (st1, 0)" "s_vdir st1 = v"
    using g(2) v(1) by (simp add: vread_dir_control_def log_env_def reset_vdir_def Let_def)
  have nx: "next_big_dir (e_str ?E) 0 v = Some (v\<lparr>cur_users := 1\<rparr>, [])"
    using v by (simp add: next_big_dir_def inc_dir_control_def users_per_level_def MAX_USERS_PER_LEVEL_def Let_def cstr_at_def)
  have cl: "s_vdir (fst (close_big_dir ?E p d (st1\<lparr>s_vdir := v\<lparr>cur_users := 1\<rparr>\<rparr>))) = v\<lparr>cur_users := 1\<rparr>"
    using assms(3) by (simp add: close_big_dir_def vwrite_dir_control_def note_filesystem_def domain_dir_def log_env_def Let_def)
  show ?thesis using g rd nx cl v(2) by (simp add: assign_dir_def open_big_dir_def Let_def)
qed

lemma sample_assign:
  "\<exists>st1 st2. assign_dir (log_env (Some None)) 0 ''ann'' ''a.org'' ''/home'' sample_bd_st = Some (st1, Some [])
    \<and> assign_dir (log_env (Some None)) 0 ''tom'' ''b.org'' ''/home'' st1 = Some (st2, Some [])"
proof -
  obtain st1 where 1: "assign_dir (log_env (Some None)) 0 ''ann'' ''a.org'' ''/home'' sample_bd_st = Some (st1, Some [])"
    "the_dir (s_vdir st1) = NUL # ''b''" using sample_step[of sample_bd_st "CHR ''a''" "''b''" "''ann''" "''a.org''"] by (auto simp: sample_bd_st_def)
  then show ?thesis using sample_step[OF 1(2), of "''tom''" "''b.org''"] by auto
qed

end
