(* ===== verification/Vfilter_Headers.thy ===== *)
theory Vfilter_Headers
  imports Account_Spec Eps_Address Eps_Mime
begin

text \<open>
  The headers of a message as the filter program keeps them: \<^verbatim>\<open>parseAddress.c\<close>, \<^verbatim>\<open>storeHeader.c\<close>, the list of
  header names in \<^verbatim>\<open>vfilter_header.c\<close>, and the tables of \<^verbatim>\<open>variables.c\<close>.

  The comparison functions of libqmail that ignore case are the record \<open>qcase\<close> with the contract \<open>caseless\<close>.
  Running out of memory, which ends the process, and messages are left out.
\<close>

record qcase =
  case_diffb :: "string \<Rightarrow> nat \<Rightarrow> string \<Rightarrow> int"
  case_diffs :: "string \<Rightarrow> string \<Rightarrow> int"

text \<open>\<open>case_diffb\<close> compares a number of bytes and stops at the first difference: two strings (without their
  terminators) that agree on fewer bytes differ at a terminator.\<close>

locale caseless =
  fixes C :: qcase
  assumes diffb_zero: "NUL \<notin> set s \<Longrightarrow> NUL \<notin> set t \<Longrightarrow> n \<le> length s + 1 \<or> n \<le> length t + 1 \<Longrightarrow>
      case_diffb C s n t = 0 \<longleftrightarrow> strncaseeq (s @ [NUL]) (t @ [NUL]) n"
    and diffs_zero: "case_diffs C s t = 0 \<longleftrightarrow> strcaseeq s t"

definition qcase_ref :: qcase where
  "qcase_ref = \<lparr>case_diffb = (\<lambda>s n t. if strncaseeq (s @ [NUL]) (t @ [NUL]) n then 0 else 1),
     case_diffs = (\<lambda>s t. if strcaseeq s t then 0 else 1)\<rparr>"

interpretation ref_case: caseless qcase_ref
  by unfold_locales (simp_all add: qcase_ref_def)

definition i_headers :: "string list" where
  "i_headers = [''To'', ''Return-Path'', ''Delivered-To'', ''Cc'', ''Bcc'', ''Reply-To'', ''From'', ''Sender'', ''Reply-To'',
     ''Errors-To'', ''Disposition-Notification-To'']"

subsection \<open>Addresses\<close>

definition sa_text :: "string \<Rightarrow> stralloc" where
  "sa_text x = \<lparr>sa_s = x @ [NUL], sa_len = length x\<rparr>"

text \<open>One turn of the loop of \<open>parseAddress\<close>: the address, whether another one follows, the buffer.\<close>

definition addr_piece :: "address_t \<Rightarrow> bool \<Rightarrow> stralloc \<Rightarrow> stralloc" where
  "addr_piece a follows buf = (case user a of
     None \<Rightarrow> buf
   | Some u \<Rightarrow> (case domain a of
       None \<Rightarrow> sa_text (u @ (if follows then '','' else []))
     | Some d \<Rightarrow> if d \<noteq> [] then sa_text (u @ ''@'' @ d @ (if follows then '','' else []))
         else sa_text (u @ (if follows then '','' else []))))"

fun addr_loop :: "address_t list \<Rightarrow> stralloc \<Rightarrow> stralloc" where
  "addr_loop [] buf = buf"
| "addr_loop (a # as) buf = addr_loop as (addr_piece a (as \<noteq> []) buf)"

definition parseAddress :: "cenv \<Rightarrow> string \<Rightarrow> stralloc \<Rightarrow> stralloc ub" where
  "parseAddress M data addr_buf = do {
     g \<leftarrow> address_evaluate M data;
     (let buf = addr_buf\<lparr>sa_len := 0\<rparr> in
      case g of None \<Rightarrow> Some buf | Some g \<Rightarrow> Some (addr_loop (members g) buf)) }"

subsection \<open>The table of headers\<close>

record header =
  h_name :: string
  h_data :: "string list"

text \<open>The table (null before the first header) and the static buffer for addresses. The static counter is the
  length of the table.\<close>

record sh_st =
  sh_hptr :: "header list option"
  sh_tmp :: stralloc

text \<open>The value that is stored: at most \<open>len\<close> bytes of a buffer. Without a terminator among them the copy is
  no string; reading it, which the program does for every value, is undefined.\<close>

definition copied :: "stralloc \<Rightarrow> string ub" where
  "copied sa = (let b = take (sa_len sa + 1) (sa_s sa) in if NUL \<in> set b then Some (takeWhile (\<lambda>c. c \<noteq> NUL) b) else None)"

definition header_value :: "cenv \<Rightarrow> qcase \<Rightarrow> string \<Rightarrow> string \<Rightarrow> bool \<Rightarrow> stralloc \<Rightarrow> (stralloc \<times> string option) ub" where
  "header_value M C n d strict tmp =
     (if list_ex (\<lambda>x. case_diffs C x n = 0) i_headers then do {
        tmp \<leftarrow> parseAddress M d tmp;
        (if strict \<and> sa_len tmp = 0 then Some (tmp, None)
         else do { v \<leftarrow> copied tmp; Some (tmp, Some v) }) }
      else Some (tmp, Some d))"

fun name_index :: "qcase \<Rightarrow> string \<Rightarrow> header list \<Rightarrow> nat option" where
  "name_index C n [] = None"
| "name_index C n (h # hs) = (if case_diffs C (h_name h) n = 0 then Some 0 else map_option Suc (name_index C n hs))"

text \<open>After a result of 1 the caller ends the program, so the unfinished first entry is left out.\<close>

definition storeHeader :: "cenv \<Rightarrow> qcase \<Rightarrow> header_t \<Rightarrow> sh_st \<Rightarrow> (sh_st \<times> int) ub" where
  "storeHeader M C h st = do {
     n \<leftarrow> hname h;
     d \<leftarrow> hdata h;
     (if d = [] then Some (st, 0)
      else (case sh_hptr st of
          None \<Rightarrow> do {
            (tmp, v) \<leftarrow> header_value M C n d True (sh_tmp st);
            (case v of None \<Rightarrow> Some (st\<lparr>sh_tmp := tmp\<rparr>, 1)
             | Some v \<Rightarrow> Some (\<lparr>sh_hptr = Some [\<lparr>h_name = n, h_data = [v]\<rparr>], sh_tmp = tmp\<rparr>, 0)) }
        | Some hs \<Rightarrow> (case name_index C n hs of
            Some i \<Rightarrow> do {
              (tmp, v) \<leftarrow> header_value M C n d True (sh_tmp st);
              (case v of None \<Rightarrow> Some (st\<lparr>sh_tmp := tmp\<rparr>, 1)
               | Some v \<Rightarrow> Some (\<lparr>sh_hptr = Some (hs[i := (hs ! i)\<lparr>h_data := h_data (hs ! i) @ [v]\<rparr>]), sh_tmp = tmp\<rparr>, 0)) }
          | None \<Rightarrow> do {
              (tmp, v) \<leftarrow> header_value M C n d False (sh_tmp st);
              v \<leftarrow> v;
              Some (\<lparr>sh_hptr = Some (hs @ [\<lparr>h_name = n, h_data = [v]\<rparr>]), sh_tmp = tmp\<rparr>, 0) }))) }"

subsection \<open>The names a rule can refer to\<close>

definition headerNumber :: "qstr \<Rightarrow> string list \<Rightarrow> string \<Rightarrow> int" where
  "headerNumber Q hlist headerName = (case find (\<lambda>i. str_diffn Q headerName (hlist ! i) (str_len Q (headerName @ [NUL]) + 1) = 0) [0..<length hlist] of
     None \<Rightarrow> - 1 | Some i \<Rightarrow> int i)"

text \<open>A line in its buffer: writing a line leaves the bytes behind it. \<open>cut_line\<close> ends the string at a number
  sign.\<close>

definition over :: "string \<Rightarrow> string \<Rightarrow> string" where
  "over l buf = l @ drop (length l) buf"

definition cut_line :: "qstr \<Rightarrow> string \<Rightarrow> string ub" where
  "cut_line Q buf = do {
     s \<leftarrow> cstr_at buf 0;
     (let i = str_chr Q s CHR ''#'' in Some (if i < length s then buf[i := NUL] else buf)) }"

fun count_names :: "qstr \<Rightarrow> getln_event list \<Rightarrow> string \<Rightarrow> nat \<Rightarrow> ((nat \<times> string) option) ub" where
  "count_names Q [] buf n = Some (Some (n, buf))"
| "count_names Q (GlErr # es) buf n = Some None"
| "count_names Q (GlLine l match # es) buf n =
     (if l = [] then Some (Some (n, over l buf))
      else if match \<and> butlast l = [] then count_names Q es (over l buf) n
      else do {
        buf \<leftarrow> cut_line Q (over ((if match then butlast l else l) @ [NUL]) buf);
        s \<leftarrow> cstr_at buf 0;
        count_names Q es buf (if dropWhile isspace s = [] then n else n + 1) })"

fun read_names :: "qstr \<Rightarrow> getln_event list \<Rightarrow> string \<Rightarrow> nat \<Rightarrow> string list \<Rightarrow> ((string list) option) ub" where
  "read_names Q [] buf n acc = (if length acc \<le> n then Some (Some acc) else None)"
| "read_names Q (GlErr # es) buf n acc = Some None"
| "read_names Q (GlLine l match # es) buf n acc =
     (if l = [] then (if length acc \<le> n then Some (Some acc) else None)
      else if match \<and> butlast l = [] then read_names Q es (over l buf) n acc
      else do {
        buf \<leftarrow> cut_line Q (if match then over (butlast l @ [NUL]) buf else over l buf);
        s \<leftarrow> cstr_at buf 0;
        (let p = dropWhile isspace s;
             len = (if p = s then (if match then length l else length l + 1) else length p + 1)
         in if p = [] then read_names Q es buf n acc
            else if length acc > n then None
            else if len \<le> length p then None
            else read_names Q es buf n (acc @ [p])) })"

text \<open>Both passes read the same lines. \<open>None\<close> for the list: the file cannot be opened or read.\<close>

definition headerList :: "qstr \<Rightarrow> getln_event list option \<Rightarrow> ((string list) option) ub" where
  "headerList Q f = (case f of None \<Rightarrow> Some None
   | Some es \<Rightarrow> do {
       r \<leftarrow> count_names Q es [] 0;
       (case r of None \<Rightarrow> Some None | Some (n, buf) \<Rightarrow> read_names Q es buf n []) })"

definition vfilter_header :: "string list" where
  "vfilter_header = [''Return-Path'', ''From'', ''Subject'', ''To'', ''Cc'', ''Bcc'', ''Reply-To'', ''Date'', ''Sender'',
     ''User-Agent'', ''Message-Id'', ''MIME-Version'', ''Content-Type'', ''Content-Transfer-Encoding'',
     ''Precedence'', ''Organization'', ''Errors-To'', ''List-Id'', ''Mailing-List'', ''X-Sender'',
     ''X-Mailing-List'', ''X-ML-Name'', ''X-List'', ''X-Loop'', ''X-BeenThere'', ''X-Sequence'',
     ''X-Mailer'', ''Importance'', ''X-Priority'', ''X-Spam-Status'', ''X-Spam-Rating'', ''Received'']"

end
