(* ===== verification/Vfilter.thy ===== *)
theory Vfilter
  imports Vfilter_Headers
begin

text \<open>
  The filter program \<^verbatim>\<open>vfilter.c\<close> with \<^verbatim>\<open>vfilter_select.c\<close>: it stores the headers of a message, walks through the
  rules of the domain and of the user and hands the message to the delivery agent.

  The database, the files and the functions of other libraries are the record \<open>vf_env\<close>. The program is that of
  a delivery (not interactive); messages are left out. \<open>get_options\<close>, which finds out the mail address and the
  mail directory, is left out: they are arguments.
\<close>

unbundle bit_operations_syntax

datatype sel_result = SelNoTable | SelErr | SelNoResult | SelRows "string list list"

datatype eval_result = ERROR_SYNTAX | ERROR_VARNOTFOUND | ERROR_NOMEM | ERROR_DIV0 | ResultInt int | ResultReal

record vf_env =
  v_mem :: cenv
  v_str :: qstr
  v_case :: qcase
  v_rchr :: "string \<Rightarrow> char \<Rightarrow> nat"
  v_iopen :: bool
  v_select :: "string \<Rightarrow> sel_result"
  v_real_domain :: "string \<Rightarrow> string option"
  v_default_domain :: string
  v_vartable :: bool
  v_replacestr :: "string \<Rightarrow> string \<Rightarrow> string \<Rightarrow> string option"
  v_evaluate :: "string \<Rightarrow> eval_result"
  v_regex :: "string \<Rightarrow> string \<Rightarrow> int"
  v_headers :: "getln_event list option"
  v_exists :: "string \<Rightarrow> bool"

subsection \<open>The rules\<close>

record vrule =
  filter_no :: int
  filter_name :: string
  header_name :: int
  comparision :: int
  keyword :: string
  folder :: string
  bounce_action :: int
  forward :: "string option"

text \<open>The variables of \<open>main\<close> and the static variables: the rows of the current query that are left, the
  variables a row is read into, and the two parts of an address.\<close>

record vf_st =
  v_res :: "string list list option"
  v_rule :: vrule
  v_user :: stralloc
  v_domain :: stralloc

definition select_sql :: "string \<Rightarrow> string" where
  "select_sql emailid = ''select high_priority filter_no, filter_name, header_name,''
     @ '' comparision, keyword, destination, bounce_action from '' @ ''vfilter where emailid = '' @ [DQ]
     @ emailid @ [DQ] @ '' order by filter_no''"

definition load_rule :: "qstr \<Rightarrow> string list \<Rightarrow> vrule \<Rightarrow> vrule ub" where
  "load_rule Q row r = (if length row < 7 then None
     else (let b = scan_int Q (row ! 6) in do {
       f \<leftarrow> (if b = 2 \<or> b = 3 then (if row ! 6 = [] then None else Some (Some (tl (row ! 6)))) else Some (forward r));
       Some \<lparr>filter_no = scan_int Q (row ! 0), filter_name = row ! 1, header_name = scan_int Q (row ! 2),
         comparision = scan_int Q (row ! 3), keyword = row ! 4, folder = row ! 5, bounce_action = b, forward = f\<rparr> }))"

definition open_rows :: "vf_env \<Rightarrow> string \<Rightarrow> vf_st \<Rightarrow> int + string list list" where
  "open_rows E emailid st = (case v_res st of
     Some rows \<Rightarrow> Inr rows
   | None \<Rightarrow> if \<not> v_iopen E then Inl (- 1)
       else (case v_select E (select_sql emailid) of
           SelNoTable \<Rightarrow> Inl (- 2) | SelErr \<Rightarrow> Inl (- 1) | SelNoResult \<Rightarrow> Inl (- 1) | SelRows rows \<Rightarrow> Inr rows))"

definition vfilter_select :: "vf_env \<Rightarrow> string \<Rightarrow> vf_st \<Rightarrow> (vf_st \<times> int) ub" where
  "vfilter_select E emailid st = (case open_rows E emailid st of
     Inl c \<Rightarrow> Some (st, c)
   | Inr [] \<Rightarrow> Some (st\<lparr>v_res := None\<rparr>, - 2)
   | Inr (row # rows) \<Rightarrow> do {
       r \<leftarrow> load_rule (v_str E) row (v_rule st);
       Some (st\<lparr>v_res := Some rows, v_rule := r\<rparr>, 0) })"

definition numerical_compare :: "vf_env \<Rightarrow> string \<Rightarrow> string \<Rightarrow> int" where
  "numerical_compare E data expression = (if \<not> v_vartable E then 0
     else (case v_evaluate E (case v_replacestr E expression ''%p'' data of None \<Rightarrow> expression | Some b \<Rightarrow> b) of
         ResultInt i \<Rightarrow> i
       | ResultReal \<Rightarrow> 0
       | _ \<Rightarrow> - 1))"

text \<open>The comparison of one value with the keyword.\<close>

definition value_matches :: "vf_env \<Rightarrow> int \<Rightarrow> string \<Rightarrow> string \<Rightarrow> bool" where
  "value_matches E cmp d kw = (let C = v_case E; Q = v_str E in
     if cmp = 0 then case_diffb C d (length kw) kw = 0
     else if cmp = 1 then str_str Q d kw \<noteq> None
     else if cmp = 3 then str_diffn Q d kw (length kw) = 0
     else if cmp = 4 then (case str_str Q d kw of None \<Rightarrow> False | Some i \<Rightarrow> case_diffb C (drop i d) (length kw) kw = 0)
     else if cmp = 6 then numerical_compare E d kw > 0
     else if cmp = 7 then v_regex E d kw = 1
     else False)"

definition header_matches :: "vf_env \<Rightarrow> vrule \<Rightarrow> string \<Rightarrow> header \<Rightarrow> bool" where
  "header_matches E r wanted h \<longleftrightarrow> case_diffb (v_case E) (h_name h) (length (h_name h)) wanted = 0
     \<and> (if comparision r = 2 then \<not> list_ex (\<lambda>d. str_str (v_str E) d (keyword r) \<noteq> None) (h_data h)
        else list_ex (\<lambda>d. value_matches E (comparision r) d (keyword r)) (h_data h))"

subsection \<open>The recipient in To, Cc and Bcc\<close>

text \<open>The loop over the tokens of one value: whether one of them is the address of the filter, as it stands or
  with the real domain. The index of \<open>addressToken\<close> starts at 0.\<close>

lemma token_loop_step:
  "token_loop s n skip = Some (w, m, r) \<Longrightarrow> m + length r = n + length s \<and> n \<le> m \<and> (s = [] \<or> hd s = CHR '','' \<or> n < m)"
proof (induction s n skip rule: token_loop.induct)
  case (2 c cs n skip)
  let ?w = "takeWhile (\<lambda>d. d \<noteq> CHR '','' \<and> d \<noteq> DQ) (c # cs)"
  have w: "length ?w \<le> length (c # cs)" by (rule length_takeWhile_le)
  have w0: "0 < length ?w" if "c \<noteq> CHR '',''" "c \<noteq> DQ" using that by simp
  consider "c = CHR '',''" | "c \<noteq> CHR '',''" "isspace c \<or> c = CHR ''<'' \<or> c = CHR ''>''"
    | "c \<noteq> CHR '',''" "\<not> (isspace c \<or> c = CHR ''<'' \<or> c = CHR ''>'')" "\<not> skip" "c = DQ"
    | "c \<noteq> CHR '',''" "\<not> (isspace c \<or> c = CHR ''<'' \<or> c = CHR ''>'')" "\<not> skip" "c \<noteq> DQ"
    | "c \<noteq> CHR '',''" "\<not> (isspace c \<or> c = CHR ''<'' \<or> c = CHR ''>'')" "skip" by blast
  then show ?case
  proof cases
    case 4
    then have "w = ?w" "m = n + length ?w" "r = drop (length ?w) (c # cs)"
      using 2(4) by (auto simp: Let_def simp del: takeWhile.simps split: if_splits)
    then show ?thesis using w w0 4 by simp
  qed (use 2 in auto)
qed simp

lemma addressToken_step: "addressToken s idx = Some (i, Some e) \<Longrightarrow> idx < i \<and> i \<le> length s"
proof -
  assume a: "addressToken s idx = Some (i, Some e)"
  then have idx: "idx \<le> length s" and ne: "drop idx s \<noteq> []" by (auto simp: addressToken_def Let_def split: if_splits)
  obtain w n r where t: "token_loop (drop idx s) idx False = Some (w, n, r)"
    and i: "i = (if r \<noteq> [] \<and> hd r = CHR '','' then n + 1 else n)"
    using a ne by (auto simp: addressToken_def Let_def bind_eq_Some_conv split: if_splits)
  have "hd (drop idx s) = CHR '','' \<Longrightarrow> r = drop idx s"
    using t ne by (cases "drop idx s") (simp_all split: if_splits)
  note comma = this
  have sum: "n + length r = length s" and le: "idx \<le> n" and lt: "hd (drop idx s) = CHR '','' \<or> idx < n"
    using token_loop_step[OF t] idx ne by simp_all
  have "i \<le> length s" using i sum by (cases r) (simp_all split: if_splits)
  moreover have "idx < i"
  proof (cases "hd (drop idx s) = CHR '',''")
    case True
    then have "r \<noteq> []" "hd r = CHR '',''" using comma[OF True] ne by simp_all
    then show ?thesis using i le by simp
  next
    case False
    then show ?thesis using lt i by simp
  qed
  ultimately show ?thesis by simp
qed

function token_match :: "vf_env \<Rightarrow> string \<Rightarrow> string \<Rightarrow> nat \<Rightarrow> vf_st \<Rightarrow> (vf_st \<times> bool) ub" where
  "token_match E filterid s idx st = (case addressToken s idx of
     None \<Rightarrow> None
   | Some (i, None) \<Rightarrow> Some (st, False)
   | Some (i, Some str) \<Rightarrow>
       if case_diffb (v_case E) str (length str + 1) filterid = 0 then Some (st, True)
       else (case parse_email (v_mem E) (v_str E) (v_default_domain E) str (v_user st) (v_domain st) of
         (U, D, _) \<Rightarrow>
           (let real_domain = (case v_real_domain E (sa_str D) of None \<Rightarrow> sa_str D | Some d \<Rightarrow> d);
                t = take (sa_len U) (sa_s U) @ ''@'' @ real_domain;
                st = st\<lparr>v_user := \<lparr>sa_s = t @ [NUL], sa_len = length t + 1\<rparr>, v_domain := D\<rparr>
            in if case_diffb (v_case E) t (length t + 1) filterid = 0 then Some (st, True)
               else token_match E filterid s i st)))"
  by pat_completeness auto
termination by (relation "measure (\<lambda>(E, id, s, idx, st). length s - idx)") (auto dest!: addressToken_step)

declare token_match.simps [simp del]

fun data_search :: "vf_env \<Rightarrow> string \<Rightarrow> string list \<Rightarrow> vf_st \<Rightarrow> (vf_st \<times> bool) ub" where
  "data_search E filterid [] st = Some (st, False)"
| "data_search E filterid (d # ds) st = do {
     (st, found) \<leftarrow> token_match E filterid d 0 st;
     (if found then Some (st, True) else data_search E filterid ds st) }"

fun recipient_search :: "vf_env \<Rightarrow> string \<Rightarrow> header list \<Rightarrow> vf_st \<Rightarrow> (vf_st \<times> bool) ub" where
  "recipient_search E filterid [] st = Some (st, False)"
| "recipient_search E filterid (h # hs) st = (let C = v_case E; n = h_name h in
     if case_diffb C n 4 ''From'' = 0 \<or> case_diffb C n 11 ''Return-Path'' = 0 then recipient_search E filterid hs st
     else if case_diffb C n 2 ''To'' = 0 \<or> case_diffb C n 2 ''Cc'' = 0 \<or> case_diffb C n 3 ''Bcc'' = 0 then do {
       (st, found) \<leftarrow> data_search E filterid (h_data h) st;
       (if found then Some (st, True) else recipient_search E filterid hs st) }
     else recipient_search E filterid hs st)"

subsection \<open>The filter\<close>

definition rule_step :: "vf_env \<Rightarrow> header list \<Rightarrow> string list \<Rightarrow> string \<Rightarrow> bool \<Rightarrow> vf_st \<Rightarrow> (vf_st \<times> bool) ub" where
  "rule_step E hs header_list filterid global_filter st = (let r = v_rule st in
     if \<not> global_filter \<and> comparision r = 5 then do {
       (st, found) \<leftarrow> recipient_search E filterid hs st;
       Some (st, \<not> found) }
     else if comparision r \<noteq> 5 then
       (if header_name r > int (length header_list) - 1 then Some (st, False)
        else (let r = r\<lparr>keyword := lowerit (keyword r)\<rparr>; st = st\<lparr>v_rule := r\<rparr> in
          if hs = [] then Some (st, False)
          else if header_name r < 0 then None
          else Some (st, list_ex (header_matches E r (header_list ! nat (header_name r))) hs)))
     else Some (st, False))"

partial_function (option) filter_loop ::
    "vf_env \<Rightarrow> header list \<Rightarrow> string list \<Rightarrow> string \<Rightarrow> bool \<Rightarrow> vf_st \<Rightarrow> (vf_st \<times> bool) option" where
  "filter_loop E hs header_list filterid global_filter st = do {
     (st, c) \<leftarrow> vfilter_select E filterid st;
     (if c = - 1 \<or> c = - 2 then Some (st, False)
      else do {
        (st, found) \<leftarrow> rule_step E hs header_list filterid global_filter st;
        (if found then Some (st, True) else filter_loop E hs header_list filterid global_filter st) }) }"

definition is_global :: "qstr \<Rightarrow> string \<Rightarrow> bool" where
  "is_global Q filterid \<longleftrightarrow> str_diffn Q filterid ''prefilt@'' 8 = 0 \<or> str_diffn Q filterid ''postfilt@'' 9 = 0"

text \<open>The result says whether a rule matched; the rule is then in the variables.\<close>

definition process_filter :: "vf_env \<Rightarrow> header list \<Rightarrow> string \<Rightarrow> vf_st \<Rightarrow> (vf_st \<times> bool) ub" where
  "process_filter E hs filterid st = do {
     l \<leftarrow> headerList (v_str E) (v_headers E);
     filter_loop E hs (case l of None \<Rightarrow> vfilter_header | Some l \<Rightarrow> l) filterid (is_global (v_str E) filterid) st }"

subsection \<open>The end of the program\<close>

text \<open>The results of waiting for the child, and the operating system: what happens to a child that runs the
  delivery agent with the given folder, the result of \<open>deliver_mail\<close>, and whether the agent can be started.\<close>

datatype wait_event = WtNone | WtIntr | WtErr | WtStatus int int

record vf_os =
  o_fork :: "string option \<Rightarrow> wait_event list option"
  o_deliver :: "string option \<Rightarrow> int"
  o_mda :: bool

datatype outcome = ExitWith int | Mda "(string \<times> string) list"

datatype call = Child "string option" | Forward "string option"

text \<open>After an error of \<open>wait_pid\<close> the status is looked at although it was not set; whatever it is, the result
  stays -1.\<close>

fun wait_loop :: "wait_event list \<Rightarrow> int \<Rightarrow> int" where
  "wait_loop [] status = status"
| "wait_loop (WtNone # es) status = status"
| "wait_loop (WtIntr # es) status = wait_loop es status"
| "wait_loop (WtErr # es) status = - 1"
| "wait_loop (WtStatus i werr # es) status =
     (if i = 0 \<and> werr \<noteq> 0 then wait_loop es status else if werr \<noteq> 0 \<or> i \<noteq> 0 then - 1 else status)"

text \<open>The revision text ends with a dollar sign, which is taken off. The program looks for it in a buffer without
  a terminator; the model is that of a search that stays in the buffer.\<close>

definition xfilter :: string where
  "xfilter = butlast (''XFILTER=X-Filter: xFilter/IndiMail Revision '' @ ''1.15 $'') @ ''(http://www.indimail.org)''"

definition execMda :: "vf_os \<Rightarrow> (string \<times> string) list \<Rightarrow> outcome" where
  "execMda W env = (if o_mda W then Mda env else ExitWith 111)"

definition child_status :: "vf_os \<Rightarrow> qcase \<Rightarrow> string \<Rightarrow> int \<Rightarrow> call list \<times> int" where
  "child_status W C dest status = (let f = (if case_diffb C dest 5 ''Inbox'' \<noteq> 0 then Some dest else None) in
     ([Child f], case o_fork W f of None \<Rightarrow> - 1 | Some es \<Rightarrow> wait_loop es status))"

definition bounce_exit :: "vf_os \<Rightarrow> int \<Rightarrow> call list \<Rightarrow> string option \<Rightarrow> call list \<times> outcome" where
  "bounce_exit W bounce calls fwd =
     (let fw = (bounce = 2 \<or> bounce = 3); calls = calls @ (if fw then [Forward fwd] else []); i = o_deliver W fwd in
      if fw \<and> (i = - 1 \<or> i = - 4) then (calls, ExitWith 100)
      else if fw \<and> i = - 2 then (calls, ExitWith 111)
      else if fw \<and> i = - 3 then (calls, ExitWith 100)
      else if bounce = 1 \<or> bounce = 3 then (calls, execMda W [(''XFILTER'', xfilter), (''BOUNCE_MAIL'', ''1'')])
      else (calls, ExitWith 0))"

definition myExit :: "vf_os \<Rightarrow> qcase \<Rightarrow> int \<Rightarrow> int \<Rightarrow> string option \<Rightarrow> string option \<Rightarrow> call list \<times> outcome" where
  "myExit W C status bounce dest fwd =
     (if status = 111 then ([], ExitWith 111)
      else if status > 0 then
        (case (case dest of None \<Rightarrow> ([], status)
               | Some d \<Rightarrow> if d \<noteq> [] \<and> case_diffb C d 10 ''/NoDeliver'' \<noteq> 0 then child_status W C d status else ([], status)) of
           (calls, s) \<Rightarrow> if s > 0 then bounce_exit W bounce calls fwd else (calls, execMda W [(''XFILTER'', xfilter)]))
      else ([], execMda W [(''XFILTER'', xfilter)]))"

subsection \<open>The program\<close>

definition filter_exit :: "vf_env \<Rightarrow> vf_os \<Rightarrow> vf_st \<Rightarrow> call list \<times> outcome" where
  "filter_exit E W st = (let r = v_rule st in myExit W (v_case E) 1 (bounce_action r) (Some (folder r)) (forward r))"

definition domain_part :: "vf_env \<Rightarrow> string \<Rightarrow> string" where
  "domain_part E emailid = drop (v_rchr E emailid CHR ''@'') emailid"

definition filter_engine :: "vf_env \<Rightarrow> vf_os \<Rightarrow> header list \<Rightarrow> string \<Rightarrow> string \<Rightarrow> vf_st \<Rightarrow> (call list \<times> outcome) ub" where
  "filter_engine E W hs emailid maildir st = do {
     (st, found) \<leftarrow> (if v_exists E (maildir @ ''noprefilt'') then Some (st, False)
       else process_filter E hs (''prefilt'' @ domain_part E emailid) st);
     (if found then Some (filter_exit E W st)
      else if \<not> v_exists E (maildir @ ''vfilter'') then Some (myExit W (v_case E) 0 0 None None)
      else do {
        (st, found) \<leftarrow> process_filter E hs emailid st;
        (if found then Some (filter_exit E W st)
         else do {
           (st, found) \<leftarrow> (if v_exists E (maildir @ ''nopostfilt'') then Some (st, False)
             else process_filter E hs (''postfilt'' @ domain_part E emailid) st);
           Some (if found then filter_exit E W st else myExit W (v_case E) 0 0 None None) }) }) }"

fun store_headers :: "nat \<Rightarrow> cenv \<Rightarrow> qcase \<Rightarrow> eps_t \<Rightarrow> sh_st \<Rightarrow> (eps_t \<times> sh_st \<times> int) ub" where
  "store_headers 0 M C e st = None"
| "store_headers (Suc n) M C e st = do {
     (e, h) \<leftarrow> eps_next_header M e;
     (case h of None \<Rightarrow> Some (e, st, 0)
      | Some h \<Rightarrow> do {
          (st, r) \<leftarrow> (if hname h \<noteq> None \<and> hdata h \<noteq> None then storeHeader M C h st else Some (st, 0));
          (if r \<noteq> 0 then Some (e, st, r) else store_headers n M C (eps_header_free e) st) }) }"

fun skip_body :: "nat \<Rightarrow> cenv \<Rightarrow> eps_t \<Rightarrow> eps_t ub" where
  "skip_body 0 M e = None"
| "skip_body (Suc n) M e = do {
     (e, l) \<leftarrow> eps_next_line M e;
     (case l of None \<Rightarrow> Some e | Some _ \<Rightarrow> skip_body n M e) }"

fun store_part :: "nat \<Rightarrow> cenv \<Rightarrow> qcase \<Rightarrow> eps_t \<Rightarrow> sh_st \<Rightarrow> (eps_t \<times> sh_st \<times> int) ub" where
  "store_part 0 M C e st = None"
| "store_part (Suc n) M C e st = do {
     (e, h) \<leftarrow> mime_next_header M e;
     (case h of None \<Rightarrow> Some (e, st, 0)
      | Some h \<Rightarrow> do {
          (st, r) \<leftarrow> (if hname h \<noteq> None \<and> hdata h \<noteq> None then storeHeader M C h st else Some (st, 0));
          (if r \<noteq> 0 then Some (e, st, r) else store_part n M C e st) }) }"

fun skip_part :: "nat \<Rightarrow> cenv \<Rightarrow> eps_t \<Rightarrow> eps_t ub" where
  "skip_part 0 M e = None"
| "skip_part (Suc n) M e = do {
     (e, l) \<leftarrow> mime_next_line M e;
     (case l of None \<Rightarrow> Some e | Some _ \<Rightarrow> skip_part n M e) }"

fun store_parts :: "nat \<Rightarrow> cenv \<Rightarrow> qcase \<Rightarrow> eps_t \<Rightarrow> sh_st \<Rightarrow> (sh_st \<times> int) ub" where
  "store_parts 0 M C e st = None"
| "store_parts (Suc n) M C e st = do {
     eof \<leftarrow> eps_is_eof e;
     (if \<not> eof \<and> econtent_type e AND CON_MULTI \<noteq> 0 then do {
        e \<leftarrow> mime_init_stream M e;
        (e, st, r) \<leftarrow> store_part (Suc n) M C e st;
        (if r \<noteq> 0 then Some (st, r)
         else do { e \<leftarrow> skip_part (Suc n) M e; store_parts n M C e st }) }
      else Some (st, 0)) }"

definition lower_all :: "header list option \<Rightarrow> header list" where
  "lower_all hs = (case hs of None \<Rightarrow> [] | Some hs \<Rightarrow> map (\<lambda>h. h\<lparr>h_data := map lowerit (h_data h)\<rparr>) hs)"

definition vfilter_main :: "nat \<Rightarrow> vf_env \<Rightarrow> vf_os \<Rightarrow> int \<Rightarrow> read_result list \<Rightarrow> string \<Rightarrow> string \<Rightarrow> sh_st \<Rightarrow> vf_st
    \<Rightarrow> (call list \<times> outcome) ub" where
  "vfilter_main n E W msgsize inp emailid maildir sh st = (let M = v_mem E; C = v_case E in
     if msgsize = 0 then Some ([], ExitWith 0)
     else do {
       e \<leftarrow> eps_begin M INTERFACE_STREAM (Descriptor 0 inp);
       (case e of None \<Rightarrow> Some (myExit W C (- 1) 0 None None)
        | Some e \<Rightarrow> do {
            (e, sh, r) \<leftarrow> store_headers n M C e sh;
            (if r \<noteq> 0 then Some (myExit W C (- 1) 0 None None)
             else do {
               e \<leftarrow> skip_body n M e;
               (sh, r) \<leftarrow> store_parts n M C e sh;
               (if r \<noteq> 0 then Some (myExit W C (- 1) 0 None None)
                else filter_engine E W (lower_all (sh_hptr sh)) emailid maildir st) }) }) })"

end
