(* ===== verification/Vfilter_Spec.thy ===== *)
theory Vfilter_Spec
  imports Vfilter "HOL-Library.Sublist"
begin

text \<open>
  What the filter promises: the table of headers holds, for every name, the values in the order of the message;
  the first rule that matches decides; mail is not lost when a delivery fails. The comparisons and the address
  lists do less than their names say.
\<close>

subsection \<open>Comparisons\<close>

locale filter_lib = S: qstrings "v_str E" + C: caseless "v_case E" for E :: vf_env +
  assumes str_none: "str_str (v_str E) s t = None \<longleftrightarrow> \<not> sublist t s"
    and str_found: "str_str (v_str E) s t = Some i \<Longrightarrow> take (length t) (drop i s) = t"

lemma tolower_idem [simp]: "tolower (tolower c) = tolower c"
proof (cases "65 \<le> (of_char c :: nat) \<and> (of_char c :: nat) \<le> 90")
  case True
  then have "(of_char c :: nat) + 32 < 256" by simp
  then have "of_char (char_of ((of_char c :: nat) + 32) :: char) = (of_char c :: nat) + 32" by (simp add: of_char_of)
  then show ?thesis using True by (simp add: tolower_def)
qed (auto simp: tolower_def)

lemma lowerit_map: "lowerit s = map tolower s"
  by (simp add: lowerit_def isupper_def tolower_def)

lemma tolower_NUL: "tolower c = NUL \<longleftrightarrow> c = NUL"
proof
  assume t: "tolower c = NUL"
  show "c = NUL"
  proof (cases "65 \<le> (of_char c :: nat) \<and> (of_char c :: nat) \<le> 90")
    case True
    then have "(of_char c :: nat) + 32 < 256" by simp
    then have "(of_char (tolower c) :: nat) = of_char c + 32" using True by (simp add: tolower_def of_char_of)
    then show ?thesis using t True by simp
  qed (use t in \<open>auto simp: tolower_def\<close>)
qed (simp add: tolower_def)

lemma lower_NUL [simp]: "tolower NUL = NUL"
  by (simp add: tolower_NUL)

lemma lowerit_NUL: "NUL \<in> set (lowerit s) \<longleftrightarrow> NUL \<in> set s"
proof -
  have "NUL \<in> set (lowerit s) \<longleftrightarrow> (\<exists>c \<in> set s. tolower c = NUL)" by (auto simp: lowerit_map image_iff eq_commute[of NUL])
  then show ?thesis by (simp add: tolower_NUL)
qed

lemma take_NUL: "NUL \<notin> set k \<Longrightarrow> take (length k) (d @ [NUL]) = k \<longleftrightarrow> prefix k d"
proof
  assume n: "NUL \<notin> set k" and t: "take (length k) (d @ [NUL]) = k"
  have "length k \<le> length d"
  proof (rule ccontr)
    assume "\<not> length k \<le> length d"
    then have "k = d @ [NUL]" using t by simp
    then show False using n by simp
  qed
  then have "take (length k) d = k" using t by simp
  then show "prefix k d" by (metis take_is_prefix)
next
  assume "prefix k d"
  then show "take (length k) (d @ [NUL]) = k" by (auto simp: prefix_def)
qed

lemma map_lower_id: "map tolower (lowerit s) = lowerit s"
  by (simp add: lowerit_map)

lemma prefix_sublist_take: "take (length t) s = t \<Longrightarrow> prefix t s"
  by (metis take_is_prefix)

context filter_lib
begin

lemma diffb_prefix:
  assumes "NUL \<notin> set d" "NUL \<notin> set k"
  shows "case_diffb (v_case E) (map tolower d) (length k) (map tolower k) = 0 \<longleftrightarrow> prefix (map tolower k) (map tolower d)"
proof -
  have n: "NUL \<notin> set (map tolower d)" "NUL \<notin> set (map tolower k)" using assms lowerit_NUL by (simp_all only: lowerit_map[symmetric] not_False_eq_True)
  have "map tolower (take (length k) (map tolower d @ [NUL])) = take (length k) (map tolower d @ [NUL])"
    using take_map[of "length k" tolower "map tolower d @ [NUL]"] by (simp add: comp_def)
  then have "case_diffb (v_case E) (map tolower d) (length k) (map tolower k) = 0
      \<longleftrightarrow> take (length (map tolower k)) (map tolower d @ [NUL]) = map tolower k"
    using C.diffb_zero[OF n, of "length k"] by (simp add: strncaseeq_def) (simp add: comp_def)
  then show ?thesis using take_NUL[OF n(2), of "map tolower d"] by (simp only: length_map)
qed

lemma comparisons:
  assumes "NUL \<notin> set d" "NUL \<notin> set k"
  shows "value_matches E 0 (lowerit d) (lowerit k) = prefix (lowerit k) (lowerit d)"
    and "value_matches E 3 (lowerit d) (lowerit k) = prefix (lowerit k) (lowerit d)"
    and "value_matches E 1 (lowerit d) (lowerit k) = sublist (lowerit k) (lowerit d)"
    and "value_matches E 4 (lowerit d) (lowerit k) = sublist (lowerit k) (lowerit d)"
proof -
  have n: "NUL \<notin> set (lowerit d)" "NUL \<notin> set (lowerit k)" using assms by (simp_all add: lowerit_NUL)
  have len: "length (lowerit k) = length k" by (simp add: lowerit_map)
  show "value_matches E 0 (lowerit d) (lowerit k) = prefix (lowerit k) (lowerit d)"
    using diffb_prefix[OF assms] by (simp add: value_matches_def lowerit_map)
  show "value_matches E 3 (lowerit d) (lowerit k) = prefix (lowerit k) (lowerit d)"
    using S.diffn_zero[OF n, of "length (lowerit k)"] take_NUL[OF n(2)] by (simp add: value_matches_def)
  show "value_matches E 1 (lowerit d) (lowerit k) = sublist (lowerit k) (lowerit d)"
    using str_none[of "lowerit d" "lowerit k"] by (auto simp: value_matches_def)
  have "case_diffb (v_case E) (drop i (lowerit d)) (length (lowerit k)) (lowerit k) = 0"
    if "str_str (v_str E) (lowerit d) (lowerit k) = Some i" for i
  proof -
    have "prefix (lowerit k) (drop i (lowerit d))" using str_found[OF that] by (rule prefix_sublist_take)
    moreover have "NUL \<notin> set (drop i d)" using assms(1) by (auto dest: in_set_dropD)
    ultimately show ?thesis using diffb_prefix[of "drop i d" k] assms(2) by (simp add: lowerit_map drop_map)
  qed
  then show "value_matches E 4 (lowerit d) (lowerit k) = sublist (lowerit k) (lowerit d)"
    using str_none[of "lowerit d" "lowerit k"] by (auto simp: value_matches_def split: option.split)
qed

end

subsection \<open>The first rule that matches\<close>

definition lower_rule :: "vrule \<Rightarrow> vrule" where
  "lower_rule r = r\<lparr>keyword := lowerit (keyword r)\<rparr>"

text \<open>Whether a rule applies to the table; a header number behind the list of names matches nothing.\<close>

definition rule_applies :: "vf_env \<Rightarrow> string list \<Rightarrow> header list \<Rightarrow> vrule \<Rightarrow> bool" where
  "rule_applies E names hs r \<longleftrightarrow> comparision r \<noteq> 5 \<and> nat (header_name r) < length names
     \<and> list_ex (header_matches E (lower_rule r) (names ! nat (header_name r))) hs"

text \<open>The rules of the rows; the forward address of a rule that has none is left from the rule before.\<close>

fun load_rules :: "qstr \<Rightarrow> string list list \<Rightarrow> string option \<Rightarrow> vrule list ub" where
  "load_rules Q [] f = Some []"
| "load_rules Q (row # rows) f = do {
     r \<leftarrow> load_rule Q row \<lparr>filter_no = 0, filter_name = [], header_name = 0, comparision = 0, keyword = [], folder = [],
       bounce_action = 0, forward = f\<rparr>;
     rs \<leftarrow> load_rules Q rows (forward r);
     Some (r # rs) }"

lemma load_rule_forward: "forward r = forward r' \<Longrightarrow> load_rule Q row r = load_rule Q row r'"
  by (simp only: load_rule_def)

lemma rule_step_plain:
  assumes "comparision (v_rule st) = 5 \<Longrightarrow> glob" "comparision (v_rule st) \<noteq> 5 \<Longrightarrow> 0 \<le> header_name (v_rule st)"
  shows "\<exists>st'. rule_step E hs names fid glob st = Some (st', rule_applies E names hs (v_rule st)) \<and> v_res st' = v_res st
    \<and> forward (v_rule st') = forward (v_rule st) \<and> (rule_applies E names hs (v_rule st) \<longrightarrow> v_rule st' = lower_rule (v_rule st))"
  using assms by (auto simp: rule_step_def rule_applies_def lower_rule_def Let_def)

lemma filter_loop_rows:
  assumes "load_rules (v_str E) rows (forward (v_rule st)) = Some rs" "v_res st = Some rows"
    and "\<forall>r \<in> set rs. (comparision r = 5 \<longrightarrow> glob) \<and> (comparision r \<noteq> 5 \<longrightarrow> 0 \<le> header_name r)"
  shows "\<exists>st' b. filter_loop E hs names fid glob st = Some (st', b) \<and> (case find (rule_applies E names hs) rs of
      None \<Rightarrow> \<not> b \<and> v_res st' = None
    | Some r \<Rightarrow> b \<and> v_rule st' = lower_rule r)"
  using assms
proof (induction rows arbitrary: st rs)
  case Nil
  then show ?case by (auto simp: filter_loop.simps vfilter_select_def open_rows_def)
next
  case (Cons row rows)
  obtain r rs' where r: "load_rule (v_str E) row (v_rule st) = Some r" "load_rules (v_str E) rows (forward r) = Some rs'" "rs = r # rs'"
    using Cons.prems(1) load_rule_forward[of "v_rule st" "\<lparr>filter_no = 0, filter_name = [], header_name = 0, comparision = 0,
      keyword = [], folder = [], bounce_action = 0, forward = forward (v_rule st)\<rparr>" "v_str E" row]
    by (auto simp: bind_eq_Some_conv)
  let ?st = "st\<lparr>v_res := Some rows, v_rule := r\<rparr>"
  have sel: "vfilter_select E fid st = Some (?st, 0)"
    using Cons.prems(2) r(1) by (simp add: vfilter_select_def open_rows_def)
  have ok: "comparision (v_rule ?st) = 5 \<Longrightarrow> glob" "comparision (v_rule ?st) \<noteq> 5 \<Longrightarrow> 0 \<le> header_name (v_rule ?st)" using Cons.prems(3) r(3) by simp_all
  obtain st' where st': "rule_step E hs names fid glob ?st = Some (st', rule_applies E names hs r)" "v_res st' = Some rows"
    "forward (v_rule st') = forward r" "rule_applies E names hs r \<Longrightarrow> v_rule st' = lower_rule r"
    using rule_step_plain[OF ok, of E hs names fid] by auto
  show ?case
  proof (cases "rule_applies E names hs r")
    case True
    then show ?thesis using sel st' r(3) by (auto simp: filter_loop.simps)
  next
    case False
    then have "filter_loop E hs names fid glob st = filter_loop E hs names fid glob st'"
      using sel st' by (subst filter_loop.simps) simp
    moreover have "load_rules (v_str E) rows (forward (v_rule st')) = Some rs'" using r(2) st'(3) by simp
    moreover have "\<forall>r \<in> set rs'. (comparision r = 5 \<longrightarrow> glob) \<and> (comparision r \<noteq> 5 \<longrightarrow> 0 \<le> header_name r)" using Cons.prems(3) r(3) by simp
    ultimately show ?thesis using Cons.IH[of st' rs'] st'(2) r(3) False by simp
  qed
qed

definition names_of :: "string list option \<Rightarrow> string list" where
  "names_of l = (case l of None \<Rightarrow> vfilter_header | Some l \<Rightarrow> l)"

lemma process_filter_first:
  assumes "v_res st = None" "v_iopen E" "v_select E (select_sql fid) = SelRows rows"
    and "load_rules (v_str E) rows (forward (v_rule st)) = Some rs" "headerList (v_str E) (v_headers E) = Some l"
    and "\<forall>r \<in> set rs. (comparision r = 5 \<longrightarrow> is_global (v_str E) fid) \<and> (comparision r \<noteq> 5 \<longrightarrow> 0 \<le> header_name r)"
  shows "\<exists>st' b. process_filter E hs fid st = Some (st', b) \<and> (case find (rule_applies E (names_of l) hs) rs of
      None \<Rightarrow> \<not> b \<and> v_res st' = None
    | Some r \<Rightarrow> b \<and> v_rule st' = lower_rule r)"
proof -
  have "vfilter_select E fid st = vfilter_select E fid (st\<lparr>v_res := Some rows\<rparr>)"
    using assms(1-3) by (cases rows) (simp_all add: vfilter_select_def open_rows_def)
  then have "process_filter E hs fid st = filter_loop E hs (names_of l) fid (is_global (v_str E) fid) (st\<lparr>v_res := Some rows\<rparr>)"
    using assms(5) by (simp add: process_filter_def names_of_def filter_loop.simps[of _ _ _ _ _ st]
      filter_loop.simps[of _ _ _ _ _ "st\<lparr>v_res := Some rows\<rparr>"])
  then show ?thesis using filter_loop_rows[of E rows "st\<lparr>v_res := Some rows\<rparr>" rs "is_global (v_str E) fid" hs "names_of l" fid] assms(4,6) by simp
qed

subsection \<open>Addresses\<close>

definition addr_text :: "address_t \<Rightarrow> string option" where
  "addr_text a = (case user a of None \<Rightarrow> None
     | Some u \<Rightarrow> Some (case domain a of None \<Rightarrow> u | Some d \<Rightarrow> if d = [] then u else u @ ''@'' @ d))"

lemma addr_piece_text:
  "addr_piece a follows buf = (case addr_text a of None \<Rightarrow> buf | Some x \<Rightarrow> sa_text (x @ (if follows then '','' else [])))"
  by (simp add: addr_piece_def addr_text_def split: option.split)

lemma addr_loop_last: "addr_loop (as @ [a]) buf = addr_piece a False (addr_loop (as @ [a]) buf)"
  if "addr_text a \<noteq> None"
proof -
  have "\<exists>b. addr_loop (as @ [a]) buf = addr_piece a False b" for as buf
    by (induction as arbitrary: buf) auto
  then obtain b where "addr_loop (as @ [a]) buf = addr_piece a False b" by blast
  then show ?thesis using that by (auto simp: addr_piece_text)
qed

text \<open>Only the last address of a list is kept.\<close>

lemma parseAddress_last:
  assumes "mem_ok M" "NUL \<notin> set s" "group_clean s" "members_of s = as @ [a]" "group (group_of s) = None" "addr_text a = Some x"
  shows "parseAddress M s buf = Some (sa_text x)"
proof -
  have "members (group_of s) = as @ [a]" using assms(4,5) by (auto simp: group_of_def Let_def split: if_splits)
  moreover have "addr_loop (as @ [a]) b = sa_text x" for b
    using addr_loop_last[of a as b] assms(6) by (simp add: addr_piece_text)
  ultimately show ?thesis using address_evaluate_lemma[OF assms(1-3)] by (simp add: parseAddress_def Let_def)
qed

text \<open>A rule that asks whether the recipient is named in To, Cc or Bcc reads over the end of every such value that
  is one address.\<close>

lemma caseless_name:
  assumes "strcaseeq n m"
  shows "NUL \<in> set n \<longleftrightarrow> NUL \<in> set m" "strncaseeq (n @ [NUL]) t k = strncaseeq (m @ [NUL]) t k"
proof -
  have l: "lowerit n = lowerit m" using assms by (simp add: strcaseeq_def lowerit_map)
  show "NUL \<in> set n \<longleftrightarrow> NUL \<in> set m" using lowerit_NUL[of n] lowerit_NUL[of m] l by simp
  show "strncaseeq (n @ [NUL]) t k = strncaseeq (m @ [NUL]) t k"
    using l by (simp add: strncaseeq_def lowerit_map take_map[symmetric] strcaseeq_length[OF assms] del: take_append flip: map_append) (simp add: take_map)
qed

lemma recipient_overrun:
  assumes "caseless (v_case E)" "comparision (v_rule st) = 5" "strcaseeq n m" "m \<in> {''To'', ''Cc'', ''Bcc''}" "token_ok a"
  shows "rule_step E (\<lparr>h_name = n, h_data = a # ds\<rparr> # hs) names fid False st = None"
proof -
  have nn: "NUL \<notin> set n" using caseless_name(1)[OF assms(3)] assms(4) by auto
  have d: "NUL \<notin> set t \<Longrightarrow> k \<le> length t + 1 \<Longrightarrow> case_diffb (v_case E) n k t = 0 \<longleftrightarrow> strncaseeq (m @ [NUL]) (t @ [NUL]) k" for t k
    using caseless.diffb_zero[OF assms(1) nn] caseless_name(2)[OF assms(3)] by simp
  have skip: "case_diffb (v_case E) n 4 ''From'' \<noteq> 0" "case_diffb (v_case E) n 11 ''Return-Path'' \<noteq> 0"
    using assms(4) d[of "''From''" 4] d[of "''Return-Path''" 11] by (auto simp: strncaseeq_def tolower_def)
  have to: "case_diffb (v_case E) n 2 ''To'' = 0 \<or> case_diffb (v_case E) n 2 ''Cc'' = 0 \<or> case_diffb (v_case E) n 3 ''Bcc'' = 0"
    using assms(4) d[of "''To''" 2] d[of "''Cc''" 2] d[of "''Bcc''" 3] by (auto simp: strncaseeq_def)
  have "token_match E fid a 0 st = None" using last_token_overrun[OF assms(5), of "[]"] by (simp add: token_match.simps)
  then show ?thesis using skip to assms(2) by (simp add: rule_step_def Let_def)
qed

subsection \<open>The table of headers\<close>

definition table_values :: "header list option \<Rightarrow> string \<Rightarrow> string list" where
  "table_values t n = (case t of None \<Rightarrow> [] | Some hs \<Rightarrow>
     (case find (\<lambda>h. strcaseeq (h_name h) n) hs of None \<Rightarrow> [] | Some h \<Rightarrow> h_data h))"

text \<open>The value that is kept of a header: for a name in \<open>i_headers\<close> what \<open>parseAddress\<close> leaves, if anything.\<close>

definition header_text :: "cenv \<Rightarrow> string \<Rightarrow> string \<Rightarrow> string option" where
  "header_text M n d = (if list_ex (\<lambda>x. strcaseeq x n) i_headers
     then (case parseAddress M d (sa_text []) of None \<Rightarrow> None | Some sa \<Rightarrow> if sa_len sa = 0 then None else Some (sa_str sa))
     else Some d)"

fun store_all :: "cenv \<Rightarrow> qcase \<Rightarrow> header_t list \<Rightarrow> sh_st \<Rightarrow> (sh_st \<times> int) ub" where
  "store_all M C [] st = Some (st, 0)"
| "store_all M C (h # hs) st = do {
     (st, r) \<leftarrow> (if hname h \<noteq> None \<and> hdata h \<noteq> None then storeHeader M C h st else Some (st, 0));
     (if r \<noteq> 0 then Some (st, r) else store_all M C hs st) }"

definition header_pairs :: "cenv \<Rightarrow> header_t list \<Rightarrow> (string \<times> string) list" where
  "header_pairs M hs = concat (map (\<lambda>h. case (hname h, hdata h) of
     (Some n, Some d) \<Rightarrow> if d = [] then [] else (case header_text M n d of None \<Rightarrow> [] | Some v \<Rightarrow> [(n, v)]) | _ \<Rightarrow> []) hs)"

definition storable :: "cenv \<Rightarrow> header_t \<Rightarrow> bool" where
  "storable M h \<longleftrightarrow> (\<forall>n d. hname h = Some n \<and> hdata h = Some d \<and> d \<noteq> [] \<longrightarrow> header_text M n d \<noteq> None)"

lemma addr_loop_cases: "(\<forall>b. addr_loop as b = b) \<or> (\<exists>x. \<forall>b. addr_loop as b = sa_text x)"
proof (induction as)
  case (Cons a as)
  then show ?case by (cases "addr_text a") (auto simp: addr_piece_text)
qed simp

lemma parseAddress_any:
  assumes "parseAddress M d t0 = Some sa" "sa_len sa \<noteq> 0"
  shows "\<exists>x. sa = sa_text x \<and> (\<forall>t. parseAddress M d t = Some (sa_text x))"
proof -
  obtain g where g: "address_evaluate M d = Some (Some g)" "sa = addr_loop (members g) (t0\<lparr>sa_len := 0\<rparr>)"
    using assms by (auto simp: parseAddress_def bind_eq_Some_conv Let_def split: option.splits)
  show ?thesis using addr_loop_cases[of "members g"] g assms(2) by (auto simp: parseAddress_def)
qed

lemma copied_text: "copied (sa_text x) = Some (sa_str (sa_text x))"
  by (simp add: copied_def sa_text_def sa_str_def)

context caseless
begin

lemma header_value_text:
  assumes "header_text M n d = Some v"
  shows "\<exists>t'. header_value M C n d strict t = Some (t', Some v)"
proof (cases "list_ex (\<lambda>x. strcaseeq x n) i_headers")
  case True
  then obtain sa where sa: "parseAddress M d (sa_text []) = Some sa" "sa_len sa \<noteq> 0" "v = sa_str sa"
    using assms by (auto simp: header_text_def split: option.splits if_splits)
  obtain x where x: "sa = sa_text x" "\<forall>t. parseAddress M d t = Some (sa_text x)" using parseAddress_any[OF sa(1,2)] by blast
  then show ?thesis using True sa copied_text[of x] by (simp add: header_value_def diffs_zero)
next
  case False
  then show ?thesis using assms by (simp add: header_text_def header_value_def diffs_zero)
qed

lemma name_index_first:
  "case name_index C n hs of None \<Rightarrow> \<forall>h \<in> set hs. \<not> strcaseeq (h_name h) n
    | Some i \<Rightarrow> i < length hs \<and> strcaseeq (h_name (hs ! i)) n \<and> (\<forall>j < i. \<not> strcaseeq (h_name (hs ! j)) n)"
proof (induction hs)
  case (Cons h hs)
  then show ?case by (auto simp: diffs_zero less_Suc_eq_0_disj split: option.splits)
qed simp

end

lemma find_update:
  assumes "i < length hs" "strcaseeq (h_name (hs ! i)) n" "\<forall>j < i. \<not> strcaseeq (h_name (hs ! j)) n"
  shows "table_values (Some (hs[i := (hs ! i)\<lparr>h_data := h_data (hs ! i) @ [v]\<rparr>])) m
    = table_values (Some hs) m @ (if strcaseeq n m then [v] else [])"
  using assms
proof (induction hs arbitrary: i)
  case (Cons h hs)
  show ?case
  proof (cases i)
    case 0
    then have "strcaseeq (h_name h) m \<longleftrightarrow> strcaseeq n m" using Cons.prems(2) by (auto intro: strcaseeq_trans strcaseeq_sym)
    then show ?thesis using 0 by (simp add: table_values_def)
  next
    case (Suc k)
    have 0: "\<not> strcaseeq (h_name h) n" using Cons.prems(3) Suc by auto
    have "\<forall>j < k. \<not> strcaseeq (h_name (hs ! j)) n" using Cons.prems(3) Suc by auto
    then have IH: "table_values (Some (hs[k := (hs ! k)\<lparr>h_data := h_data (hs ! k) @ [v]\<rparr>])) m
      = table_values (Some hs) m @ (if strcaseeq n m then [v] else [])" using Cons Suc by simp
    have "strcaseeq (h_name h) m \<Longrightarrow> \<not> strcaseeq n m" using 0 by (auto dest: strcaseeq_sym strcaseeq_trans)
    then show ?thesis using IH Suc by (simp add: table_values_def)
  qed
qed simp

lemma find_append:
  assumes "\<forall>h \<in> set hs. \<not> strcaseeq (h_name h) n"
  shows "table_values (Some (hs @ [\<lparr>h_name = n, h_data = [v]\<rparr>])) m = table_values (Some hs) m @ (if strcaseeq n m then [v] else [])"
  using assms
proof (induction hs)
  case (Cons h hs)
  have "strcaseeq (h_name h) m \<Longrightarrow> \<not> strcaseeq n m" using Cons.prems by (auto dest: strcaseeq_sym strcaseeq_trans)
  then show ?case using Cons by (simp add: table_values_def)
qed (simp add: table_values_def)

context caseless
begin

lemma storeHeader_value:
  assumes "hname h = Some n" "hdata h = Some d" "d \<noteq> []" "header_text M n d = Some v"
  shows "\<exists>st'. storeHeader M C h st = Some (st', 0)
    \<and> (\<forall>m. table_values (sh_hptr st') m = table_values (sh_hptr st) m @ (if strcaseeq n m then [v] else []))"
proof -
  obtain t1 t2 where t: "header_value M C n d True (sh_tmp st) = Some (t1, Some v)" "header_value M C n d False (sh_tmp st) = Some (t2, Some v)"
    using header_value_text[OF assms(4)] by metis
  show ?thesis
  proof (cases "sh_hptr st")
    case None
    then show ?thesis using assms(1-3) t by (simp add: storeHeader_def table_values_def)
  next
    case (Some hs)
    show ?thesis
    proof (cases "name_index C n hs")
      case None
      then have "\<forall>h \<in> set hs. \<not> strcaseeq (h_name h) n" using name_index_first[where n = n and hs = hs] by simp
      then show ?thesis using Some None assms(1-3) t find_append[of hs n v] by (simp add: storeHeader_def)
    next
      case (Some i)
      then have "i < length hs" "strcaseeq (h_name (hs ! i)) n" "\<forall>j < i. \<not> strcaseeq (h_name (hs ! j)) n"
        using name_index_first[where n = n and hs = hs] by simp_all
      then show ?thesis using \<open>sh_hptr st = Some hs\<close> Some assms(1-3) t find_update[of i hs n v] by (simp add: storeHeader_def)
    qed
  qed
qed

lemma store_all_values:
  assumes "\<forall>h \<in> set hs. storable M h"
  shows "\<exists>st'. store_all M C hs st = Some (st', 0)
    \<and> (\<forall>m. table_values (sh_hptr st') m = table_values (sh_hptr st) m @ map snd (filter (\<lambda>(n, v). strcaseeq n m) (header_pairs M hs)))"
  using assms
proof (induction hs arbitrary: st)
  case (Cons h hs)
  have ok: "storable M h" "\<forall>h \<in> set hs. storable M h" using Cons.prems by simp_all
  have step: "\<exists>st1. (if hname h \<noteq> None \<and> hdata h \<noteq> None then storeHeader M C h st else Some (st, 0)) = Some (st1, 0)
    \<and> (\<forall>m. table_values (sh_hptr st1) m = table_values (sh_hptr st) m @ map snd (filter (\<lambda>(n, v). strcaseeq n m) (header_pairs M [h])))"
  proof (cases "\<exists>n d. hname h = Some n \<and> hdata h = Some d \<and> d \<noteq> []")
    case True
    then obtain n d where nd: "hname h = Some n" "hdata h = Some d" "d \<noteq> []" by blast
    then obtain v where "header_text M n d = Some v" using ok(1) by (auto simp: storable_def)
    then show ?thesis using storeHeader_value[OF nd, of M v st] nd by (auto simp: header_pairs_def)
  next
    case False
    then show ?thesis by (auto simp: header_pairs_def storeHeader_def split: option.splits)
  qed
  then obtain st1 where st1: "(if hname h \<noteq> None \<and> hdata h \<noteq> None then storeHeader M C h st else Some (st, 0)) = Some (st1, 0)"
    "\<forall>m. table_values (sh_hptr st1) m = table_values (sh_hptr st) m @ map snd (filter (\<lambda>(n, v). strcaseeq n m) (header_pairs M [h]))" by blast
  have p: "header_pairs M (h # hs) = header_pairs M [h] @ header_pairs M hs" by (simp add: header_pairs_def)
  show ?case using Cons.IH[OF ok(2), of st1] st1 unfolding p by auto
qed (simp add: header_pairs_def)

end

lemma next_unrolled_eh: "next_unrolled M (e\<lparr>eh := x\<rparr>) = map_option (\<lambda>(e, l). (e\<lparr>eh := x\<rparr>, l)) (next_unrolled M e)"
  by (cases "eu e") (auto simp: next_unrolled_def bind_eq_Some_conv split: option.splits bind_splits)

lemma eps_headers_eh: "eps_headers n M e = Some (e', hs) \<Longrightarrow> \<exists>e''. eps_headers n M (e\<lparr>eh := x\<rparr>) = Some (e'', hs)"
proof (cases n)
  case (Suc k)
  assume a: "eps_headers n M e = Some (e', hs)"
  show ?thesis
  proof (cases "next_unrolled M e")
    case None
    then show ?thesis using a Suc by (simp add: eps_next_header_def)
  next
    case (Some p)
    then show ?thesis using a Suc by (cases p; cases "snd p") (auto simp: eps_next_header_def next_unrolled_eh)
  qed
qed simp

lemma store_headers_all:
  "eps_headers n M e = Some (e', hs) \<Longrightarrow> store_all M C hs st = Some (st', r) \<Longrightarrow> \<exists>e''. store_headers n M C e st = Some (e'', st', r)"
proof (induction n arbitrary: e e' hs st)
  case (Suc n)
  obtain e1 h where e1: "eps_next_header M e = Some (e1, h)" using Suc.prems(1) by (auto simp: bind_eq_Some_conv)
  show ?case
  proof (cases h)
    case None
    then show ?thesis using Suc.prems e1 by simp
  next
    case (Some h1)
    then obtain hs1 where hs1: "eps_headers n M e1 = Some (e', hs1)" "hs = h1 # hs1"
      using Suc.prems(1) e1 by (auto simp: bind_eq_Some_conv)
    obtain st1 r1 where s1: "(if hname h1 \<noteq> None \<and> hdata h1 \<noteq> None then storeHeader M C h1 st else Some (st, 0)) = Some (st1, r1)"
      "if r1 \<noteq> 0 then st' = st1 \<and> r = r1 else store_all M C hs1 st1 = Some (st', r)"
      using Suc.prems(2) hs1(2) by (auto simp: bind_eq_Some_conv split: if_splits)
    obtain e2 where e2: "eps_headers n M (eps_header_free e1) = Some (e2, hs1)"
      using eps_headers_eh[OF hs1(1)] by (auto simp: eps_header_free_def)
    show ?thesis
    proof (cases "r1 = 0")
      case True
      then show ?thesis using Suc.IH[OF e2, of st1] s1 e1 Some by auto
    next
      case False
      then show ?thesis using s1 e1 Some by auto
    qed
  qed
qed simp

subsection \<open>The end of the program\<close>

lemma wait_loop_cases: "wait_loop es s = s \<or> wait_loop es s = - 1"
  by (induction es s rule: wait_loop.induct) auto

lemma myExit_zero:
  assumes "myExit W C 1 b (Some f) fwd = (calls, ExitWith 0)" "f \<noteq> []" "case_diffb C f 10 ''/NoDeliver'' \<noteq> 0"
  shows "\<exists>fo es. hd calls = Child fo \<and> calls \<noteq> [] \<and> o_fork W fo = Some es \<and> wait_loop es 1 = 1 \<and> b \<noteq> 1 \<and> b \<noteq> 3
    \<and> (b = 2 \<longrightarrow> o_deliver W fwd \<notin> {- 1, - 2, - 3, - 4})"
proof -
  define fo where "fo = (if case_diffb C f 5 ''Inbox'' \<noteq> 0 then Some f else None)"
  obtain es where es: "o_fork W fo = Some es" "wait_loop es 1 > 0" and be: "bounce_exit W b [Child fo] fwd = (calls, ExitWith 0)"
    using assms by (auto simp: myExit_def child_status_def fo_def Let_def execMda_def split: option.splits if_splits)
  have "wait_loop es 1 = 1" using es(2) wait_loop_cases[of es 1] by auto
  then show ?thesis using es(1) be by (auto simp: bounce_exit_def execMda_def Let_def split: if_splits)
qed

subsection \<open>The list of header names\<close>

definition cut_hash :: "string \<Rightarrow> string" where
  "cut_hash x = takeWhile (\<lambda>c. c \<noteq> CHR ''#'') x"

definition name_on :: "string \<Rightarrow> string" where
  "name_on x = dropWhile isspace (cut_hash x)"

definition names_in :: "string list \<Rightarrow> string list" where
  "names_in xs = filter (\<lambda>n. n \<noteq> []) (map name_on xs)"

lemma names_in_simps: "names_in [] = []" "names_in (x # xs) = (if name_on x = [] then names_in xs else name_on x # names_in xs)"
  by (simp_all add: names_in_def)

lemma line_event_LF: "line_event (x @ [LF]) = GlLine (x @ [LF]) True"
  by (simp add: line_event_def)

context qstrings
begin

lemma cut_line_text:
  assumes "NUL \<notin> set x"
  shows "\<exists>b. cut_line Q (over (x @ [NUL]) buf) = Some b \<and> cstr_at b 0 = Some (cut_hash x)"
proof -
  let ?r = "drop (length x + 1) buf" and ?w = "cut_hash x"
  have o: "over (x @ [NUL]) buf = x @ NUL # ?r" by (simp add: over_def)
  have c: "cstr_at (x @ NUL # ?r) 0 = Some x" by (rule cstr_at_terminated[OF assms])
  have i: "str_chr Q x CHR ''#'' = length ?w" unfolding cut_hash_def by (rule chr_cases)
  show ?thesis
  proof (cases "CHR ''#'' \<in> set x")
    case True
    then obtain a b where x: "x = a @ CHR ''#'' # b" "CHR ''#'' \<notin> set a" using split_list_first by metis
    have w: "?w = a" unfolding x(1) cut_hash_def by (rule takeWhile_neq_append[OF x(2)])
    have "NUL \<notin> set a" using assms x by simp
    then have "cstr_at (a @ NUL # b @ NUL # ?r) 0 = Some a" by (rule cstr_at_terminated)
    moreover have "(x @ NUL # ?r)[length ?w := NUL] = a @ NUL # b @ NUL # ?r" unfolding w by (simp add: x(1))
    moreover have "length ?w < length x" unfolding w by (simp add: x(1))
    ultimately show ?thesis using c i w by (simp add: cut_line_def o)
  next
    case False
    have "?w = x" unfolding cut_hash_def by (rule takeWhile_neq_id[OF False])
    then show ?thesis using c i by (simp add: cut_line_def o)
  qed
qed

lemma count_names_lines:
  assumes "\<forall>x \<in> set xs. NUL \<notin> set x"
  shows "\<exists>b. count_names Q (map (\<lambda>x. line_event (x @ [LF])) xs) buf n = Some (Some (n + length (names_in xs), b))"
  using assms
proof (induction xs arbitrary: buf n)
  case (Cons x xs)
  show ?case
  proof (cases "x = []")
    case True
    then show ?thesis using Cons by (simp add: line_event_LF names_in_simps name_on_def cut_hash_def)
  next
    case False
    obtain b where b: "cut_line Q (over (x @ [NUL]) buf) = Some b" "cstr_at b 0 = Some (cut_hash x)"
      using cut_line_text[of x buf] Cons.prems by auto
    then show ?thesis using Cons.IH[of b n] Cons.IH[of b "Suc n"] Cons.prems False
      by (simp add: line_event_LF names_in_simps name_on_def[symmetric] del: dropWhile_eq_Nil_conv)
  qed
qed (simp add: names_in_def)

lemma read_names_lines:
  assumes "\<forall>x \<in> set xs. NUL \<notin> set x" "length acc + length (names_in xs) \<le> n"
  shows "read_names Q (map (\<lambda>x. line_event (x @ [LF])) xs) buf n acc = Some (Some (acc @ names_in xs))"
  using assms
proof (induction xs arbitrary: buf acc)
  case (Cons x xs)
  show ?case
  proof (cases "x = []")
    case True
    then show ?thesis using Cons by (simp add: line_event_LF names_in_simps name_on_def cut_hash_def)
  next
    case False
    let ?w = "cut_hash x"
    obtain b where b: "cut_line Q (over (x @ [NUL]) buf) = Some b" "cstr_at b 0 = Some ?w"
      using cut_line_text[of x buf] Cons.prems by auto
    have l: "length (name_on x) \<le> length x"
      using length_dropWhile_le[of isspace ?w] length_takeWhile_le[of _ x] by (auto simp: name_on_def cut_hash_def intro: order_trans)
    have w: "length ?w \<le> length x" by (simp add: cut_hash_def length_takeWhile_le)
    show ?thesis
    proof (cases "name_on x = []")
      case True
      then show ?thesis using Cons b False by (simp add: line_event_LF names_in_simps name_on_def[symmetric] Let_def del: dropWhile_eq_Nil_conv)
    next
      case nonempty: False
      have "read_names Q (map (\<lambda>x. line_event (x @ [LF])) xs) b n (acc @ [name_on x]) = Some (Some ((acc @ [name_on x]) @ names_in xs))"
        using Cons.prems nonempty by (intro Cons.IH) (auto simp: names_in_simps)
      then show ?thesis using Cons.prems b False nonempty l w
        by (simp add: line_event_LF names_in_simps name_on_def[symmetric] Let_def not_less not_le less_Suc_eq_le del: dropWhile_eq_Nil_conv)
    qed
  qed
qed (simp add: names_in_def)

lemma headerList_lines:
  assumes "\<forall>x \<in> set xs. NUL \<notin> set x"
  shows "headerList Q (Some (map (\<lambda>x. line_event (x @ [LF])) xs)) = Some (Some (names_in xs))"
proof -
  obtain b where "count_names Q (map (\<lambda>x. line_event (x @ [LF])) xs) [] 0 = Some (Some (length (names_in xs), b))"
    using count_names_lines[OF assms, of "[]" 0] by auto
  then show ?thesis using read_names_lines[OF assms, of "[]" "length (names_in xs)" b] by (simp add: headerList_def)
qed

lemma headerList_unterminated: "headerList Q (Some [GlLine (''Subject'' @ [LF]) True, GlLine ''To'' False]) = None"
  by (simp add: headerList_def cut_line_def over_def cstr_at_def chr_cases isspace_def Let_def)

end

end
