(* ===== verification/Vfilter_Samples.thy ===== *)
theory Vfilter_Samples
  imports Vfilter_Spec Eps_Samples
begin

text \<open>A reference environment for the filter, which meets its contract, and concrete rules and headers.\<close>

lemma ref_str_str_none: "ref_str_str s t = None \<longleftrightarrow> \<not> sublist t s"
proof (induction s)
  case (Cons c cs)
  have "sublist t (c # cs) \<longleftrightarrow> take (length t) (c # cs) = t \<or> sublist t cs"
    by (metis sublist_Cons_right prefix_sublist_take prefix_def append_eq_conv_conj)
  then show ?case using Cons by simp
qed auto

lemma ref_str_str_found: "ref_str_str s t = Some i \<Longrightarrow> take (length t) (drop i s) = t"
  by (induction s arbitrary: i) (auto split: if_splits)

definition vf_ref :: "(string \<Rightarrow> sel_result) \<Rightarrow> getln_event list option \<Rightarrow> vf_env" where
  "vf_ref sel hs = \<lparr>v_mem = big_memory, v_str = qstr_ref, v_case = qcase_ref, v_rchr = ref_rchr, v_iopen = True, v_select = sel,
     v_real_domain = (\<lambda>d. None), v_default_domain = ''localhost'', v_vartable = True, v_replacestr = (\<lambda>e p d. None),
     v_evaluate = (\<lambda>e. ERROR_SYNTAX), v_regex = (\<lambda>d k. 0), v_headers = hs, v_exists = (\<lambda>f. False)\<rparr>"

lemma vf_ref_sel [simp]: "v_mem (vf_ref sel hs) = big_memory" "v_str (vf_ref sel hs) = qstr_ref" "v_case (vf_ref sel hs) = qcase_ref"
  "v_iopen (vf_ref sel hs)" "v_select (vf_ref sel hs) = sel" "v_headers (vf_ref sel hs) = hs"
  by (simp_all add: vf_ref_def)

interpretation ref_filter: filter_lib "vf_ref sel hs"
proof -
  have "filter_lib_axioms (vf_ref sel hs)"
    by unfold_locales (simp_all add: qstr_ref_def ref_str_str_none ref_str_str_found)
  then show "filter_lib (vf_ref sel hs)"
    using ref_str.qstrings_axioms ref_case.caseless_axioms by (simp add: filter_lib_def)
qed

definition sample_rule_st :: vf_st where
  "sample_rule_st = \<lparr>v_res = None, v_rule = \<lparr>filter_no = 0, filter_name = [], header_name = 0, comparision = 5, keyword = [], folder = [],
     bounce_action = 0, forward = None\<rparr>, v_user = sa_text [], v_domain = sa_text []\<rparr>"

definition sample_rows :: "string list list" where
  "sample_rows = [[''1'', ''a'', ''2'', ''1'', ''Spam'', ''Junk'', ''0''], [''2'', ''b'', ''2'', ''3'', ''hi'', ''/NoDeliver'', ''0'']]"

definition sample_rule :: "int \<Rightarrow> string \<Rightarrow> int \<Rightarrow> string \<Rightarrow> string \<Rightarrow> vrule" where
  "sample_rule n nm c k f = \<lparr>filter_no = n, filter_name = nm, header_name = 2, comparision = c, keyword = k, folder = f,
     bounce_action = 0, forward = None\<rparr>"

lemma sample_scan: "scan_int qstr_ref ''0'' = 0" "scan_int qstr_ref ''1'' = 1" "scan_int qstr_ref ''2'' = 2" "scan_int qstr_ref ''3'' = 3"
  using ref_str.int_val[of "''0''"] ref_str.int_val[of "''1''"] ref_str.int_val[of "''2''"] ref_str.int_val[of "''3''"]
  by (simp_all add: all_digits_def numval_def digit_val_def)

lemma sample_rules: "load_rules qstr_ref sample_rows None
    = Some [sample_rule 1 ''a'' 1 ''Spam'' ''Junk'', sample_rule 2 ''b'' 3 ''hi'' ''/NoDeliver'']"
  by (simp add: sample_rows_def sample_rule_def load_rule_def sample_scan Let_def)

lemma sample_rule_sel [simp]: "comparision (sample_rule n nm c k f) = c" "header_name (sample_rule n nm c k f) = 2"
  "lower_rule (sample_rule n nm c k f) = sample_rule n nm c (lowerit k) f" "keyword (sample_rule n nm c k f) = k"
  by (simp_all add: sample_rule_def lower_rule_def)

lemma sample_names: "vfilter_header ! 2 = ''Subject''" "2 < length vfilter_header"
  by (simp_all add: vfilter_header_def)

lemma sample_found: "find (rule_applies (vf_ref sel None) vfilter_header [\<lparr>h_name = ''Subject'', h_data = [''hi there'']\<rparr>])
      [sample_rule 1 ''a'' 1 ''Spam'' ''Junk'', sample_rule 2 ''b'' 3 ''hi'' ''/NoDeliver''] = Some (sample_rule 2 ''b'' 3 ''hi'' ''/NoDeliver'')"
proof -
  have l: "lowerit ''Spam'' = ''spam''" "lowerit ''hi'' = ''hi''" by code_simp+
  have c: "case_diffb qcase_ref t n t = 0" for t n by (simp add: qcase_ref_def strncaseeq_def)
  have s: "str_str qstr_ref ''hi there'' ''spam'' = None" "str_diffn qstr_ref d k n = (if take n (d @ [NUL]) = take n (k @ [NUL]) then 0 else 1)" for d k n
    by (simp_all add: qstr_ref_def)
  show ?thesis using l c s by (simp add: rule_applies_def header_matches_def value_matches_def sample_names)
qed

lemma sample_stored: "header_of ''Subject: hi'' = \<lparr>hname = Some ''Subject'', hdata = Some ''hi'', horig = Some ''Subject: hi'',
     hatoms = Some [\<lparr>aname = None, adata = Some ''hi''\<rparr>]\<rparr>"
  by (simp add: header_of_def strip_eval rfc2822_next_token_def Let_def atoms_of_def split_plain.simps
      rtrim_def ltrim_def rfc2822_is_wsp_def atom_of_def)

lemma sample_plain: "\<not> list_ex (\<lambda>x. strcaseeq x ''Subject'') i_headers" "strcaseeq ''Subject'' ''SUBJECT''" "strcaseeq ''TO'' ''To''"
  by code_simp+

lemma sample_storable: "storable M (header_of ''Subject: hi'')" "header_pairs M [header_of ''Subject: hi''] = [(''Subject'', ''hi'')]"
  using sample_plain(1) by (simp_all add: storable_def header_text_def header_pairs_def sample_stored)

lemma sample_pieces: "split_plain CHR '','' ''a@b,c@d'' = [''a@b'', ''c@d'']"
proof -
  have "rfc2822_next_token ''a@b,c@d'' CHR '','' None = 3" "rfc2822_next_token ''c@d'' CHR '','' None = 3"
    by (simp_all add: rfc2822_next_token_def)
  then show ?thesis by (simp add: split_plain.simps)
qed

lemma sample_two: "members_of ''a@b,c@d'' = [address_of ''a@b'', address_of ''c@d'']" "group (group_of ''a@b,c@d'') = None"
  by (simp_all add: group_of_def members_of_def sample_pieces rfc2822_next_token_def hit_def Let_def)

lemma sample_two_text: "addr_text (address_of ''c@d'') = Some ''c@d''"
  by (simp add: addr_text_def address_of_def mailbox_of_def domain_of_def address_eval)

lemma sample_two_clean: "group_clean ''a@b,c@d''"
  by (simp add: group_clean_def address_room_def room_def address_eval)

end
