(* ===== verification/Mquota.thy ===== *)
theory Mquota
  imports Account_Spec
begin

text \<open>
  The usage of a mailbox: \<^verbatim>\<open>count_dir.c\<close>, \<^verbatim>\<open>skip_system_files.c\<close>, \<^verbatim>\<open>check_quota.c\<close>, \<^verbatim>\<open>recalc_quota.c\<close>,
  \<^verbatim>\<open>update_quota.c\<close> and \<^verbatim>\<open>user_over_quota.c\<close>, as they are compiled with quotas in the file \<^verbatim>\<open>maildirsize\<close>: its
  first line is the limit, each other line a size and a number of messages that were added.

  The type \<^verbatim>\<open>mdir_t\<close> is a word of 64 bits, which is read as a signed number where it is compared. A sum of two such
  numbers outside the range is undefined; a sum with an unsigned number wraps around. Memory does not run out, and the
  owner the file is given is left out, as are the warnings. The tree of a directory is finite.
\<close>

text \<open>A directory, as \<^verbatim>\<open>stat\<close>, \<^verbatim>\<open>opendir\<close> and \<^verbatim>\<open>readdir\<close> show it.\<close>

datatype dnode = DFile u64 | DNoStat | DClosed | DDir "(string \<times> dnode) list"

datatype wopen = WOk | WNoEnt | WErr

record mq_env =
  q_str :: qstr
  q_scan_ulong :: "string \<Rightarrow> u64"
  q_fmt :: "nat \<Rightarrow> string"
  q_tree :: "string \<Rightarrow> dnode"
  q_getlns :: "string \<Rightarrow> getln_event list"
  q_include_trash :: bool
  q_fast :: bool
  q_recent :: "string \<Rightarrow> bool"
  q_max_size :: nat
  q_readable :: "string \<Rightarrow> bool"
  q_wopen :: "string \<Rightarrow> wopen"
  q_lock :: bool
  q_chown :: bool
  q_written :: "nat option"

text \<open>The files, the static variables of \<^verbatim>\<open>recalc_quota\<close> and the two global variables.\<close>

record mq_st =
  mq_files :: "string \<Rightarrow> string option"
  mail_size :: u64
  mail_count :: u64
  prevmaildir :: string
  CurBytes :: u64
  CurCount :: u64

subsection \<open>Counting a directory\<close>

definition system_files :: "string list" where
  "system_files = [''.Trash'', ''.current_size'', ''domain'', ''QuotaWarn'', ''vfilter'', ''folder.dateformat'', ''noprefilt'',
     ''nopostfilt'', ''BulkMail'', ''deliveryCount'', ''maildirfolder'', ''maildirsize'', ''core'', ''sqwebmail'', ''courier'',
     ''shared-maildirs'', ''shared-timestamp'', ''shared-folders'']"

definition skip_system_files :: "qstr \<Rightarrow> string \<Rightarrow> bool" where
  "skip_system_files Q filename \<longleftrightarrow> list_ex (\<lambda>f. str_diffn Q filename f (length f + 1) = 0) system_files"

definition skipped :: "qstr \<Rightarrow> string \<Rightarrow> bool" where
  "skipped Q n \<longleftrightarrow> str_diffn Q n ''.'' 2 = 0 \<or> str_diffn Q n ''..'' 3 = 0 \<or> skip_system_files Q n"

definition in_trash :: "mq_env \<Rightarrow> string \<Rightarrow> bool" where
  "in_trash E dir_name \<longleftrightarrow> \<not> q_include_trash E \<and> str_str (q_str E) dir_name ''/Maildir/.Trash'' \<noteq> None"

definition LL :: "int \<Rightarrow> bool" where
  "LL i \<longleftrightarrow> LLONG_MIN \<le> i \<and> i \<le> LLONG_MAX"

definition sadd :: "u64 \<Rightarrow> u64 \<Rightarrow> u64 ub" where
  "sadd a b = (if LL (sint a + sint b) then Some (a + b) else None)"

text \<open>The number of messages, which is kept only if the caller asks for it: \<open>None\<close> if it does not.\<close>

definition cadd :: "u64 option \<Rightarrow> u64 \<Rightarrow> u64 option ub" where
  "cadd c n = (case c of None \<Rightarrow> Some None | Some k \<Rightarrow> do { k \<leftarrow> sadd k n; Some (Some k) })"

text \<open>The size and the number of messages. When a directory cannot be opened, the number is left as it was: the second
  part is \<open>None\<close>. Adding a number that was never set is undefined.\<close>

fun count_dir :: "mq_env \<Rightarrow> bool \<Rightarrow> string \<Rightarrow> dnode \<Rightarrow> (u64 \<times> u64 option) ub"
  and count_entries :: "mq_env \<Rightarrow> string \<Rightarrow> (string \<times> dnode) list \<Rightarrow> u64 \<Rightarrow> u64 option \<Rightarrow> (u64 \<times> u64 option) ub" where
  "count_dir E want dir_name (DDir es) = (if dir_name = [] then Some (0, None)
     else count_entries E dir_name es 0 (if want then Some 0 else None))"
| "count_dir E want dir_name (DFile n) = Some (0, None)"
| "count_dir E want dir_name DNoStat = Some (0, None)"
| "count_dir E want dir_name DClosed = Some (0, None)"
| "count_entries E dir_name [] s c = Some (s, c)"
| "count_entries E dir_name ((n, x) # es) s c =
     (if skipped (q_str E) n then count_entries E dir_name es s c
      else (case str_str (q_str E) n '',S='' of
          Some i \<Rightarrow> do {
            s \<leftarrow> sadd s (q_scan_ulong E (drop (i + 3) n)); c \<leftarrow> cadd c 1;
            count_entries E dir_name es s c }
        | None \<Rightarrow> (case x of
            DNoStat \<Rightarrow> count_entries E dir_name es s c
          | DFile k \<Rightarrow>
              if \<not> q_include_trash E \<and> n = [] then None
              else if \<not> q_include_trash E \<and> (last n = CHR ''T'' \<or> in_trash E dir_name) then count_entries E dir_name es s c
              else do { c \<leftarrow> cadd c 1; s \<leftarrow> sadd s k; count_entries E dir_name es s c }
          | _ \<Rightarrow> do {
              (s', c') \<leftarrow> count_dir E True (dir_name @ ''/'' @ n) x;
              s \<leftarrow> sadd s s';
              c \<leftarrow> (case c of None \<Rightarrow> Some None | Some k \<Rightarrow> do { c' \<leftarrow> c'; cadd c c' });
              count_entries E dir_name es s c })))"

subsection \<open>The file\<close>

text \<open>The path of a mailbox: the text up to \<^verbatim>\<open>/Maildir/\<close>, and the same without a slash at its end.\<close>

definition mdir_path :: "qstr \<Rightarrow> string \<Rightarrow> (string \<times> string) ub" where
  "mdir_path Q p = (let s = (case str_str Q p ''/Maildir/'' of
       None \<Rightarrow> p | Some i \<Rightarrow> if i + 9 < length p then take (i + 9) p else p)
     in if s = [] then None else Some (s, if last s = CHR ''/'' then butlast s else s))"

definition size_file :: "string \<Rightarrow> string" where
  "size_file m = m @ ''/maildirsize''"

fun sum_lines :: "mq_env \<Rightarrow> getln_event list \<Rightarrow> u64 \<Rightarrow> u64 \<Rightarrow> u64 \<times> u64" where
  "sum_lines E [] s t = (s, t)"
| "sum_lines E (GlErr # es) s t = (s, t)"
| "sum_lines E (GlLine l match # es) s t =
     (if l = [] then (s, t)
      else if match \<and> butlast l = [] then sum_lines E es s t
      else (let x = takeWhile (\<lambda>c. c \<noteq> NUL) (if match then butlast l else l); i = str_chr (q_str E) x SP in
        if i < length x then sum_lines E es (s + q_scan_ulong E (take i x)) (t + q_scan_ulong E (drop (i + 1) x))
        else sum_lines E es s t))"

text \<open>\<open>want\<close> is the number the caller wants to have set. The result -1 is the word of all ones.\<close>

definition check_quota :: "mq_env \<Rightarrow> string \<Rightarrow> u64 option \<Rightarrow> mq_st \<Rightarrow> (u64 \<times> u64 option) ub" where
  "check_quota E Maildir want st = do {
     (s, m) \<leftarrow> mdir_path (q_str E) Maildir;
     (case mq_files st (size_file m) of
        None \<Rightarrow> Some (0, want)
      | Some d \<Rightarrow>
          if \<not> q_readable E (size_file m) \<or> \<not> q_lock E then Some (- 1, want)
          else (case sum_lines E (q_getlns E d) 0 0 of (n, t) \<Rightarrow>
            if sint n < 0 \<or> want \<noteq> None \<and> sint t < 0 then do {
              (n, c) \<leftarrow> count_dir E (want \<noteq> None) s (q_tree E s);
              Some (n, if want = None then None else if c = None then Some t else c) }
            else Some (n, if want = None then None else Some t))) }"

definition size_line :: "mq_env \<Rightarrow> u64 \<Rightarrow> u64 \<Rightarrow> string" where
  "size_line E n c = q_fmt E (unat n) @ '' '' @ q_fmt E (unat c) @ [LF]"

definition limit_line :: "mq_env \<Rightarrow> u64 \<Rightarrow> u64 \<Rightarrow> string" where
  "limit_line E size_limit count_limit = (if count_limit \<noteq> 0 then q_fmt E (unat size_limit) @ ''S,'' @ q_fmt E (unat count_limit) @ ''C'' @ [LF]
     else q_fmt E (unat size_limit) @ ''S'' @ [LF])"

text \<open>Counting the directory and writing the file anew.\<close>

definition rewrite_file :: "mq_env \<Rightarrow> string \<Rightarrow> string \<Rightarrow> u64 \<Rightarrow> u64 \<Rightarrow> mq_st \<Rightarrow> (mq_st \<times> u64 \<times> u64 option) ub" where
  "rewrite_file E s m size_limit count_limit st = do {
     (n, c) \<leftarrow> count_dir E True s (q_tree E s);
     (let st = st\<lparr>mail_size := n, mail_count := (case c of None \<Rightarrow> mail_count st | Some c \<Rightarrow> c)\<rparr>; fn = size_file m in
      case q_wopen E fn of
        WNoEnt \<Rightarrow> Some (st\<lparr>mail_size := 0\<rparr>, 0, None)
      | WErr \<Rightarrow> Some (st, - 1, None)
      | WOk \<Rightarrow>
          if \<not> q_lock E \<or> \<not> q_chown E then Some (st\<lparr>mq_files := (mq_files st)(fn := Some [])\<rparr>, - 1, None)
          else (let t = limit_line E size_limit count_limit
                  @ (if mail_size st \<noteq> 0 \<or> mail_count st \<noteq> 0 then size_line E (mail_size st) (mail_count st) else []) in
            case q_written E of
              Some k \<Rightarrow> Some (st\<lparr>mq_files := (mq_files st)(fn := Some (take k t))\<rparr>, - 1, Some (mail_count st))
            | None \<Rightarrow> Some (st\<lparr>mq_files := (mq_files st)(fn := Some t), CurCount := mail_count st, prevmaildir := m\<rparr>,
                mail_size st, Some (mail_count st)))) }"

text \<open>The result and, if it was set, the number of messages (0 otherwise).\<close>

definition recalc_quota :: "mq_env \<Rightarrow> string \<Rightarrow> u64 \<Rightarrow> u64 \<Rightarrow> int \<Rightarrow> mq_st \<Rightarrow> (mq_st \<times> u64 \<times> u64) ub" where
  "recalc_quota E Maildir size_limit count_limit force_flag st = do {
     (s, m) \<leftarrow> mdir_path (q_str E) Maildir;
     (if (force_flag = 0 \<or> q_fast E)
         \<and> (case mq_files st (size_file m) of None \<Rightarrow> False
            | Some d \<Rightarrow> q_fast E \<or> q_recent E (size_file m) \<and> length d \<le> q_max_size E)
      then (if mail_size st = 0 \<or> mail_count st = 0 then do {
              (n, t) \<leftarrow> check_quota E s (Some (mail_count st)) st;
              t \<leftarrow> t;
              Some (st\<lparr>mail_size := n, mail_count := t\<rparr>, n, t) }
            else Some (st, mail_size st, mail_count st))
      else if force_flag \<noteq> 2 \<and> prevmaildir st \<noteq> [] \<and> str_diffn (q_str E) s (prevmaildir st) (length (prevmaildir st) + 1) = 0
      then Some (st, mail_size st, 0)
      else do {
        (st, n, c) \<leftarrow> rewrite_file E s m size_limit count_limit st;
        Some (st, n, case c of None \<Rightarrow> 0 | Some c \<Rightarrow> c) }) }"

definition update_quota :: "mq_env \<Rightarrow> string \<Rightarrow> u64 \<Rightarrow> mq_st \<Rightarrow> (mq_st \<times> int) ub" where
  "update_quota E Maildir new_size st = (if Maildir = [] then None
     else (let m = (if last Maildir = CHR ''/'' then butlast Maildir else Maildir); fn = size_file m in
       case mq_files st fn of
         None \<Rightarrow> Some (st, 0)
       | Some d \<Rightarrow>
           if q_wopen E fn \<noteq> WOk \<or> \<not> q_lock E \<or> \<not> q_chown E then Some (st, - 1)
           else (case q_written E of
               Some k \<Rightarrow> Some (st\<lparr>mq_files := (mq_files st)(fn := Some (d @ take k (q_fmt E (unat new_size) @ '' 1'' @ [LF])))\<rparr>, - 1)
             | None \<Rightarrow> Some (st\<lparr>mq_files := (mq_files st)(fn := Some (d @ q_fmt E (unat new_size) @ '' 1'' @ [LF]))\<rparr>, 1))))"

subsection \<open>The decision\<close>

text \<open>Without a quota the limit would be read from the file, but its name is left without a terminator (the
  terminator is appended to another buffer), which is undefined. A sum outside the range of the type is
  undefined, too.\<close>

definition over_size :: "u64 \<Rightarrow> int \<Rightarrow> int \<Rightarrow> bool ub" where
  "over_size n cur_msgsize limit = (if LL (sint n + cur_msgsize) then Some (sint n + cur_msgsize > limit) else None)"

definition over_count :: "u64 \<Rightarrow> int \<Rightarrow> bool ub" where
  "over_count c limit = (if limit = 0 then Some False else if LL (sint c + 1) then Some (sint c + 1 > limit) else None)"

definition user_over_quota :: "mq_env \<Rightarrow> string \<Rightarrow> string \<Rightarrow> int \<Rightarrow> mq_st \<Rightarrow> (mq_st \<times> int) ub" where
  "user_over_quota E Maildir quota cur_msgsize st = do {
     (s, m) \<leftarrow> mdir_path (q_str E) Maildir;
     (if quota = [] then None
      else if str_diffn (q_str E) quota ''0S'' 2 = 0 then Some (st, 0)
      else do {
        (size_limit, count_limit) \<leftarrow> parse_quota (q_str E) quota (Some 0);
        count_limit \<leftarrow> count_limit;
        (if size_limit = - 1 then Some (st, - 1)
         else do {
           (st, n, c) \<leftarrow> recalc_quota E s (word_of_int size_limit) (word_of_int count_limit) 0 st;
           let st = st\<lparr>CurBytes := n\<rparr>;
           (if n = - 1 then Some (st, - 1)
            else do {
              let st = st\<lparr>CurCount := c\<rparr>;
              over \<leftarrow> over_size n cur_msgsize size_limit;
              (if \<not> over then do { full \<leftarrow> over_count c count_limit; Some (st, if full then 1 else 0) }
               else if q_fast E then Some (st, 1)
               else do {
                 (st, n, c) \<leftarrow> recalc_quota E s (word_of_int size_limit) (word_of_int count_limit) 2 st;
                 let st = st\<lparr>CurBytes := n\<rparr>;
                 (if n = - 1 then Some (st, - 1)
                  else do {
                    over \<leftarrow> over_size n cur_msgsize size_limit;
                    (if over then Some (st, 1)
                     else do { full \<leftarrow> over_count c count_limit; Some (st, if full then 1 else 0) }) }) }) }) }) }) }"

end
