(* ===== verification/Mailcount.thy ===== *)
theory Mailcount
  imports Mquota
begin

text \<open>
  The daily limits of a mailbox: \<open>recordMailcount\<close> of \<^verbatim>\<open>deliver_mail.c\<close>. The file \<^verbatim>\<open>deliveryCount\<close> has a line for every day,
  with the date, the number of messages and their size; the last line is overwritten in place on the same day.

  The clock, the environment variables, the lock and the results of the system calls are the record \<open>mc_env\<close>. Bytes behind the end of a line are not specified: reading them is undefined.
\<close>

record tm_t =
  tm_mday :: nat
  tm_mon :: nat
  tm_year :: nat
  tm_hour :: nat
  tm_min :: nat
  tm_sec :: nat

record mc_env =
  c_mq :: mq_env
  c_localtime :: "tm_t option"
  c_dblock :: bool
  c_open :: bool
  c_seek :: bool
  c_stderr :: bool
  c_written :: "nat option"
  c_getenv :: "string \<Rightarrow> string option"

definition getEnvConfigStr :: "mc_env \<Rightarrow> string \<Rightarrow> string \<Rightarrow> string" where
  "getEnvConfigStr E envname defaultValue = (case c_getenv E envname of None \<Rightarrow> defaultValue | Some v \<Rightarrow> v)"

definition getEnvConfiguLong :: "mc_env \<Rightarrow> string \<Rightarrow> u64 \<Rightarrow> u64" where
  "getEnvConfiguLong E envname defaultValue = (case c_getenv E envname of None \<Rightarrow> defaultValue | Some v \<Rightarrow> q_scan_ulong (c_mq E) v)"

definition c_mail_limit :: "mc_env \<Rightarrow> u64" where
  "c_mail_limit E = getEnvConfiguLong E ''MAILCOUNT_LIMIT'' 1500"

definition c_size_limit :: "mc_env \<Rightarrow> u64" where
  "c_size_limit E = getEnvConfiguLong E ''MAILSIZE_LIMIT'' 10485760"

definition two :: "mq_env \<Rightarrow> nat \<Rightarrow> string" where
  "two E n = (if n < 10 then ''0'' else []) @ q_fmt E n"

definition datebuf :: "mq_env \<Rightarrow> tm_t \<Rightarrow> string" where
  "datebuf E t = two E (tm_mday t) @ ''-'' @ two E (tm_mon t + 1) @ ''-'' @ q_fmt E (tm_year t + 1900) @ '':''
     @ two E (tm_hour t) @ '':'' @ two E (tm_min t) @ '':'' @ two E (tm_sec t)"

subsection \<open>The lines of the file\<close>

definition wordchar :: "char \<Rightarrow> bool" where
  "wordchar c \<longleftrightarrow> c \<noteq> NUL \<and> \<not> isspace c"

text \<open>The three fields of a line, as far as the line has them. A line that ends with a newline is not terminated.\<close>

definition line_fields :: "string \<Rightarrow> (string option \<times> string option \<times> string option) ub" where
  "line_fields m = (let w = takeWhile wordchar m; r = dropWhile wordchar m in
     if r = [] then None
     else if hd r = NUL then Some (None, None, None)
     else (let r = dropWhile isspace r in
       if r = [] then None
       else if hd r = NUL then Some (Some w, None, None)
       else (let r2 = dropWhile wordchar r in
         if r2 = [] then None
         else if hd r2 = NUL then Some (Some w, Some r, None)
         else (let r3 = dropWhile isspace r2 in
           if r3 = [] then None
           else if hd r3 = NUL then Some (Some w, Some r, None)
           else Some (Some w, Some r, Some r3)))))"

text \<open>What the loop has read: the variables \<open>tmpdate\<close>, \<open>count\<close> and \<open>size\<close>, which are not set at first, and \<open>pos\<close>.\<close>

record mc_scan =
  s_date :: "string option"
  s_count :: "u64 option"
  s_size :: "u64 option"
  s_pos :: nat

definition or_else :: "'a option \<Rightarrow> 'a option \<Rightarrow> 'a option" where
  "or_else x y = (case x of None \<Rightarrow> y | Some _ \<Rightarrow> x)"

definition take_line :: "mq_env \<Rightarrow> string \<Rightarrow> bool \<Rightarrow> mc_scan \<Rightarrow> mc_scan ub" where
  "take_line E l match s = do {
     (d, c, z) \<leftarrow> line_fields (if match then l else l @ [NUL]);
     Some \<lparr>s_date = or_else d (s_date s), s_count = or_else (map_option (q_scan_ulong E) c) (s_count s),
       s_size = or_else (map_option (q_scan_ulong E) z) (s_size s),
       s_pos = (if z = None then s_pos s else length (if match then butlast l else l))\<rparr> }"

text \<open>The result \<open>Some None\<close> is an error of \<open>getln\<close>.\<close>

fun scan_lines :: "mq_env \<Rightarrow> getln_event list \<Rightarrow> mc_scan \<Rightarrow> mc_scan option ub" where
  "scan_lines E [] s = Some (Some s)"
| "scan_lines E (GlErr # es) s = Some None"
| "scan_lines E (GlLine l match # es) s =
     (if l = [] then Some (Some s)
      else if match \<and> butlast l = [] then scan_lines E es s
      else do { s \<leftarrow> take_line E l match s; scan_lines E es s })"

subsection \<open>The counter\<close>

definition overwrite :: "string \<Rightarrow> nat \<Rightarrow> string \<Rightarrow> string" where
  "overwrite d off t = take off d @ t @ drop (off + length t) d"

definition count_text :: "mq_env \<Rightarrow> string \<Rightarrow> u64 \<Rightarrow> u64 \<Rightarrow> string ub" where
  "count_text E b count sz = (if length b < 18 then None
     else Some (take 19 (b @ [NUL]) @ SP # q_fmt E (unat count) @ SP # q_fmt E (unat sz) @ [LF]))"

definition count_file :: "mq_st \<Rightarrow> string \<Rightarrow> string" where
  "count_file st m = (case mq_files st (m @ ''/deliveryCount'') of None \<Rightarrow> [] | Some d \<Rightarrow> d)"

definition set_count_file :: "string \<Rightarrow> string \<Rightarrow> mq_st \<Rightarrow> mq_st" where
  "set_count_file m d st = st\<lparr>mq_files := (mq_files st)(m @ ''/deliveryCount'' := Some d)\<rparr>"

definition over_limits :: "mc_env \<Rightarrow> u64 \<Rightarrow> u64 \<Rightarrow> bool" where
  "over_limits E count sz \<longleftrightarrow>
     (c_mail_limit E > 0 \<and> count > c_mail_limit E) \<or> (c_size_limit E > 0 \<and> sz > c_size_limit E)"

text \<open>The result with the usage of the day before this message (0 when it was not set).\<close>

definition recordMailcount :: "mc_env \<Rightarrow> string \<Rightarrow> u64 \<Rightarrow> mq_st \<Rightarrow> (mq_st \<times> int \<times> u64 \<times> u64) ub" where
  "recordMailcount E maildir curmsgsize st = (case c_localtime E of
     None \<Rightarrow> Some (st, - 2, 0, 0)
   | Some t \<Rightarrow>
      (let b = datebuf (c_mq E) t in
       if 28 \<le> length b then None
       else if \<not> c_dblock E \<or> \<not> c_open E then Some (st, - 2, 0, 0)
       else (let d = count_file st maildir; st = set_count_file maildir d st in do {
         r \<leftarrow> scan_lines (c_mq E) (q_getlns (c_mq E) d) \<lparr>s_date = None, s_count = None, s_size = None, s_pos = 0\<rparr>;
         (case r of
            None \<Rightarrow> Some (st, - 2, 0, 0)
          | Some s \<Rightarrow>
             (let same = (case s_date s of None \<Rightarrow> False | Some x \<Rightarrow> str_diffn (q_str (c_mq E)) x b 10 = 0) in
              if same \<and> \<not> c_seek E then Some (st, - 2, 0, 0)
              else do {
                count \<leftarrow> (if same then s_count s else Some 0);
                sz \<leftarrow> (if same then s_size s else Some 0);
                (if over_limits E (count + 1) (sz + curmsgsize)
                 then Some (st, if c_stderr E then - 1 else - 2, count, sz)
                 else do {
                   t \<leftarrow> count_text (c_mq E) b (count + 1) (sz + curmsgsize);
                   (let off = (if same then length d - s_pos s else length d) in case c_written E of
                      Some k \<Rightarrow> Some (set_count_file maildir (overwrite d off (take k t)) st, - 1, count, sz)
                    | None \<Rightarrow> Some (set_count_file maildir (overwrite d off t) st, 0, count, sz)) }) })) })))"

end
