(* ===== verification/Deliver_Parts.thy ===== *)
theory Deliver_Parts
  imports Mailcount
begin

text \<open>
  The functions around \<open>deliver_mail\<close>: the loop check, the quota of a mailbox, its mail address (\<^verbatim>\<open>maildir_to_email.c\<close>), the
  quota warning (\<^verbatim>\<open>MailQuotaWarn.c\<close>), the alert configuration and the header lines that a delivery adds.

  A step of the delivery works on a state \<open>dm_st\<close> (the files and static variables of \<open>Mquota\<close>, those of the delivery,
  and the list of calls that leave the process); it continues with a value, returns from \<open>deliver_mail\<close> with a code, or
  ends the process. Files are read from the state; their owners and modes are left out, and memory does not run out.
\<close>

record dm_env =
  d_mc :: mc_env
  d_rchr :: "string \<Rightarrow> char \<Rightarrow> nat"
  d_lseek :: bool
  d_lines :: "getln_event list"
  d_reads :: "rd_event list"
  d_sticky :: "string \<Rightarrow> bool option"
  d_exec :: "string \<Rightarrow> bool"
  d_pw_shell :: "string \<Rightarrow> string \<Rightarrow> string option"
  d_default_domain :: string
  d_get_localtime :: string
  d_pid :: nat
  d_uid :: nat
  d_root :: bool
  d_time :: nat
  d_dup :: "string \<Rightarrow> bool"
  d_strftime :: "string \<Rightarrow> string option"
  d_exists :: "string \<Rightarrow> bool"
  d_mkdir :: "string \<Rightarrow> bool"
  d_warn_due :: "string \<Rightarrow> bool"
  d_udp :: "string \<Rightarrow> string \<Rightarrow> bool"
  d_CONTROLDIR :: string
  d_SYSCONFDIR :: string
  d_BASE_PATH :: string
  d_LIBEXECDIR :: string
  d_PREFIX :: string

datatype dm_call = RunCmd string | LastDeliver string string u64 | Alert string string string | MkDir string
  | Exec "string list" bool string | LastAuth string string string

record dm_st =
  d_mq :: mq_st
  d_counter :: nat
  alert_host :: "string option"
  alert_port :: "string option"
  MailQuotaCount :: int
  MailQuotaSize :: int
  d_log :: "dm_call list"

datatype 'a step = Go 'a | Stop int | Quit int

type_synonym 'a dm = "dm_st \<Rightarrow> (dm_st \<times> 'a step) ub"

definition thenm :: "'a dm \<Rightarrow> ('a \<Rightarrow> 'b dm) \<Rightarrow> 'b dm" where
  "thenm m f st = (case m st of None \<Rightarrow> None
     | Some (st, Go x) \<Rightarrow> f x st
     | Some (st, Stop n) \<Rightarrow> Some (st, Stop n)
     | Some (st, Quit n) \<Rightarrow> Some (st, Quit n))"

definition gom :: "'a \<Rightarrow> 'a dm" where "gom x st = Some (st, Go x)"
definition stopm :: "int \<Rightarrow> 'a dm" where "stopm n st = Some (st, Stop n)"
definition quitm :: "int \<Rightarrow> 'a dm" where "quitm n st = Some (st, Quit n)"
definition ofub :: "'a ub \<Rightarrow> 'a dm" where "ofub r st = (case r of None \<Rightarrow> None | Some x \<Rightarrow> Some (st, Go x))"
definition getm :: "(dm_st \<Rightarrow> 'a) \<Rightarrow> 'a dm" where "getm f st = Some (st, Go (f st))"
definition modm :: "(dm_st \<Rightarrow> dm_st) \<Rightarrow> unit dm" where "modm f st = Some (f st, Go ())"
definition logm :: "dm_call \<Rightarrow> unit dm" where "logm c = modm (\<lambda>st. st\<lparr>d_log := d_log st @ [c]\<rparr>)"
definition whenm :: "bool \<Rightarrow> unit dm \<Rightarrow> unit dm" where "whenm b m = (if b then m else gom ())"

definition onmq :: "(mq_st \<Rightarrow> (mq_st \<times> 'a) ub) \<Rightarrow> 'a dm" where
  "onmq f st = (case f (d_mq st) of None \<Rightarrow> None | Some (q, x) \<Rightarrow> Some (st\<lparr>d_mq := q\<rparr>, Go x))"

definition d_E :: "dm_env \<Rightarrow> mq_env" where "d_E E = c_mq (d_mc E)"
definition d_Q :: "dm_env \<Rightarrow> qstr" where "d_Q E = q_str (d_E E)"
definition d_env :: "dm_env \<Rightarrow> string \<Rightarrow> string option" where "d_env E = c_getenv (d_mc E)"
definition d_cfg :: "dm_env \<Rightarrow> string \<Rightarrow> string \<Rightarrow> string" where "d_cfg E = getEnvConfigStr (d_mc E)"

subsection \<open>Files\<close>

datatype opened = ONoEnt | OErr | OLines "getln_event list"

definition open_file :: "dm_env \<Rightarrow> string \<Rightarrow> dm_st \<Rightarrow> opened" where
  "open_file E f st = (case mq_files (d_mq st) f of None \<Rightarrow> ONoEnt
     | Some d \<Rightarrow> if q_readable (d_E E) f then OLines (q_getlns (d_E E) d) else OErr)"

definition f_ok :: "string \<Rightarrow> dm_st \<Rightarrow> bool" where
  "f_ok f st \<longleftrightarrow> mq_files (d_mq st) f \<noteq> None"

fun first_line :: "getln_event list \<Rightarrow> (string \<times> bool) option" where
  "first_line [] = Some ([], False)"
| "first_line (GlErr # es) = None"
| "first_line (GlLine l match # es) = Some (l, match)"

definition cstr :: "string \<Rightarrow> string" where
  "cstr s = takeWhile (\<lambda>c. c \<noteq> NUL) s"

definition starts :: "char \<Rightarrow> string \<Rightarrow> bool" where
  "starts c s \<longleftrightarrow> s \<noteq> [] \<and> hd s = c"

definition control_file :: "dm_env \<Rightarrow> string \<Rightarrow> string" where
  "control_file E f = (let c = d_cfg E ''CONTROLDIR'' (d_CONTROLDIR E) in
     (if starts CHR ''/'' c then c else d_cfg E ''SYSCONFDIR'' (d_SYSCONFDIR E) @ ''/'' @ c) @ f)"

subsection \<open>Looping mail\<close>

definition blank_line :: "string \<Rightarrow> bool" where
  "blank_line l \<longleftrightarrow> list_all (\<lambda>c. c \<in> set [SP, LF, TAB, CR]) l"

fun scan_loop :: "qstr \<Rightarrow> string \<Rightarrow> getln_event list \<Rightarrow> int" where
  "scan_loop Q address [] = 0"
| "scan_loop Q address (GlErr # es) = - 1"
| "scan_loop Q address (GlLine l match # es) =
     (if l = [] then 0
      else (let x = cstr l in
        if str_diffn Q x ''Delivered-To:'' 13 = 0 then (if str_str Q x address \<noteq> None then 1 else scan_loop Q address es)
        else if blank_line x then 0 else scan_loop Q address es))"

definition is_looping :: "dm_env \<Rightarrow> string \<Rightarrow> int" where
  "is_looping E addr = (let address = (if starts CHR ''&'' addr then tl addr else addr) in
     if (case d_env E ''DTLINE'' of None \<Rightarrow> False
         | Some dtline \<Rightarrow> (case str_str (d_Q E) dtline address of None \<Rightarrow> False | Some i \<Rightarrow> drop i dtline = address)) then 1
     else (case d_env E ''MAKE_SEEKABLE'' of None \<Rightarrow> 0
       | Some p \<Rightarrow> if starts CHR ''0'' p then 0 else if \<not> d_lseek E then - 1 else scan_loop (d_Q E) address (d_lines E)))"

subsection \<open>The quota in the file\<close>

text \<open>The file of a directory below \<^verbatim>\<open>/Maildir/\<close> is that of the mailbox. Otherwise the terminator is counted as a part
  of the name, so that the name itself is opened.\<close>

definition quota_names :: "qstr \<Rightarrow> string \<Rightarrow> string \<times> string" where
  "quota_names Q d = (case str_str Q d ''/Maildir/'' of
     None \<Rightarrow> (d, d)
   | Some i \<Rightarrow> if i + 9 < length d then (take (i + 9) d, size_file (take (i + 8) d)) else (d, d))"

text \<open>The result \<open>None\<close> is a null pointer. The number says how often the file may be counted anew.\<close>

fun read_quota_loop :: "dm_env \<Rightarrow> string \<Rightarrow> string \<Rightarrow> nat \<Rightarrow> string option dm" where
  "read_quota_loop E s f n = thenm (getm (open_file E f)) (\<lambda>r. case r of
     ONoEnt \<Rightarrow> gom (Some ''NOQUOTA'')
   | OErr \<Rightarrow> quitm 111
   | OLines es \<Rightarrow> (case first_line es of
       None \<Rightarrow> quitm 111
     | Some (l, match) \<Rightarrow>
         if \<not> match \<or> l = [] then
           thenm (onmq (recalc_quota (d_E E) s 0 0 2)) (\<lambda>(k, c).
             if k = - 1 then gom None else (case n of 0 \<Rightarrow> gom None | Suc n' \<Rightarrow> read_quota_loop E s f n'))
         else (let q = cstr (butlast l) in
           gom (Some (if str_diffn (d_Q E) q ''0S'' 2 = 0 then ''NOQUOTA'' else q)))))"

definition read_quota :: "dm_env \<Rightarrow> string \<Rightarrow> string option dm" where
  "read_quota E Maildir = (case quota_names (d_Q E) Maildir of (s, f) \<Rightarrow> read_quota_loop E s f 1)"

subsection \<open>The mail address of a directory\<close>

definition no_slash :: "string \<Rightarrow> string" where
  "no_slash d = (if d \<noteq> [] \<and> last d = CHR ''/'' then butlast d else d)"

text \<open>The name of the directory above \<^verbatim>\<open>/Maildir\<close>. A search that starts in front of the text is undefined.\<close>

definition above_maildir :: "string \<Rightarrow> nat \<Rightarrow> string option ub" where
  "above_maildir d i = (let r = takeWhile (\<lambda>c. c \<noteq> CHR ''/'') (rev (take i d)) in
     if i = 0 then None
     else if i \<le> length r + 1 then Some None
     else Some (Some (takeWhile (\<lambda>c. c \<noteq> CHR ''/'') (drop (i - length r) d))))"

definition base_domain :: "dm_env \<Rightarrow> string \<Rightarrow> string ub" where
  "base_domain E d = (let n = length (d_cfg E ''BASE_PATH'' (d_BASE_PATH E)) in
     if length d < n + 1 then None
     else (let r = dropWhile (\<lambda>c. c \<noteq> CHR ''/'') (drop (n + 1) d) in
       if r = [] then None else Some (takeWhile (\<lambda>c. c \<noteq> CHR ''/'') (tl r))))"

text \<open>The first line of a file: \<open>None\<close> when it is missing or empty.\<close>

definition text_line :: "getln_event list \<Rightarrow> (string \<times> bool) option" where
  "text_line es = (case first_line es of None \<Rightarrow> None
     | Some (l, match) \<Rightarrow> if l = [] \<or> (match \<and> butlast l = []) then None else Some (if match then butlast l else l, match))"

text \<open>For a last line without a newline the terminator is appended to another buffer.\<close>

definition maildir_to_email :: "dm_env \<Rightarrow> string \<Rightarrow> string \<Rightarrow> string option dm" where
  "maildir_to_email E maildir dmn = (if maildir = [] then ofub None
     else thenm (getm (open_file E (no_slash maildir @ ''/email''))) (\<lambda>r. case r of
       OErr \<Rightarrow> quitm 111
     | OLines es \<Rightarrow> (case text_line es of None \<Rightarrow> gom None
         | Some (l, match) \<Rightarrow> if match then gom (Some (cstr l)) else ofub None)
     | ONoEnt \<Rightarrow> (case str_str (d_Q E) maildir ''/Maildir'' of
         None \<Rightarrow> gom None
       | Some i \<Rightarrow> thenm (ofub (above_maildir maildir i)) (\<lambda>u. case u of
           None \<Rightarrow> gom None
         | Some u \<Rightarrow>
             if dmn \<noteq> [] then gom (Some (u @ ''@'' @ dmn))
             else thenm (getm (open_file E (no_slash maildir @ ''/domain''))) (\<lambda>r. case r of
               OErr \<Rightarrow> quitm 111
             | OLines es \<Rightarrow> gom (map_option (\<lambda>(l, match). cstr (u @ ''@'' @ l)) (text_line es))
             | ONoEnt \<Rightarrow> thenm (ofub (base_domain E maildir)) (\<lambda>d. gom (Some (u @ ''@'' @ d))))))))"

subsection \<open>Warnings\<close>

definition c_div :: "int \<Rightarrow> int \<Rightarrow> int" where
  "c_div a b = (if (a < 0) = (b < 0) then \<bar>a\<bar> div \<bar>b\<bar> else - (\<bar>a\<bar> div \<bar>b\<bar>))"

definition to_int :: "int \<Rightarrow> int" where
  "to_int i = sint (word_of_int i :: 32 word)"

definition percent :: "int \<Rightarrow> int \<Rightarrow> int ub" where
  "percent used limit = (if LL (used * 100) then Some (to_int (c_div (used * 100) limit)) else None)"

definition overquota_cmd :: "dm_env \<Rightarrow> string" where
  "overquota_cmd E = d_cfg E ''OVERQUOTA_CMD'' (d_LIBEXECDIR E @ ''/overquota.sh'')"

definition d_num :: "dm_env \<Rightarrow> int \<Rightarrow> string" where
  "d_num E i = q_fmt (d_E E) (unat (word_of_int i :: u64))"

text \<open>The command has no blank between the program and the address.\<close>

definition warn_cmd :: "dm_env \<Rightarrow> string \<Rightarrow> string \<Rightarrow> string \<Rightarrow> int \<Rightarrow> int \<Rightarrow> int \<Rightarrow> int \<Rightarrow> int \<Rightarrow> string" where
  "warn_cmd E username dmn maildir usage mailcount Quota QuotaCount percent_warn =
     overquota_cmd E @ username @ ''@'' @ dmn @ '' '' @ maildir @ '' '' @ d_num E usage @ '' '' @ d_num E mailcount @ '' ''
     @ d_num E Quota @ '' '' @ d_num E QuotaCount @ '' '' @ d_num E percent_warn"

fun warn_loop :: "dm_env \<Rightarrow> nat \<Rightarrow> string \<Rightarrow> string \<Rightarrow> string \<Rightarrow> string \<Rightarrow> int \<Rightarrow> int \<Rightarrow> int \<Rightarrow> int \<Rightarrow> int dm" where
  "warn_loop E 0 username dmn maildir f usage mailcount Quota QuotaCount = gom 0"
| "warn_loop E (Suc i) username dmn maildir f usage mailcount Quota QuotaCount =
     (let again = warn_loop E i username dmn maildir f usage mailcount Quota QuotaCount in
      case d_env E (''QUOTAWARN'' @ q_fmt (d_E E) (Suc i)) of
        None \<Rightarrow> again
      | Some v \<Rightarrow> (let percent_warn = to_int (int (scan_uint (d_Q E) v)) in
          if percent_warn < 0 \<or> percent_warn > 100 then again
          else thenm (ofub (percent usage Quota)) (\<lambda>p.
            thenm (if QuotaCount = 0 then gom 0 else ofub (percent mailcount QuotaCount)) (\<lambda>m.
              if p > percent_warn \<or> QuotaCount \<noteq> 0 \<and> m > percent_warn then
                thenm (modm (\<lambda>st. st\<lparr>d_mq := (d_mq st)\<lparr>mq_files := (mq_files (d_mq st))(f := Some [])\<rparr>\<rparr>)) (\<lambda>_.
                thenm (whenm (d_exec E (overquota_cmd E))
                  (logm (RunCmd (warn_cmd E username dmn maildir usage mailcount Quota QuotaCount percent_warn)))) (\<lambda>_.
                gom 1))
              else again))))"

definition MailQuotaWarn :: "dm_env \<Rightarrow> string \<Rightarrow> string \<Rightarrow> string \<Rightarrow> string \<Rightarrow> int dm" where
  "MailQuotaWarn E username dmn Maildir QuotaAlloted =
     (if str_diffn (d_Q E) QuotaAlloted ''NOQUOTA'' 8 = 0 then gom 0
      else if Maildir = [] then ofub None
      else (let f = no_slash Maildir @ ''/QuotaWarn''; maildir = fst (quota_names (d_Q E) Maildir) in
        if \<not> d_warn_due E f then gom 0
        else thenm (ofub (parse_quota (d_Q E) QuotaAlloted (Some 0))) (\<lambda>(Quota, count).
          thenm (ofub count) (\<lambda>QuotaCount.
          if Quota = - 1 then gom (- 1)
          else if Quota = 0 then gom 0
          else thenm (onmq (recalc_quota (d_E E) maildir (word_of_int Quota) (word_of_int QuotaCount) 0)) (\<lambda>(usage, mailcount).
            if usage = - 1 then gom (- 1)
            else warn_loop E 10 username dmn maildir f (sint usage) (sint mailcount) Quota QuotaCount)))))"

text \<open>The host and the port for alerts are read from a file into static variables, but only a later call returns them.\<close>

fun alert_lines :: "dm_env \<Rightarrow> getln_event list \<Rightarrow> string option \<Rightarrow> string option \<Rightarrow> (string option \<times> string option) option" where
  "alert_lines E [] h p = Some (h, p)"
| "alert_lines E (GlErr # es) h p = None"
| "alert_lines E (GlLine l match # es) h p =
     (if l = [] then Some (h, p)
      else (let x = (if match then butlast l else l); v = Some (cstr (dropWhile isspace (drop 5 x))) in
        if str_diffn (d_Q E) (cstr x) ''host '' 5 = 0 then alert_lines E es v p
        else if str_diffn (d_Q E) (cstr x) ''port '' 5 = 0 then alert_lines E es h v
        else alert_lines E es h p))"

definition getAlertConfig :: "dm_env \<Rightarrow> (string option \<times> string option) dm" where
  "getAlertConfig E = thenm (getm (\<lambda>st. (alert_host st, alert_port st))) (\<lambda>(h, p).
     if h \<noteq> None \<or> p \<noteq> None then gom (h, p)
     else thenm (getm (open_file E (control_file E ''/mailalert.cfg''))) (\<lambda>r. case r of
       ONoEnt \<Rightarrow> gom (None, None)
     | OErr \<Rightarrow> quitm 111
     | OLines es \<Rightarrow> (case alert_lines E es None None of
         None \<Rightarrow> quitm 111
       | Some (h, p) \<Rightarrow> thenm (modm (\<lambda>st. st\<lparr>alert_host := h, alert_port := p\<rparr>)) (\<lambda>_. gom (None, None)))))"

subsection \<open>Headers and names\<close>

definition or_text :: "string option \<Rightarrow> string \<Rightarrow> string" where
  "or_text x d = (case x of None \<Rightarrow> d | Some v \<Rightarrow> v)"

definition format_delivered_to1 :: "dm_env \<Rightarrow> string \<Rightarrow> string \<Rightarrow> string option \<Rightarrow> string option \<Rightarrow> string option \<Rightarrow> string \<Rightarrow> string option \<Rightarrow> string \<Rightarrow> string" where
  "format_delivered_to1 E host rpline dtline qqeh xfilter dmn email address =
     rpline
     @ (case dtline of Some l \<Rightarrow> l
        | None \<Rightarrow> ''Delivered-To: '' @ dmn @ ''-'' @ (if email \<noteq> None \<and> the email \<noteq> [] then the email else address) @ [LF])
     @ or_text qqeh [] @ or_text xfilter ''X-Filter: None'' @ [LF] @ ''Received: indimail-virtual '' @ q_fmt (d_E E) (d_pid E) @ '' by host ''
     @ host @ '' (invoked by uid '' @ q_fmt (d_E E) (d_uid E) @ ''); '' @ d_get_localtime E @ [LF]"

definition format_delivered_to2 :: "dm_env \<Rightarrow> string \<Rightarrow> string \<Rightarrow> string option \<Rightarrow> string option \<Rightarrow> string" where
  "format_delivered_to2 E faddr dtline qqeh xfilter =
     ''X-Forwarded-To: '' @ faddr @ [LF] @ ''X-Forwarded-For: '' @ dtline @ [LF] @ or_text qqeh [] @ or_text xfilter ''X-Filter: None'' @ [LF]
     @ ''Received: (indimail '' @ q_fmt (d_E E) (d_pid E) @ '' invoked by uid '' @ q_fmt (d_E E) (d_uid E) @ ''); '' @ d_get_localtime E @ [LF]"

definition mail_name :: "dm_env \<Rightarrow> string \<Rightarrow> nat \<Rightarrow> u64 \<Rightarrow> string" where
  "mail_name E host pid MsgSize = q_fmt (d_E E) (d_time E) @ ''.'' @ q_fmt (d_E E) pid @ ''.'' @ host @ '',S='' @ q_fmt (d_E E) (unat MsgSize)"

definition format_local_filename :: "dm_env \<Rightarrow> string \<Rightarrow> string \<Rightarrow> nat \<Rightarrow> u64 \<Rightarrow> string \<times> string" where
  "format_local_filename E address host pid MsgSize =
     (address @ ''tmp/'' @ mail_name E host pid MsgSize, address @ ''new/'' @ mail_name E host pid MsgSize)"

end
