(* ===== verification/Deliver.thy ===== *)
theory Deliver
  imports Deliver_Parts
begin

text \<open>
  \<^verbatim>\<open>deliver_mail.c\<close>: delivery of the message on descriptor 0 to a directory, a command or an address. The stages follow the
  function: headers and size, daily limits, quota, date folder, the file in \<^verbatim>\<open>tmp\<close>, its rename to \<^verbatim>\<open>new\<close>; or the child
  process that gets the message. The results of the system calls of the last stages are the record \<open>dm_os\<close>. The name of the
  host, which becomes a part of the file name, is taken to hold no NUL byte.

  Codes: 0 delivered, -1 over quota, -2 system error, -3 looping, -4 over a daily limit, -5 deferred, 99 as the child said.
\<close>

datatype hdr_write = HwOk | HwQuota nat | HwErr nat

datatype child_event = ChNone | ChIntr | ChErr | ChStatus int int

record dm_os =
  o_create :: bool
  o_chown :: bool
  o_header :: hdr_write
  o_seek :: bool
  o_body :: "nat option"
  o_unlink :: bool
  o_sync :: bool
  o_close :: bool
  o_rename :: bool
  o_forks :: bool
  o_events :: "child_event list"

subsection \<open>The host name and the daily limits\<close>

definition read_me :: "dm_env \<Rightarrow> string dm" where
  "read_me E = thenm (getm (open_file E (control_file E ''/me''))) (\<lambda>r. case r of
     OErr \<Rightarrow> quitm 111
   | ONoEnt \<Rightarrow> stopm (- 2)
   | OLines es \<Rightarrow> (case first_line es of None \<Rightarrow> stopm (- 2)
       | Some (l, match) \<Rightarrow> if \<not> match \<or> l = [] then stopm (- 2) else gom (butlast l)))"

definition nonempty :: "string option \<Rightarrow> bool" where
  "nonempty x \<longleftrightarrow> x \<noteq> None \<and> the x \<noteq> []"

definition run_overquota :: "dm_env \<Rightarrow> string list \<Rightarrow> unit dm" where
  "run_overquota E args = whenm (d_exec E (overquota_cmd E)) (logm (RunCmd (overquota_cmd E @ concat (map (\<lambda>a. '' '' @ a) args))))"

definition daily_limits :: "dm_env \<Rightarrow> string \<Rightarrow> u64 \<Rightarrow> unit dm" where
  "daily_limits E address MsgSize = (let p1 = d_env E ''MAILSIZE_LIMIT''; p2 = d_env E ''MAILCOUNT_LIMIT'' in
     if \<not> nonempty p1 \<and> \<not> nonempty p2 then gom ()
     else thenm (onmq (recordMailcount (d_mc E) address MsgSize)) (\<lambda>(r, dailyMsgCount, dailyMsgSize).
       if r = - 1 then
         thenm (run_overquota E [address, q_fmt (d_E E) (unat MsgSize), q_fmt (d_E E) (unat dailyMsgSize),
             q_fmt (d_E E) (unat dailyMsgCount), or_text p1 ''0S'' @ '','' @ or_text p2 ''0C'']) (\<lambda>_. stopm (- 4))
       else if r \<noteq> 0 then stopm r else gom ()))"

subsection \<open>The quota\<close>

text \<open>The user and the domain of an address.\<close>

definition user_domain :: "dm_env \<Rightarrow> string \<Rightarrow> string \<times> string" where
  "user_domain E email = (let i = str_chr (d_Q E) email CHR ''@'' in
     if i < length email then (take i email, drop (i + 1) email) else (email, d_default_domain E))"

text \<open>The quota and the directory. With AUTO the quota is that of the file or of the user; the suffix is then cut off where
  it occurs first.\<close>

definition find_quota :: "dm_env \<Rightarrow> string \<Rightarrow> string \<Rightarrow> string option \<Rightarrow> (string \<times> string) dm" where
  "find_quota E address quota email =
     (if str_diffn (d_Q E) quota ''AUTO'' 5 = 0 then
        (let h = size_file (no_slash address);
           h' = (case str_str (d_Q E) h ''/maildirsize'' of None \<Rightarrow> h | Some i \<Rightarrow> take (length h - 12) (h[i := NUL]));
           ud = user_domain E (or_text email []) in
         thenm (getm (f_ok h)) (\<lambda>b.
         thenm (if b then read_quota E h
                else gom (Some (if \<not> nonempty email then ''NOQUOTA'' else or_text (d_pw_shell E (fst ud) (snd ud)) ''NOQUOTA''))) (\<lambda>q.
         case q of None \<Rightarrow> stopm (- 2) | Some q \<Rightarrow> gom (q, h'))))
      else gom (quota, address))"

definition has_quota :: "qstr \<Rightarrow> string \<Rightarrow> bool" where
  "has_quota Q q \<longleftrightarrow> str_diffn Q q ''NOQUOTA'' 8 \<noteq> 0 \<and> str_diffn Q q ''NOQUOTA,'' 8 \<noteq> 0"

definition hold_file :: "dm_env \<Rightarrow> string \<Rightarrow> string" where
  "hold_file E homedir = (let p = d_cfg E ''HOLDOVERQUOTA'' ''holdoverquota'' in
     if starts CHR ''/'' p then p else cstr (homedir @ ''/'' @ p))"

text \<open>The bounce flag of a user whose mailbox is above its quota.\<close>

definition note_bounce :: "dm_env \<Rightarrow> string \<Rightarrow> string \<Rightarrow> unit dm" where
  "note_bounce E email maildirquota = (case user_domain E email of (u, d) \<Rightarrow>
     thenm (ofub (parse_quota (d_Q E) maildirquota (Some 0))) (\<lambda>(sz, count).
     thenm (ofub count) (\<lambda>count.
     thenm (modm (\<lambda>st. st\<lparr>MailQuotaSize := sz, MailQuotaCount := count\<rparr>)) (\<lambda>_.
     if sz = - 1 then stopm (- 2)
     else thenm (getm (\<lambda>st. (CurBytes (d_mq st), CurCount (d_mq st)))) (\<lambda>(b, c).
       whenm (sz \<noteq> 0 \<and> (sint b > sz \<or> (count \<noteq> 0 \<and> sint c > count))) (logm (LastDeliver u d b)))))))"

definition quota_mailsize :: "dm_env \<Rightarrow> u64" where
  "quota_mailsize E = (if nonempty (d_env E ''OVERQUOTA_MAILSIZE'') then q_scan_ulong (d_E E) (the (d_env E ''OVERQUOTA_MAILSIZE'')) else 1000)"

definition over_quota :: "dm_env \<Rightarrow> string \<Rightarrow> string \<Rightarrow> string option \<Rightarrow> string \<Rightarrow> u64 \<Rightarrow> unit dm" where
  "over_quota E address homedir email maildirquota MsgSize =
     thenm (getm (\<lambda>st. (CurBytes (d_mq st), CurCount (d_mq st)))) (\<lambda>(b, c).
     thenm (run_overquota E [address, q_fmt (d_E E) (unat MsgSize), q_fmt (d_E E) (unat b), q_fmt (d_E E) (unat c), maildirquota, ''dummy'']) (\<lambda>_.
     thenm (getm (f_ok (hold_file E homedir))) (\<lambda>hold.
     if hold then stopm (- 5)
     else thenm (whenm (nonempty email) (note_bounce E (the email) maildirquota)) (\<lambda>_.
       if sint MsgSize > sint (quota_mailsize E) \<and> nonempty email then
         (case user_domain E (the email) of (u, d) \<Rightarrow>
           thenm (MailQuotaWarn E u d address maildirquota) (\<lambda>_. stopm (- 1)))
       else gom ()))))"

definition send_alert :: "dm_env \<Rightarrow> string \<Rightarrow> u64 \<Rightarrow> unit dm" where
  "send_alert E email MsgSize = (case user_domain E email of (u, d) \<Rightarrow>
     thenm (getAlertConfig E) (\<lambda>(h, p).
       let h = (if h = None then d_env E ''MAILALERT_HOST'' else h); p = (if p = None then d_env E ''MAILALERT_PORT'' else p) in
       whenm (nonempty h \<and> nonempty p \<and> d_udp E (the h) (the p))
         (logm (Alert (the h) (the p) (u @ ''@'' @ d @ q_fmt (d_E E) (unat MsgSize) @ [LF])))))"

definition quota_stage :: "dm_env \<Rightarrow> string \<Rightarrow> string \<Rightarrow> string option \<Rightarrow> u64 \<Rightarrow> unit dm" where
  "quota_stage E address quota email MsgSize =
     thenm (find_quota E address quota email) (\<lambda>(maildirquota, homedir).
     if has_quota (d_Q E) maildirquota then
       thenm (onmq (user_over_quota (d_E E) address maildirquota (to_int (sint MsgSize)))) (\<lambda>r.
       if r = - 1 then stopm (- 2)
       else thenm (whenm (r = 1) (over_quota E address homedir email maildirquota MsgSize)) (\<lambda>_.
         thenm (onmq (update_quota (d_E E) address MsgSize)) (\<lambda>_.
         if nonempty email then
           (case user_domain E (the email) of (u, d) \<Rightarrow>
             thenm (MailQuotaWarn E u d address maildirquota) (\<lambda>_. send_alert E (the email) MsgSize))
         else gom ())))
     else modm (\<lambda>st. st\<lparr>d_mq := (d_mq st)\<lparr>CurBytes := 0, CurCount := 0\<rparr>\<rparr>))"

subsection \<open>The date folder\<close>

fun make_dirs :: "dm_env \<Rightarrow> bool \<Rightarrow> string list \<Rightarrow> unit dm" where
  "make_dirs E always [] = gom ()"
| "make_dirs E always (d # ds) = (if always \<or> \<not> d_exists E d then
       thenm (logm (MkDir d)) (\<lambda>_. if d_mkdir E d then make_dirs E always ds else stopm (- 2))
     else make_dirs E always ds)"

definition date_folder :: "dm_env \<Rightarrow> string \<Rightarrow> unit dm" where
  "date_folder E address = (let f = address @ ''folder.dateformat'' in
     thenm (getm (open_file E f)) (\<lambda>r. case r of
       OLines es \<Rightarrow> (case text_line es of
         None \<Rightarrow> stopm (- 2)
       | Some (l, match) \<Rightarrow> (case d_strftime E (cstr l) of
           None \<Rightarrow> stopm (- 2)
         | Some t \<Rightarrow> (let d = address @ t; ds = map (\<lambda>x. d @ ''/'' @ x) [''cur'', ''new'', ''tmp''] in
             if d_exists E d then make_dirs E False ds else make_dirs E True (d # ds))))
     | _ \<Rightarrow> gom ()))"

subsection \<open>Writing the message\<close>

fun read_body :: "rd_event list \<Rightarrow> string \<times> bool" where
  "read_body [] = ([], True)"
| "read_body (RdIntr # es) = ([], False)"
| "read_body (RdFail # es) = ([], False)"
| "read_body (RdData s # es) = (if s = [] then ([], True) else (case read_body es of (d, ok) \<Rightarrow> (s @ d, ok)))"

definition set_file :: "string \<Rightarrow> string option \<Rightarrow> unit dm" where
  "set_file f d = modm (\<lambda>st. st\<lparr>d_mq := (d_mq st)\<lparr>mq_files := (mq_files (d_mq st))(f := d)\<rparr>\<rparr>)"

text \<open>An existing file is not emptied.\<close>

definition old_data :: "string \<Rightarrow> dm_st \<Rightarrow> string" where
  "old_data f st = (case mq_files (d_mq st) f of None \<Rightarrow> [] | Some d \<Rightarrow> d)"

definition write_failed :: "dm_os \<Rightarrow> string \<Rightarrow> string \<Rightarrow> unit dm" where
  "write_failed W f d = thenm (set_file f (if o_unlink W then None else Some d)) (\<lambda>_. stopm (- 2))"

definition move_to_new :: "dm_os \<Rightarrow> string \<Rightarrow> string \<Rightarrow> string \<Rightarrow> unit dm" where
  "move_to_new W f g d = thenm (set_file f (Some d)) (\<lambda>_.
     if \<not> o_sync W \<or> \<not> o_close W \<or> \<not> o_rename W then stopm (- 2)
     else thenm (set_file f None) (\<lambda>_. thenm (set_file g (Some d)) (\<lambda>_. stopm 0)))"

definition write_file :: "dm_env \<Rightarrow> dm_os \<Rightarrow> string \<Rightarrow> string \<Rightarrow> string \<Rightarrow> unit dm" where
  "write_file E W f g hdr =
     (if \<not> o_create W then stopm (- 2)
      else thenm (getm (old_data f)) (\<lambda>old.
        if d_root E \<and> \<not> o_chown W then thenm (set_file f (Some old)) (\<lambda>_. stopm (- 2))
        else (case o_header W of
          HwQuota k \<Rightarrow> thenm (set_file f (Some (overwrite old 0 (take k hdr)))) (\<lambda>_. stopm (- 1))
        | HwErr k \<Rightarrow> thenm (set_file f (Some (overwrite old 0 (take k hdr)))) (\<lambda>_. stopm (- 2))
        | HwOk \<Rightarrow>
            if \<not> o_seek W then thenm (set_file f (Some (overwrite old 0 hdr))) (\<lambda>_. stopm (- 2))
            else (case read_body (d_reads E) of (body, ok) \<Rightarrow>
              (case o_body W of
                 Some k \<Rightarrow> write_failed W f (overwrite old 0 (hdr @ take k body))
               | None \<Rightarrow> if ok then move_to_new W f g (overwrite old 0 (hdr @ body))
                   else write_failed W f (overwrite old 0 (hdr @ body)))))))"

definition deliver_dir :: "dm_env \<Rightarrow> dm_os \<Rightarrow> string \<Rightarrow> u64 \<Rightarrow> string \<Rightarrow> string \<Rightarrow> unit dm" where
  "deliver_dir E W address MsgSize0 quota dmn = (case d_sticky E address of
     None \<Rightarrow> stopm (- 2)
   | Some True \<Rightarrow> stopm (- 2)
   | Some False \<Rightarrow>
      thenm (maildir_to_email E address dmn) (\<lambda>email.
      thenm (read_me E) (\<lambda>host.
      (let hdr = format_delivered_to1 E (cstr host) (d_cfg E ''RPLINE'' (''Return-PATH: <>'' @ [LF])) (d_env E ''DTLINE'') (d_env E ''QQEH'')
             (d_env E ''XFILTER'') dmn email address in
       thenm (ofub (sadd MsgSize0 (of_nat (length hdr)))) (\<lambda>MsgSize.
       thenm (daily_limits E address MsgSize) (\<lambda>_.
       thenm (quota_stage E address quota email MsgSize) (\<lambda>_.
       if d_env E ''ELIMINATE_DUPS'' \<noteq> None \<and> d_dup E address then stopm 0
       else thenm (getm d_counter) (\<lambda>k.
         thenm (modm (\<lambda>st. st\<lparr>d_counter := k + 1\<rparr>)) (\<lambda>_.
         thenm (date_folder E address) (\<lambda>_.
         (case format_local_filename E address host (d_pid E + k) MsgSize of (f, g) \<Rightarrow> write_file E W f g hdr)))))))))))"

subsection \<open>Commands and addresses\<close>

definition special_programs :: "string list" where
  "special_programs = [''autoresponder'', ''condredirect'', ''condtomaildir'', ''dot-forward'', ''fastforward'', ''filterto'', ''forward'',
     ''maildirdeliver'', ''preline'', ''qnotify'', ''qsmhook'', ''replier'', ''rrforward'', ''serialcmd'']"

definition command_text :: "string \<Rightarrow> string" where
  "command_text command = (if starts CHR ''|'' command then dropWhile isspace (tl command) else command)"

text \<open>The arguments of the child, and whether it keeps the variables RPLINE and DTLINE.\<close>

definition open_command :: "dm_env \<Rightarrow> string \<Rightarrow> string list \<times> bool" where
  "open_command E command = (let c = command_text command; n = takeWhile (\<lambda>x. \<not> isspace x) c; i = d_rchr E n CHR ''/'' in
     ([''/bin/sh'', ''-c'', c], (if i < length n then drop (i + 1) n else n) \<in> set special_programs))"

definition qmail_inject_open :: "dm_env \<Rightarrow> string \<Rightarrow> string list \<times> bool" where
  "qmail_inject_open E address = ([d_PREFIX E @ ''/bin/qmail-inject'', ''-f'', d_cfg E ''SENDER'' ''postmaster'',
     if starts CHR ''&'' address then tl address else address], True)"

definition inject_dtline :: "dm_env \<Rightarrow> string \<Rightarrow> string" where
  "inject_dtline E address = (case d_env E ''DTLINE'' of
     Some v \<Rightarrow> (let r = dropWhile (\<lambda>c. c \<noteq> CHR '':'') v; t = takeWhile (\<lambda>c. c \<noteq> LF) (dropWhile isspace (if r = [] then r else tl r)) in
       if t = [] then (if starts CHR ''&'' address then tl address else address) else t)
   | None \<Rightarrow> or_text (d_env E ''RECIPIENT'') ''pipe'')"

definition permanent :: "int list" where
  "permanent = [64, 65, 70, 76, 77, 78, 112, 100]"

fun wait_child :: "child_event list \<Rightarrow> unit dm" where
  "wait_child [] = stopm (- 2)"
| "wait_child (ChNone # es) = stopm 0"
| "wait_child (ChIntr # es) = wait_child es"
| "wait_child (ChErr # es) = stopm (- 2)"
| "wait_child (ChStatus i werr # es) =
     (if i = 0 \<and> werr \<noteq> 0 then wait_child es
      else if werr \<noteq> 0 then stopm (- 2)
      else if i = 0 then stopm 0
      else if i = 99 then stopm 99
      else if i \<in> set permanent then quitm 100
      else quitm 111)"

text \<open>A failed fork is not noticed, since the process number has an unsigned type; then the write fails.\<close>

definition deliver_child :: "dm_env \<Rightarrow> dm_os \<Rightarrow> string \<Rightarrow> unit dm" where
  "deliver_child E W address = (case (if starts CHR ''|'' address then open_command E address else qmail_inject_open E address) of (argv, keep) \<Rightarrow>
     (let hdr = format_delivered_to2 E (if starts CHR ''&'' address then tl address else address) (inject_dtline E address)
            (d_env E ''QQEH'') (d_env E ''XFILTER'') in
      if \<not> o_forks W then stopm (- 2)
      else (case o_header W of
        HwQuota k \<Rightarrow> thenm (logm (Exec argv keep (take k hdr))) (\<lambda>_. stopm (- 1))
      | HwErr k \<Rightarrow> thenm (logm (Exec argv keep (take k hdr))) (\<lambda>_. stopm (- 2))
      | HwOk \<Rightarrow>
          if \<not> o_seek W then thenm (logm (Exec argv keep hdr)) (\<lambda>_. stopm (- 2))
          else (case read_body (d_reads E) of (body, ok) \<Rightarrow>
            (case o_body W of
               Some k \<Rightarrow> thenm (logm (Exec argv keep (hdr @ take k body))) (\<lambda>_. stopm (- 2))
             | None \<Rightarrow> thenm (logm (Exec argv keep (hdr @ body))) (\<lambda>_. if ok then wait_child (o_events W) else stopm (- 2)))))))"

subsection \<open>The delivery\<close>

definition deliver_mail :: "dm_env \<Rightarrow> dm_os \<Rightarrow> string \<Rightarrow> u64 \<Rightarrow> string \<Rightarrow> string \<Rightarrow> unit dm" where
  "deliver_mail E W address MsgSize quota dmn =
     thenm (modm (\<lambda>st. st\<lparr>MailQuotaCount := 0\<rparr>)) (\<lambda>_.
     if is_looping E address = 1 then stopm (- 3)
     else if is_looping E address = - 1 then stopm (- 2)
     else thenm (modm (\<lambda>st. st\<lparr>d_mq := (d_mq st)\<lparr>CurBytes := 0, CurCount := 0\<rparr>\<rparr>)) (\<lambda>_.
       if starts CHR ''/'' address then deliver_dir E W address MsgSize quota dmn else deliver_child E W address))"

end
