(* ===== verification/Vdelivermail.thy ===== *)
theory Vdelivermail
  imports Deliver Pwstruct
begin

text \<open>
  \<^verbatim>\<open>vdelivermail.c\<close>, the program that qmail-local runs for a virtual domain: its arguments, the check for unwanted senders,
  aliases, the account and its locks, what is done for unknown users, and \<open>main\<close>, as it is configured by default. Mail is
  delivered by \<open>deliver_mail\<close> of \<open>Deliver\<close>; \<open>vd_os\<close> are the results of the system calls of the first, second, ... delivery.

  The user database, the list of hosts of a cluster, the pattern matcher and the remote delivery are parameters. Texts for
  the sender are left out.
\<close>

unbundle bit_operations_syntax

record vd_env =
  vd_dm :: dm_env
  vd_os :: "nat \<Rightarrow> dm_os"
  vd_valias :: "string \<Rightarrow> string \<Rightarrow> string list"
  vd_assign :: "string \<Rightarrow> bool"
  vd_remote :: "string option \<Rightarrow> string \<Rightarrow> string \<Rightarrow> int"
  vd_real_domain :: "string \<Rightarrow> string option"
  vd_domain_unknown :: bool
  vd_wildmat :: "string \<Rightarrow> string \<Rightarrow> bool"
  vd_folder_file :: bool
  vd_mktemp :: bool
  vd_msgsize :: int
  vd_getpw :: "string \<Rightarrow> string \<Rightarrow> passwd option \<times> bool \<times> bool"
  vd_distributed :: "string \<Rightarrow> int"
  vd_findhost :: "string \<Rightarrow> string option"
  vd_findhost_unknown :: bool
  vd_local_hostid :: "string option"
  vd_hostid :: "string \<Rightarrow> string option"
  vd_pw0 :: pw_st
  vd_ids :: bool

definition vd_get :: "vd_env \<Rightarrow> string \<Rightarrow> string option" where "vd_get V = d_env (vd_dm V)"
definition vd_Q :: "vd_env \<Rightarrow> qstr" where "vd_Q V = d_Q (vd_dm V)"

definition env_put2 :: "string \<Rightarrow> string \<Rightarrow> vd_env \<Rightarrow> vd_env" where
  "env_put2 n v V = (let E = vd_dm V; M = d_mc E in V\<lparr>vd_dm := E\<lparr>d_mc := M\<lparr>c_getenv := (c_getenv M)(n := Some v)\<rparr>\<rparr>\<rparr>)"

definition vdl_exit :: "vd_env \<Rightarrow> int \<Rightarrow> 'a dm" where
  "vdl_exit V err = quitm (if vd_get V ''DISCARD_BOUNCE'' \<noteq> None \<and> err = 100 then 0 else err)"

text \<open>A call of \<open>deliver_mail\<close>: its return code is a value.\<close>

definition callm :: "unit dm \<Rightarrow> int dm" where
  "callm m st = (case m st of None \<Rightarrow> None
     | Some (st, Go x) \<Rightarrow> Some (st, Go 0) | Some (st, Stop n) \<Rightarrow> Some (st, Go n) | Some (st, Quit n) \<Rightarrow> Some (st, Quit n))"

definition deliver :: "vd_env \<Rightarrow> nat \<Rightarrow> string \<Rightarrow> int \<Rightarrow> string \<Rightarrow> string \<Rightarrow> int dm" where
  "deliver V i address MsgSize quota dmn = callm (deliver_mail (vd_dm V) (vd_os V i) address (word_of_int MsgSize) quota dmn)"

subsection \<open>Arguments\<close>

text \<open>The user part in front of an extension: the expression in the source takes the characters from the addresses behind
  the variable, so that it ends only at the first character.\<close>

definition user_ext :: "vd_env \<Rightarrow> string \<Rightarrow> string option ub" where
  "user_ext V user = (if vd_get V ''QMAIL_EXT'' = None then Some None
     else if user = [] \<or> starts CHR ''-'' user then Some (Some []) else None)"

definition get_arguments :: "vd_env \<Rightarrow> string list \<Rightarrow> (vd_env \<times> string \<times> string \<times> string option \<times> string option) dm" where
  "get_arguments V argv =
     thenm
       (if length argv = 3 then
          (case vd_get V ''EXT'' of None \<Rightarrow> vdl_exit V 100
           | Some e \<Rightarrow>
              (case remove_quotes (Some (if e = [] then ''postmaster'' else e)) of (u, r) \<Rightarrow>
                 if r \<noteq> 0 then vdl_exit V 100
                 else gom (V, the u, or_text (vd_get V ''HOST'') (d_default_domain (vd_dm V)), Some (argv ! 2))))
        else if length argv = 11 then
          gom (env_put2 ''RPLINE'' (''Return-Path: <'' @ argv ! 8 @ ''>'' @ [LF]) V, argv ! 6, argv ! 7, None)
        else vdl_exit V 111) (\<lambda>(V, u, d, bounce).
     let user = lowerit u; d = lowerit d in
     thenm (ofub (user_ext V user)) (\<lambda>ext.
     case vd_real_domain V d of None \<Rightarrow> vdl_exit V (if vd_domain_unknown V then 100 else 111)
     | Some d \<Rightarrow> gom (V, user, d, ext, bounce)))"

subsection \<open>The directory\<close>

fun make_maildir :: "vd_env \<Rightarrow> string \<Rightarrow> string list \<Rightarrow> unit dm" where
  "make_maildir V dir [] = gom ()"
| "make_maildir V dir (n # ns) = (if d_exists (vd_dm V) (dir @ n) then make_maildir V dir ns
     else thenm (logm (MkDir (dir @ n))) (\<lambda>_.
       if \<not> d_mkdir (vd_dm V) (dir @ n) then vdl_exit V 111
       else if length dir < 9 then ofub None
       else if str_diffn (vd_Q V) (drop (length dir - 9) dir) ''/Maildir/'' 9 = 0 then make_maildir V dir ns
       else if \<not> vd_folder_file V then vdl_exit V 111
       else thenm (set_file (dir @ ''/maildirfolder'') (Some [])) (\<lambda>_. make_maildir V dir ns)))"

definition folder_dir :: "vd_env \<Rightarrow> string \<Rightarrow> string" where
  "folder_dir V dir = (let t = (if last dir = CHR ''/'' then dir else dir @ ''/'') in
     case vd_get V ''MAILDIRFOLDER'' of None \<Rightarrow> t
     | Some f \<Rightarrow> t @ (if starts CHR ''.'' f then [] else ''.'') @ f @ ''/'')"

definition prepare_maildir :: "vd_env \<Rightarrow> string \<Rightarrow> string dm" where
  "prepare_maildir V dir = (if dir = [] then ofub None
     else thenm (make_maildir V (folder_dir V dir) [''cur'', ''new'', ''tmp'']) (\<lambda>_. gom (folder_dir V dir)))"

definition prepared :: "vd_env \<Rightarrow> string \<Rightarrow> string dm" where
  "prepared V a = (if starts CHR ''/'' a then prepare_maildir V a else gom a)"

subsection \<open>Aliases\<close>

text \<open>The number of aliases. A looping alias passes a string where the library expects an error description.\<close>

fun valias_loop :: "vd_env \<Rightarrow> string \<Rightarrow> int \<Rightarrow> nat \<Rightarrow> nat \<Rightarrow> string list \<Rightarrow> nat dm" where
  "valias_loop V dmn MsgSize found status [] = (if status \<noteq> 0 then vdl_exit V 100 else gom found)"
| "valias_loop V dmn MsgSize found status (a # as) =
     thenm (prepared V a) (\<lambda>a.
     thenm (deliver (env_put2 ''NOALIAS'' ''1'' V) (Suc found) a MsgSize ''AUTO'' dmn) (\<lambda>ret.
     if ret = - 1 \<or> ret = - 4 then valias_loop V dmn MsgSize (found + 1) (status + 1) as
     else if ret = - 2 then vdl_exit V 111
     else if ret = - 3 then ofub None
     else if ret = - 5 then vdl_exit V 111
     else valias_loop V dmn MsgSize (found + 1) status as))"

definition process_valias :: "vd_env \<Rightarrow> string \<Rightarrow> string \<Rightarrow> int \<Rightarrow> nat dm" where
  "process_valias V user dmn MsgSize = valias_loop V dmn MsgSize 0 0 (vd_valias V user dmn)"

text \<open>The lines of the file \<^verbatim>\<open>.qmail\<close>.\<close>

fun qmail_loop :: "vd_env \<Rightarrow> string \<Rightarrow> string \<Rightarrow> int \<Rightarrow> nat \<Rightarrow> getln_event list \<Rightarrow> int dm" where
  "qmail_loop V self dmn MsgSize i [] = gom 1"
| "qmail_loop V self dmn MsgSize i (GlErr # es) = gom (- 1)"
| "qmail_loop V self dmn MsgSize i (GlLine l match # es) =
     (if l = [] then gom 1
      else if match \<and> butlast l = [] then qmail_loop V self dmn MsgSize i es
      else (let x = cstr (if match then butlast l else l) in
        if str_diffn (vd_Q V) x self (length self + 1) = 0 then qmail_loop V self dmn MsgSize i es
        else thenm (prepared V x) (\<lambda>a.
          thenm (deliver (env_put2 ''NOALIAS'' ''2'' V) (Suc i) a MsgSize ''AUTO'' dmn) (\<lambda>ret.
          if ret = 99 then gom 1
          else if ret = - 1 \<or> ret = - 4 then vdl_exit V 100
          else if ret = - 2 then vdl_exit V 111
          else if ret = - 3 then vdl_exit V 100
          else if ret = - 5 then vdl_exit V 111
          else qmail_loop V self dmn MsgSize (i + 1) es))))"

definition no_alias :: "vd_env \<Rightarrow> bool" where
  "no_alias V \<longleftrightarrow> (case vd_get V ''NOALIAS'' of None \<Rightarrow> False
     | Some p \<Rightarrow> p \<noteq> [] \<and> (48 :: nat) < of_char (hd p) \<and> (of_char (hd p) :: nat) < 128)"

definition doAlias :: "vd_env \<Rightarrow> string \<Rightarrow> string \<Rightarrow> string \<Rightarrow> int \<Rightarrow> int dm" where
  "doAlias V dir user dmn MsgSize = (if no_alias V then gom 0
     else thenm (process_valias V user dmn MsgSize) (\<lambda>n.
       if n \<noteq> 0 then gom 1
       else thenm (getm (open_file (vd_dm V) (dir @ ''/.qmail''))) (\<lambda>r. case r of
         ONoEnt \<Rightarrow> gom 0
       | OErr \<Rightarrow> quitm 111
       | OLines es \<Rightarrow> qmail_loop V (user @ ''@'' @ dmn) dmn MsgSize 0 es)))"

subsection \<open>The account\<close>

text \<open>What the return code of a delivery means for the exit status.\<close>

definition after_delivery :: "vd_env \<Rightarrow> int \<Rightarrow> int dm" where
  "after_delivery V ret = (if ret = - 1 \<or> ret = - 4 then vdl_exit V 100
     else if ret = - 2 then vdl_exit V 111
     else if ret = - 3 then vdl_exit V 100
     else if ret = - 5 then vdl_exit V 111
     else gom 0)"

definition locked_cmd :: "vd_env \<Rightarrow> passwd \<Rightarrow> int \<Rightarrow> u64 \<Rightarrow> u64 \<Rightarrow> string" where
  "locked_cmd V pw MsgSize cur_size cur_count = overquota_cmd (vd_dm V) @ '' '' @ pw_dir pw @ ''/Maildir''
     @ (case vd_get V ''MAILDIRFOLDER'' of None \<Rightarrow> [] | Some f \<Rightarrow> (if starts CHR ''.'' f then [] else ''.'') @ ''/'' @ f)
     @ '' '' @ d_num (vd_dm V) MsgSize @ '' '' @ q_fmt (d_E (vd_dm V)) (unat cur_size) @ '' '' @ q_fmt (d_E (vd_dm V)) (unat cur_count)
     @ '' '' @ pw_shell pw"

text \<open>A locked account: the lock is removed when there is room again, or the mail is deferred or bounced. The value is
  -1 when the quota cannot be read.\<close>

definition locked_account :: "vd_env \<Rightarrow> passwd \<Rightarrow> string \<Rightarrow> string \<Rightarrow> int \<Rightarrow> int dm" where
  "locked_account V pw user dmn MsgSize = (let E = vd_dm V; tmp = pw_dir pw @ ''/Maildir'' in
     thenm (ofub (parse_quota (vd_Q V) (pw_shell pw) (Some 0))) (\<lambda>(limit, count).
     thenm (ofub count) (\<lambda>count.
     if limit = - 1 then gom (- 1)
     else thenm (onmq (recalc_quota (d_E E) tmp (word_of_int limit) (word_of_int count) 0)) (\<lambda>(cur_size, cur_count).
       thenm (if str_diffn (vd_Q V) (pw_shell pw) ''NOQUOTA'' 8 = 0 then gom False
              else if LL (sint cur_size + 1024000) then gom (sint cur_size + 1024000 < limit) else ofub None) (\<lambda>room.
       if room then thenm (logm (LastDeliver user dmn 0)) (\<lambda>_. gom 0)
       else thenm (whenm (d_exec E (overquota_cmd E)) (logm (RunCmd (locked_cmd V pw MsgSize cur_size cur_count)))) (\<lambda>_.
         thenm (getm (f_ok (hold_file E tmp))) (\<lambda>hold. vdl_exit V (if hold then 111 else 100))))))))"

definition is_group :: "vd_env \<Rightarrow> passwd \<Rightarrow> bool" where
  "is_group V pw \<longleftrightarrow> str_diffn (vd_Q V) (pw_gecos pw) ''MailGroup '' 10 = 0"

definition account_delivery :: "vd_env \<Rightarrow> passwd \<Rightarrow> string \<Rightarrow> int \<Rightarrow> int dm" where
  "account_delivery V pw dmn MsgSize =
     thenm (prepare_maildir V (pw_dir pw @ ''/Maildir/'')) (\<lambda>d.
     thenm (deliver V 0 d MsgSize (pw_shell pw) dmn) (after_delivery V))"

definition processMail :: "vd_env \<Rightarrow> passwd \<Rightarrow> string \<Rightarrow> string \<Rightarrow> int \<Rightarrow> int dm" where
  "processMail V pw user dmn MsgSize = (if \<not> vd_assign V dmn then vdl_exit V 111
     else thenm (if pw_gid pw AND BOUNCE_MAIL \<noteq> 0 then locked_account V pw user dmn MsgSize else gom 0) (\<lambda>r.
       if r = - 1 then gom (- 1)
       else thenm (if nonempty (vd_get V ''EXT'') then doAlias V (pw_dir pw) user dmn MsgSize else gom 0) (\<lambda>a.
         if a = 1 then vdl_exit V 0
         else if is_group V pw then gom 0
         else account_delivery V pw dmn MsgSize)))"

subsection \<open>Rejected mail\<close>

text \<open>The route of a remote delivery. Other results of \<open>qmail_remote\<close> go on with a delivery to the text itself.\<close>

definition remote_exit :: "vd_env \<Rightarrow> int \<Rightarrow> unit dm" where
  "remote_exit V r = (if r = - 1 then vdl_exit V 100 else if r = - 2 then vdl_exit V 111
     else if r = 0 \<or> r = 100 \<or> r = 111 then vdl_exit V r else gom ())"

definition reject_mail :: "vd_env \<Rightarrow> string \<Rightarrow> string \<Rightarrow> int \<Rightarrow> int \<Rightarrow> string option \<Rightarrow> int dm" where
  "reject_mail V user dmn status MsgSize bounce = (case bounce of
     None \<Rightarrow> ofub None
   | Some b \<Rightarrow>
      if b = ''delete'' then vdl_exit V 0
      else if b = ''bounce-no-mailbox'' then vdl_exit V 100
      else (let route = (\<not> starts CHR ''/'' b \<and> length b \<le> str_chr (vd_Q V) b CHR ''@'');
          b' = (if starts CHR ''/'' b \<and> str_str (vd_Q V) b ''/Maildir/'' = None then b @ ''/Maildir/'' else b) in
        thenm (if \<not> route then gom ()
               else if status = 0 then vdl_exit V 100
               else if count_list b CHR '':'' \<noteq> 2 then vdl_exit V 111
               else remote_exit V (vd_remote V (Some b) user dmn)) (\<lambda>_.
        thenm (deliver V 0 b' MsgSize ''AUTO'' dmn) (after_delivery V))))"

subsection \<open>Unwanted senders\<close>

text \<open>The entries of a file: the texts in front of newlines and NUL bytes. A text behind the last one is not an entry.\<close>

fun entries :: "string \<Rightarrow> string \<Rightarrow> string list" where
  "entries e [] = []"
| "entries e (c # cs) = (if c = LF \<or> c = NUL then e # entries [] cs else entries (e @ [c]) cs)"

definition file_entries :: "string \<Rightarrow> string list" where
  "file_entries d = filter (\<lambda>e. e \<noteq> []) (entries [] d)"

fun sender_listed :: "qstr \<Rightarrow> string \<Rightarrow> string list \<Rightarrow> bool" where
  "sender_listed Q addr [] = False"
| "sender_listed Q addr (e # es) = (let t = (if starts CHR ''@'' e then str_chr Q addr CHR ''@'' else 0) in
     if starts CHR ''@'' e \<and> length addr \<le> t then False
     else if str_diffn Q (drop t addr) e (length e) = 0 then True
     else sender_listed Q addr es)"

fun pattern_listed :: "(string \<Rightarrow> string \<Rightarrow> bool) \<Rightarrow> string \<Rightarrow> bool \<Rightarrow> string list \<Rightarrow> bool" where
  "pattern_listed wildmat addr k [] = k"
| "pattern_listed wildmat addr k (e # es) = (let sub = (\<not> starts CHR ''!'' e); p = (if sub then e else tl e) in
     pattern_listed wildmat addr (if k \<noteq> sub \<and> wildmat addr p then sub else k) es)"

definition bhfcheck :: "vd_env \<Rightarrow> string \<Rightarrow> bool dm" where
  "bhfcheck V addr = (let E = vd_dm V; f = control_file E ''/blackholedsender''; g = control_file E ''/blackholedpatterns'' in
     thenm (getm (\<lambda>st. (mq_files (d_mq st) f, mq_files (d_mq st) g))) (\<lambda>(s, p).
     case s of Some d \<Rightarrow> if q_readable (d_E E) f then gom (sender_listed (vd_Q V) addr (file_entries d)) else quitm 111
     | None \<Rightarrow> (case p of
         Some d \<Rightarrow> if q_readable (d_E E) g then gom (pattern_listed (vd_wildmat V) addr False (file_entries d)) else quitm 111
       | None \<Rightarrow> gom False)))"

subsection \<open>The program\<close>

text \<open>The account, and the flags that say that it is unknown and that it is inactive.\<close>

definition find_account :: "vd_env \<Rightarrow> string \<Rightarrow> string \<Rightarrow> (passwd option \<times> bool \<times> bool) ub" where
  "find_account V user dmn = (case vd_get V ''PWSTRUCT'' of
     None \<Rightarrow> Some (vd_getpw V user dmn)
   | Some p \<Rightarrow> do { (s, ok) \<leftarrow> strToPw (vd_Q V) p (length p + 1) (vd_pw0 V);
       Some (if ok then Some (p_ent s) else None, userNotFound s \<noteq> 0, is_inactive s \<noteq> 0) })"

text \<open>An unknown user of a domain on several hosts: the mail is sent to the host of the user.\<close>

definition cluster_route :: "vd_env \<Rightarrow> string \<Rightarrow> string \<Rightarrow> unit dm" where
  "cluster_route V user dmn = (let ret = vd_distributed V dmn in
     if ret = - 1 then vdl_exit V 111
     else if ret \<noteq> 1 then gom ()
     else (case vd_findhost V (user @ ''@'' @ dmn) of
       None \<Rightarrow> if vd_findhost_unknown V then gom () else vdl_exit V 111
     | Some ip \<Rightarrow> (let r = dropWhile (\<lambda>c. c \<noteq> CHR '':'') ip in
         if r = [] then ofub None
         else (let h = takeWhile (\<lambda>c. c \<noteq> CHR '':'') (tl r) in
           if length h = length (tl r) then vdl_exit V 111
           else (case vd_local_hostid V of None \<Rightarrow> vdl_exit V 111
             | Some l \<Rightarrow> (case vd_hostid V h of None \<Rightarrow> vdl_exit V 111
                 | Some x \<Rightarrow> if x = l then gom () else remote_exit V (vd_remote V (Some ip) user dmn)))))))"

definition known_user :: "vd_env \<Rightarrow> passwd \<Rightarrow> bool \<Rightarrow> string \<Rightarrow> string \<Rightarrow> string option \<Rightarrow> int \<Rightarrow> int dm" where
  "known_user V pw inactive user dmn bounce MsgSize =
     (if vd_get V ''BOUNCE_MAIL'' \<noteq> None then reject_mail V (pw_name pw) dmn 2 MsgSize bounce
      else if vd_get V ''ALLOW_INACTIVE'' \<noteq> None \<or> \<not> inactive then
        thenm (processMail V pw (pw_name pw) dmn MsgSize) (\<lambda>r.
        thenm (whenm (is_group V pw) (logm (LastAuth user dmn (drop 10 (pw_gecos pw))))) (\<lambda>_. gom r))
      else reject_mail V (pw_name pw) dmn 0 MsgSize bounce)"

definition vdelivermail_main :: "vd_env \<Rightarrow> string list \<Rightarrow> unit dm" where
  "vdelivermail_main V0 argv = (if \<not> vd_ids V0 then quitm 111 else
     thenm (get_arguments V0 argv) (\<lambda>(V, user, dmn, ext, bounce).
     if (case vd_get V ''MAKE_SEEKABLE'' of None \<Rightarrow> False | Some s \<Rightarrow> \<not> starts CHR ''0'' s) \<and> \<not> vd_mktemp V then quitm 111
     else if vd_msgsize V = 0 then quitm 0
     else (case vd_get V ''SENDER'' of None \<Rightarrow> quitm 100
       | Some addr \<Rightarrow>
          thenm (bhfcheck V addr) (\<lambda>black.
          if black then quitm 0
          else thenm (ofub (find_account V user dmn)) (\<lambda>(pw, unknown, inactive).
            thenm (if pw \<noteq> None then gom (pw, inactive)
                   else if \<not> unknown then vdl_exit V 111
                   else thenm (cluster_route V user dmn) (\<lambda>_.
                     gom (if ext \<noteq> None \<and> the ext \<noteq> user then (case vd_getpw V (the ext) dmn of (p, _, i) \<Rightarrow> (p, i)) else (None, inactive)))) (\<lambda>(pw, inactive).
            thenm (case pw of
                     Some pw \<Rightarrow> known_user V pw inactive user dmn bounce (vd_msgsize V)
                   | None \<Rightarrow> thenm (process_valias V user dmn (vd_msgsize V)) (\<lambda>n.
                       if n = 0 then reject_mail V user dmn 1 (vd_msgsize V) bounce else gom 0)) (\<lambda>_.
            quitm 0)))))))"

end
