(* ===== verification/Mquota_Spec.thy ===== *)
theory Mquota_Spec
  imports Mquota
begin

text \<open>
  What the quota file adds up to. The number formatter, the number scanner and the line reader of libqmail are fields
  of the environment; the locale \<open>mquota_lib\<close> states what they promise, and the sum that \<^verbatim>\<open>check_quota\<close> makes of the
  lines that \<^verbatim>\<open>recalc_quota\<close> and \<^verbatim>\<open>update_quota\<close> wrote is derived from that.
\<close>

definition file_sum :: "mq_env \<Rightarrow> string \<Rightarrow> u64 \<times> u64 \<Rightarrow> u64 \<times> u64" where
  "file_sum E d p = sum_lines E (q_getlns E d) (fst p) (snd p)"

lemma unat_u64: "unat (n :: u64) < 2 ^ 64"
  using unsigned_less[of n, where 'a = nat] by simp

locale mquota_lib = qstrings "q_str E" for E :: mq_env +
  assumes fmt_digits: "all_digits (q_fmt E n)"
    and fmt_val: "numval 10 (q_fmt E n) = n"
    and fmt_length: "n < 10 ^ k \<Longrightarrow> 0 < k \<Longrightarrow> length (q_fmt E n) \<le> k"
    and scan_stops: "all_digits s \<Longrightarrow> numval 10 s < 2 ^ 64 \<Longrightarrow> r = [] \<or> hd r \<notin> set ''0123456789'' \<Longrightarrow>
      q_scan_ulong E (s @ r) = of_nat (numval 10 s)"
    and getlns_all: "q_getlns E d = map line_event (file_lines d)"
begin

lemma scan_val: "all_digits s \<Longrightarrow> numval 10 s < 2 ^ 64 \<Longrightarrow> q_scan_ulong E s = of_nat (numval 10 s)"
  using scan_stops[of s "[]"] by simp

lemma file_sum_Nil: "file_sum E [] p = p"
  by (simp add: file_sum_def getlns_all)

lemma digits_clean: "all_digits s \<Longrightarrow> x \<notin> set ''0123456789'' \<Longrightarrow> x \<notin> set s"
  by (auto simp: all_digits_def)

lemma cut_id: "NUL \<notin> set l \<Longrightarrow> takeWhile (\<lambda>c. c \<noteq> NUL) l = l"
  by (rule takeWhile_neq_id)

lemma file_sum_line:
  assumes "LF \<notin> set l" and "NUL \<notin> set l" and "l \<noteq> []"
  shows "file_sum E ((l @ [LF]) @ d) p = (let i = str_chr (q_str E) l SP in
    if i < length l then file_sum E d (fst p + q_scan_ulong E (take i l), snd p + q_scan_ulong E (drop (i + 1) l)) else file_sum E d p)"
  using assms by (simp add: file_sum_def getlns_all file_lines_snoc line_event_def cut_id Let_def)

lemma file_sum_skip:
  assumes "LF \<notin> set l" and "NUL \<notin> set l" and "l \<noteq> []" and "SP \<notin> set l"
  shows "file_sum E ((l @ [LF]) @ d) p = file_sum E d p"
  using file_sum_line[OF assms(1-3)] chr_mem[of l SP] assms(4) by (simp add: Let_def)

lemma file_sum_entry:
  assumes "all_digits a" and "all_digits b" and "numval 10 a < 2 ^ 64" and "numval 10 b < 2 ^ 64"
  shows "file_sum E ((a @ SP # b @ [LF]) @ d) p = file_sum E d (fst p + of_nat (numval 10 a), snd p + of_nat (numval 10 b))"
proof -
  have n: "x \<notin> set (a @ SP # b)" if "x \<in> {LF, NUL}" for x
    using that digits_clean[OF assms(1), of x] digits_clean[OF assms(2), of x] by auto
  have i: "str_chr (q_str E) (a @ SP # b) SP = length a"
    by (rule chr_first) (rule digits_clean[OF assms(1)], simp)
  show ?thesis
    using file_sum_line[of "a @ SP # b" d p] n i scan_val[OF assms(1,3)] scan_val[OF assms(2,4)] by (simp add: Let_def)
qed

lemma file_sum_size: "file_sum E (size_line E n c @ d) p = file_sum E d (fst p + n, snd p + c)"
  using file_sum_entry[OF fmt_digits[of "unat n"] fmt_digits[of "unat c"], of d p] unat_u64[of n] unat_u64[of c]
  by (simp add: size_line_def fmt_val)

lemma file_sum_update: "file_sum E ((q_fmt E (unat n) @ '' 1'' @ [LF]) @ d) p = file_sum E d (fst p + n, snd p + 1)"
proof -
  have "all_digits ''1''" "numval 10 ''1'' = 1" by (simp_all add: all_digits_def numval_def digit_val_def)
  then show ?thesis using file_sum_entry[OF fmt_digits[of "unat n"], of "''1''" d p] unat_u64[of n] by (simp add: fmt_val)
qed

lemma file_sum_limit: "file_sum E (limit_line E a b @ d) p = file_sum E d p"
proof -
  have n: "x \<notin> set (q_fmt E k)" if "x \<in> {LF, NUL, SP}" for x k
    using that digits_clean[OF fmt_digits, of x k] by auto
  then show ?thesis
    using file_sum_skip[of "q_fmt E (unat a) @ ''S''" d p] file_sum_skip[of "q_fmt E (unat a) @ ''S,'' @ q_fmt E (unat b) @ ''C''" d p]
    by (simp add: limit_line_def)
qed

end

subsection \<open>A mailbox and its deliveries\<close>

fun update_all :: "mq_env \<Rightarrow> string \<Rightarrow> u64 list \<Rightarrow> mq_st \<Rightarrow> mq_st ub" where
  "update_all E d [] st = Some st"
| "update_all E d (n # ns) st = do { (st, r) \<leftarrow> update_quota E d n st; update_all E d ns st }"

text \<open>The file of a mailbox can be opened, locked, given away and written.\<close>

definition file_works :: "mq_env \<Rightarrow> string \<Rightarrow> bool" where
  "file_works E fn \<longleftrightarrow> q_wopen E fn = WOk \<and> q_readable E fn \<and> q_lock E \<and> q_chown E \<and> q_written E = None"

definition delivered :: "mq_env \<Rightarrow> u64 list \<Rightarrow> string" where
  "delivered E ns = concat (map (\<lambda>n. q_fmt E (unat n) @ '' 1'' @ [LF]) ns)"

lemma plain_path:
  assumes "mdir_path Q d = Some (d, m)"
  shows "d \<noteq> []" and "m = (if last d = CHR ''/'' then butlast d else d)"
  using assms by (auto simp: mdir_path_def Let_def split: if_splits option.splits)

lemma update_all_file:
  assumes "mdir_path Q d = Some (d, m)" and "file_works E (size_file m)" and "mq_files st (size_file m) = Some t"
  shows "\<exists>st'. update_all E d ns st = Some st' \<and> mq_files st' (size_file m) = Some (t @ delivered E ns)"
  using assms(3)
proof (induction ns arbitrary: st t)
  case (Cons n ns)
  let ?st = "st\<lparr>mq_files := (mq_files st)(size_file m := Some (t @ q_fmt E (unat n) @ '' 1'' @ [LF]))\<rparr>"
  have "update_quota E d n st = Some (?st, 1)"
    using plain_path[OF assms(1)] assms(2) Cons.prems by (simp add: update_quota_def Let_def file_works_def)
  then show ?case using Cons.IH[of ?st "t @ q_fmt E (unat n) @ '' 1'' @ [LF]"] by (simp add: delivered_def)
qed (simp add: delivered_def)

text \<open>A count that is not taken from the file: a forced one, or the first one for a mailbox without a file.\<close>

definition fresh_count :: "mq_env \<Rightarrow> string \<Rightarrow> int \<Rightarrow> mq_st \<Rightarrow> bool" where
  "fresh_count E m force_flag st \<longleftrightarrow> \<not> q_fast E \<and> (force_flag = 2 \<or> mq_files st (size_file m) = None \<and> prevmaildir st = [])"

definition counted_text :: "mq_env \<Rightarrow> u64 \<Rightarrow> u64 \<Rightarrow> u64 \<Rightarrow> u64 \<Rightarrow> string" where
  "counted_text E size_limit count_limit n c = limit_line E size_limit count_limit @ (if n \<noteq> 0 \<or> c \<noteq> 0 then size_line E n c else [])"

lemma recalc_fresh:
  assumes "mdir_path (q_str E) d = Some (s, m)" and "file_works E (size_file m)" and "fresh_count E m force_flag st"
    and "count_dir E True s (q_tree E s) = Some (n, Some c)"
  shows "recalc_quota E d size_limit count_limit force_flag st = Some (st\<lparr>mail_size := n, mail_count := c, CurCount := c, prevmaildir := m,
    mq_files := (mq_files st)(size_file m := Some (counted_text E size_limit count_limit n c))\<rparr>, n, c)"
  using assms by (auto simp: recalc_quota_def rewrite_file_def counted_text_def Let_def file_works_def fresh_count_def)

context mquota_lib
begin

lemma file_sum_delivered: "file_sum E (delivered E ns @ d) p = file_sum E d (fst p + sum_list ns, snd p + of_nat (length ns))"
proof (induction ns arbitrary: p)
  case (Cons n ns)
  then show ?case using file_sum_update[of n "delivered E ns @ d" p] by (simp add: delivered_def add.assoc)
qed (simp add: delivered_def)

lemma check_sum:
  assumes "mdir_path (q_str E) d = Some (s, m)" and "file_works E (size_file m)" and "mq_files st (size_file m) = Some t"
    and "file_sum E t (0, 0) = (n, c)" and "0 \<le> sint n" and "0 \<le> sint c"
  shows "check_quota E d (Some w) st = Some (n, Some c)"
  using assms by (simp add: check_quota_def file_works_def file_sum_def)

lemma usage_summed:
  assumes "mdir_path (q_str E) d = Some (d, m)" and "file_works E (size_file m)" and "\<not> q_fast E"
    and "count_dir E True d (q_tree E d) = Some (n, Some c)"
    and "0 \<le> sint (n + sum_list ns)" and "0 \<le> sint (c + of_nat (length ns))"
  shows "\<exists>st1 st2. recalc_quota E d size_limit count_limit 2 st = Some (st1, n, c) \<and> update_all E d ns st1 = Some st2
    \<and> check_quota E d (Some w) st2 = Some (n + sum_list ns, Some (c + of_nat (length ns)))"
proof -
  let ?t = "counted_text E size_limit count_limit n c"
  obtain st1 where 1: "recalc_quota E d size_limit count_limit 2 st = Some (st1, n, c)" "mq_files st1 (size_file m) = Some ?t"
    using recalc_fresh[OF assms(1,2) _ assms(4), of 2 st size_limit count_limit] assms(3) by (simp add: fresh_count_def)
  obtain st2 where 2: "update_all E d ns st1 = Some st2" "mq_files st2 (size_file m) = Some (?t @ delivered E ns)"
    using update_all_file[OF assms(1,2) 1(2)] by blast
  have "file_sum E (?t @ delivered E ns) (0, 0) = (n + sum_list ns, c + of_nat (length ns))"
    using file_sum_delivered[of ns "[]"] by (simp add: counted_text_def file_sum_limit file_sum_size file_sum_Nil)
  then show ?thesis using 1 2 check_sum[OF assms(1,2) 2(2) _ assms(5,6)] by blast
qed

end

subsection \<open>The cached usage\<close>

lemma recalc_cached:
  assumes "mail_size st \<noteq> 0" and "mail_count st \<noteq> 0" and "mdir_path (q_str E) b = Some (s, m)"
    and "mq_files st (size_file m) = Some t" and "q_recent E (size_file m)" and "length t \<le> q_max_size E"
  shows "recalc_quota E b size_limit count_limit 0 st = Some (st, mail_size st, mail_count st)"
  using assms by (simp add: recalc_quota_def)

lemma recalc_other:
  assumes "mdir_path (q_str E) a = Some (s, m)" and "file_works E (size_file m)" and "\<not> q_fast E"
    and "count_dir E True s (q_tree E s) = Some (n, Some c)" and "n \<noteq> 0" and "c \<noteq> 0"
    and "mdir_path (q_str E) b = Some (s', m')" and "m' \<noteq> m" and "mq_files st (size_file m') = Some t"
    and "q_recent E (size_file m')" and "length t \<le> q_max_size E"
  shows "\<exists>st1. recalc_quota E a l k 2 st = Some (st1, n, c) \<and> recalc_quota E b l' k' 0 st1 = Some (st1, n, c)"
proof -
  let ?st = "st\<lparr>mail_size := n, mail_count := c, CurCount := c, prevmaildir := m, mq_files := (mq_files st)(size_file m := Some (counted_text E l k n c))\<rparr>"
  have "recalc_quota E a l k 2 st = Some (?st, n, c)"
    using recalc_fresh[OF assms(1,2) _ assms(4), of 2 st l k] assms(3) by (simp add: fresh_count_def)
  moreover have "recalc_quota E b l' k' 0 ?st = Some (?st, n, c)"
    using recalc_cached[of ?st E b s' m' t l' k'] assms(5-) by (simp add: size_file_def)
  ultimately show ?thesis by blast
qed

subsection \<open>Mail that is refused\<close>

text \<open>A forced count returns what the directory holds.\<close>

lemma recalc_forced_counts:
  assumes "recalc_quota E d size_limit count_limit 2 st = Some (st', n, c)" and "\<not> q_fast E"
    and "mdir_path (q_str E) d = Some (s, m)" and "q_wopen E (size_file m) \<noteq> WNoEnt" and "n \<noteq> - 1"
  shows "\<exists>k. count_dir E True s (q_tree E s) = Some (n, k)"
  using assms by (auto simp: recalc_quota_def rewrite_file_def Let_def split: bind_splits wopen.splits if_splits option.splits prod.splits)

lemma refused_counts:
  assumes "user_over_quota E d quota k st = Some (st', 1)" and "\<not> q_fast E"
    and "mdir_path (q_str E) d = Some (d, m)" and "q_wopen E (size_file m) \<noteq> WNoEnt"
    and "parse_quota (q_str E) quota (Some 0) = Some (limit, Some 0)"
  shows "\<exists>n c. count_dir E True d (q_tree E d) = Some (n, c) \<and> limit < sint n + k"
proof -
  have "over_count c 0 = Some False" for c by (simp add: over_count_def)
  then have "\<exists>st1 st2 n c. recalc_quota E d (word_of_int limit) 0 2 st1 = Some (st2, n, c) \<and> n \<noteq> - 1 \<and> over_size n k limit = Some True"
    using assms by (auto simp: user_over_quota_def Let_def split: if_splits bind_splits; blast)
  then obtain st1 st2 n c where r: "recalc_quota E d (word_of_int limit) 0 2 st1 = Some (st2, n, c)" "n \<noteq> - 1" "over_size n k limit = Some True"
    by blast
  show ?thesis
    using recalc_forced_counts[OF r(1) assms(2-4) r(2)] r(3) by (auto simp: over_size_def split: if_splits)
qed

end
