(* ===== verification/Mailcount_Spec.thy ===== *)
theory Mailcount_Spec
  imports Mailcount Mquota_Spec
begin

text \<open>
  What the counter of a day holds. A line that is overwritten keeps its first byte, because the position is computed
  without the newline: the date of the line is spoilt, the next message starts a new line, and the counter never gets
  above 2.
\<close>

lemma word_split:
  assumes "list_all wordchar w" and "\<not> wordchar x"
  shows "takeWhile wordchar (w @ x # r) = w" and "dropWhile wordchar (w @ x # r) = x # r"
  using assms by (induction w) auto

definition count_line :: "mq_env \<Rightarrow> string \<times> u64 \<times> u64 \<Rightarrow> string" where
  "count_line E l = fst l @ SP # q_fmt E (unat (fst (snd l))) @ SP # q_fmt E (unat (snd (snd l))) @ [LF]"

definition word_ok :: "string \<Rightarrow> bool" where
  "word_ok w \<longleftrightarrow> w \<noteq> [] \<and> list_all wordchar w"

lemma blanks: "\<not> wordchar SP" "\<not> wordchar LF" "isspace SP" "isspace LF"
  by (simp_all add: wordchar_def isspace_def)

lemma word_LF: "word_ok w \<Longrightarrow> LF \<notin> set w"
  using blanks(2) by (auto simp: word_ok_def list_all_iff)

lemma word_text:
  assumes "word_ok w" and "\<not> wordchar x"
  shows "takeWhile wordchar (w @ x # r) = w" and "dropWhile wordchar (w @ x # r) = x # r" and "dropWhile isspace (SP # w @ r) = w @ r"
    and "w @ r \<noteq> []" and "hd (w @ r) \<noteq> NUL"
  using assms word_split[of w x r] blanks(3) by (cases w; simp add: word_ok_def wordchar_def)+

lemma fields_three:
  assumes "word_ok w" and "word_ok a" and "word_ok b"
  shows "line_fields (w @ SP # a @ SP # b @ [LF]) = Some (Some w, Some (a @ SP # b @ [LF]), Some (b @ [LF]))"
proof -
  have "SP \<noteq> NUL" by simp
  then show ?thesis
    using word_text[OF assms(1) blanks(1), of "a @ SP # b @ [LF]"] word_text[OF assms(2) blanks(1), of "b @ [LF]"] word_text[OF assms(3) blanks(2), of "[]"]
      word_text(3-5)[OF assms(2) blanks(1), of "SP # b @ [LF]"] word_text(3-5)[OF assms(3) blanks(1), of "[LF]"]
    unfolding line_fields_def Let_def by simp
qed

context mquota_lib
begin

lemma digit_word: "all_digits s \<Longrightarrow> word_ok s"
proof -
  have "list_all wordchar ''0123456789''" by (simp add: wordchar_def isspace_def of_char_def)
  then show "all_digits s \<Longrightarrow> word_ok s" unfolding all_digits_def word_ok_def list_all_iff by blast
qed

lemma scan_fmt: "c \<notin> set ''0123456789'' \<Longrightarrow> q_scan_ulong E (q_fmt E (unat (n :: u64)) @ c # r) = n"
  using scan_stops[OF fmt_digits, of "unat n" "c # r"] unat_u64[of n] by (simp add: fmt_val)

lemma take_count_line:
  assumes "word_ok (fst l)"
  shows "take_line E (count_line E l) True s
    = Some \<lparr>s_date = Some (fst l), s_count = Some (fst (snd l)), s_size = Some (snd (snd l)), s_pos = length (count_line E l) - 1\<rparr>"
  using fields_three[OF assms digit_word[OF fmt_digits] digit_word[OF fmt_digits], of "unat (fst (snd l))" "unat (snd (snd l))"]
    scan_fmt[of SP "fst (snd l)"] scan_fmt[of LF "snd (snd l)" "[]"]
  by (simp add: take_line_def count_line_def or_else_def)

lemma count_line_LF: "word_ok (fst l) \<Longrightarrow> \<exists>x. count_line E l = x @ [LF] \<and> LF \<notin> set x \<and> x \<noteq> []"
  using word_LF word_LF[OF digit_word[OF fmt_digits]] by (auto simp: count_line_def word_ok_def intro!: exI[of _ "fst l @ SP # q_fmt E (unat (fst (snd l))) @ SP # q_fmt E (unat (snd (snd l)))"])

lemma scan_count_lines:
  assumes "\<forall>l \<in> set ls. word_ok (fst l)"
  shows "scan_lines E (q_getlns E (concat (map (count_line E) ls))) s = Some (Some (if ls = [] then s
    else \<lparr>s_date = Some (fst (last ls)), s_count = Some (fst (snd (last ls))), s_size = Some (snd (snd (last ls))), s_pos = length (count_line E (last ls)) - 1\<rparr>))"
  using assms
proof (induction ls arbitrary: s)
  case (Cons l ls)
  obtain x where x: "count_line E l = x @ [LF]" "LF \<notin> set x" "x \<noteq> []" using count_line_LF[of l] Cons.prems by auto
  then have "line_event (count_line E l) = GlLine (count_line E l) True" "count_line E l \<noteq> []" "butlast (count_line E l) \<noteq> []"
    by (simp_all add: line_event_def)
  then show ?case
    using take_count_line[of l s] Cons x by (simp add: getlns_all file_lines_snoc)
qed (simp add: getlns_all)

end

subsection \<open>Dates\<close>

definition tm_ok :: "tm_t \<Rightarrow> bool" where
  "tm_ok t \<longleftrightarrow> tm_mday t \<le> 31 \<and> tm_mon t \<le> 11 \<and> tm_year t < 8100 \<and> tm_hour t \<le> 23 \<and> tm_min t \<le> 59 \<and> tm_sec t \<le> 60"

definition same_day :: "tm_t \<Rightarrow> tm_t \<Rightarrow> bool" where
  "same_day t t' \<longleftrightarrow> tm_mday t = tm_mday t' \<and> tm_mon t = tm_mon t' \<and> tm_year t = tm_year t'"

definition day_text :: "mq_env \<Rightarrow> tm_t \<Rightarrow> string" where
  "day_text E t = two E (tm_mday t) @ ''-'' @ two E (tm_mon t + 1) @ ''-'' @ q_fmt E (tm_year t + 1900)"

lemma digit_val_less: "c \<in> set ''0123456789'' \<Longrightarrow> digit_val c < 10"
proof -
  have "list_all (\<lambda>c. digit_val c < 10) ''0123456789''" by (simp add: digit_val_def of_char_def)
  then show "c \<in> set ''0123456789'' \<Longrightarrow> digit_val c < 10" unfolding list_all_iff by blast
qed

lemma numval_less: "set s \<subseteq> set ''0123456789'' \<Longrightarrow> numval 10 s < 10 ^ length s"
proof (induction s rule: rev_induct)
  case (snoc c s)
  then have "numval 10 s < 10 ^ length s" "digit_val c < 10" using digit_val_less[of c] by auto
  then show ?case by (simp add: numval_def)
qed (simp add: numval_def)

context mquota_lib
begin

lemma fmt_length_ge: "10 ^ k \<le> n \<Longrightarrow> k < length (q_fmt E n)"
proof (rule ccontr)
  assume "10 ^ k \<le> n" and "\<not> k < length (q_fmt E n)"
  then have "(10 :: nat) ^ length (q_fmt E n) \<le> n" using power_increasing[of "length (q_fmt E n)" k "10 :: nat"] by linarith
  then show False using numval_less[of "q_fmt E n"] fmt_digits[of n] fmt_val[of n] by (simp add: all_digits_def)
qed

lemma fmt_mono:
  assumes "m \<le> n"
  shows "length (q_fmt E m) \<le> length (q_fmt E n)"
proof -
  have "n < 10 ^ length (q_fmt E n)" "q_fmt E n \<noteq> []"
    using numval_less[of "q_fmt E n"] fmt_digits[of n] fmt_val[of n] by (simp_all add: all_digits_def)
  then show ?thesis using fmt_length[of m "length (q_fmt E n)"] assms by simp
qed

lemma two_length: "n < 100 \<Longrightarrow> length (two E n) = 2"
proof -
  assume n: "n < 100"
  have "0 < length (q_fmt E n)" using fmt_digits[of n] by (simp add: all_digits_def)
  then show ?thesis using n fmt_length[of n 1] fmt_length[of n 2] fmt_length_ge[of 1 n] by (cases "n < 10") (auto simp: two_def le_Suc_eq)
qed

lemma year_length: "n < 8100 \<Longrightarrow> length (q_fmt E (n + 1900)) = 4"
  using fmt_length[of "n + 1900" 4] fmt_length_ge[of 3 "n + 1900"] by simp

lemma two_digits: "all_digits (two E n)"
  using fmt_digits[of n] by (auto simp: two_def all_digits_def)

lemma day_length: "tm_ok t \<Longrightarrow> length (day_text E t) = 10"
  using two_length[of "tm_mday t"] two_length[of "tm_mon t + 1"] year_length[of "tm_year t"] by (simp add: tm_ok_def day_text_def)

lemma date_length: "tm_ok t \<Longrightarrow> length (datebuf E t) = 19"
  using two_length[of "tm_mday t"] two_length[of "tm_mon t + 1"] year_length[of "tm_year t"]
    two_length[of "tm_hour t"] two_length[of "tm_min t"] two_length[of "tm_sec t"]
  by (simp add: tm_ok_def datebuf_def)

lemma date_day: "tm_ok t \<Longrightarrow> take 10 (datebuf E t) = day_text E t"
proof -
  assume "tm_ok t"
  moreover have "datebuf E t = day_text E t @ '':'' @ two E (tm_hour t) @ '':'' @ two E (tm_min t) @ '':'' @ two E (tm_sec t)"
    by (simp add: datebuf_def day_text_def)
  ultimately show ?thesis using day_length[of t] by simp
qed

lemma date_word: "word_ok (datebuf E t)"
proof -
  have "wordchar CHR ''-''" "wordchar CHR '':''" by (simp_all add: wordchar_def isspace_def of_char_def)
  then show ?thesis using digit_word[OF two_digits] digit_word[OF fmt_digits] by (simp add: datebuf_def word_ok_def)
qed

text \<open>The first byte in front of the date spoils it: the third byte of a date is a hyphen.\<close>

lemma spoilt_date:
  assumes "tm_ok t"
  shows "take 10 (c # datebuf E t) \<noteq> day_text E t"
proof -
  obtain a b where m: "two E (tm_mday t) = [a, b]" using two_length[of "tm_mday t"] assms by (auto simp: tm_ok_def length_Suc_conv numeral_2_eq_2)
  have "b \<noteq> CHR ''-''" using two_digits[of "tm_mday t"] m by (auto simp: all_digits_def)
  then show ?thesis by (simp add: datebuf_def day_text_def m)
qed

end

subsection \<open>Deliveries on a day\<close>

definition count_works :: "mc_env \<Rightarrow> bool" where
  "count_works M \<longleftrightarrow> c_dblock M \<and> c_open M \<and> c_seek M \<and> c_written M = None"

lemma count_file_set [simp]: "count_file (set_count_file m d st) m = d"
  by (simp add: count_file_def set_count_file_def)

context mquota_lib
begin

lemma same_date:
  assumes "word_ok w" and "10 \<le> length w" and "tm_ok t"
  shows "str_diffn (q_str E) w (datebuf E t) 10 = 0 \<longleftrightarrow> take 10 w = day_text E t"
proof -
  have "NUL \<notin> set w" "NUL \<notin> set (datebuf E t)" using assms(1) date_word[of t] by (auto simp: word_ok_def list_all_iff wordchar_def)
  then show ?thesis using diffn_zero[of w "datebuf E t" 10] assms(2) date_length[OF assms(3)] date_day[OF assms(3)] by simp
qed

lemma record_new:
  assumes "c_mq M = E" and "count_works M" and "c_localtime M = Some t" and "tm_ok t"
    and "\<forall>l \<in> set ls. word_ok (fst l) \<and> 10 \<le> length (fst l)" and "count_file st m = concat (map (count_line E) ls)"
    and "ls = [] \<or> take 10 (fst (last ls)) \<noteq> day_text E t" and "\<not> over_limits M 1 n"
  shows "\<exists>st'. recordMailcount M m n st = Some (st', 0, 0, 0) \<and> count_file st' m = concat (map (count_line E) (ls @ [(datebuf E t, 1, n)]))"
proof -
  have s: "ls \<noteq> [] \<Longrightarrow> str_diffn (q_str E) (fst (last ls)) (datebuf E t) 10 \<noteq> 0"
    using same_date[of "fst (last ls)" t] assms(4,5,7) by auto
  have c: "scan_lines E (q_getlns E (count_file st m)) p = Some (Some (if ls = [] then p
    else \<lparr>s_date = Some (fst (last ls)), s_count = Some (fst (snd (last ls))), s_size = Some (snd (snd (last ls))), s_pos = length (count_line E (last ls)) - 1\<rparr>))" for p
    using scan_count_lines[of ls p] assms(5,6) by simp
  show ?thesis
    using assms(1-4,8) c s date_length[OF assms(4)]
    by (cases "ls = []") (simp_all add: recordMailcount_def count_works_def count_text_def overwrite_def Let_def assms(6) count_line_def)
qed

text \<open>The text from the second byte of the last line on is replaced.\<close>

lemma overwrite_line:
  assumes "length (count_line E (w, c, z)) \<le> length s + 1" and "w \<noteq> []"
  shows "overwrite (p @ count_line E (w, c, z)) (length (p @ count_line E (w, c, z)) - (length (count_line E (w, c, z)) - 1)) s = p @ hd w # s"
proof -
  obtain r where r: "count_line E (w, c, z) = hd w # r" using assms(2) by (cases w) (simp_all add: count_line_def)
  then show ?thesis using assms(1) by (simp add: overwrite_def)
qed

lemma record_again:
  assumes "c_mq M = E" and "count_works M" and "c_localtime M = Some t" and "tm_ok t"
    and "\<forall>l \<in> set ls. word_ok (fst l)" and "count_file st m = concat (map (count_line E) (ls @ [(w, c, z)]))"
    and "word_ok w" and "length w = 19" and "take 10 w = day_text E t" and "\<not> over_limits M (c + 1) (z + n)"
    and "unat c \<le> unat (c + 1)" and "unat z \<le> unat (z + n)"
  shows "\<exists>st'. recordMailcount M m n st = Some (st', 0, c, z)
    \<and> count_file st' m = concat (map (count_line E) (ls @ [(hd w # datebuf E t, c + 1, z + n)]))"
proof -
  have s: "str_diffn (q_str E) w (datebuf E t) 10 = 0" using same_date[of w t] assms(4,7-9) by simp
  have c: "scan_lines E (q_getlns E (count_file st m)) p
      = Some (Some \<lparr>s_date = Some w, s_count = Some c, s_size = Some z, s_pos = length (count_line E (w, c, z)) - 1\<rparr>)" for p
    unfolding assms(6) using scan_count_lines[of "ls @ [(w, c, z)]" p] assms(5,7) by simp
  have x: "count_text E (datebuf E t) (c + 1) (z + n) = Some (count_line E (datebuf E t, c + 1, z + n))"
    using date_length[OF assms(4)] by (simp add: count_text_def count_line_def)
  have "length (count_line E (w, c, z)) \<le> length (count_line E (datebuf E t, c + 1, z + n)) + 1" "w \<noteq> []"
    using fmt_mono[OF assms(11)] fmt_mono[OF assms(12)] assms(7,8) date_length[OF assms(4)] by (auto simp: count_line_def word_ok_def)
  from overwrite_line[OF this, of "concat (map (count_line E) ls)"]
  have o: "overwrite (count_file st m) (length (count_file st m) - (length (count_line E (w, c, z)) - 1)) (count_line E (datebuf E t, c + 1, z + n))
      = concat (map (count_line E) (ls @ [(hd w # datebuf E t, c + 1, z + n)]))"
    by (simp add: assms(6)) (simp add: count_line_def)
  show ?thesis
    using assms(1-3,10) c s x o date_length[OF assms(4)] by (simp add: recordMailcount_def count_works_def Let_def)
qed

end

fun record_all :: "mc_env \<Rightarrow> string \<Rightarrow> (tm_t \<times> u64) list \<Rightarrow> mq_st \<Rightarrow> (mq_st \<times> int list) ub" where
  "record_all M m [] st = Some (st, [])"
| "record_all M m ((t, n) # xs) st = do {
     (st, r, _) \<leftarrow> recordMailcount (M\<lparr>c_localtime := Some t\<rparr>) m n st;
     (st, rs) \<leftarrow> record_all M m xs st;
     Some (st, r # rs) }"

text \<open>The last line is that of another date, or it is the line of one message on this day.\<close>

definition other_day :: "mq_env \<Rightarrow> tm_t \<Rightarrow> string \<Rightarrow> bool" where
  "other_day E t d \<longleftrightarrow> (\<exists>ls. d = concat (map (count_line E) ls) \<and> (\<forall>l \<in> set ls. word_ok (fst l) \<and> 10 \<le> length (fst l))
     \<and> (ls = [] \<or> take 10 (fst (last ls)) \<noteq> day_text E t))"

definition one_message :: "mq_env \<Rightarrow> tm_t \<Rightarrow> string \<Rightarrow> bool" where
  "one_message E t d \<longleftrightarrow> (\<exists>ls t' z. d = concat (map (count_line E) (ls @ [(datebuf E t', 1, z)]))
     \<and> (\<forall>l \<in> set ls. word_ok (fst l) \<and> 10 \<le> length (fst l)) \<and> tm_ok t' \<and> day_text E t' = day_text E t \<and> unat z < 2 ^ 63)"

lemma limits_time [simp]: "c_mail_limit (M\<lparr>c_localtime := t\<rparr>) = c_mail_limit M" "c_size_limit (M\<lparr>c_localtime := t\<rparr>) = c_size_limit M"
  by (simp_all add: c_mail_limit_def c_size_limit_def getEnvConfiguLong_def split: option.split)

lemma same_day_text: "same_day t t' \<Longrightarrow> day_text E t = day_text E t'"
  by (simp add: same_day_def day_text_def)

lemma add_no_wrap:
  assumes "unat (z :: u64) < 2 ^ 63" and "unat (n :: u64) < 2 ^ 63"
  shows "unat z \<le> unat (z + n)"
proof -
  have "unat (z + n) = unat z + unat n" using assms by (simp add: unat_word_ariths)
  then show ?thesis by simp
qed

context mquota_lib
begin

lemma record_first:
  assumes "c_mq M = E" and "count_works M" and "c_localtime M = Some t" and "tm_ok t" and "\<not> over_limits M 1 n"
    and "other_day E t (count_file st m)" and "unat n < 2 ^ 63"
  shows "\<exists>st'. recordMailcount M m n st = Some (st', 0, 0, 0) \<and> one_message E t (count_file st' m)"
proof -
  obtain ls where ls: "count_file st m = concat (map (count_line E) ls)" "\<forall>l \<in> set ls. word_ok (fst l) \<and> 10 \<le> length (fst l)"
      "ls = [] \<or> take 10 (fst (last ls)) \<noteq> day_text E t"
    using assms(6) by (auto simp: other_day_def)
  obtain st' where "recordMailcount M m n st = Some (st', 0, 0, 0)" "count_file st' m = concat (map (count_line E) (ls @ [(datebuf E t, 1, n)]))"
    using record_new[OF assms(1-4) ls(2,1,3) assms(5)] by blast
  then show ?thesis unfolding one_message_def using ls(2) assms(4,7) by blast
qed

lemma record_second:
  assumes "c_mq M = E" and "count_works M" and "c_localtime M = Some t" and "tm_ok t" and "\<And>z. \<not> over_limits M 2 z"
    and "one_message E t (count_file st m)" and "unat n < 2 ^ 63"
  shows "\<exists>st' z. recordMailcount M m n st = Some (st', 0, 1, z) \<and> other_day E t (count_file st' m)"
proof -
  obtain ls t' z where ls: "count_file st m = concat (map (count_line E) (ls @ [(datebuf E t', 1, z)]))"
      "\<forall>l \<in> set ls. word_ok (fst l) \<and> 10 \<le> length (fst l)" "tm_ok t'" "day_text E t' = day_text E t" "unat z < 2 ^ 63"
    using assms(6) unfolding one_message_def by blast
  let ?w = "hd (datebuf E t') # datebuf E t"
  have "\<exists>st'. recordMailcount M m n st = Some (st', 0, 1, z) \<and> count_file st' m = concat (map (count_line E) (ls @ [(?w, 1 + 1, z + n)]))"
    using ls assms(5) date_word[of t'] date_length[OF ls(3)] date_day[OF ls(3)] add_no_wrap[OF ls(5) assms(7)]
    by (intro record_again[OF assms(1-4)]) simp_all
  moreover have "word_ok ?w" "10 \<le> length ?w"
    using date_word[of t'] date_word[of t] date_length[OF assms(4)] by (cases "datebuf E t'"; simp add: word_ok_def)+
  ultimately show ?thesis
    unfolding other_day_def using ls(2) spoilt_date[OF assms(4), of "hd (datebuf E t')"] by (metis (no_types, lifting) fst_conv last_snoc rotate1.simps(2) set_ConsD set_rotate1)
qed

lemma record_all_lost:
  assumes "c_mq M = E" and "count_works M" and "c_mail_limit M \<ge> 2" and "c_size_limit M = 0"
    and "\<forall>(t, n) \<in> set xs. tm_ok t \<and> same_day t day \<and> unat n < 2 ^ 63"
    and "other_day E day (count_file st m) \<or> one_message E day (count_file st m)"
  shows "\<exists>st'. record_all M m xs st = Some (st', replicate (length xs) 0)"
  using assms(5,6)
proof (induction xs arbitrary: st)
  case (Cons x xs)
  obtain t n where x: "x = (t, n)" by (cases x)
  let ?M = "M\<lparr>c_localtime := Some t\<rparr>"
  have t: "tm_ok t" "unat n < 2 ^ 63" "day_text E t = day_text E day" using Cons.prems(1) same_day_text[of t day E] by (auto simp: x)
  have l: "\<not> over_limits ?M 1 z" "\<not> over_limits ?M 2 z" for z
    using assms(3,4) by (auto simp: over_limits_def word_less_nat_alt word_le_nat_alt)
  have e: "other_day E t = other_day E day" "one_message E t = one_message E day"
    using t(3) by (auto simp: other_day_def one_message_def fun_eq_iff)
  have M: "c_mq ?M = E" "count_works ?M" "c_localtime ?M = Some t" using assms(1,2) by (simp_all add: count_works_def)
  from Cons.prems(2) have "\<exists>st' y. recordMailcount ?M m n st = Some (st', 0, y) \<and> (other_day E day (count_file st' m) \<or> one_message E day (count_file st' m))"
    using record_first[OF M t(1) l(1)] record_second[OF M t(1) l(2)] t(2) unfolding e by metis
  then obtain st' y where "recordMailcount ?M m n st = Some (st', 0, y)" "other_day E day (count_file st' m) \<or> one_message E day (count_file st' m)"
    by blast
  then show ?case using Cons.IH[of st'] Cons.prems(1) by (auto simp: x)
qed simp

end

end
