(* ===== verification/Deliver_Spec.thy ===== *)
theory Deliver_Spec
  imports Deliver Mailcount_Spec "HOL-Library.Sublist"
begin

text \<open>
  What a delivery does to the files. All stages before the message is written touch only files whose names end with a
  letter, and never report success; the names of messages end with a digit. So a message is either complete in \<^verbatim>\<open>new\<close>, with the
  result 0, or not there.
\<close>

definition digit_end :: "string \<Rightarrow> bool" where
  "digit_end f \<longleftrightarrow> f \<noteq> [] \<and> last f \<in> set ''0123456789''"

definition same_mail :: "mq_st \<Rightarrow> mq_st \<Rightarrow> bool" where
  "same_mail q q' \<longleftrightarrow> (\<forall>f. digit_end f \<longrightarrow> mq_files q' f = mq_files q f)"

text \<open>The results of a failed stage.\<close>

definition fails :: "'a step \<Rightarrow> bool" where
  "fails r \<longleftrightarrow> (case r of Go x \<Rightarrow> False | Stop n \<Rightarrow> - 5 \<le> n \<and> n < 0 | Quit n \<Rightarrow> n = 111)"

lemma fails_simps [simp]: "\<not> fails (Go x)" "fails (Stop n) \<longleftrightarrow> - 5 \<le> n \<and> n < 0" "fails (Quit n) \<longleftrightarrow> n = 111"
  by (simp_all add: fails_def)

definition quiet :: "'a dm \<Rightarrow> bool" where
  "quiet m \<longleftrightarrow> (\<forall>st st' r. m st = Some (st', r) \<longrightarrow> same_mail (d_mq st) (d_mq st') \<and> ((\<exists>x. r = Go x) \<or> fails r))"

named_theorems quiet_rules \<open>stages that do not touch messages\<close>

lemma quietI: "(\<And>st st' r. m st = Some (st', r) \<Longrightarrow> same_mail (d_mq st) (d_mq st') \<and> ((\<exists>x. r = Go x) \<or> fails r)) \<Longrightarrow> quiet m"
  by (simp add: quiet_def)

lemma quietD: "quiet m \<Longrightarrow> m st = Some (st', r) \<Longrightarrow> same_mail (d_mq st) (d_mq st') \<and> ((\<exists>x. r = Go x) \<or> fails r)"
  by (simp add: quiet_def)

lemma same_mail_refl [simp]: "same_mail q q"
  by (simp add: same_mail_def)

lemma same_mail_trans: "same_mail a b \<Longrightarrow> same_mail b c \<Longrightarrow> same_mail a c"
  by (simp add: same_mail_def)

lemma same_mail_upd: "\<not> digit_end f \<Longrightarrow> mq_files q' = (mq_files q)(f := x) \<Longrightarrow> same_mail q q'"
  by (auto simp: same_mail_def)

lemma thenm_cases:
  assumes "thenm m f st = Some (st', r)" and "quiet m"
  obtains (go) x st1 where "m st = Some (st1, Go x)" and "f x st1 = Some (st', r)" and "same_mail (d_mq st) (d_mq st1)"
  | (out) "same_mail (d_mq st) (d_mq st')" and "fails r"
proof (cases "m st")
  case None
  then show ?thesis using assms(1) by (simp add: thenm_def)
next
  case (Some p)
  obtain st1 s where p: "p = (st1, s)" by (cases p)
  have q: "same_mail (d_mq st) (d_mq st1)" "(\<exists>x. s = Go x) \<or> fails s" using quietD[OF assms(2)] Some p by blast+
  show ?thesis
  proof (cases s)
    case (Go x)
    then show ?thesis using go[of st1 x] assms(1) Some p q by (simp add: thenm_def)
  next
    case (Stop n)
    then show ?thesis using out assms(1) Some p q by (auto simp: thenm_def)
  next
    case (Quit n)
    then show ?thesis using out assms(1) Some p q by (auto simp: thenm_def)
  qed
qed

lemma quiet_thenm_value:
  assumes "quiet m" and "\<And>x st st'. m st = Some (st', Go x) \<Longrightarrow> quiet (f x)"
  shows "quiet (thenm m f)"
proof (rule quietI)
  fix st st' r
  assume "thenm m f st = Some (st', r)"
  then show "same_mail (d_mq st) (d_mq st') \<and> ((\<exists>x. r = Go x) \<or> fails r)"
    using assms(1)
  proof (cases rule: thenm_cases)
    case (go x st1)
    then show ?thesis using quietD[OF assms(2)[OF go(1)] go(2)] same_mail_trans by blast
  qed simp
qed

lemma quiet_thenm [quiet_rules]: "quiet m \<Longrightarrow> (\<And>x. quiet (f x)) \<Longrightarrow> quiet (thenm m f)"
  by (rule quiet_thenm_value)

lemma quiet_gom [quiet_rules]: "quiet (gom x)" by (simp add: quiet_def gom_def)
lemma quiet_stopm [quiet_rules]: "- 5 \<le> n \<Longrightarrow> n < 0 \<Longrightarrow> quiet (stopm n)" by (simp add: quiet_def stopm_def)
lemma quiet_quitm [quiet_rules]: "n = 111 \<Longrightarrow> quiet (quitm n)" by (simp add: quiet_def quitm_def)
lemma quiet_ofub [quiet_rules]: "quiet (ofub r)" by (auto simp: quiet_def ofub_def split: option.splits)
lemma quiet_getm [quiet_rules]: "quiet (getm f)" by (simp add: quiet_def getm_def)
lemma quiet_logm [quiet_rules]: "quiet (logm c)" by (simp add: quiet_def logm_def modm_def)
lemma quiet_whenm [quiet_rules]: "quiet m \<Longrightarrow> quiet (whenm b m)" by (simp add: whenm_def quiet_gom)
lemma quiet_modm: "(\<And>st. same_mail (d_mq st) (d_mq (f st))) \<Longrightarrow> quiet (modm f)" by (simp add: quiet_def modm_def)

lemma quiet_onmq: "(\<And>q q' x. f q = Some (q', x) \<Longrightarrow> same_mail q q') \<Longrightarrow> quiet (onmq f)"
  by (auto simp: quiet_def onmq_def split: option.splits)

subsection \<open>The stages\<close>

lemma size_file_end: "\<not> digit_end (size_file m)"
  by (simp add: digit_end_def size_file_def)

lemma rewrite_same: "rewrite_file E s m l c q = Some (q', x) \<Longrightarrow> same_mail q q'"
  by (rule same_mail_upd[OF size_file_end, where x = "mq_files q' (size_file m)"])
    (auto simp: rewrite_file_def Let_def fun_eq_iff split: bind_splits wopen.splits if_splits option.splits prod.splits)

lemma recalc_same: "recalc_quota E d l c fl q = Some (q', x) \<Longrightarrow> same_mail q q'"
  by (auto simp: recalc_quota_def same_mail_def dest!: rewrite_same split: bind_splits if_splits prod.splits)

lemma update_same: "update_quota E d n q = Some (q', x) \<Longrightarrow> same_mail q q'"
  using size_file_end by (auto simp: update_quota_def Let_def same_mail_def split: if_splits option.splits)

lemma same_mail_cur [simp]: "same_mail q (q'\<lparr>CurBytes := b\<rparr>) = same_mail q q'" "same_mail q (q'\<lparr>CurCount := b\<rparr>) = same_mail q q'"
  "same_mail (q\<lparr>CurBytes := b\<rparr>) q' = same_mail q q'" "same_mail (q\<lparr>CurCount := b\<rparr>) q' = same_mail q q'"
  by (simp_all add: same_mail_def)

lemma over_same: "user_over_quota E d quota k q = Some (q', x) \<Longrightarrow> same_mail q q'"
  by (auto simp: user_over_quota_def Let_def dest!: recalc_same intro: same_mail_trans split: bind_splits if_splits prod.splits)

lemma count_same: "recordMailcount M d n q = Some (q', x) \<Longrightarrow> same_mail q q'"
  by (rule same_mail_upd[where f = "d @ ''/deliveryCount''" and x = "mq_files q' (d @ ''/deliveryCount'')"])
    (auto simp: digit_end_def recordMailcount_def Let_def set_count_file_def fun_eq_iff split: bind_splits if_splits option.splits prod.splits)

lemma quiet_recalc [quiet_rules]: "quiet (onmq (recalc_quota E d l c fl))" by (rule quiet_onmq) (rule recalc_same)
lemma quiet_update [quiet_rules]: "quiet (onmq (update_quota E d n))" by (rule quiet_onmq) (rule update_same)
lemma quiet_over [quiet_rules]: "quiet (onmq (user_over_quota E d q k))" by (rule quiet_onmq) (rule over_same)
lemma quiet_count [quiet_rules]: "quiet (onmq (recordMailcount M d n))" by (rule quiet_onmq) (rule count_same)

lemma quiet_read_quota [quiet_rules]: "quiet (read_quota E d)"
proof -
  have "quiet (read_quota_loop E s f n)" for s f n
  proof (induction n)
    case 0
    show ?case by (subst read_quota_loop.simps) (auto intro!: quiet_rules simp: Let_def split: opened.split option.split prod.split)
  next
    case (Suc n)
    then show ?case by (subst read_quota_loop.simps) (auto intro!: quiet_rules simp: Let_def split: opened.split option.split prod.split simp del: read_quota_loop.simps)
  qed
  then show ?thesis by (simp add: read_quota_def split: prod.split)
qed

lemma quiet_email [quiet_rules]: "quiet (maildir_to_email E d dmn)"
  unfolding maildir_to_email_def by (auto intro!: quiet_rules split: opened.split option.split prod.split)

lemma quiet_set_file: "\<not> digit_end f \<Longrightarrow> quiet (set_file f d)"
  unfolding set_file_def by (rule quiet_modm) (simp add: same_mail_def)

lemma quiet_warn_loop: "\<not> digit_end f \<Longrightarrow> quiet (warn_loop E i u dmn m f a b c d)"
proof (induction i)
  case (Suc i)
  have "quiet (modm (\<lambda>st. st\<lparr>d_mq := (d_mq st)\<lparr>mq_files := (mq_files (d_mq st))(f := Some [])\<rparr>\<rparr>))"
    using quiet_set_file[OF Suc.prems, of "Some []"] by (simp add: set_file_def)
  then show ?case using Suc.IH[OF Suc.prems] by (auto intro!: quiet_rules simp: Let_def split: option.split)
qed (simp add: quiet_gom)

lemma quiet_warn [quiet_rules]: "quiet (MailQuotaWarn E u dmn d q)"
  unfolding MailQuotaWarn_def Let_def
  by (auto intro!: quiet_rules quiet_warn_loop simp: digit_end_def split: prod.split)

lemma quiet_me [quiet_rules]: "quiet (read_me E)"
  unfolding read_me_def by (auto intro!: quiet_rules split: opened.split option.split prod.split)

lemma quiet_overquota [quiet_rules]: "quiet (run_overquota E args)"
  unfolding run_overquota_def by (intro quiet_rules)

lemma count_codes: "recordMailcount M d n q = Some (q', r, x) \<Longrightarrow> r \<in> {0, - 1, - 2}"
  by (auto simp: recordMailcount_def Let_def split: bind_splits if_splits option.splits prod.splits)

lemma onmq_value: "onmq f st = Some (st', Go x) \<Longrightarrow> \<exists>q q'. f q = Some (q', x)"
  by (auto simp: onmq_def split: option.splits)

lemma quiet_daily [quiet_rules]: "quiet (daily_limits E d n)"
  unfolding daily_limits_def Let_def
  by (auto intro!: quiet_thenm_value[OF quiet_count] quiet_rules dest!: onmq_value count_codes split: prod.split)

lemma quiet_find_quota [quiet_rules]: "quiet (find_quota E d q e)"
  unfolding find_quota_def Let_def by (auto intro!: quiet_rules split: option.split)

lemma quiet_note_bounce [quiet_rules]: "quiet (note_bounce E e q)"
  unfolding note_bounce_def by (auto intro!: quiet_rules quiet_modm split: prod.split)

lemma quiet_over_quota [quiet_rules]: "quiet (over_quota E d h e q n)"
  unfolding over_quota_def by (auto intro!: quiet_rules split: prod.split)

lemma quiet_alert [quiet_rules]: "quiet (send_alert E e n)"
  unfolding send_alert_def getAlertConfig_def Let_def by (auto intro!: quiet_rules quiet_modm split: prod.split option.split opened.split)

lemma quiet_quota_stage [quiet_rules]: "quiet (quota_stage E d q e n)"
  unfolding quota_stage_def by (auto intro!: quiet_rules quiet_modm split: prod.split)

lemma quiet_date_folder [quiet_rules]: "quiet (date_folder E d)"
proof -
  have "quiet (make_dirs E b ds)" for b ds by (induction ds) (auto intro!: quiet_rules)
  then show ?thesis unfolding date_folder_def Let_def by (auto intro!: quiet_rules split: prod.split option.split opened.split)
qed

subsection \<open>The message\<close>

text \<open>The result of the last stage: the message is in \<^verbatim>\<open>new\<close>, or only the file in \<^verbatim>\<open>tmp\<close> has changed.\<close>

lemma write_file_result:
  assumes "write_file E W f g hdr st = Some (st', r)"
  shows "(r = Stop 0 \<and> (\<exists>body. read_body (d_reads E) = (body, True)
      \<and> mq_files (d_mq st') = (mq_files (d_mq st))(f := None, g := Some (hdr @ body @ drop (length hdr + length body) (old_data f st)))))
    \<or> (fails r \<and> (\<exists>x. mq_files (d_mq st') = (mq_files (d_mq st))(f := x)))"
proof (cases "o_create W")
  case False
  then show ?thesis using assms by (auto simp: write_file_def stopm_def intro: exI[of _ "mq_files (d_mq st) f"])
next
  case True
  then show ?thesis
    using assms by (auto simp: write_file_def write_failed_def move_to_new_def set_file_def overwrite_def thenm_def modm_def getm_def stopm_def
      split: if_splits option.splits prod.splits hdr_write.splits)
qed

lemma quiet_cases:
  assumes "thenm m f st = Some (st', r)" and "quiet m" and "\<And>x st1. f x st1 = Some (st', r) \<Longrightarrow> same_mail (d_mq st) (d_mq st1) \<Longrightarrow> P"
    and "same_mail (d_mq st) (d_mq st') \<Longrightarrow> fails r \<Longrightarrow> P"
  shows P
  using thenm_cases[OF assms(1,2)] assms(3,4) by metis

subsection \<open>The added headers\<close>

text \<open>A stage that only reads files.\<close>

definition reads_files :: "'a dm \<Rightarrow> bool" where
  "reads_files m \<longleftrightarrow> (\<forall>st st'. mq_files (d_mq st) = mq_files (d_mq st')
     \<longrightarrow> (m st = None \<and> m st' = None) \<or> (\<exists>r. m st = Some (st, r) \<and> m st' = Some (st', r)))"

lemma reads_cases:
  assumes "reads_files m" and "mq_files (d_mq st) = mq_files (d_mq st')"
  obtains (none) "m st = None" and "m st' = None" | (some) r where "m st = Some (st, r)" and "m st' = Some (st', r)"
proof -
  have "m st = None \<and> m st' = None \<or> (\<exists>r. m st = Some (st, r) \<and> m st' = Some (st', r))"
    using assms(1)[unfolded reads_files_def, THEN spec, THEN spec, THEN mp, OF assms(2)] .
  then show thesis using none some by (elim disjE conjE exE)
qed

named_theorems reads_rules \<open>stages that only read files\<close>

lemma reads_const [reads_rules]: "reads_files (gom x)" "reads_files (stopm n)" "reads_files (quitm n)" "reads_files (ofub u)"
  by (auto simp: reads_files_def gom_def stopm_def quitm_def ofub_def split: option.split)

lemma reads_open [reads_rules]: "reads_files (getm (open_file E f))"
  by (simp add: reads_files_def getm_def open_file_def)

lemma reads_thenm [reads_rules]:
  assumes "reads_files m" and "\<And>x. reads_files (f x)"
  shows "reads_files (thenm m f)"
  unfolding reads_files_def
proof (intro allI impI)
  fix st st' :: dm_st
  assume e: "mq_files (d_mq st) = mq_files (d_mq st')"
  show "(thenm m f st = None \<and> thenm m f st' = None) \<or> (\<exists>r. thenm m f st = Some (st, r) \<and> thenm m f st' = Some (st', r))"
    using assms(1) e
  proof (cases rule: reads_cases)
    case none
    then show ?thesis by (simp add: thenm_def)
  next
    case (some r)
    show ?thesis
    proof (cases r)
      case (Go x)
      show ?thesis using assms(2)[of x] e by (cases rule: reads_cases) (simp_all add: thenm_def some Go)
    qed (simp_all add: thenm_def some)
  qed
qed

lemma reads_email: "reads_files (maildir_to_email E d dmn)"
  unfolding maildir_to_email_def by (auto intro!: reads_rules split: opened.split option.split prod.split)

lemma reads_me: "reads_files (read_me E)"
  unfolding read_me_def by (auto intro!: reads_rules split: opened.split option.split prod.split)

lemma reads_same: "reads_files m \<Longrightarrow> m st = Some (s, r) \<Longrightarrow> s = st"
  by (rule reads_cases[of m st st]) simp_all

text \<open>The name of the host, which becomes a part of the file name, and the headers, from the files that are read for them.\<close>

definition added_headers :: "dm_env \<Rightarrow> string \<Rightarrow> string \<Rightarrow> dm_st \<Rightarrow> (string \<times> string) option" where
  "added_headers E dmn address st = (case (maildir_to_email E address dmn st, read_me E st) of
     (Some (_, Go email), Some (_, Go host)) \<Rightarrow>
       Some (host, format_delivered_to1 E (cstr host) (d_cfg E ''RPLINE'' (''Return-PATH: <>'' @ [LF])) (d_env E ''DTLINE'')
         (d_env E ''QQEH'') (d_env E ''XFILTER'') dmn email address)
   | _ \<Rightarrow> None)"

lemma headers_same:
  assumes "mq_files (d_mq st') = mq_files (d_mq st)"
  shows "added_headers E dmn a st' = added_headers E dmn a st"
proof (rule reads_cases[OF reads_email assms, of E a dmn]; rule reads_cases[OF reads_me assms, of E])
qed (simp_all add: added_headers_def split: step.split)

subsection \<open>All or nothing\<close>

text \<open>A delivery to a directory: a duplicate is dropped, an error is returned, or the message is there. The file in \<^verbatim>\<open>tmp\<close> is not
  emptied when it exists before: its bytes behind the message stay.\<close>

definition stored_as :: "dm_env \<Rightarrow> string \<Rightarrow> string \<Rightarrow> string \<Rightarrow> mq_st \<Rightarrow> mq_st \<Rightarrow> bool" where
  "stored_as E address n hdr q q' \<longleftrightarrow> (\<exists>body. read_body (d_reads E) = (body, True)
     \<and> mq_files q' (address @ ''new/'' @ n)
         = Some (hdr @ body @ drop (length hdr + length body) (case mq_files q (address @ ''tmp/'' @ n) of None \<Rightarrow> [] | Some d \<Rightarrow> d))
     \<and> mq_files q' (address @ ''tmp/'' @ n) = None
     \<and> (\<forall>f. digit_end f \<and> f \<noteq> address @ ''new/'' @ n \<and> f \<noteq> address @ ''tmp/'' @ n \<longrightarrow> mq_files q' f = mq_files q f))"

definition stored :: "dm_env \<Rightarrow> string \<Rightarrow> (string \<times> string) option \<Rightarrow> mq_st \<Rightarrow> mq_st \<Rightarrow> bool" where
  "stored E address hh q q' \<longleftrightarrow> (\<exists>host hdr k sz. hh = Some (host, hdr) \<and> digit_end (mail_name E host k sz)
     \<and> stored_as E address (mail_name E host k sz) hdr q q')"

definition new_unchanged :: "string \<Rightarrow> mq_st \<Rightarrow> mq_st \<Rightarrow> bool" where
  "new_unchanged address q q' \<longleftrightarrow> (\<forall>n. digit_end n \<longrightarrow> mq_files q' (address @ ''new/'' @ n) = mq_files q (address @ ''new/'' @ n))"

definition duplicate :: "dm_env \<Rightarrow> string \<Rightarrow> bool" where
  "duplicate E address \<longleftrightarrow> d_env E ''ELIMINATE_DUPS'' \<noteq> None \<and> d_dup E address"

definition all_or_nothing :: "dm_env \<Rightarrow> string \<Rightarrow> (string \<times> string) option \<Rightarrow> mq_st \<Rightarrow> mq_st \<Rightarrow> unit step \<Rightarrow> bool" where
  "all_or_nothing E address hh q q' r \<longleftrightarrow> (r = Stop 0 \<or> fails r) \<and>
     (if r = Stop 0 \<and> \<not> duplicate E address then stored E address hh q q' else new_unchanged address q q')"

lemma digit_end_append: "digit_end n \<Longrightarrow> digit_end (s @ n)"
  by (auto simp: digit_end_def)

lemma same_unchanged: "same_mail q q' \<Longrightarrow> new_unchanged address q q'"
  unfolding same_mail_def new_unchanged_def using digit_end_append by blast

lemma stored_trans:
  assumes "same_mail q q1" and "stored E a hh q1 q'"
  shows "stored E a hh q q'"
proof -
  obtain host hdr k sz where *: "hh = Some (host, hdr)" "digit_end (mail_name E host k sz)" "stored_as E a (mail_name E host k sz) hdr q1 q'"
    using assms(2) by (auto simp: stored_def)
  have "mq_files q1 (a @ ''tmp/'' @ mail_name E host k sz) = mq_files q (a @ ''tmp/'' @ mail_name E host k sz)"
    using assms(1) digit_end_append[OF digit_end_append[OF *(2)], of a "''tmp/''"] unfolding same_mail_def by blast
  then have "stored_as E a (mail_name E host k sz) hdr q q'"
    using *(3) assms(1) unfolding stored_as_def same_mail_def by simp
  then show ?thesis using *(1,2) by (auto simp: stored_def)
qed

lemma unchanged_trans: "same_mail q q1 \<Longrightarrow> new_unchanged a q1 q' \<Longrightarrow> new_unchanged a q q'"
  unfolding new_unchanged_def same_mail_def using digit_end_append by metis

lemma all_or_nothing_trans: "same_mail q q1 \<Longrightarrow> all_or_nothing E a hh q1 q' r \<Longrightarrow> all_or_nothing E a hh q q' r"
  unfolding all_or_nothing_def using stored_trans unchanged_trans by (simp split: if_splits)

lemma all_or_nothing_out: "same_mail q q' \<Longrightarrow> fails r \<Longrightarrow> all_or_nothing E a hh q q' r"
  using same_unchanged by (auto simp: all_or_nothing_def)

lemma write_file_all:
  assumes "write_file E W (address @ ''tmp/'' @ n) (address @ ''new/'' @ n) hdr st = Some (st', r)"
    and "n = mail_name E host k sz" and "digit_end n" and "\<not> duplicate E address"
  shows "all_or_nothing E address (Some (host, hdr)) (d_mq st) (d_mq st') r"
  using write_file_result[OF assms(1)]
proof (elim disjE conjE exE)
  fix body
  assume "r = Stop 0" "read_body (d_reads E) = (body, True)"
    "mq_files (d_mq st') = (mq_files (d_mq st))(address @ ''tmp/'' @ n := None,
       address @ ''new/'' @ n := Some (hdr @ body @ drop (length hdr + length body) (old_data (address @ ''tmp/'' @ n) st)))"
  then have "stored_as E address n hdr (d_mq st) (d_mq st')" unfolding stored_as_def by (auto simp: old_data_def)
  then show ?thesis using assms(2-4) \<open>r = Stop 0\<close> by (auto simp: all_or_nothing_def stored_def)
next
  fix x
  assume "fails r" "mq_files (d_mq st') = (mq_files (d_mq st))(address @ ''tmp/'' @ n := x)"
  then show ?thesis by (auto simp: all_or_nothing_def new_unchanged_def)
qed

lemma chain_all:
  assumes "thenm m f st = Some (st', r)" and "quiet m"
    and "\<And>x st1. f x st1 = Some (st', r) \<Longrightarrow> all_or_nothing E a hh (d_mq st1) (d_mq st') r"
  shows "all_or_nothing E a hh (d_mq st) (d_mq st') r"
  using assms(1,2) by (rule quiet_cases) (auto intro: all_or_nothing_trans all_or_nothing_out assms(3))

text \<open>For a stage that only reads, its result is that of the first state.\<close>

lemma chain_read:
  assumes "thenm m f st = Some (st', r)" and "quiet m" and "reads_files m"
    and "\<And>x. m st = Some (st, Go x) \<Longrightarrow> f x st = Some (st', r) \<Longrightarrow> all_or_nothing E a hh (d_mq st) (d_mq st') r"
  shows "all_or_nothing E a hh (d_mq st) (d_mq st') r"
  using assms(1,2)
proof (cases rule: thenm_cases)
  case (go x st1)
  then show ?thesis using assms(4) reads_same[OF assms(3) go(1)] by simp
qed (rule all_or_nothing_out)

lemma name_end:
  assumes "\<And>n. all_digits (q_fmt (d_E E) n)"
  shows "digit_end (mail_name E host pid k)"
  using assms[of "unat k"] last_in_set[of "q_fmt (d_E E) (unat k)"] by (auto simp: digit_end_def mail_name_def all_digits_def simp del: last_in_set)

lemma deliver_dir_all:
  assumes "deliver_dir E W address k quota dmn st = Some (st', r)" and "\<And>n. all_digits (q_fmt (d_E E) n)"
  shows "all_or_nothing E address (added_headers E dmn address st) (d_mq st) (d_mq st') r"
proof (cases "d_sticky E address = Some False")
  case False
  then show ?thesis using assms(1) by (auto simp: deliver_dir_def stopm_def all_or_nothing_def new_unchanged_def split: option.splits bool.splits)
next
  case True
  note w = write_file_all[OF _ refl name_end[OF assms(2)]]
  have d: "duplicate E address \<Longrightarrow> stopm 0 st1 = Some (st', r) \<Longrightarrow> all_or_nothing E address hh (d_mq st1) (d_mq st') r" for st1 hh
    by (simp add: stopm_def all_or_nothing_def new_unchanged_def)
  show ?thesis
    using assms(1) unfolding deliver_dir_def True option.case bool.case Let_def duplicate_def[symmetric]
    apply (rule chain_read, intro quiet_rules, intro reads_email)
    apply (erule chain_read, intro quiet_rules, intro reads_me)
    apply (simp (no_asm_simp) add: added_headers_def)
    apply (erule chain_all, intro quiet_rules)
    apply (erule chain_all, intro quiet_rules)
    apply (erule chain_all, intro quiet_rules)
    apply (simp split: if_splits add: d)
    apply (erule chain_all, intro quiet_rules)
    apply (erule chain_all, rule quiet_modm, simp)
    apply (erule chain_all, intro quiet_rules)
    apply (simp add: format_local_filename_def w)
    done
qed

lemma deliver_mail_all:
  assumes "deliver_mail E W address k quota dmn st = Some (st', r)" and "starts CHR ''/'' address" and "\<And>n. all_digits (q_fmt (d_E E) n)"
  shows "all_or_nothing E address (added_headers E dmn address st) (d_mq st) (d_mq st') r"
proof -
  define st0 where "st0 = st\<lparr>MailQuotaCount := 0, d_mq := (d_mq st)\<lparr>CurBytes := 0, CurCount := 0\<rparr>\<rparr>"
  have h: "added_headers E dmn address st0 = added_headers E dmn address st" by (rule headers_same) (simp add: st0_def)
  have q: "same_mail (d_mq st) (d_mq st0)" by (simp add: st0_def)
  have "fails r \<and> same_mail (d_mq st) (d_mq st') \<or> deliver_dir E W address k quota dmn st0 = Some (st', r)"
    using assms(1,2) by (auto simp: deliver_mail_def thenm_def modm_def stopm_def st0_def split: if_splits)
  then show ?thesis
  proof
    assume "deliver_dir E W address k quota dmn st0 = Some (st', r)"
    from all_or_nothing_trans[OF q deliver_dir_all[OF this assms(3)]] show ?thesis unfolding h .
  qed (simp add: all_or_nothing_out)
qed

subsection \<open>Looping mail\<close>

locale strstr_lib = qstrings +
  assumes str_found: "str_str Q s t = None \<longleftrightarrow> \<not> sublist t s"
begin

lemma starts_with:
  assumes "NUL \<notin> set x" and "NUL \<notin> set p"
  shows "str_diffn Q x p (length p) = 0 \<longleftrightarrow> prefix p x"
proof (cases "length p \<le> length x")
  case True
  then show ?thesis using diffn_zero[OF assms, of "length p"] by (auto simp: prefix_def) (metis append_take_drop_id)
next
  case False
  then have "take (length p) (x @ [NUL]) \<noteq> p" using assms(2) by (metis in_set_conv_decomp length_append_singleton not_less_eq_eq take_all)
  then show ?thesis using False diffn_zero[OF assms, of "length p"] prefix_length_le[of p x] by auto
qed

lemma scan_loop_headers:
  assumes "\<forall>l \<in> set ls. l \<noteq> [] \<and> NUL \<notin> set l"
  shows "scan_loop Q a (map line_event ls)
    = (if \<exists>l \<in> set (takeWhile (\<lambda>l. \<not> blank_line l) ls). prefix ''Delivered-To:'' l \<and> sublist a l then 1 else 0)"
  using assms
proof (induction ls)
  case (Cons l ls)
  have l: "l \<noteq> []" "NUL \<notin> set l" "cstr l = l" using Cons.prems takeWhile_neq_id[of NUL l] by (auto simp: cstr_def)
  have p: "str_diffn Q l ''Delivered-To:'' 13 = 0 \<longleftrightarrow> prefix ''Delivered-To:'' l" using starts_with[OF l(2), of "''Delivered-To:''"] by (simp add: eval_nat_numeral)
  have b: "prefix ''Delivered-To:'' l \<Longrightarrow> \<not> blank_line l" by (auto simp: prefix_def blank_line_def)
  show ?case using Cons l p b str_found[of l a] by (auto simp: line_event_def Let_def)
qed simp

lemma looping_headers:
  assumes "d_Q E = Q" and "a \<noteq> []" and "LF \<notin> set a" and "\<not> starts CHR ''&'' a"
    and "\<forall>v. d_env E ''DTLINE'' = Some v \<longrightarrow> v \<noteq> [] \<and> last v = LF"
    and "d_env E ''MAKE_SEEKABLE'' = Some p" and "\<not> starts CHR ''0'' p" and "d_lseek E" and "d_lines E = map line_event ls"
    and "\<forall>l \<in> set ls. l \<noteq> [] \<and> NUL \<notin> set l"
  shows "is_looping E a
    = (if \<exists>l \<in> set (takeWhile (\<lambda>l. \<not> blank_line l) ls). prefix ''Delivered-To:'' l \<and> sublist a l then 1 else 0)"
proof -
  have "drop i v \<noteq> a" if "d_env E ''DTLINE'' = Some v" for i v
  proof
    assume d: "drop i v = a"
    then have "last a = LF" using assms(2,5) that last_drop[of i v] by (metis drop_eq_Nil linorder_not_less)
    then show False using assms(2,3) last_in_set[of a] by simp
  qed
  then show ?thesis
    using assms(1,4,6-9) scan_loop_headers[OF assms(10), of a] by (auto simp: is_looping_def split: option.split)
qed

end

end
