(* ===== verification/Vdelivermail_Spec.thy ===== *)
theory Vdelivermail_Spec
  imports Vdelivermail Deliver_Spec
begin

text \<open>
  What the exit status of \<^verbatim>\<open>vdelivermail\<close> says about the message. Status 0 makes qmail drop it from the queue, 100 bounces it,
  111 keeps it.
\<close>

subsection \<open>Delivery to an account\<close>

lemma exits_set [quiet_rules]: "quiet (vdl_exit V 111)"
  by (simp add: vdl_exit_def quiet_quitm)

lemma quiet_make_maildir: "quiet (make_maildir V dir ns)"
  by (induction ns) (auto intro!: quiet_rules quiet_set_file simp: digit_end_def)

lemma quiet_prepare [quiet_rules]: "quiet (prepare_maildir V dir)"
  unfolding prepare_maildir_def by (auto intro!: quiet_rules quiet_make_maildir simp del: make_maildir.simps)

lemma make_maildir_go: "make_maildir V dir ns st = Some (st', r) \<Longrightarrow> \<forall>k. r \<noteq> Stop k"
  by (induction ns arbitrary: st)
    (auto simp: thenm_def gom_def ofub_def logm_def modm_def set_file_def vdl_exit_def quitm_def split: if_splits)

lemma prepare_result:
  assumes "prepare_maildir V dir st = Some (st1, s)"
  shows "same_mail (d_mq st) (d_mq st1)" and "s = Go (folder_dir V dir) \<or> s = Quit 111"
proof -
  show "same_mail (d_mq st) (d_mq st1)" using quietD[OF quiet_prepare assms] by blast
  have "(\<exists>x. s = Go x) \<or> fails s" using quietD[OF quiet_prepare assms] by blast
  then show "s = Go (folder_dir V dir) \<or> s = Quit 111"
    using assms make_maildir_go[of V "folder_dir V dir" "[''cur'', ''new'', ''tmp'']" st]
    by (auto simp: prepare_maildir_def thenm_def gom_def ofub_def simp del: make_maildir.simps split: if_splits option.splits step.splits prod.splits)
qed

lemma folder_starts: "starts CHR ''/'' dir \<Longrightarrow> starts CHR ''/'' (folder_dir V dir)"
  by (auto simp: starts_def folder_dir_def Let_def split: option.split)

text \<open>A bounce or a deferral.\<close>

definition turned_away :: "vd_env \<Rightarrow> 'a step \<Rightarrow> bool" where
  "turned_away V r \<longleftrightarrow> r = Quit 111 \<or> r = Quit (if vd_get V ''DISCARD_BOUNCE'' \<noteq> None then 0 else 100)"

lemma after_delivery_result:
  assumes "after_delivery V ret st = Some (st', r)"
  shows "st' = st \<and> (if ret \<in> {- 1, - 2, - 3, - 4, - 5} then turned_away V r else r = Go 0)"
  using assms by (auto simp: after_delivery_def vdl_exit_def quitm_def gom_def turned_away_def split: if_splits)

lemma fails_code: "fails (Stop n) \<Longrightarrow> n \<in> {- 1, - 2, - 3, - 4, - 5}"
  by auto

lemma account_result:
  assumes "account_delivery V pw dmn n st = Some (st', r)" and "starts CHR ''/'' (pw_dir pw)" and "\<And>k. all_digits (q_fmt (d_E (vd_dm V)) k)"
    and "\<not> duplicate (vd_dm V) (folder_dir V (pw_dir pw @ ''/Maildir/''))"
  shows "(r = Go 0 \<and> (\<exists>st1. prepare_maildir V (pw_dir pw @ ''/Maildir/'') st = Some (st1, Go (folder_dir V (pw_dir pw @ ''/Maildir/'')))
      \<and> stored (vd_dm V) (folder_dir V (pw_dir pw @ ''/Maildir/''))
          (added_headers (vd_dm V) dmn (folder_dir V (pw_dir pw @ ''/Maildir/'')) st1) (d_mq st) (d_mq st')))
    \<or> (turned_away V r \<and> new_unchanged (folder_dir V (pw_dir pw @ ''/Maildir/'')) (d_mq st) (d_mq st'))"
proof -
  let ?d = "folder_dir V (pw_dir pw @ ''/Maildir/'')"
  have d: "starts CHR ''/'' ?d" using folder_starts[of "pw_dir pw @ ''/Maildir/''" V] assms(2) by (auto simp: starts_def)
  obtain st1 p where p: "prepare_maildir V (pw_dir pw @ ''/Maildir/'') st = Some (st1, p)"
    using assms(1) by (auto simp: account_delivery_def thenm_def split: option.splits)
  note same = prepare_result(1)[OF p]
  from prepare_result(2)[OF p] show ?thesis
  proof
    assume "p = Quit 111"
    then have "st' = st1 \<and> r = Quit 111" using assms(1) p by (auto simp: account_delivery_def thenm_def)
    then show ?thesis using same_unchanged[OF same] by (simp add: turned_away_def)
  next
    assume go: "p = Go ?d"
    then have f: "thenm (deliver V 0 ?d n (pw_shell pw) dmn) (after_delivery V) st1 = Some (st', r)"
      using assms(1) p by (simp add: account_delivery_def thenm_def)
    then obtain st2 s where s: "deliver_mail (vd_dm V) (vd_os V 0) ?d (word_of_int n) (pw_shell pw) dmn st1 = Some (st2, s)"
      by (auto simp: deliver_def callm_def thenm_def split: option.splits)
    have all: "all_or_nothing (vd_dm V) ?d (added_headers (vd_dm V) dmn ?d st1) (d_mq st) (d_mq st2) s"
      using all_or_nothing_trans[OF same deliver_mail_all[OF s d assms(3)]] .
    show ?thesis
    proof (cases s)
      case (Go x)
      then show ?thesis using all by (simp add: all_or_nothing_def)
    next
      case (Stop k)
      have "after_delivery V k st2 = Some (st', r)" using f s Stop by (simp add: deliver_def callm_def thenm_def)
      note e = after_delivery_result[OF this]
      have "k = 0 \<or> k \<in> {- 1, - 2, - 3, - 4, - 5}" using all Stop fails_code by (auto simp: all_or_nothing_def)
      then show ?thesis using e all Stop assms(4) p go by (auto simp: all_or_nothing_def)
    next
      case (Quit k)
      then have "st' = st2 \<and> r = Quit k" using f s by (auto simp: deliver_def callm_def thenm_def)
      then show ?thesis using all Quit by (auto simp: all_or_nothing_def turned_away_def)
    qed
  qed
qed

text \<open>An account that is not locked, is not a group and has no aliases.\<close>

definition plain_account :: "vd_env \<Rightarrow> passwd \<Rightarrow> string \<Rightarrow> string \<Rightarrow> dm_st \<Rightarrow> bool" where
  "plain_account V pw user dmn st \<longleftrightarrow> vd_assign V dmn \<and> pw_gid pw AND BOUNCE_MAIL = 0 \<and> \<not> is_group V pw
     \<and> (\<not> nonempty (vd_get V ''EXT'') \<or> no_alias V
        \<or> vd_valias V user dmn = [] \<and> open_file (vd_dm V) (pw_dir pw @ ''/.qmail'') st = ONoEnt)"

lemma process_plain:
  "plain_account V pw user dmn st \<Longrightarrow> processMail V pw user dmn n st = account_delivery V pw dmn n st"
  by (auto simp: plain_account_def processMail_def doAlias_def process_valias_def thenm_def gom_def getm_def)

subsection \<open>The program\<close>

text \<open>The program comes to the active account \<open>pw\<close> of the addressee, without a change of the files.\<close>

definition account_found :: "vd_env \<Rightarrow> string list \<Rightarrow> dm_st \<Rightarrow> vd_env \<Rightarrow> string \<Rightarrow> passwd \<Rightarrow> bool" where
  "account_found V0 argv st V dmn pw \<longleftrightarrow> vd_ids V0 \<and> vd_get V ''MAKE_SEEKABLE'' = None \<and> vd_msgsize V \<noteq> 0 \<and> vd_get V ''BOUNCE_MAIL'' = None
     \<and> (\<exists>user ext bounce. get_arguments V0 argv st = Some (st, Go (V, user, dmn, ext, bounce))
          \<and> (\<exists>u. find_account V user dmn = Some (Some pw, u, False)))
     \<and> (\<exists>a. vd_get V ''SENDER'' = Some a \<and> bhfcheck V a st = Some (st, Go False))"

lemma main_account:
  assumes "account_found V0 argv st V dmn pw" and "\<not> is_group V pw"
  shows "vdelivermail_main V0 argv st = thenm (processMail V pw (pw_name pw) dmn (vd_msgsize V)) (\<lambda>_. quitm 0) st"
proof -
  obtain user ext bounce u a where *: "get_arguments V0 argv st = Some (st, Go (V, user, dmn, ext, bounce))"
    "find_account V user dmn = Some (Some pw, u, False)" "vd_get V ''SENDER'' = Some a" "bhfcheck V a st = Some (st, Go False)"
    using assms(1) by (auto simp: account_found_def)
  have k: "known_user V pw False user dmn bounce (vd_msgsize V) st = processMail V pw (pw_name pw) dmn (vd_msgsize V) st"
    using assms by (auto simp: account_found_def known_user_def thenm_def gom_def whenm_def split: option.split step.split prod.split)
  show ?thesis using assms(1) * k
    by (auto simp: account_found_def vdelivermail_main_def thenm_def gom_def ofub_def quitm_def split: option.split step.split prod.split)
qed

text \<open>A locked account with a quota that cannot be read.\<close>

lemma process_unreadable:
  assumes "vd_assign V dmn" and "pw_gid pw AND BOUNCE_MAIL \<noteq> 0" and "parse_quota (vd_Q V) (pw_shell pw) (Some 0) = Some (- 1, Some c)"
  shows "processMail V pw user dmn n st = Some (st, Go (- 1))"
  using assms by (simp add: processMail_def locked_account_def thenm_def gom_def ofub_def Let_def)

subsection \<open>Unwanted senders\<close>

text \<open>An entry is matched as a prefix: of the address, or of the part from the sign on.\<close>

definition sender_matches :: "string \<Rightarrow> string \<Rightarrow> bool" where
  "sender_matches addr e \<longleftrightarrow> prefix e (if starts CHR ''@'' e then dropWhile (\<lambda>c. c \<noteq> CHR ''@'') addr else addr)"

lemma entries_no_nul: "NUL \<notin> set e \<Longrightarrow> x \<in> set (entries e d) \<Longrightarrow> NUL \<notin> set x"
  by (induction e d rule: entries.induct) (auto split: if_splits)

lemma entries_nul: "\<forall>e \<in> set (file_entries d). NUL \<notin> set e"
  using entries_no_nul[of "[]"] by (auto simp: file_entries_def)

context strstr_lib
begin

lemma drop_chr: "drop (str_chr Q s c) s = dropWhile (\<lambda>d. d \<noteq> c) s"
  by (simp add: chr_cases dropWhile_eq_drop)

lemma sender_listed_prefix:
  assumes "NUL \<notin> set addr" and "CHR ''@'' \<in> set addr" and "\<forall>e \<in> set es. NUL \<notin> set e"
  shows "sender_listed Q addr es \<longleftrightarrow> (\<exists>e \<in> set es. sender_matches addr e)"
  using assms(3)
proof (induction es)
  case (Cons e es)
  let ?p = "if starts CHR ''@'' e then dropWhile (\<lambda>c. c \<noteq> CHR ''@'') addr else addr"
  have n: "NUL \<notin> set ?p" using assms(1) by (auto dest: set_dropWhileD)
  have s: "str_diffn Q ?p e (length e) = 0 \<longleftrightarrow> prefix e ?p" using starts_with[OF n, of e] Cons.prems by simp
  have t: "str_chr Q addr CHR ''@'' < length addr" using chr_mem[of addr "CHR ''@''"] assms(2) by simp
  show ?case using Cons s t by (auto simp: sender_matches_def drop_chr Let_def)
qed simp

end

end
