(* ===== verification/Mquota_Samples.thy ===== *)
theory Mquota_Samples
  imports Mquota_Spec
begin

text \<open>A reference environment for the quota functions and two mailboxes.\<close>

definition mq_ref :: "(string \<Rightarrow> dnode) \<Rightarrow> mq_env" where
  "mq_ref t = \<lparr>q_str = qstr_ref, q_scan_ulong = (\<lambda>s. of_nat (numval 10 (leading_digits s))), q_fmt = digits 10, q_tree = t,
     q_getlns = (\<lambda>d. map line_event (file_lines d)), q_include_trash = False, q_fast = False, q_recent = (\<lambda>f. True), q_max_size = 8192,
     q_readable = (\<lambda>f. True), q_wopen = (\<lambda>f. WOk), q_lock = True, q_chown = True, q_written = None\<rparr>"

lemma mq_ref_sel [simp]: "q_str (mq_ref t) = qstr_ref" "q_tree (mq_ref t) = t" "\<not> q_fast (mq_ref t)" "q_recent (mq_ref t) f"
  "q_max_size (mq_ref t) = 8192" "q_wopen (mq_ref t) f = WOk" "\<not> q_include_trash (mq_ref t)" "file_works (mq_ref t) f"
  by (simp_all add: mq_ref_def file_works_def)

lemma digits_length_10: "n < 10 ^ k \<Longrightarrow> 0 < k \<Longrightarrow> length (digits 10 n) \<le> k"
proof (induction k arbitrary: n)
  case (Suc k)
  show ?case
  proof (cases "n < 10")
    case False
    then have "n div 10 < 10 ^ k" "0 < k" using Suc.prems by (auto simp: less_mult_imp_div_less mult.commute intro: gr0I)
    then show ?thesis using Suc.IH[of "n div 10"] False digits.simps[of 10 n] by simp
  qed (simp add: digits.simps)
qed simp

lemma takeWhile_stops: "(\<And>x. x \<in> set s \<Longrightarrow> P x) \<Longrightarrow> r = [] \<or> \<not> P (hd r) \<Longrightarrow> takeWhile P (s @ r) = s"
  by (cases r) (auto simp: takeWhile_append)

lemma leading_stops: "all_digits s \<Longrightarrow> r = [] \<or> hd r \<notin> set ''0123456789'' \<Longrightarrow> leading_digits (s @ r) = s"
  unfolding leading_digits_def all_digits_def by (rule takeWhile_stops) blast+

interpretation ref_quota: mquota_lib "mq_ref t"
proof -
  have "mquota_lib_axioms (mq_ref t)"
  proof
    show "all_digits (q_fmt (mq_ref t) n)" for n using digits_set[of 10 n] by (simp add: mq_ref_def all_digits_def)
    show "numval 10 (q_fmt (mq_ref t) n) = n" for n by (simp add: mq_ref_def digits_val)
    show "n < 10 ^ k \<Longrightarrow> 0 < k \<Longrightarrow> length (q_fmt (mq_ref t) n) \<le> k" for n k by (simp add: mq_ref_def digits_length_10)
    show "all_digits s \<Longrightarrow> r = [] \<or> hd r \<notin> set ''0123456789'' \<Longrightarrow> q_scan_ulong (mq_ref t) (s @ r) = of_nat (numval 10 s)" for s r
      unfolding mq_ref_def by (simp only: leading_stops mq_env.simps)
    show "q_getlns (mq_ref t) d = map line_event (file_lines d)" for d by (simp add: mq_ref_def)
  qed
  then show "mquota_lib (mq_ref t)"
    using ref_str.qstrings_axioms by (simp add: mquota_lib_def)
qed

definition sample_tree :: "string \<Rightarrow> dnode" where
  "sample_tree d = DDir [(''cur'', DDir [(''1,S=100'', DFile 107), (''2'', DFile 50), (''3T'', DFile 9)]), (''maildirsize'', DFile 10)]"

definition sample_mq :: "(string \<Rightarrow> string option) \<Rightarrow> mq_st" where
  "sample_mq f = \<lparr>mq_files = f, mail_size = 0, mail_count = 0, prevmaildir = [], CurBytes = 0, CurCount = 0\<rparr>"

lemma sample_paths: "mdir_path qstr_ref ''/a/Maildir'' = Some (''/a/Maildir'', ''/a/Maildir'')"
  "mdir_path qstr_ref ''/b/Maildir'' = Some (''/b/Maildir'', ''/b/Maildir'')"
  by (simp_all add: mdir_path_def qstr_ref_def Let_def)

lemma sample_count: "count_dir (mq_ref sample_tree) True ''/a/Maildir'' (sample_tree ''/a/Maildir'') = Some (150, Some 2)"
proof -
  have "q_scan_ulong (mq_ref sample_tree) ''100'' = 100"
    using ref_quota.scan_val[of "''100''" sample_tree] by (simp add: all_digits_def numval_def digit_val_def)
  then show ?thesis
    by (simp add: sample_tree_def skipped_def skip_system_files_def system_files_def qstr_ref_def in_trash_def sadd_def cadd_def LL_def
      LLONG_MIN_def LLONG_MAX_def numeral_2_eq_2)
qed

lemma sample_limit: "parse_quota qstr_ref ''100S'' (Some 0) = Some (100, Some 0)" "str_diffn qstr_ref ''100S'' ''0S'' 2 \<noteq> 0"
proof -
  have s: "str_chr qstr_ref ''100S'' CHR '','' = 4" "str_diffn qstr_ref ''100S'' ''NOQUOTA'' 8 = 1"
    by (simp_all add: qstr_ref_def)
  have "strtoll ''100S'' = 100" "quota_factor ''100S'' = 1" by code_simp+
  with s show "parse_quota qstr_ref ''100S'' (Some 0) = Some (100, Some 0)"
    by (simp add: parse_quota_def Let_def is_limit_def LLONG_MIN_def LLONG_MAX_def)
  show "str_diffn qstr_ref ''100S'' ''0S'' 2 \<noteq> 0" by (simp add: qstr_ref_def)
qed

lemma sample_refused: "\<exists>st. user_over_quota (mq_ref sample_tree) ''/a/Maildir'' ''100S'' 5 (sample_mq Map.empty) = Some (st, 1)"
proof -
  have f: "fresh_count (mq_ref sample_tree) ''/a/Maildir'' 2 st" "fresh_count (mq_ref sample_tree) ''/a/Maildir'' 0 (sample_mq Map.empty)" for st
    by (simp_all add: fresh_count_def sample_mq_def)
  have "recalc_quota (mq_ref sample_tree) ''/a/Maildir'' l k fl st = Some (st\<lparr>mail_size := 150, mail_count := 2, CurCount := 2,
      prevmaildir := ''/a/Maildir'', mq_files := (mq_files st)(size_file ''/a/Maildir'' := Some (counted_text (mq_ref sample_tree) l k 150 2))\<rparr>, 150, 2)"
    if "fresh_count (mq_ref sample_tree) ''/a/Maildir'' fl st" for l k fl st
    using recalc_fresh[of "mq_ref sample_tree" "''/a/Maildir''"] sample_paths sample_count that by simp
  then show ?thesis
    using f sample_paths(1) sample_limit by (simp add: user_over_quota_def over_size_def LL_def LLONG_MIN_def LLONG_MAX_def)
qed

end
