(* ===== verification/Deliver_Samples.thy ===== *)
theory Deliver_Samples
  imports Deliver_Spec Mquota_Samples Vfilter_Samples
begin

text \<open>A delivery to a directory without a quota, and the counter of a day.\<close>

interpretation ref_strstr: strstr_lib qstr_ref
  by unfold_locales (simp add: qstr_ref_def ref_str_str_none)

definition mc_ref :: "(string \<Rightarrow> string option) \<Rightarrow> mc_env" where
  "mc_ref env = \<lparr>c_mq = mq_ref sample_tree, c_localtime = None, c_dblock = True, c_open = True, c_seek = True, c_stderr = True, c_written = None,
     c_getenv = env\<rparr>"

definition sample_tm :: "nat \<Rightarrow> tm_t" where
  "sample_tm s = \<lparr>tm_mday = 5, tm_mon = 1, tm_year = 124, tm_hour = 10, tm_min = 0, tm_sec = s\<rparr>"

definition sample_env :: "string \<Rightarrow> string option" where
  "sample_env = [''MAILCOUNT_LIMIT'' \<mapsto> ''2'', ''MAILSIZE_LIMIT'' \<mapsto> ''0'']"

lemma sample_limits: "c_mail_limit (mc_ref sample_env) = 2" "c_size_limit (mc_ref sample_env) = 0"
proof -
  have "q_scan_ulong (mq_ref sample_tree) ''2'' = 2" "q_scan_ulong (mq_ref sample_tree) ''0'' = 0"
    using ref_quota.scan_val[of "''2''" sample_tree] ref_quota.scan_val[of "''0''" sample_tree] by (simp_all add: all_digits_def numval_def digit_val_def)
  then show "c_mail_limit (mc_ref sample_env) = 2" "c_size_limit (mc_ref sample_env) = 0"
    by (simp_all add: c_mail_limit_def c_size_limit_def getEnvConfiguLong_def mc_ref_def sample_env_def)
qed

definition sample_dm :: "(string \<Rightarrow> string option) \<Rightarrow> getln_event list \<Rightarrow> dm_env" where
  "sample_dm env ls = \<lparr>d_mc = mc_ref env, d_rchr = ref_rchr, d_lseek = True, d_lines = ls, d_reads = [RdData ''Subject: x'', RdData ''yz''],
     d_sticky = (\<lambda>f. Some False), d_exec = (\<lambda>f. False), d_pw_shell = (\<lambda>u d. None), d_default_domain = ''d'', d_get_localtime = ''now'',
     d_pid = 7, d_uid = 5, d_root = False, d_time = 9, d_dup = (\<lambda>a. False), d_strftime = (\<lambda>f. None), d_exists = (\<lambda>f. False), d_mkdir = (\<lambda>f. True),
     d_warn_due = (\<lambda>f. False), d_udp = (\<lambda>h p. False), d_CONTROLDIR = ''/c'', d_SYSCONFDIR = ''/e'', d_BASE_PATH = ''/h'', d_LIBEXECDIR = ''/l'',
     d_PREFIX = ''/u''\<rparr>"

definition sample_os :: dm_os where
  "sample_os = \<lparr>o_create = True, o_chown = True, o_header = HwOk, o_seek = True, o_body = None, o_unlink = True, o_sync = True, o_close = True,
     o_rename = True, o_forks = True, o_events = []\<rparr>"

definition sample_dst :: dm_st where
  "sample_dst = \<lparr>d_mq = sample_mq [''/c/me'' \<mapsto> ''h'' @ [LF]], d_counter = 0, alert_host = None, alert_port = None, MailQuotaCount = 0, MailQuotaSize = 0,
     d_log = []\<rparr>"

lemma sample_dm_sel: "d_E (sample_dm env ls) = mq_ref sample_tree" "d_Q (sample_dm env ls) = qstr_ref" "d_env (sample_dm env ls) = env"
  "d_cfg (sample_dm env ls) n v = (case env n of None \<Rightarrow> v | Some w \<Rightarrow> w)" "d_lseek (sample_dm env ls)" "d_lines (sample_dm env ls) = ls"
  "d_CONTROLDIR (sample_dm env ls) = ''/c''" "d_sticky (sample_dm env ls) f = Some False" "d_pid (sample_dm env ls) = 7" "d_uid (sample_dm env ls) = 5"
  "d_get_localtime (sample_dm env ls) = ''now''" "\<not> d_root (sample_dm env ls)"
  by (simp_all add: sample_dm_def d_E_def d_Q_def d_env_def d_cfg_def mc_ref_def getEnvConfigStr_def)

lemma ref_sel: "q_fmt (mq_ref t) = Process.digits 10" "q_getlns (mq_ref t) = (\<lambda>d. map line_event (file_lines d))" "q_readable (mq_ref t) = (\<lambda>f. True)"
  "str_str qstr_ref = ref_str_str" "str_diffn qstr_ref = (\<lambda>s t n. if take n (s @ [NUL]) = take n (t @ [NUL]) then 0 else 1)"
  by (simp_all add: mq_ref_def qstr_ref_def)

lemma sample_dst_sel: "mq_files (d_mq sample_dst) f = (if f = ''/c/me'' then Some (''h'' @ [LF]) else None)" "d_counter sample_dst = 0"
  "sample_dst\<lparr>MailQuotaCount := 0\<rparr> = sample_dst" "sample_dst\<lparr>d_mq := (d_mq sample_dst)\<lparr>CurBytes := 0, CurCount := 0\<rparr>\<rparr> = sample_dst"
  by (simp_all add: sample_dst_def sample_mq_def)

lemmas dm_simps = thenm_def gom_def stopm_def ofub_def getm_def modm_def

lemma sample_stages:
  fixes E defines "E \<equiv> sample_dm Map.empty []"
  shows "is_looping E ''/a/Maildir/'' = 0" and "maildir_to_email E ''/a/Maildir/'' ''d'' sample_dst = Some (sample_dst, Go None)"
    and "read_me E sample_dst = Some (sample_dst, Go ''h'')" and "daily_limits E ''/a/Maildir/'' k sample_dst = Some (sample_dst, Go ())"
    and "quota_stage E ''/a/Maildir/'' ''NOQUOTA'' None k sample_dst = Some (sample_dst, Go ())"
    and "date_folder E ''/a/Maildir/'' (sample_dst\<lparr>d_counter := Suc 0\<rparr>) = Some (sample_dst\<lparr>d_counter := Suc 0\<rparr>, Go ())"
proof -
  show "is_looping E ''/a/Maildir/'' = 0" by (simp add: is_looping_def E_def sample_dm_sel)
  show "maildir_to_email E ''/a/Maildir/'' ''d'' sample_dst = Some (sample_dst, Go None)"
    by (simp add: maildir_to_email_def dm_simps open_file_def no_slash_def E_def sample_dm_sel sample_dst_sel ref_sel above_maildir_def)
  show "read_me E sample_dst = Some (sample_dst, Go ''h'')"
    by (simp add: read_me_def control_file_def starts_def dm_simps open_file_def E_def sample_dm_sel sample_dst_sel ref_sel line_event_def)
  show "daily_limits E ''/a/Maildir/'' k sample_dst = Some (sample_dst, Go ())"
    by (simp add: daily_limits_def nonempty_def dm_simps E_def sample_dm_sel)
  show "quota_stage E ''/a/Maildir/'' ''NOQUOTA'' None k sample_dst = Some (sample_dst, Go ())"
    by (simp add: quota_stage_def find_quota_def has_quota_def dm_simps E_def sample_dm_sel ref_sel sample_dst_sel)
  show "date_folder E ''/a/Maildir/'' (sample_dst\<lparr>d_counter := Suc 0\<rparr>) = Some (sample_dst\<lparr>d_counter := Suc 0\<rparr>, Go ())"
    by (simp add: date_folder_def dm_simps open_file_def sample_dst_sel)
qed

lemma sample_write: "\<exists>st'. write_file (sample_dm Map.empty []) sample_os f g hdr st = Some (st', Stop 0)"
  by (simp add: write_file_def move_to_new_def set_file_def dm_simps sample_os_def sample_dm_def)

lemma sample_size: "\<exists>k. sadd 11 (of_nat (length (format_delivered_to1 (sample_dm Map.empty []) ''h'' (''Return-PATH: <>'' @ [LF]) None None None ''d'' None ''/a/Maildir/''))) = Some k"
  by (simp add: format_delivered_to1_def sample_dm_sel or_text_def ref_sel Process.digits.simps sadd_def LL_def LLONG_MIN_def LLONG_MAX_def)

lemma sample_delivery: "\<exists>st'. deliver_mail (sample_dm Map.empty []) sample_os ''/a/Maildir/'' 11 ''NOQUOTA'' ''d'' sample_dst = Some (st', Stop 0)"
proof -
  obtain k where k: "sadd 11 (of_nat (length (format_delivered_to1 (sample_dm Map.empty []) ''h'' (''Return-PATH: <>'' @ [LF]) None None None ''d'' None ''/a/Maildir/''))) = Some k"
    using sample_size by blast
  have h: "cstr ''h'' = ''h''" by (simp add: cstr_def)
  show ?thesis
    using k unfolding deliver_mail_def deliver_dir_def sample_dm_sel Let_def
    by (simp add: sample_stages sample_dm_sel sample_dst_sel dm_simps starts_def h format_local_filename_def sample_write)
qed

end
