(* ===== verification/Vdelivermail_Samples.thy ===== *)
theory Vdelivermail_Samples
  imports Vdelivermail_Spec Deliver_Samples
begin

text \<open>A message for the account \<^verbatim>\<open>u@d\<close> with the directory \<^verbatim>\<open>/a\<close>, from the sender \<^verbatim>\<open>s@x\<close>.\<close>

definition vd_vars :: "string \<Rightarrow> string option" where
  "vd_vars = [''EXT'' \<mapsto> ''u'', ''HOST'' \<mapsto> ''d'', ''SENDER'' \<mapsto> ''s@x'']"

definition vd_pw :: "u32 \<Rightarrow> string \<Rightarrow> passwd" where
  "vd_pw gid quota = \<lparr>pw_name = ''u'', pw_passwd = ''x'', pw_uid = 0, pw_gid = gid, pw_gecos = ''u'', pw_dir = ''/a'', pw_shell = quota\<rparr>"

definition vd_sample :: "passwd \<Rightarrow> vd_env" where
  "vd_sample pw = \<lparr>vd_dm = sample_dm vd_vars [], vd_os = (\<lambda>i. sample_os), vd_valias = (\<lambda>u d. []), vd_assign = (\<lambda>d. True), vd_remote = (\<lambda>r u d. 0),
     vd_real_domain = Some, vd_domain_unknown = False, vd_wildmat = (\<lambda>a p. False), vd_folder_file = True, vd_mktemp = True, vd_msgsize = 11,
     vd_getpw = (\<lambda>u d. (Some pw, False, False)), vd_distributed = (\<lambda>d. 0), vd_findhost = (\<lambda>e. None), vd_findhost_unknown = True,
     vd_local_hostid = None, vd_hostid = (\<lambda>h. None),
     vd_pw0 = \<lparr>p_struct = [], p_ent = pw, is_overquota = 0, is_inactive = 0, userNotFound = 0\<rparr>, vd_ids = True\<rparr>"

lemma vd_sample_sel: "vd_dm (vd_sample pw) = sample_dm vd_vars []" "vd_get (vd_sample pw) = vd_vars" "vd_Q (vd_sample pw) = qstr_ref"
  "vd_msgsize (vd_sample pw) = 11" "vd_ids (vd_sample pw)" "vd_assign (vd_sample pw) d" "vd_os (vd_sample pw) i = sample_os"
  "vd_valias (vd_sample pw) u d = []" "vd_getpw (vd_sample pw) u d = (Some pw, False, False)" "vd_real_domain (vd_sample pw) d = Some d"
  by (simp_all add: vd_sample_def vd_get_def vd_Q_def sample_dm_sel)

lemma vd_args: "get_arguments (vd_sample pw) [''p'', ''q'', ''delete''] st = Some (st, Go (vd_sample pw, ''u'', ''d'', None, Some ''delete''))"
proof -
  have "remove_quotes (Some ''u'') = (Some ''u'', 0)" by (simp add: remove_quotes_def isspace_def)
  then show ?thesis
    by (simp add: get_arguments_def vd_sample_sel vd_vars_def or_text_def user_ext_def lowerit_def isupper_def thenm_def gom_def ofub_def)
qed

lemma vd_found: "account_found (vd_sample pw) [''p'', ''q'', ''delete''] sample_dst (vd_sample pw) ''d'' pw"
proof -
  have "find_account (vd_sample pw) ''u'' ''d'' = Some (Some pw, False, False)" by (simp add: find_account_def vd_sample_sel vd_vars_def)
  moreover have "bhfcheck (vd_sample pw) ''s@x'' sample_dst = Some (sample_dst, Go False)"
    by (simp add: bhfcheck_def Let_def control_file_def starts_def vd_sample_sel vd_vars_def sample_dm_sel sample_dst_sel thenm_def gom_def getm_def)
  ultimately show ?thesis using vd_args[of pw sample_dst]
    by (auto simp: account_found_def vd_sample_sel vd_vars_def)
qed

lemma vd_unreadable: "parse_quota qstr_ref ''-1'' (Some 0) = Some (- 1, Some 0)"
proof -
  have "str_chr qstr_ref ''-1'' CHR '','' = 2" "str_diffn qstr_ref ''-1'' ''NOQUOTA'' 8 = 1" by (simp_all add: qstr_ref_def)
  moreover have "strtoll ''-1'' = - 1" "quota_factor ''-1'' = 1" by code_simp+
  ultimately show ?thesis by (simp add: parse_quota_def Let_def is_limit_def LLONG_MIN_def LLONG_MAX_def)
qed

subsection \<open>A delivery\<close>

text \<open>The directories of the account are created on the way.\<close>

definition vd_dst :: dm_st where
  "vd_dst = sample_dst\<lparr>d_log := d_log sample_dst @ map MkDir [''/a/Maildir/cur'', ''/a/Maildir/new'', ''/a/Maildir/tmp'']\<rparr>"

lemma vd_prepared: "prepare_maildir (vd_sample pw) ''/a/Maildir/'' sample_dst = Some (vd_dst, Go ''/a/Maildir/'')"
  by (simp add: prepare_maildir_def folder_dir_def starts_def vd_sample_sel vd_vars_def thenm_def gom_def logm_def modm_def ofub_def ref_sel sample_dm_def vd_dst_def)

lemma vd_dst_sel: "d_mq vd_dst = d_mq sample_dst" "d_counter vd_dst = 0" "vd_dst\<lparr>MailQuotaCount := 0\<rparr> = vd_dst"
  "vd_dst\<lparr>d_mq := (d_mq sample_dst)\<lparr>CurBytes := 0, CurCount := 0\<rparr>\<rparr> = vd_dst"
  by (simp_all add: vd_dst_def sample_dst_def sample_mq_def)

lemma vd_stages:
  fixes E defines "E \<equiv> sample_dm vd_vars []"
  shows "is_looping E ''/a/Maildir/'' = 0" and "maildir_to_email E ''/a/Maildir/'' ''d'' vd_dst = Some (vd_dst, Go None)"
    and "read_me E vd_dst = Some (vd_dst, Go ''h'')" and "daily_limits E ''/a/Maildir/'' k vd_dst = Some (vd_dst, Go ())"
    and "quota_stage E ''/a/Maildir/'' ''NOQUOTA'' None k vd_dst = Some (vd_dst, Go ())"
    and "date_folder E ''/a/Maildir/'' (vd_dst\<lparr>d_counter := Suc 0\<rparr>) = Some (vd_dst\<lparr>d_counter := Suc 0\<rparr>, Go ())"
proof -
  note sel = sample_dm_sel sample_dst_sel vd_dst_sel vd_vars_def
  show "is_looping E ''/a/Maildir/'' = 0" by (simp add: is_looping_def E_def sel)
  show "maildir_to_email E ''/a/Maildir/'' ''d'' vd_dst = Some (vd_dst, Go None)"
    by (simp add: maildir_to_email_def dm_simps open_file_def no_slash_def E_def sel ref_sel above_maildir_def)
  show "read_me E vd_dst = Some (vd_dst, Go ''h'')"
    by (simp add: read_me_def control_file_def starts_def dm_simps open_file_def E_def sel ref_sel line_event_def)
  show "daily_limits E ''/a/Maildir/'' k vd_dst = Some (vd_dst, Go ())"
    by (simp add: daily_limits_def nonempty_def dm_simps E_def sel)
  show "quota_stage E ''/a/Maildir/'' ''NOQUOTA'' None k vd_dst = Some (vd_dst, Go ())"
    by (simp add: quota_stage_def find_quota_def has_quota_def dm_simps E_def sel ref_sel)
  show "date_folder E ''/a/Maildir/'' (vd_dst\<lparr>d_counter := Suc 0\<rparr>) = Some (vd_dst\<lparr>d_counter := Suc 0\<rparr>, Go ())"
    by (simp add: date_folder_def dm_simps open_file_def sel)
qed

lemma vd_write: "\<exists>st'. write_file (sample_dm vd_vars []) sample_os f g hdr st = Some (st', Stop 0)"
  by (simp add: write_file_def move_to_new_def set_file_def dm_simps sample_os_def sample_dm_def)

lemma vd_size: "\<exists>k. sadd 11 (of_nat (length (format_delivered_to1 (sample_dm vd_vars []) ''h'' (''Return-PATH: <>'' @ [LF]) None None None ''d'' None ''/a/Maildir/''))) = Some k"
  by (simp add: format_delivered_to1_def sample_dm_sel vd_vars_def or_text_def ref_sel Process.digits.simps sadd_def LL_def LLONG_MIN_def LLONG_MAX_def)

lemma vd_delivery: "\<exists>st'. deliver_mail (sample_dm vd_vars []) sample_os ''/a/Maildir/'' 11 ''NOQUOTA'' ''d'' vd_dst = Some (st', Stop 0)"
proof -
  obtain k where k: "sadd 11 (of_nat (length (format_delivered_to1 (sample_dm vd_vars []) ''h'' (''Return-PATH: <>'' @ [LF]) None None None ''d'' None ''/a/Maildir/''))) = Some k"
    using vd_size by blast
  have v: "vd_vars ''RPLINE'' = None" "vd_vars ''DTLINE'' = None" "vd_vars ''QQEH'' = None" "vd_vars ''XFILTER'' = None" "vd_vars ''ELIMINATE_DUPS'' = None"
    by (simp_all add: vd_vars_def)
  have h: "cstr ''h'' = ''h''" by (simp add: cstr_def)
  show ?thesis
    using k unfolding deliver_mail_def deliver_dir_def sample_dm_sel Let_def
    by (simp add: vd_stages sample_dm_sel vd_dst_sel v dm_simps starts_def h format_local_filename_def vd_write)
qed

lemma vd_plain: "plain_account (vd_sample (vd_pw 0 ''NOQUOTA'')) (vd_pw 0 ''NOQUOTA'') u ''d'' sample_dst"
  by (simp add: plain_account_def is_group_def vd_sample_sel vd_pw_def BOUNCE_MAIL_def ref_sel open_file_def sample_dst_sel)

lemma vd_run: "\<exists>st'. vdelivermail_main (vd_sample (vd_pw 0 ''NOQUOTA'')) [''p'', ''q'', ''delete''] sample_dst = Some (st', Quit 0)"
proof -
  let ?pw = "vd_pw 0 ''NOQUOTA''"
  obtain st' where d: "deliver_mail (sample_dm vd_vars []) sample_os ''/a/Maildir/'' 11 ''NOQUOTA'' ''d'' vd_dst = Some (st', Stop 0)"
    using vd_delivery by blast
  have pw: "pw_dir ?pw = ''/a''" "pw_shell ?pw = ''NOQUOTA''" by (simp_all add: vd_pw_def)
  have "account_delivery (vd_sample ?pw) ?pw ''d'' 11 sample_dst = Some (st', Go 0)"
    using d by (simp add: account_delivery_def pw vd_prepared vd_sample_sel deliver_def callm_def after_delivery_def thenm_def gom_def)
  then have p: "processMail (vd_sample ?pw) ?pw u ''d'' 11 sample_dst = Some (st', Go 0)" for u
    using process_plain[OF vd_plain] by simp
  have "\<not> is_group (vd_sample ?pw) ?pw" using vd_plain by (simp add: plain_account_def)
  note main_account[OF vd_found this]
  then show ?thesis using p by (simp add: vd_sample_sel thenm_def quitm_def)
qed

end
