(* ===== verification/Control.thy ===== *)
theory Control
  imports Account
begin

text \<open>
  The control files of qmail that list the virtual domains: \<^verbatim>\<open>update_file.c\<close>, \<^verbatim>\<open>remove_line.c\<close> and the functions that
  call them for a domain or a user (\<^verbatim>\<open>add_domain_assign.c\<close>, \<^verbatim>\<open>del_domain_assign.c\<close>, \<^verbatim>\<open>add_user_assign.c\<close>,
  \<^verbatim>\<open>del_user_assign.c\<close>, \<^verbatim>\<open>add_control.c\<close>, \<^verbatim>\<open>del_control.c\<close>, \<^verbatim>\<open>count_rcpthosts.c\<close>), and the functions that search them
  (\<^verbatim>\<open>isvirtualdomain.c\<close>, \<^verbatim>\<open>host_in_locals.c\<close>).

  A file is its contents. \<open>ct_os\<close> are the results of the system calls of one update; memory does not run out, owners,
  modes, warnings and the release of locks are left out. A write that fails is noticed when the output is flushed, at the latest.
\<close>

record ct_env =
  ct_Q :: qstr
  ct_getlns :: "string \<Rightarrow> getln_event list"
  ct_fmt :: "nat \<Rightarrow> string"
  ct_get :: "string \<Rightarrow> string option"
  ct_pid :: nat
  ct_isdir :: "string \<Rightarrow> bool"
  ct_ASSIGNDIR :: string
  ct_DOMAINDIR :: string
  ct_CONTROLDIR :: string
  ct_SYSCONFDIR :: string
  use_etrn :: bool
  OptimizeAddDomain :: bool
  indimailuid :: nat
  indimailgid :: nat
  ct_assigned :: "string \<Rightarrow> bool"
  ct_compile :: bool

record ct_os =
  k_lock :: bool
  k_create :: bool
  k_stat :: bool
  k_perm :: bool
  k_read :: bool
  k_write :: bool
  k_rename :: bool
  k_wrote :: nat
  k_close :: bool

datatype ct_call = NewU | CompileMore

record ct_st =
  ct_files :: "string \<Rightarrow> string option"
  ct_log :: "ct_call list"

definition ct_cfg :: "ct_env \<Rightarrow> string \<Rightarrow> string \<Rightarrow> string" where
  "ct_cfg E n d = (case ct_get E n of None \<Rightarrow> d | Some v \<Rightarrow> v)"

definition ct_put :: "string \<Rightarrow> string option \<Rightarrow> ct_st \<Rightarrow> ct_st" where
  "ct_put f x st = st\<lparr>ct_files := (ct_files st)(f := x)\<rparr>"

definition ct_exists :: "ct_env \<Rightarrow> ct_st \<Rightarrow> string \<Rightarrow> bool" where
  "ct_exists E st f \<longleftrightarrow> ct_isdir E f \<or> ct_files st f \<noteq> None"

definition ct_lines :: "ct_env \<Rightarrow> ct_st \<Rightarrow> string \<Rightarrow> getln_event list" where
  "ct_lines E st f = (if ct_isdir E f then [GlErr] else case ct_files st f of None \<Rightarrow> [GlErr] | Some d \<Rightarrow> ct_getlns E d)"

subsection \<open>Updating a file\<close>

text \<open>The new contents, and the flags that say that the line was found and that the file has a line with a dot.\<close>

fun update_lines :: "qstr \<Rightarrow> string \<Rightarrow> getln_event list \<Rightarrow> string \<Rightarrow> bool \<Rightarrow> bool \<Rightarrow> (string \<times> bool \<times> bool) option" where
  "update_lines Q u [] out found dot = Some (out, found, dot)"
| "update_lines Q u (GlErr # es) out found dot = None"
| "update_lines Q u (GlLine l m # es) out found dot =
     (if l = [] then Some (out, found, dot)
      else if str_diffn Q l (''.'' @ [LF]) 2 = 0 then update_lines Q u es out found True
      else if str_diffn Q l u (length l - 1) = 0 then update_lines Q u es (out @ u @ [LF]) True dot
      else update_lines Q u es (out @ l) found dot)"

definition update_file :: "ct_env \<Rightarrow> ct_os \<Rightarrow> string \<Rightarrow> string \<Rightarrow> ct_st \<Rightarrow> ct_st \<times> int" where
  "update_file E W filename update_line st = (let tmp = filename @ ''.'' @ ct_fmt E (ct_pid E); bad = (ct_put tmp None st, - 1 :: int);
       finish = (\<lambda>out. if \<not> k_write W \<or> \<not> k_rename W then bad else (ct_put filename (Some out) (ct_put tmp None st), 0)) in
     if \<not> k_lock W \<or> \<not> k_create W then (st, - 1)
     else if \<not> k_stat W \<or> \<not> k_perm W then bad
     else if \<not> ct_exists E st filename then finish (update_line @ [LF])
     else if \<not> k_read W then bad
     else (case update_lines (ct_Q E) update_line (ct_lines E st filename) [] False False of
         None \<Rightarrow> bad
       | Some (out, found, dot) \<Rightarrow> finish (out @ (if found then [] else update_line @ [LF]) @ (if dot then ''.'' @ [LF] else []))))"

subsection \<open>Removing lines\<close>

text \<open>The comparison of a line. With \<open>part\<close> it reads behind a line that is shorter than the pattern, which is undefined.\<close>

definition line_matches :: "qstr \<Rightarrow> bool \<Rightarrow> string \<Rightarrow> string \<Rightarrow> bool ub" where
  "line_matches Q part pat l = (if \<not> part then Some (str_diffn Q l pat (length l - 1) = 0)
     else if length l < length pat \<and> take (length l) pat = l then None
     else Some (str_diffn Q l pat (length pat) = 0))"

fun remove_lines :: "qstr \<Rightarrow> bool \<Rightarrow> bool \<Rightarrow> string \<Rightarrow> getln_event list \<Rightarrow> string \<Rightarrow> int \<Rightarrow> (string \<times> int) option ub" where
  "remove_lines Q once part pat [] out found = Some (Some (out, found))"
| "remove_lines Q once part pat (GlErr # es) out found = Some None"
| "remove_lines Q once part pat (GlLine l m # es) out found =
     (if l = [] then Some (Some (out, found))
      else if found \<noteq> 0 \<and> once then remove_lines Q once part pat es (out @ l) found
      else do { eq \<leftarrow> line_matches Q part pat l;
        if eq then remove_lines Q once part pat es out (found + 1) else remove_lines Q once part pat es (out @ l) found })"

definition remove_line_int :: "ct_env \<Rightarrow> ct_os \<Rightarrow> string \<Rightarrow> string \<Rightarrow> bool \<Rightarrow> bool \<Rightarrow> ct_st \<Rightarrow> (ct_st \<times> int) ub" where
  "remove_line_int E W pat filename once part st = (let bak = filename @ ''.bak''; bad = Some (ct_put bak None st, - 1 :: int) in
     if \<not> ct_exists E st filename \<or> \<not> k_stat W \<or> \<not> k_lock W \<or> \<not> k_create W then Some (st, - 1)
     else if \<not> k_perm W \<or> \<not> k_read W then bad
     else do { r \<leftarrow> remove_lines (ct_Q E) once part pat (ct_lines E st filename) [] 0;
       (case r of
         None \<Rightarrow> bad
       | Some (out, found) \<Rightarrow>
           if \<not> k_write W then bad
           else if \<not> k_rename W then Some (ct_put bak (Some out) st, - 1)
           else Some (ct_put filename (Some out) (ct_put bak None st), found)) })"

definition remove_line :: "ct_env \<Rightarrow> ct_os \<Rightarrow> string \<Rightarrow> string \<Rightarrow> bool \<Rightarrow> ct_st \<Rightarrow> (ct_st \<times> int) ub" where
  "remove_line E W pat filename once st = remove_line_int E W pat filename once False st"

definition remove_line_p :: "ct_env \<Rightarrow> ct_os \<Rightarrow> string \<Rightarrow> string \<Rightarrow> bool \<Rightarrow> ct_st \<Rightarrow> (ct_st \<times> int) ub" where
  "remove_line_p E W pat filename once st = remove_line_int E W pat filename once True st"

subsection \<open>The file of assignments\<close>

definition assign_file :: "ct_env \<Rightarrow> string" where
  "assign_file E = ct_cfg E ''ASSIGNDIR'' (ct_ASSIGNDIR E) @ ''/assign''"

definition update_newu :: "ct_st \<Rightarrow> ct_st" where
  "update_newu st = st\<lparr>ct_log := ct_log st @ [NewU]\<rparr>"

definition newu_unless :: "bool \<Rightarrow> ct_st \<Rightarrow> ct_st" where
  "newu_unless b st = (if b then st else update_newu st)"

definition ids :: "ct_env \<Rightarrow> nat \<Rightarrow> nat \<Rightarrow> string" where
  "ids E uid gid = ct_fmt E uid @ '':'' @ ct_fmt E gid @ '':''"

definition autoturn_line :: "ct_env \<Rightarrow> string \<Rightarrow> nat \<Rightarrow> nat \<Rightarrow> string" where
  "autoturn_line E base uid gid = ''+autoturn-:autoturn:'' @ ids E uid gid @ base @ '':-::''"

definition domain_line :: "ct_env \<Rightarrow> string \<Rightarrow> string \<Rightarrow> nat \<Rightarrow> nat \<Rightarrow> string" where
  "domain_line E dmn dir uid gid = ''+'' @ dmn @ ''-:'' @ dmn @ '':'' @ ids E uid gid @ dir @ '':-::''"

text \<open>The first file: a line with a dot, written with \<open>flags\<close> that truncate (\<open>trunc\<close>) or append.\<close>

definition first_assign :: "ct_os \<Rightarrow> bool \<Rightarrow> string \<Rightarrow> ct_st \<Rightarrow> ct_st \<times> bool" where
  "first_assign W checked f st = (if \<not> k_create W then (st, False)
     else (ct_put f (Some (take (k_wrote W) (''.'' @ [LF]))) st, k_wrote W = 2 \<and> (\<not> checked \<or> k_close W)))"

definition add_domain_assign :: "ct_env \<Rightarrow> (nat \<Rightarrow> ct_os) \<Rightarrow> string option \<Rightarrow> string \<Rightarrow> nat \<Rightarrow> nat \<Rightarrow> ct_st \<Rightarrow> ct_st \<times> int" where
  "add_domain_assign E W dmn base uid gid st = (let f = assign_file E;
       (st, ok) = (if ct_exists E st f then (st, True) else first_assign (W 0) True f st) in
     if \<not> ok then (st, - 1)
     else (let (st, r) = (if use_etrn E \<and> \<not> ct_assigned E ''autoturn''
           then (case update_file E (W 1) f (autoturn_line E base uid gid) st of (st, r) \<Rightarrow>
             if r \<noteq> 0 then (st, r) else (newu_unless (OptimizeAddDomain E) st, 0))
           else (st, 0)) in
       if r \<noteq> 0 then (st, - 1)
       else (case dmn of None \<Rightarrow> (st, 0)
         | Some d \<Rightarrow> (case update_file E (W 2) f (domain_line E d (base @ (if use_etrn E then ''/'' else ''/domains/'') @ d) uid gid) st of (st, r) \<Rightarrow>
             if r \<noteq> 0 then (st, - 1) else (newu_unless (OptimizeAddDomain E) st, 0)))))"

definition del_domain_assign :: "ct_env \<Rightarrow> ct_os \<Rightarrow> string \<Rightarrow> string \<Rightarrow> nat \<Rightarrow> nat \<Rightarrow> ct_st \<Rightarrow> (ct_st \<times> int) ub" where
  "del_domain_assign E W dmn dir uid gid st = do {
     (st, r) \<leftarrow> remove_line E W (domain_line E dmn dir uid gid) (assign_file E) False st;
     Some (if r = - 1 then (st, - 1) else (update_newu st, 0)) }"

definition user_place :: "ct_env \<Rightarrow> string option \<Rightarrow> string \<Rightarrow> string" where
  "user_place E dir user = ct_cfg E ''DOMAINDIR'' (ct_DOMAINDIR E) @ ''/'' @ (case dir of None \<Rightarrow> [] | Some d \<Rightarrow> d @ ''/'') @ user"

definition do_assign1 :: "ct_env \<Rightarrow> string \<Rightarrow> string option \<Rightarrow> string" where
  "do_assign1 E user dir = ''='' @ user @ '':'' @ user @ '':'' @ ids E (indimailuid E) (indimailgid E) @ user_place E dir user"

definition do_assign2 :: "ct_env \<Rightarrow> string \<Rightarrow> string option \<Rightarrow> string" where
  "do_assign2 E user dir = ''+'' @ user @ ''-:'' @ user @ '':'' @ ids E (indimailuid E) (indimailgid E)
     @ user_place E (if dir = Some [] then None else dir) user"

definition add_user_assign :: "ct_env \<Rightarrow> (nat \<Rightarrow> ct_os) \<Rightarrow> string \<Rightarrow> string option \<Rightarrow> ct_st \<Rightarrow> ct_st \<times> int" where
  "add_user_assign E W user dir st = (let f = assign_file E;
       (st, ok) = (if ct_exists E st f then (st, True) else first_assign (W 0) False f st) in
     if \<not> ok then (st, - 1)
     else (case update_file E (W 1) f (do_assign1 E user dir) st of (st, r) \<Rightarrow>
       if r \<noteq> 0 then (st, - 1)
       else (case update_file E (W 2) f (do_assign2 E user dir) st of (st, r) \<Rightarrow>
         if r \<noteq> 0 then (st, - 1) else (update_newu st, 0))))"

text \<open>The lines are looked for in the directory itself.\<close>

definition del_user_assign :: "ct_env \<Rightarrow> (nat \<Rightarrow> ct_os) \<Rightarrow> string \<Rightarrow> string \<Rightarrow> ct_st \<Rightarrow> (ct_st \<times> int) ub" where
  "del_user_assign E W user dir st = (let f = ct_cfg E ''ASSIGNDIR'' (ct_ASSIGNDIR E);
       rest = user @ '':'' @ user @ '':'' @ ids E (indimailuid E) (indimailgid E) @ dir @ '':::'' in do {
     (st, r) \<leftarrow> remove_line E (W 0) (''='' @ rest) f False st;
     if r = - 1 then Some (st, - 1) else do {
       (st, r) \<leftarrow> remove_line E (W 1) (''+'' @ rest) f False st;
       Some (if r = - 1 then (st, - 1) else (update_newu st, 0)) } })"

subsection \<open>The lists of domains\<close>

definition control_path :: "ct_env \<Rightarrow> string \<Rightarrow> string" where
  "control_path E f = (let c = ct_cfg E ''CONTROLDIR'' (ct_CONTROLDIR E) in
     (if take 1 c = ''/'' then c else ct_cfg E ''SYSCONFDIR'' (ct_SYSCONFDIR E) @ ''/'' @ c) @ ''/'' @ f)"

text \<open>The text of a line in front of a comment, without the white space at its start. Bytes behind a NUL do not count.\<close>

definition line_text :: "qstr \<Rightarrow> string \<Rightarrow> bool \<Rightarrow> string" where
  "line_text Q l m = (let s = takeWhile (\<lambda>c. c \<noteq> NUL) (if m then butlast l else l) in dropWhile isspace (take (str_chr Q s CHR ''#'') s))"

fun count_lines :: "qstr \<Rightarrow> getln_event list \<Rightarrow> int \<Rightarrow> int" where
  "count_lines Q [] n = n"
| "count_lines Q (GlErr # es) n = - 1"
| "count_lines Q (GlLine l m # es) n = (if l = [] then n
     else if (m \<and> butlast l = []) \<or> line_text Q l m = [] then count_lines Q es n else count_lines Q es (n + 1))"

text \<open>\<open>Inl\<close> is an exit of the program.\<close>

definition count_rcpthosts :: "ct_env \<Rightarrow> ct_os \<Rightarrow> ct_st \<Rightarrow> int + int" where
  "count_rcpthosts E W st = (let f = control_path E ''rcpthosts'' in
     if \<not> ct_exists E st f then Inr 0 else if \<not> k_read W then Inl 111 else Inr (count_lines (ct_Q E) (ct_lines E st f) 0))"

definition add_control :: "ct_env \<Rightarrow> (nat \<Rightarrow> ct_os) \<Rightarrow> string \<Rightarrow> string option \<Rightarrow> ct_st \<Rightarrow> (ct_st \<times> (int + int)) ub" where
  "add_control E W dmn target st = (case count_rcpthosts E (W 0) st of
     Inl n \<Rightarrow> Some (st, Inl n)
   | Inr count \<Rightarrow>
      if count = - 1 then Some (st, Inr (- 1))
      else (let f = control_path E (if count \<ge> 50 then ''morercpthosts'' else ''rcpthosts'') in
        case update_file E (W 1) f dmn st of (st, r) \<Rightarrow>
        if r \<noteq> 0 then Some (st, Inr (- 1))
        else (let comp = (count \<ge> 50 \<and> \<not> OptimizeAddDomain E); st = (if comp then st\<lparr>ct_log := ct_log st @ [CompileMore]\<rparr> else st) in
          if comp \<and> \<not> ct_compile E then Some (st, Inr (- 1))
          else (case update_file E (W 2) (control_path E ''virtualdomains'')
              (dmn @ '':'' @ (case target of Some t \<Rightarrow> if t \<noteq> [] then t else dmn | None \<Rightarrow> dmn)) st of (st, r) \<Rightarrow>
            if r \<noteq> 0 then Some (st, Inr (- 1))
            else do { (st, r) \<leftarrow> remove_line E (W 3) dmn (control_path E ''locals'') False st;
              if r = - 1 then Some (st, Inr (- 1))
              else if \<not> use_etrn E then Some (st, Inr 0)
              else (case update_file E (W 4) (control_path E ''etrnhosts'') dmn st of (st, r) \<Rightarrow>
                Some (st, Inr (if r \<noteq> 0 then - 1 else 0))) }))))"

text \<open>When the domain is not in \<^verbatim>\<open>rcpthosts\<close>, the name \<^verbatim>\<open>morercpthosts\<close> is put behind the terminator of the path: the same
  file is searched again, and removed when it has become empty.\<close>

definition more_rcpthosts :: "ct_env \<Rightarrow> ct_os \<Rightarrow> string \<Rightarrow> string \<Rightarrow> int \<Rightarrow> ct_st \<Rightarrow> (ct_st \<times> int) ub" where
  "more_rcpthosts E W dmn f status st = (if \<not> ct_exists E st f then Some (st, status)
     else do { (st, i) \<leftarrow> remove_line E W dmn f False st;
       Some ((if i > 0 then (if ct_files st f = Some [] then ct_put f None st else st\<lparr>ct_log := ct_log st @ [CompileMore]\<rparr>) else st),
         if i = - 1 then i else status) })"

fun del_files :: "ct_env \<Rightarrow> (nat \<Rightarrow> ct_os) \<Rightarrow> string \<Rightarrow> nat \<Rightarrow> string list \<Rightarrow> int \<Rightarrow> ct_st \<Rightarrow> (ct_st \<times> int) ub" where
  "del_files E W dmn i [] status st = Some (st, status)"
| "del_files E W dmn i (n # ns) status st = (let f = control_path E n in
     if \<not> ct_exists E st f then del_files E W dmn (i + 2) ns status st
     else do { (st, status) \<leftarrow> remove_line E (W i) dmn f True st;
       (st, status) \<leftarrow> (if str_diffn (ct_Q E) n ''rcpthosts'' 10 = 0 \<and> status < 1
         then more_rcpthosts E (W (i + 1)) dmn f status st else Some (st, status));
       del_files E W dmn (i + 2) ns status st })"

definition del_control :: "ct_env \<Rightarrow> (nat \<Rightarrow> ct_os) \<Rightarrow> string \<Rightarrow> ct_st \<Rightarrow> (ct_st \<times> int) ub" where
  "del_control E W dmn st = do {
     (st, status) \<leftarrow> del_files E W dmn 0 [''rcpthosts'', ''etrnhosts'', ''chkrcptdomains'', ''virtualdomains''] 0 st;
     (let f = control_path E ''virtualdomains'' in
      if \<not> ct_exists E st f then Some (st, status)
      else do { (st, r) \<leftarrow> remove_line_p E (W 8) (dmn @ (if use_etrn E then '':autoturn-'' else '':'' @ dmn)) f False st;
        Some (st, if r = - 1 then - 1 else status) }) }"

subsection \<open>Searching\<close>

fun virtual_lines :: "qstr \<Rightarrow> string \<Rightarrow> getln_event list \<Rightarrow> int + int" where
  "virtual_lines Q dmn [] = Inr 0"
| "virtual_lines Q dmn (GlErr # es) = Inl 111"
| "virtual_lines Q dmn (GlLine l m # es) = (if l = [] then Inr 0
     else if m \<and> butlast l = [] then Inl 100
     else (let t = line_text Q l m in if t = [] then virtual_lines Q dmn es
       else if take (str_chr Q t CHR '':'') t = dmn then Inr 1 else virtual_lines Q dmn es))"

definition isvirtualdomain :: "ct_env \<Rightarrow> ct_os \<Rightarrow> string \<Rightarrow> ct_st \<Rightarrow> int + int" where
  "isvirtualdomain E W dmn st = (let f = control_path E ''virtualdomains'' in
     if \<not> ct_exists E st f then Inr 0 else if \<not> k_read W then Inr (- 1) else virtual_lines (ct_Q E) dmn (ct_lines E st f))"

text \<open>The length of the comparison is that of the whole line from the first character on, with a comment.\<close>

fun locals_lines :: "qstr \<Rightarrow> string \<Rightarrow> getln_event list \<Rightarrow> int" where
  "locals_lines Q dmn [] = 0"
| "locals_lines Q dmn (GlErr # es) = - 1"
| "locals_lines Q dmn (GlLine l m # es) = (if l = [] then 0
     else (let b = (if m then butlast l else l); t = line_text Q l m; w = length (takeWhile isspace b) in
       if b = [] \<or> t = [] then locals_lines Q dmn es
       else if str_diffn Q dmn t (length b - w) = 0 then 1 else locals_lines Q dmn es))"

definition host_in_locals :: "ct_env \<Rightarrow> ct_os \<Rightarrow> string option \<Rightarrow> ct_st \<Rightarrow> int + int" where
  "host_in_locals E W dmn st = (case dmn of None \<Rightarrow> Inr 0
   | Some d \<Rightarrow>
      if d = [] then Inr 0
      else if str_diffn (ct_Q E) d ''localhost'' 10 = 0 then Inr 1
      else (let f = control_path E ''locals'' in
        if \<not> ct_exists E st f then Inr 0 else if \<not> k_read W then Inl 111 else Inr (locals_lines (ct_Q E) d (ct_lines E st f))))"

end
