(* ===== verification/Control_Spec.thy ===== *)
theory Control_Spec
  imports Control "HOL-Library.Sublist"
begin

text \<open>
  The control files as lists of lines: what an update and a removal do to the lines, that the file of assignments keeps its last
  line with a dot, and what comparing lines as prefixes does to other domains.
\<close>

definition unlines :: "string list \<Rightarrow> string" where
  "unlines ls = concat (map (\<lambda>l. l @ [LF]) ls)"

definition plain_line :: "string \<Rightarrow> bool" where
  "plain_line l \<longleftrightarrow> LF \<notin> set l \<and> NUL \<notin> set l"

definition plain_lines :: "string list \<Rightarrow> bool" where
  "plain_lines ls \<longleftrightarrow> (\<forall>l \<in> set ls. plain_line l)"

lemma unlines_simps [simp]: "unlines [] = []" "unlines (l # ls) = l @ LF # unlines ls" "unlines (ls @ ms) = unlines ls @ unlines ms"
  by (simp_all add: unlines_def)

lemma plain_lines_simps [simp]: "plain_lines []" "plain_lines (l # ls) \<longleftrightarrow> plain_line l \<and> plain_lines ls"
  "plain_lines (ls @ ms) \<longleftrightarrow> plain_lines ls \<and> plain_lines ms"
  by (auto simp: plain_lines_def)

lemma file_lines_unlines: "plain_lines ls \<Longrightarrow> file_lines (unlines ls) = map (\<lambda>l. l @ [LF]) ls"
  by (induction ls) (auto simp: plain_line_def file_lines_snoc)

lemma event_LF: "line_event (l @ [LF]) = GlLine (l @ [LF]) True"
  by (simp add: line_event_def)

lemma take_eq_prefix: "take (length l) u = l \<longleftrightarrow> prefix l u"
  by (metis append_eq_conv_conj append_take_drop_id prefix_def)

definition line_events :: "string list \<Rightarrow> getln_event list" where
  "line_events ls = map (\<lambda>l. GlLine (l @ [LF]) True) ls"

lemma line_events_simps [simp]: "line_events [] = []" "line_events (l # ls) = GlLine (l @ [LF]) True # line_events ls"
  by (simp_all add: line_events_def)

text \<open>The lines after an update, and the lines after a removal of all lines that match or of the first one.\<close>

definition updated :: "string \<Rightarrow> string list \<Rightarrow> string list" where
  "updated u ls = map (\<lambda>l. if prefix l u then u else l) (filter (\<lambda>l. l \<noteq> ''.'') ls)
     @ (if \<exists>l \<in> set ls. l \<noteq> ''.'' \<and> prefix l u then [] else [u]) @ (if ''.'' \<in> set ls then [''.''] else [])"

definition removed :: "bool \<Rightarrow> (string \<Rightarrow> bool) \<Rightarrow> string list \<Rightarrow> string list" where
  "removed once P ls = (if once then takeWhile (\<lambda>l. \<not> P l) ls @ tl (dropWhile (\<lambda>l. \<not> P l) ls) else filter (\<lambda>l. \<not> P l) ls)"

definition matched :: "bool \<Rightarrow> (string \<Rightarrow> bool) \<Rightarrow> string list \<Rightarrow> int" where
  "matched once P ls = (let n = length (filter P ls) in int (if once then min 1 n else n))"

definition line_hit :: "bool \<Rightarrow> string \<Rightarrow> string \<Rightarrow> bool" where
  "line_hit part pat l \<longleftrightarrow> (if part then prefix pat l else prefix l pat)"

definition all_fine :: "ct_os \<Rightarrow> bool" where
  "all_fine W \<longleftrightarrow> k_lock W \<and> k_create W \<and> k_stat W \<and> k_perm W \<and> k_read W \<and> k_write W \<and> k_rename W \<and> k_wrote W = 2 \<and> k_close W"

lemma update_file_frame:
  "update_file E W f u st = (st', r) \<Longrightarrow> g \<noteq> f \<Longrightarrow> g \<noteq> f @ ''.'' @ ct_fmt E (ct_pid E) \<Longrightarrow> ct_files st' g = ct_files st g"
  by (auto simp: update_file_def ct_put_def Let_def split: if_splits option.splits)

lemma remove_line_frame:
  assumes "remove_line_int E W pat f once part st = Some (st', r)" and "g \<noteq> f" and "g \<noteq> f @ ''.bak''"
  shows "ct_files st' g = ct_files st g"
proof (cases "remove_lines (ct_Q E) once part pat (ct_lines E st f) [] 0")
  case None
  then show ?thesis using assms by (auto simp: remove_line_int_def ct_put_def Let_def split: if_splits)
next
  case (Some x)
  then show ?thesis using assms by (cases x) (auto simp: remove_line_int_def ct_put_def Let_def split: if_splits)
qed

locale control_lib = qstrings "ct_Q E" for E :: ct_env +
  assumes getlns_all: "ct_getlns E d = map line_event (file_lines d)"
    and fmt_digits: "all_digits (ct_fmt E n)"
begin

lemma cmp_prefix:
  assumes "NUL \<notin> set l" "NUL \<notin> set u"
  shows "str_diffn (ct_Q E) (l @ [LF]) u (length l) = 0 \<longleftrightarrow> prefix l u"
proof -
  have "str_diffn (ct_Q E) (l @ [LF]) u (length l) = 0 \<longleftrightarrow> take (length l) (u @ [NUL]) = l"
    using diffn_zero[of "l @ [LF]" u "length l"] assms by auto
  also have "\<dots> \<longleftrightarrow> prefix l u"
    using assms(1) unfolding take_eq_prefix by (auto simp: prefix_snoc)
  finally show ?thesis .
qed

lemma cmp_dot: "NUL \<notin> set l \<Longrightarrow> LF \<notin> set l \<Longrightarrow> str_diffn (ct_Q E) (l @ [LF]) (''.'' @ [LF]) 2 = 0 \<longleftrightarrow> l = ''.''"
  using diffn_zero[of "l @ [LF]" "''.'' @ [LF]" 2] by (cases l; cases "tl l") (auto simp: numeral_2_eq_2)

lemma cmp_part:
  assumes "NUL \<notin> set l" "NUL \<notin> set pat" "LF \<notin> set pat"
  shows "str_diffn (ct_Q E) (l @ [LF]) pat (length pat) = 0 \<longleftrightarrow> prefix pat l"
proof -
  have "str_diffn (ct_Q E) (l @ [LF]) pat (length pat) = 0 \<longleftrightarrow> take (length pat) (l @ [LF, NUL]) = pat"
    using diffn_zero[of "l @ [LF]" pat "length pat"] assms by auto
  also have "\<dots> \<longleftrightarrow> prefix pat (l @ [LF, NUL])" by (rule take_eq_prefix)
  also have "\<dots> \<longleftrightarrow> prefix pat l" using assms(2,3) by (auto simp: prefix_append prefix_Cons)
  finally show ?thesis .
qed

lemma update_lines_unlines:
  assumes "plain_line u" and "plain_lines ls"
  shows "update_lines (ct_Q E) u (line_events ls) out found dot
    = Some (out @ unlines (map (\<lambda>l. if prefix l u then u else l) (filter (\<lambda>l. l \<noteq> ''.'') ls)),
        found \<or> (\<exists>l \<in> set ls. l \<noteq> ''.'' \<and> prefix l u), dot \<or> ''.'' \<in> set ls)"
  using assms(2)
proof (induction ls arbitrary: out found dot)
  case (Cons l ls)
  then have l: "NUL \<notin> set l" "LF \<notin> set l" and u: "NUL \<notin> set u" using assms(1) by (auto simp: plain_line_def)
  show ?case
    using Cons.IH Cons.prems cmp_dot[OF l] cmp_prefix[OF l(1) u] by auto
qed simp

lemma lines_of:
  assumes "\<not> ct_isdir E f" "ct_files st f = Some (unlines ls)" "plain_lines ls"
  shows "ct_lines E st f = line_events ls"
  using assms by (simp add: ct_lines_def getlns_all file_lines_unlines line_events_def event_LF o_def)

lemma tmp_name: "f @ ''.'' @ ct_fmt E n \<noteq> f" "f @ ''.bak'' \<noteq> f"
  by simp_all

text \<open>An update writes the new lines, or leaves the file alone.\<close>

lemma update_file_result:
  assumes "\<not> ct_isdir E f" "ct_files st f = Some (unlines ls)" "plain_lines ls" "plain_line u" "update_file E W f u st = (st', r)"
  shows "(r = 0 \<and> ct_files st' f = Some (unlines (updated u ls))) \<or> (r = - 1 \<and> ct_files st' f = ct_files st f)"
    and "g \<noteq> f \<Longrightarrow> g \<noteq> f @ ''.'' @ ct_fmt E (ct_pid E) \<Longrightarrow> ct_files st' g = ct_files st g"
    and "all_fine W \<Longrightarrow> r = 0"
proof -
  note l = lines_of[OF assms(1-3)] update_lines_unlines[OF assms(4,3)]
  have e: "ct_exists E st f" using assms(2) by (simp add: ct_exists_def)
  show "(r = 0 \<and> ct_files st' f = Some (unlines (updated u ls))) \<or> (r = - 1 \<and> ct_files st' f = ct_files st f)"
    using assms(5) e by (auto simp: update_file_def l ct_put_def updated_def Let_def split: if_splits)
  show "g \<noteq> f \<Longrightarrow> g \<noteq> f @ ''.'' @ ct_fmt E (ct_pid E) \<Longrightarrow> ct_files st' g = ct_files st g"
    using assms(5) e by (auto simp: update_file_def l ct_put_def Let_def split: if_splits)
  show "all_fine W \<Longrightarrow> r = 0"
    using assms(5) e by (auto simp: update_file_def l all_fine_def Let_def split: if_splits)
qed

lemma line_matches_hit: "plain_line l \<Longrightarrow> plain_line pat \<Longrightarrow> line_matches (ct_Q E) part pat (l @ [LF]) = Some (line_hit part pat l)"
  using cmp_part[of l pat] cmp_prefix[of l pat] take_eq_prefix[of "l @ [LF]" pat]
  by (auto simp: line_matches_def line_hit_def plain_line_def dest: set_mono_prefix)

lemma remove_rest: "plain_lines ls \<Longrightarrow> found \<noteq> 0 \<Longrightarrow>
  remove_lines (ct_Q E) True part pat (line_events ls) out found = Some (Some (out @ unlines ls, found))"
  by (induction ls arbitrary: out) (auto simp: event_LF)

lemma remove_lines_unlines:
  assumes "plain_line pat" and "plain_lines ls" and "once \<Longrightarrow> found = 0"
  shows "remove_lines (ct_Q E) once part pat (line_events ls) out found
    = Some (Some (out @ unlines (removed once (line_hit part pat) ls), found + matched once (line_hit part pat) ls))"
  using assms(2,3)
proof (induction ls arbitrary: out found)
  case Nil
  then show ?case by (simp add: removed_def matched_def)
next
  case (Cons l ls)
  have m: "line_matches (ct_Q E) part pat (l @ [LF]) = Some (line_hit part pat l)"
    using line_matches_hit[OF _ assms(1)] Cons.prems by simp
  show ?case
  proof (cases "line_hit part pat l \<and> once")
    case True
    then show ?thesis using remove_rest[of ls 1] Cons.prems m by (simp add: removed_def matched_def)
  next
    case False
    then show ?thesis using Cons m by (auto simp: removed_def matched_def Let_def)
  qed
qed

lemma remove_line_result:
  assumes "\<not> ct_isdir E f" "ct_files st f = Some (unlines ls)" "plain_lines ls" "plain_line pat"
  obtains st' r where "remove_line_int E W pat f once part st = Some (st', r)"
    "(r = matched once (line_hit part pat) ls \<and> ct_files st' f = Some (unlines (removed once (line_hit part pat) ls)))
      \<or> (r = - 1 \<and> ct_files st' f = ct_files st f)"
    "\<And>g. g \<noteq> f \<Longrightarrow> g \<noteq> f @ ''.bak'' \<Longrightarrow> ct_files st' g = ct_files st g" "all_fine W \<Longrightarrow> r \<noteq> - 1"
proof -
  note l = lines_of[OF assms(1-3)] remove_lines_unlines[OF assms(4,3)]
  have e: "ct_exists E st f" using assms(2) by (simp add: ct_exists_def)
  obtain st' r where x: "remove_line_int E W pat f once part st = Some (st', r)"
    using l(2)[of once 0 part "[]"] by (fastforce simp: remove_line_int_def l(1) Let_def)
  have m: "matched once (line_hit part pat) ls \<ge> 0" by (simp add: matched_def Let_def)
  show ?thesis
  proof (rule that[OF x])
    show "(r = matched once (line_hit part pat) ls \<and> ct_files st' f = Some (unlines (removed once (line_hit part pat) ls)))
      \<or> (r = - 1 \<and> ct_files st' f = ct_files st f)"
      using x e l(2)[of once 0 part "[]"] by (auto simp: remove_line_int_def l(1) ct_put_def Let_def split: if_splits)
    show "\<And>g. g \<noteq> f \<Longrightarrow> g \<noteq> f @ ''.bak'' \<Longrightarrow> ct_files st' g = ct_files st g"
      using x e l(2)[of once 0 part "[]"] by (auto simp: remove_line_int_def l(1) ct_put_def Let_def split: if_splits)
    show "all_fine W \<Longrightarrow> r \<noteq> - 1"
      using x e l(2)[of once 0 part "[]"] m by (auto simp: remove_line_int_def l(1) all_fine_def Let_def split: if_splits)
  qed
qed

end

subsection \<open>The file of assignments\<close>

definition terminated :: "string list \<Rightarrow> bool" where
  "terminated ls \<longleftrightarrow> (\<exists>ms. ls = ms @ [''.''] \<and> ''.'' \<notin> set ms)"

lemma updated_terminated:
  assumes "terminated ls" and "u \<noteq> ''.''"
  shows "terminated (updated u ls)"
proof -
  obtain ms where ls: "ls = ms @ [''.'']" "''.'' \<notin> set ms" using assms(1) by (auto simp: terminated_def)
  have "filter (\<lambda>l. l \<noteq> ''.'') ms = ms" using ls(2) by (induction ms) auto
  then have "updated u ls = (map (\<lambda>l. if prefix l u then u else l) ms @ (if \<exists>l \<in> set ms. prefix l u then [] else [u])) @ [''.'']"
    using ls by (auto simp: updated_def)
  moreover have "''.'' \<notin> set (map (\<lambda>l. if prefix l u then u else l) ms @ (if \<exists>l \<in> set ms. prefix l u then [] else [u]))"
    using ls(2) assms(2) by auto
  ultimately show ?thesis unfolding terminated_def by blast
qed

lemma removed_terminated:
  assumes "terminated ls" and "\<not> P ''.''"
  shows "terminated (removed False P ls)"
proof -
  obtain ms where "ls = ms @ [''.'']" "''.'' \<notin> set ms" using assms(1) by (auto simp: terminated_def)
  then have "removed False P ls = filter (\<lambda>l. \<not> P l) ms @ [''.''] \<and> ''.'' \<notin> set (filter (\<lambda>l. \<not> P l) ms)"
    using assms(2) by (simp add: removed_def)
  then show ?thesis unfolding terminated_def by blast
qed

lemma updated_text: "plain_lines ls \<Longrightarrow> plain_line u \<Longrightarrow> plain_lines (updated u ls)"
  by (auto simp: plain_lines_def updated_def plain_line_def)

lemma removed_text: "plain_lines ls \<Longrightarrow> plain_lines (removed False P ls)"
  by (auto simp: plain_lines_def removed_def)

definition dot_file :: "string option \<Rightarrow> bool" where
  "dot_file x \<longleftrightarrow> (\<exists>ls. x = Some (unlines ls) \<and> plain_lines ls \<and> terminated ls)"

definition has_line :: "string \<Rightarrow> string option \<Rightarrow> bool" where
  "has_line l x \<longleftrightarrow> (\<exists>ls. x = Some (unlines ls) \<and> plain_lines ls \<and> l \<in> set ls)"

text \<open>The file of assignments is missing or ends with its line with a dot.\<close>

definition assign_ok :: "ct_env \<Rightarrow> ct_st \<Rightarrow> bool" where
  "assign_ok E st \<longleftrightarrow> ct_files st (assign_file E) = None \<or> dot_file (ct_files st (assign_file E))"

lemma updated_has: "u \<in> set (updated u ls)"
  by (auto simp: updated_def)

context control_lib
begin

lemma update_dot:
  assumes "\<not> ct_isdir E f" "dot_file (ct_files st f)" "plain_line u" "u \<noteq> ''.''" "update_file E W f u st = (st', r)"
  shows "dot_file (ct_files st' f)" "r = 0 \<Longrightarrow> has_line u (ct_files st' f)" "r \<in> {0, - 1}"
proof -
  obtain ls where ls: "ct_files st f = Some (unlines ls)" "plain_lines ls" "terminated ls" using assms(2) by (auto simp: dot_file_def)
  note r = update_file_result(1)[OF assms(1) ls(1,2) assms(3,5)]
  then show "dot_file (ct_files st' f)"
    using assms(2) updated_terminated[OF ls(3) assms(4)] updated_text[OF ls(2) assms(3)] by (auto simp: dot_file_def)
  show "r = 0 \<Longrightarrow> has_line u (ct_files st' f)"
    using r updated_text[OF ls(2) assms(3)] updated_has[of u ls] by (auto simp: has_line_def)
  show "r \<in> {0, - 1}" using r by auto
qed

lemma first_dot:
  assumes "k_wrote W = 2"
  shows "first_assign W b f st = (st', ok) \<Longrightarrow> st' = st \<or> dot_file (ct_files st' f)" "first_assign W b f st = (st', True) \<Longrightarrow> dot_file (ct_files st' f)"
proof -
  have "dot_file (Some (''.'' @ [LF]))"
    unfolding dot_file_def by (rule exI[of _ "[''.'']"]) (simp add: plain_line_def terminated_def)
  then show "first_assign W b f st = (st', ok) \<Longrightarrow> st' = st \<or> dot_file (ct_files st' f)" "first_assign W b f st = (st', True) \<Longrightarrow> dot_file (ct_files st' f)"
    using assms by (auto simp: first_assign_def ct_put_def split: if_splits)
qed

lemma fmt_text: "plain_line (ct_fmt E n)"
  using fmt_digits[of n] by (auto simp: all_digits_def plain_line_def)

lemma text_append [simp]: "plain_line (a @ b) \<longleftrightarrow> plain_line a \<and> plain_line b" "plain_line []" "plain_line (c # b) \<longleftrightarrow> c \<noteq> LF \<and> c \<noteq> NUL \<and> plain_line b"
  by (auto simp: plain_line_def)

lemma ids_text: "plain_line (ids E u g)"
  by (simp add: ids_def fmt_text)

lemma lines_text:
  "plain_line d \<Longrightarrow> plain_line dir \<Longrightarrow> plain_line (domain_line E d dir u g)" "plain_line base \<Longrightarrow> plain_line (autoturn_line E base u g)"
  by (simp_all add: domain_line_def autoturn_line_def ids_text)

lemma lines_no_dot: "domain_line E d dir u g \<noteq> ''.''" "autoturn_line E base u g \<noteq> ''.''" "\<not> prefix ''.'' (domain_line E d dir u g)"
  by (simp_all add: domain_line_def autoturn_line_def)

lemma first_frame: "first_assign W b f st = (st', ok) \<Longrightarrow> g \<noteq> f \<Longrightarrow> ct_files st' g = ct_files st g"
  by (auto simp: first_assign_def ct_put_def split: if_splits)

lemma start_dot:
  assumes "\<not> ct_isdir E (assign_file E)" "assign_ok E st" "k_wrote W = 2"
    and "(if ct_exists E st (assign_file E) then (st, True) else first_assign W b (assign_file E) st) = (st', ok)"
  shows "assign_ok E st'" "ok \<Longrightarrow> dot_file (ct_files st' (assign_file E))"
proof -
  have "ct_exists E st (assign_file E) \<longleftrightarrow> dot_file (ct_files st (assign_file E))"
    using assms(1,2) by (auto simp: ct_exists_def assign_ok_def dot_file_def)
  then show "assign_ok E st'" "ok \<Longrightarrow> dot_file (ct_files st' (assign_file E))"
    using assms(2,4) first_dot(1)[OF assms(3), of b "assign_file E" st st' ok] first_dot(2)[OF assms(3), of b "assign_file E" st st']
    by (auto simp: assign_ok_def split: if_splits)
qed

lemma newu_files [simp]: "ct_files (update_newu st) = ct_files st" "ct_files (newu_unless b st) = ct_files st"
  by (simp_all add: newu_unless_def update_newu_def)

lemma add_domain_dot:
  assumes "\<not> ct_isdir E (assign_file E)" "assign_ok E st" "k_wrote (W 0) = 2" "plain_line base" "\<forall>d. dmn = Some d \<longrightarrow> plain_line d"
    and "add_domain_assign E W dmn base u g st = (st', r)"
  shows "assign_ok E st'" "r = 0 \<Longrightarrow> dmn = Some d \<Longrightarrow>
    has_line (domain_line E d (base @ (if use_etrn E then ''/'' else ''/domains/'') @ d) u g) (ct_files st' (assign_file E))"
proof -
  let ?f = "assign_file E"
  obtain st1 ok where s1: "(if ct_exists E st ?f then (st, True) else first_assign (W 0) True ?f st) = (st1, ok)" by fastforce
  note d1 = start_dot[OF assms(1-3) s1]
  define a where "a = (if use_etrn E \<and> \<not> ct_assigned E ''autoturn''
           then (case update_file E (W 1) ?f (autoturn_line E base u g) st1 of (st, r) \<Rightarrow>
             if r \<noteq> 0 then (st, r) else (newu_unless (OptimizeAddDomain E) st, 0)) else (st1, 0))"
  obtain st2 r2 where s2: "a = (st2, r2)" by fastforce
  have d2: "ok \<Longrightarrow> dot_file (ct_files st2 ?f)"
    using s2 update_dot(1)[OF assms(1) d1(2) lines_text(2)[OF assms(4)] lines_no_dot(2)] d1(2)
    by (auto simp: a_def split: if_splits prod.splits)
  have run: "add_domain_assign E W dmn base u g st = (if \<not> ok then (st1, - 1) else if r2 \<noteq> 0 then (st2, - 1)
      else (case dmn of None \<Rightarrow> (st2, 0)
         | Some d \<Rightarrow> (case update_file E (W 2) ?f (domain_line E d (base @ (if use_etrn E then ''/'' else ''/domains/'') @ d) u g) st2 of (st, r) \<Rightarrow>
             if r \<noteq> 0 then (st, - 1) else (newu_unless (OptimizeAddDomain E) st, 0))))"
    using s2 unfolding add_domain_assign_def Let_def s1 by (auto simp: a_def)
  have t: "plain_line (base @ (if use_etrn E then ''/'' else ''/domains/'') @ d)" if "dmn = Some d" for d
    using assms(4,5) that by simp
  note u3 = update_dot[OF assms(1) d2 lines_text(1)[OF _ t] lines_no_dot(1)]
  show "assign_ok E st'"
    using assms(5,6) run d1(1) d2 u3(1) by (auto simp: assign_ok_def split: if_splits option.splits prod.splits)
  show "r = 0 \<Longrightarrow> dmn = Some d \<Longrightarrow>
    has_line (domain_line E d (base @ (if use_etrn E then ''/'' else ''/domains/'') @ d) u g) (ct_files st' ?f)"
    using assms(5,6) run u3(2) by (auto split: if_splits prod.splits)
qed

lemma del_domain_dot:
  assumes "\<not> ct_isdir E (assign_file E)" "assign_ok E st" "plain_line d" "plain_line dir" "del_domain_assign E W d dir u g st = Some (st', r)"
  shows "assign_ok E st'"
proof (cases "ct_files st (assign_file E)")
  case None
  then have "\<not> ct_exists E st (assign_file E)" using assms(1) by (simp add: ct_exists_def)
  then show ?thesis using assms(2,5) by (simp add: del_domain_assign_def remove_line_def remove_line_int_def Let_def)
next
  case (Some x)
  then obtain ls where ls: "ct_files st (assign_file E) = Some (unlines ls)" "plain_lines ls" "terminated ls"
    using assms(2) by (auto simp: assign_ok_def dot_file_def)
  note t = lines_text(1)[OF assms(3,4), of u g]
  obtain st1 r1 where r: "remove_line_int E W (domain_line E d dir u g) (assign_file E) False False st = Some (st1, r1)"
    "ct_files st1 (assign_file E) = ct_files st (assign_file E) \<or>
     ct_files st1 (assign_file E) = Some (unlines (removed False (line_hit False (domain_line E d dir u g)) ls))"
    using remove_line_result[OF assms(1) ls(1,2) t, of W False False] by metis
  have "dot_file (ct_files st1 (assign_file E))"
    using r(2) ls removed_terminated[OF ls(3), of "line_hit False (domain_line E d dir u g)"] removed_text[OF ls(2)] lines_no_dot(3)[of d dir u g]
    by (auto simp: dot_file_def line_hit_def)
  then show ?thesis using assms(5) r(1) by (auto simp: del_domain_assign_def remove_line_def assign_ok_def split: if_splits)
qed

lemma add_user_dot:
  assumes "\<not> ct_isdir E (assign_file E)" "assign_ok E st" "k_wrote (W 0) = 2" "plain_line user" "\<forall>d. dir = Some d \<longrightarrow> plain_line d"
    and "plain_line (ct_cfg E ''DOMAINDIR'' (ct_DOMAINDIR E))" "add_user_assign E W user dir st = (st', r)"
  shows "assign_ok E st'"
proof -
  let ?f = "assign_file E"
  obtain st1 ok where s1: "(if ct_exists E st ?f then (st, True) else first_assign (W 0) False ?f st) = (st1, ok)" by fastforce
  note d1 = start_dot[OF assms(1-3) s1]
  have t: "plain_line (do_assign1 E user dir)" "plain_line (do_assign2 E user dir)"
    using assms(4-6) by (auto simp: do_assign1_def do_assign2_def ids_text user_place_def split: option.split)
  have n: "do_assign1 E user dir \<noteq> ''.''" "do_assign2 E user dir \<noteq> ''.''" by (simp_all add: do_assign1_def do_assign2_def)
  have u2: "ok \<Longrightarrow> update_file E (W 1) ?f (do_assign1 E user dir) st1 = (st2, r2) \<Longrightarrow> dot_file (ct_files st2 ?f)" for st2 r2
    using update_dot(1)[OF assms(1) d1(2) t(1) n(1)] by blast
  have u3: "ok \<Longrightarrow> update_file E (W 1) ?f (do_assign1 E user dir) st1 = (st2, r2) \<Longrightarrow>
      update_file E (W 2) ?f (do_assign2 E user dir) st2 = (st3, r3) \<Longrightarrow> dot_file (ct_files st3 ?f)" for st2 r2 st3 r3
    using update_dot(1)[OF assms(1) u2 t(2) n(2)] by blast
  have run: "add_user_assign E W user dir st = (if \<not> ok then (st1, - 1)
     else (case update_file E (W 1) ?f (do_assign1 E user dir) st1 of (st, r) \<Rightarrow>
       if r \<noteq> 0 then (st, - 1)
       else (case update_file E (W 2) ?f (do_assign2 E user dir) st of (st, r) \<Rightarrow>
         if r \<noteq> 0 then (st, - 1) else (update_newu st, 0))))"
    unfolding add_user_assign_def Let_def s1 by simp
  then show ?thesis
    using assms(7) d1(1) u2 u3 by (auto simp: assign_ok_def split: if_splits prod.splits)
qed

end

text \<open>Deleting a user looks for its lines in the directory.\<close>

lemma del_user_fails:
  assumes "ct_isdir E (ct_cfg E ''ASSIGNDIR'' (ct_ASSIGNDIR E))"
  shows "\<exists>st'. del_user_assign E W user dir st = Some (st', - 1) \<and> ct_log st' = ct_log st
    \<and> (\<forall>g. g \<noteq> ct_cfg E ''ASSIGNDIR'' (ct_ASSIGNDIR E) @ ''.bak'' \<longrightarrow> ct_files st' g = ct_files st g)"
  using assms by (auto simp: del_user_assign_def remove_line_def remove_line_int_def ct_lines_def ct_put_def Let_def)

text \<open>What a sequence of operations makes of the files, whatever system calls fail; the first line is written.\<close>

inductive assign_reach :: "ct_env \<Rightarrow> ct_st \<Rightarrow> ct_st \<Rightarrow> bool" for E :: ct_env and st :: ct_st where
  start: "assign_reach E st st"
| domain_added: "assign_reach E st s \<Longrightarrow> k_wrote (W 0) = 2 \<Longrightarrow> plain_line d \<Longrightarrow> plain_line base \<Longrightarrow>
    add_domain_assign E W (Some d) base u g s = (s', r) \<Longrightarrow> assign_reach E st s'"
| domain_deleted: "assign_reach E st s \<Longrightarrow> plain_line d \<Longrightarrow> plain_line dir \<Longrightarrow>
    del_domain_assign E K d dir u g s = Some (s', r) \<Longrightarrow> assign_reach E st s'"
| user_added: "assign_reach E st s \<Longrightarrow> k_wrote (W 0) = 2 \<Longrightarrow> plain_line user \<Longrightarrow> \<forall>d. udir = Some d \<longrightarrow> plain_line d \<Longrightarrow>
    add_user_assign E W user udir s = (s', r) \<Longrightarrow> assign_reach E st s'"
| user_removed: "assign_reach E st s \<Longrightarrow> del_user_assign E W user udir s = Some (s', r) \<Longrightarrow> assign_reach E st s'"

context control_lib
begin

lemma reach_dot:
  assumes "assign_reach E st s" "\<not> ct_isdir E (assign_file E)" "plain_line (ct_cfg E ''DOMAINDIR'' (ct_DOMAINDIR E))" "assign_ok E st"
    and "ct_isdir E (ct_cfg E ''ASSIGNDIR'' (ct_ASSIGNDIR E))"
  shows "assign_ok E s"
  using assms(1)
proof induction
  case start
  show ?case by (rule assms(4))
next
  case (domain_added s W d base u g s' r)
  then show ?case using add_domain_dot(1)[OF assms(2), of s W base "Some d" u g s' r] by simp
next
  case (domain_deleted s d dir K u g s' r)
  then show ?case using del_domain_dot[OF assms(2), of s d dir K u g s' r] by simp
next
  case (user_added s W user udir s' r)
  then show ?case using add_user_dot[OF assms(2) _ _ _ _ assms(3), of s W user udir s' r] by simp
next
  case (user_removed s W user udir s' r)
  have "ct_files s' (assign_file E) = ct_files s (assign_file E)"
    using del_user_fails[OF assms(5), of W user udir s] user_removed(2) by (auto simp: assign_file_def)
  then show ?case using user_removed(3) by (simp add: assign_ok_def)
qed

end

end
