(* ===== verification/Control_Domains.thy ===== *)
theory Control_Domains
  imports Control_Spec
begin

text \<open>
  Adding and removing a domain: which other domains it changes, and that a removal undoes an addition when no other line is
  related to the new one.
\<close>

lemma path_base: "control_path E f = control_path E [] @ f"
  by (simp add: control_path_def Let_def)

lemma path_eq [simp]: "control_path E f = control_path E g @ x \<longleftrightarrow> f = g @ x" "control_path E f = control_path E g \<longleftrightarrow> f = g"
  using path_base[of E f] path_base[of E g] by auto

text \<open>No line is related to the domain.\<close>

definition unrelated :: "string \<Rightarrow> string list \<Rightarrow> bool" where
  "unrelated d ls \<longleftrightarrow> (\<forall>l \<in> set ls. \<not> prefix l d \<and> \<not> prefix d l \<and> l \<noteq> ''.'')"

context control_lib
begin

lemma added_lines:
  assumes "\<not> ct_isdir E (control_path E ''rcpthosts'')" "ct_files st (control_path E ''rcpthosts'') = Some (unlines ls)" "plain_lines ls" "plain_line d"
    and "count_rcpthosts E (W 0) st = Inr n" "n < 50" "add_control E W d t st = Some (st', Inr 0)"
  shows "ct_files st' (control_path E ''rcpthosts'') = Some (unlines (updated d ls))"
proof -
  let ?rc = "control_path E ''rcpthosts''"
  let ?vd = "d @ '':'' @ (case t of Some t \<Rightarrow> if t \<noteq> [] then t else d | None \<Rightarrow> d)"
  obtain st1 r1 where u1: "update_file E (W 1) ?rc d st = (st1, r1)" by fastforce
  obtain st2 r2 where u2: "update_file E (W 2) (control_path E ''virtualdomains'') ?vd st1 = (st2, r2)" by fastforce
  note f1 = update_file_result(1)[OF assms(1-4) u1]
  have n: "n \<noteq> - 1" using assms(5,7) by (auto simp: add_control_def)
  have run: "r1 = 0" "r2 = 0" and rest: "(do { (st, r) \<leftarrow> remove_line E (W 3) d (control_path E ''locals'') False st2;
              if r = - 1 then Some (st, Inr (- 1))
              else if \<not> use_etrn E then Some (st, Inr 0)
              else (case update_file E (W 4) (control_path E ''etrnhosts'') d st of (st, r) \<Rightarrow>
                Some (st, Inr (if r \<noteq> 0 then - 1 else 0))) }) = Some (st', Inr 0 :: int + int)"
    using assms(5,6,7) n u1 u2 by (auto simp: add_control_def Let_def split: if_splits)
  obtain st3 r3 where u3: "remove_line_int E (W 3) d (control_path E ''locals'') False False st2 = Some (st3, r3)"
    using rest by (auto simp: remove_line_def split: Option.bind_splits)
  have "ct_files st3 ?rc = ct_files st1 ?rc"
    using update_file_frame[OF u2, of ?rc] remove_line_frame[OF u3, of ?rc] by simp
  moreover have "ct_files st' ?rc = ct_files st3 ?rc"
    using rest u3 update_file_frame[of E "W 4" "control_path E ''etrnhosts''" d st3 _ _ ?rc]
    by (auto simp: remove_line_def split: if_splits prod.splits)
  ultimately show ?thesis using f1 run by auto
qed

lemma prefix_lost: "l \<in> set ls \<Longrightarrow> prefix l d \<Longrightarrow> l \<noteq> d \<Longrightarrow> l \<noteq> ''.'' \<Longrightarrow> l \<notin> set (updated d ls)"
  by (auto simp: updated_def)

lemma del_files_frame:
  assumes "g \<notin> control_path E ` set ns" "g \<notin> (\<lambda>n. control_path E n @ ''.bak'') ` set ns"
  shows "del_files E W d i ns s st = Some (st', r) \<Longrightarrow> ct_files st' g = ct_files st g"
  using assms
proof (induction ns arbitrary: i s st)
  case (Cons n ns)
  let ?f = "control_path E n"
  show ?case
  proof (cases "ct_exists E st ?f")
    case True
    obtain st1 s1 where u1: "remove_line_int E (W i) d ?f True False st = Some (st1, s1)"
      using Cons.prems(1) True by (auto simp: remove_line_def Let_def split: Option.bind_splits)
    have f1: "ct_files st1 g = ct_files st g" using remove_line_frame[OF u1] Cons.prems(2,3) by auto
    obtain st2 s2 where u2: "(if str_diffn (ct_Q E) n ''rcpthosts'' 10 = 0 \<and> s1 < 1
         then more_rcpthosts E (W (i + 1)) d ?f s1 st1 else Some (st1, s1)) = Some (st2, s2)"
      and rest: "del_files E W d (i + 2) ns s2 st2 = Some (st', r)"
      using Cons.prems(1) True u1 by (auto simp: remove_line_def Let_def split: Option.bind_splits)
    have "ct_files st2 g = ct_files st1 g"
    proof (cases "str_diffn (ct_Q E) n ''rcpthosts'' 10 = 0 \<and> s1 < 1 \<and> ct_exists E st1 ?f")
      case True
      then obtain st3 i3 where "remove_line_int E (W (i + 1)) d ?f False False st1 = Some (st3, i3)"
        and "ct_files st2 g = ct_files st3 g"
        using u2 Cons.prems(2) by (auto simp: more_rcpthosts_def remove_line_def ct_put_def split: Option.bind_splits if_splits)
      then show ?thesis using remove_line_frame[of E "W (i + 1)" d ?f False False st1 st3 i3 g] Cons.prems(2,3) by auto
    next
      case False
      then show ?thesis using u2 by (auto simp: more_rcpthosts_def split: if_splits)
    qed
    then show ?thesis using Cons.IH[OF rest] Cons.prems(2,3) f1 by auto
  next
    case False
    then show ?thesis using Cons by (auto simp: Let_def)
  qed
qed simp

text \<open>Removing the first line that is a prefix of the domain.\<close>

lemma removed_first:
  assumes "\<forall>a \<in> set xs. \<not> prefix a d" "prefix x d"
  shows "removed True (line_hit False d) (xs @ x # ys) = xs @ ys" "matched True (line_hit False d) (xs @ x # ys) = 1"
proof -
  have "takeWhile (\<lambda>l. \<not> prefix l d) (xs @ x # ys) = xs" "dropWhile (\<lambda>l. \<not> prefix l d) (xs @ x # ys) = x # ys"
    using assms by (simp_all add: takeWhile_append dropWhile_append)
  then show "removed True (line_hit False d) (xs @ x # ys) = xs @ ys" by (simp add: removed_def line_hit_def)
  show "matched True (line_hit False d) (xs @ x # ys) = 1" using assms by (simp add: matched_def line_hit_def)
qed

lemma removed_none:
  assumes "\<forall>l \<in> set ls. \<not> P l"
  shows "removed once P ls = ls" "matched once P ls = 0"
proof -
  have *: "takeWhile (\<lambda>l. \<not> P l) ls = ls" "dropWhile (\<lambda>l. \<not> P l) ls = []" "filter P ls = []" "filter (\<lambda>l. \<not> P l) ls = ls"
    using assms by (simp_all add: takeWhile_eq_all_conv filter_empty_conv)
  show "removed once P ls = ls" "matched once P ls = 0" by (simp_all add: removed_def matched_def *)
qed

lemma first_removed:
  assumes "\<not> ct_isdir E (control_path E ''rcpthosts'')" "ct_files st (control_path E ''rcpthosts'') = Some (unlines (xs @ x # ys))"
    "plain_lines (xs @ x # ys)" "plain_line d" "\<forall>a \<in> set xs. \<not> prefix a d" "prefix x d" "all_fine (W 0)"
    and "del_control E W d st = Some (st', r)"
  shows "ct_files st' (control_path E ''rcpthosts'') = Some (unlines (xs @ ys))"
proof -
  let ?rc = "control_path E ''rcpthosts''"
  have e: "ct_exists E st ?rc" using assms(2) by (simp add: ct_exists_def)
  obtain st1 where u1: "remove_line_int E (W 0) d ?rc True False st = Some (st1, 1)" "ct_files st1 ?rc = Some (unlines (xs @ ys))"
    using remove_line_result[OF assms(1-4), of "W 0" True False] assms(7) removed_first[OF assms(5,6), of ys]
    by (metis (no_types, lifting))
  obtain st2 s2 where u2: "del_files E W d 2 [''etrnhosts'', ''chkrcptdomains'', ''virtualdomains''] 1 st1 = Some (st2, s2)"
    and rest: "(let f = control_path E ''virtualdomains'' in
      if \<not> ct_exists E st2 f then Some (st2, s2)
      else do { (st, r) \<leftarrow> remove_line_p E (W 8) (d @ (if use_etrn E then '':autoturn-'' else '':'' @ d)) f False st2;
        Some (st, if r = - 1 then - 1 else s2) }) = Some (st', r)"
    using assms(8) e u1(1)
    by (auto simp: del_control_def remove_line_def Let_def numeral_2_eq_2 split: Option.bind_splits simp del: del_files.simps(2)
      simp: del_files.simps(2)[of E W d 0 "''rcpthosts''"])
  have "ct_files st2 ?rc = ct_files st1 ?rc"
    by (rule del_files_frame[OF _ _ u2]) auto
  moreover have "ct_files st' ?rc = ct_files st2 ?rc"
    using rest remove_line_frame[of E "W 8" _ "control_path E ''virtualdomains''" False True st2 st' _ ?rc]
    by (auto simp: remove_line_p_def Let_def split: if_splits Option.bind_splits)
  ultimately show ?thesis using u1(2) by simp
qed

text \<open>Removing a domain that was added, when no other line is related to it.\<close>

lemma updated_unrelated: "unrelated u ls \<Longrightarrow> updated u ls = ls @ [u]"
proof -
  assume u: "unrelated u ls"
  then have "filter (\<lambda>l. l \<noteq> ''.'') ls = ls" by (simp add: unrelated_def)
  moreover have "map (\<lambda>l. if prefix l u then u else l) ls = ls" using u by (intro map_idI) (auto simp: unrelated_def)
  moreover have "\<not> (\<exists>l \<in> set ls. l \<noteq> ''.'' \<and> prefix l u)" "''.'' \<notin> set ls" using u by (auto simp: unrelated_def)
  ultimately show "updated u ls = ls @ [u]" by (simp only: updated_def if_False append_Nil2)
qed

lemma add_del_domain:
  fixes d
  defines "rc \<equiv> control_path E ''rcpthosts''" and "vf \<equiv> control_path E ''virtualdomains''" and "lf \<equiv> control_path E ''locals''"
  assumes "\<not> ct_isdir E rc" "\<not> ct_isdir E vf" "\<not> ct_isdir E lf" "\<not> use_etrn E"
    and "ct_files st rc = Some (unlines ls)" "ct_files st vf = Some (unlines vs)" "ct_files st lf = Some (unlines os)"
    and "plain_lines ls" "plain_lines vs" "plain_lines os" "plain_line d"
    and "unrelated d ls" "unrelated (d @ '':'' @ d) vs"
    and "\<not> ct_exists E st (control_path E ''etrnhosts'')" "\<not> ct_exists E st (control_path E ''chkrcptdomains'')"
    and "count_rcpthosts E (W 0) st = Inr n" "n < 50" "n \<noteq> - 1" "\<And>i. all_fine (W i)" "\<And>i. all_fine (W' i)"
  obtains st1 st2 where "add_control E W d None st = Some (st1, Inr 0)" "del_control E W' d st1 = Some (st2, 0)"
    "ct_files st1 rc = Some (unlines (ls @ [d]))" "ct_files st1 vf = Some (unlines (vs @ [d @ '':'' @ d]))"
    "ct_files st2 rc = Some (unlines ls)" "ct_files st2 vf = Some (unlines vs)"
proof -
  let ?v = "d @ '':'' @ d"
  have tv: "plain_line ?v" using assms(14) by simp
  obtain sa where a: "update_file E (W 1) rc d st = (sa, 0)" "ct_files sa rc = Some (unlines (ls @ [d]))"
    using update_file_result(1,3)[OF assms(4,8,11,14), of "W 1"] updated_unrelated[OF assms(15)] assms(22) by (metis prod.exhaust zero_neq_neg_one)
  have sa: "ct_files sa vf = Some (unlines vs)" "ct_files sa lf = Some (unlines os)"
    using update_file_frame[OF a(1), of vf] update_file_frame[OF a(1), of lf] assms(9,10) by (simp_all add: rc_def vf_def lf_def)
  obtain sb where b: "update_file E (W 2) vf ?v sa = (sb, 0)" "ct_files sb vf = Some (unlines (vs @ [?v]))"
    using update_file_result(1,3)[OF assms(5) sa(1) assms(12) tv, of "W 2"] updated_unrelated[OF assms(16)] assms(22) by (metis prod.exhaust zero_neq_neg_one)
  have sb: "ct_files sb rc = Some (unlines (ls @ [d]))" "ct_files sb lf = Some (unlines os)"
    using update_file_frame[OF b(1), of rc] update_file_frame[OF b(1), of lf] a(2) sa(2) by (simp_all add: rc_def vf_def lf_def)
  obtain sc r where c: "remove_line_int E (W 3) d lf False False sb = Some (sc, r)" "r \<noteq> - 1"
    using remove_line_result[OF assms(6) sb(2) assms(13,14), of "W 3" False False] assms(22) by metis
  have sc: "ct_files sc rc = Some (unlines (ls @ [d]))" "ct_files sc vf = Some (unlines (vs @ [?v]))"
    using remove_line_frame[OF c(1), of rc] remove_line_frame[OF c(1), of vf] sb(1) b(2) by (simp_all add: rc_def vf_def lf_def)
  have add: "add_control E W d None st = Some (sc, Inr 0)"
    using assms(7,19-21) a(1) b(1) c by (simp add: add_control_def Let_def remove_line_def rc_def vf_def lf_def)
  have none: "ct_files sc (control_path E f) = ct_files st (control_path E f)" if "f \<in> {''etrnhosts'', ''chkrcptdomains''}" for f
    using that update_file_frame[OF a(1), of "control_path E f"] update_file_frame[OF b(1), of "control_path E f"]
      remove_line_frame[OF c(1), of "control_path E f"] by (auto simp: rc_def vf_def lf_def)
  have "\<forall>a \<in> set ls. \<not> prefix a d" using assms(15) by (simp add: unrelated_def)
  then have h: "removed True (line_hit False d) (ls @ [d]) = ls" "matched True (line_hit False d) (ls @ [d]) = 1"
    using removed_first[of ls d d "[]"] by simp_all
  have "plain_lines (ls @ [d])" using assms(11,14) by simp
  from remove_line_result[OF assms(4) sc(1) this assms(14), of "W' 0" True False] h assms(23)
  obtain sd where d: "remove_line_int E (W' 0) d rc True False sc = Some (sd, 1)" "ct_files sd rc = Some (unlines ls)" by metis
  have sd: "ct_files sd vf = Some (unlines (vs @ [?v]))" "\<not> ct_exists E sd (control_path E ''etrnhosts'')" "\<not> ct_exists E sd (control_path E ''chkrcptdomains'')"
    using remove_line_frame[OF d(1), of vf] remove_line_frame[OF d(1), of "control_path E ''etrnhosts''"] remove_line_frame[OF d(1), of "control_path E ''chkrcptdomains''"]
      sc(2) none assms(17,18) by (simp_all add: rc_def vf_def ct_exists_def)
  have nv: "\<forall>l \<in> set (vs @ [?v]). \<not> line_hit False d l"
    using assms(16) by (auto simp: unrelated_def line_hit_def dest: prefix_order.trans)
  have tvs: "plain_lines (vs @ [?v])" using assms(12) tv by simp
  from remove_line_result[OF assms(5) sd(1) tvs assms(14), of "W' 6" True False] removed_none[OF nv, of True] assms(23)
  obtain se where e: "remove_line_int E (W' 6) d vf True False sd = Some (se, 0)" "ct_files se vf = Some (unlines (vs @ [?v]))" by metis
  have hv: "removed False (line_hit True ?v) (vs @ [?v]) = vs"
    using assms(16) by (simp add: removed_def line_hit_def unrelated_def)
  from remove_line_result[OF assms(5) e(2) tvs tv, of "W' 8" False True] hv assms(23)
  obtain sf r where f: "remove_line_int E (W' 8) ?v vf False True se = Some (sf, r)" "ct_files sf vf = Some (unlines vs)" "r \<noteq> - 1" by metis
  have "ct_files sf rc = ct_files sd rc"
    using remove_line_frame[OF e(1), of rc] remove_line_frame[OF f(1), of rc] by (simp add: rc_def vf_def)
  then have keep: "ct_files sf rc = Some (unlines ls)" using d(2) by simp
  have "str_diffn (ct_Q E) ''virtualdomains'' ''rcpthosts'' 10 \<noteq> 0"
    using diffn_zero[of "''virtualdomains''" "''rcpthosts''" 10] by simp
  moreover have "W' 6 = W' (Suc (Suc (Suc (Suc (Suc (Suc 0))))))" by (simp add: eval_nat_numeral)
  ultimately have "del_control E W' d sc = Some (sf, 0)"
    using d(1) e(1) f(1,3) sd assms(7) sc e(2) by (simp add: del_control_def remove_line_def remove_line_p_def Let_def ct_exists_def rc_def vf_def)
  then show ?thesis using that add sc keep f(2) by metis
qed

end

end
