(* ===== verification/Assign_Cache.thy ===== *)
theory Assign_Cache
  imports Account
begin

text \<open>
  \<^verbatim>\<open>get_assign.c\<close>: the directory and the ids of a domain, from the compiled file of assignments, with the answer to the last
  question kept in static variables. The database is a parameter, \<open>None\<close> when it cannot be opened; \<open>ga_mem\<close> says which of
  the four allocations succeed. A result \<open>None\<close> is a null pointer; the ids are -1 then, unless the name was empty.
\<close>

record ga_env =
  ga_Q :: qstr
  ga_QUERY_CACHE :: bool
  ga_cdb :: "(string \<Rightarrow> string option) option"
  ga_mem :: "nat \<Rightarrow> bool"

record ga_st =
  in_domain :: "string option"
  in_dir :: "string option"
  o_alloc :: nat
  in_domain_size :: nat
  in_dir_size :: nat
  in_uid :: u32
  in_gid :: u32
  cacheSwitch :: bool

type_synonym assignment = "string \<times> u32 \<times> u32"

definition ga_clear :: "ga_st \<Rightarrow> ga_st" where
  "ga_clear st = st\<lparr>in_domain := None, in_dir := None, o_alloc := 0, in_domain_size := 0, in_dir_size := 0, in_uid := - 1, in_gid := - 1\<rparr>"

text \<open>The text behind the first NUL byte, and the string at a place; outside the block both are undefined.\<close>

definition behind :: "string \<Rightarrow> string ub" where
  "behind b = (case dropWhile (\<lambda>c. c \<noteq> NUL) b of [] \<Rightarrow> None | c # r \<Rightarrow> if r = [] then None else Some r)"

definition string_at :: "string \<Rightarrow> string ub" where
  "string_at b = (if NUL \<in> set b then Some (takeWhile (\<lambda>c. c \<noteq> NUL) b) else None)"

definition ga_record :: "qstr \<Rightarrow> string \<Rightarrow> assignment ub" where
  "ga_record Q dat = do {
     p \<leftarrow> behind (dat @ [NUL]); u \<leftarrow> string_at p;
     p \<leftarrow> behind p; g \<leftarrow> string_at p;
     p \<leftarrow> behind p; d \<leftarrow> string_at p;
     Some (d, of_nat (scan_uint Q u), of_nat (scan_uint Q g)) }"

definition ga_hit :: "ga_env \<Rightarrow> ga_st \<Rightarrow> string \<Rightarrow> bool" where
  "ga_hit E st dmn \<longleftrightarrow> cacheSwitch st \<and> ga_QUERY_CACHE E \<and> in_domain_size st \<noteq> 0 \<and> in_domain st \<noteq> None \<and> in_dir st \<noteq> None
     \<and> str_diffn (ga_Q E) (the (in_domain st)) dmn (in_domain_size st + 1) = 0"

definition ga_search :: "ga_env \<Rightarrow> string \<Rightarrow> ga_st \<Rightarrow> (ga_st \<times> assignment option) ub" where
  "ga_search E dmn st = (let i = length dmn + 1 in
     if i > o_alloc st \<and> \<not> ga_mem E 0 then Some (ga_clear st, None)
     else (let st = st\<lparr>o_alloc := max i (o_alloc st), in_domain_size := i - 1, in_domain := Some dmn\<rparr> in
       if \<not> ga_mem E 1 then Some (ga_clear st, None)
       else (case ga_cdb E of None \<Rightarrow> Some (ga_clear st, None)
         | Some db \<Rightarrow> (case db (''!'' @ dmn @ ''-'') of None \<Rightarrow> Some (st, None)
           | Some dat \<Rightarrow>
               if \<not> ga_mem E 2 then Some (ga_clear st, None)
               else do { (d, u, g) \<leftarrow> ga_record (ga_Q E) dat;
                 (if length d + 1 > in_dir_size st \<and> \<not> ga_mem E 3 then Some (ga_clear st, None)
                  else Some (st\<lparr>in_uid := u, in_gid := g, in_dir_size := max (length d + 1) (in_dir_size st), in_dir := Some d\<rparr>, Some (d, u, g))) }))))"

definition get_assign :: "ga_env \<Rightarrow> string \<Rightarrow> ga_st \<Rightarrow> (ga_st \<times> assignment option) ub" where
  "get_assign E dmn st = (if dmn = [] then Some (st, None)
     else if ga_hit E st dmn then Some (st, Some (the (in_dir st), in_uid st, in_gid st))
     else ga_search E dmn (if cacheSwitch st then st else (ga_clear st)\<lparr>cacheSwitch := True\<rparr>))"

definition get_assign_cache :: "bool \<Rightarrow> ga_st \<Rightarrow> ga_st" where
  "get_assign_cache cache_switch st = st\<lparr>cacheSwitch := cache_switch\<rparr>"

definition ga_start :: ga_st where
  "ga_start = \<lparr>in_domain = None, in_dir = None, o_alloc = 0, in_domain_size = 0, in_dir_size = 0, in_uid = - 1, in_gid = - 1, cacheSwitch = True\<rparr>"

subsection \<open>What the cache keeps\<close>

text \<open>The answers to a sequence of questions, and the answer of the database.\<close>

fun ask_all :: "ga_env \<Rightarrow> string list \<Rightarrow> ga_st \<Rightarrow> (ga_st \<times> assignment option list) ub" where
  "ask_all E [] st = Some (st, [])"
| "ask_all E (d # ds) st = do { (st, r) \<leftarrow> get_assign E d st; (st, rs) \<leftarrow> ask_all E ds st; Some (st, r # rs) }"

definition assigned :: "ga_env \<Rightarrow> string \<Rightarrow> assignment option" where
  "assigned E d = (case ga_cdb E of None \<Rightarrow> None | Some db \<Rightarrow> (case db (''!'' @ d @ ''-'') of None \<Rightarrow> None | Some dat \<Rightarrow> ga_record (ga_Q E) dat))"

definition cache_right :: "ga_env \<Rightarrow> ga_st \<Rightarrow> bool" where
  "cache_right E st \<longleftrightarrow> cacheSwitch st \<and> (\<forall>d x. in_domain st = Some d \<longrightarrow> in_dir st = Some x \<longrightarrow>
     NUL \<notin> set d \<and> in_domain_size st = length d \<and> assigned E d = Some (x, in_uid st, in_gid st))"

lemma hit_same:
  assumes "qstrings (ga_Q E)" "cache_right E st" "NUL \<notin> set d" "ga_hit E st d"
  shows "in_domain st = Some d"
proof -
  obtain e x where e: "in_domain st = Some e" "in_dir st = Some x" using assms(4) by (auto simp: ga_hit_def)
  then have c: "NUL \<notin> set e" "in_domain_size st = length e" using assms(2) by (simp_all add: cache_right_def)
  have t: "take (length e + 1) (d @ [NUL]) = e @ [NUL]"
    using assms(4) c e qstrings.diffn_zero[OF assms(1) c(1) assms(3), of "length e + 1"] by (auto simp: ga_hit_def)
  have "e = d"
  proof -
    have "e @ [NUL] = d @ [NUL]" if "length d \<le> length e" using t that by simp
    moreover have False if "length e < length d"
    proof -
      have "take (length e + 1) d = e @ [NUL]" using t that by simp
      then have "NUL \<in> set (take (length e + 1) d)" by simp
      then show False using assms(3) by (meson in_set_takeD)
    qed
    ultimately show ?thesis by (meson append1_eq_conv not_le)
  qed
  then show ?thesis using e(1) by simp
qed

lemma ask_step:
  assumes "qstrings (ga_Q E)" "\<And>i. ga_mem E i" "cache_right E st" "NUL \<notin> set d" "d \<noteq> []" "assigned E d = Some a"
  obtains st' where "get_assign E d st = Some (st', Some a)" "cache_right E st'" "in_dir st' = Some (fst a)" "(in_uid st', in_gid st') = snd a"
proof (cases "ga_hit E st d")
  case True
  then obtain x where e: "in_domain st = Some d" "in_dir st = Some x" using hit_same[OF assms(1,3,4) True] by (auto simp: ga_hit_def)
  then have "assigned E d = Some (x, in_uid st, in_gid st)" using assms(3) by (simp add: cache_right_def)
  then have a: "a = (x, in_uid st, in_gid st)" using assms(6) by simp
  show ?thesis
    by (rule that[of st]) (use True e a assms(3,5) in \<open>simp_all add: get_assign_def\<close>)
next
  case False
  obtain db dat where db: "ga_cdb E = Some db" "db (''!'' @ d @ ''-'') = Some dat" "ga_record (ga_Q E) dat = Some a"
    using assms(6) by (auto simp: assigned_def split: option.splits)
  obtain x u g where a: "a = (x, u, g)" by (cases a) auto
  have "cacheSwitch st" using assms(3) by (simp add: cache_right_def)
  then show ?thesis
    by (intro that[of "st\<lparr>o_alloc := max (length d + 1) (o_alloc st), in_domain_size := length d, in_domain := Some d, in_uid := u, in_gid := g,
        in_dir_size := max (length x + 1) (in_dir_size st), in_dir := Some x\<rparr>"])
      (use False assms(2,4,5,6) db a in \<open>simp_all add: get_assign_def ga_search_def Let_def cache_right_def\<close>)
qed

lemma ask_all_right:
  assumes "qstrings (ga_Q E)" "\<And>i. ga_mem E i" "\<forall>d \<in> set ds. NUL \<notin> set d \<and> d \<noteq> [] \<and> assigned E d \<noteq> None" "cache_right E st"
  shows "\<exists>st'. ask_all E ds st = Some (st', map (assigned E) ds) \<and> cache_right E st'"
  using assms(3,4)
proof (induction ds arbitrary: st)
  case (Cons d ds)
  then obtain a where a: "assigned E d = Some a" by auto
  obtain st1 where st1: "get_assign E d st = Some (st1, Some a)" "cache_right E st1"
    using ask_step[OF assms(1,2) Cons.prems(2) _ _ a] Cons.prems(1) by auto
  then obtain st2 where "ask_all E ds st1 = Some (st2, map (assigned E) ds)" "cache_right E st2"
    using Cons.IH[OF _ st1(2)] Cons.prems(1) by auto
  then show ?case using st1(1) a by simp
qed simp

lemma stale_answer:
  assumes "qstrings (ga_Q E)" "\<And>i. ga_mem E i" "ga_QUERY_CACHE E" "cache_right E st"
    and "NUL \<notin> set d" "d \<noteq> []" "assigned E d = Some a" "NUL \<notin> set e" "e \<noteq> []" "assigned E e = None"
    and "ga_cdb E = Some db" "db (''!'' @ e @ ''-'') = None"
  shows "\<exists>st'. ask_all E [d, e, e] st = Some (st', [Some a, None, Some a])"
proof -
  obtain st1 where st1: "get_assign E d st = Some (st1, Some a)" "cache_right E st1" "in_dir st1 = Some (fst a)"
    "(in_uid st1, in_gid st1) = snd a"
    using ask_step[OF assms(1,2,4,5,6,7)] by metis
  note dir = conjI[OF st1(3,4)]
  have none: "\<not> ga_hit E st1 e"
  proof
    assume "ga_hit E st1 e"
    then have "in_domain st1 = Some e" by (rule hit_same[OF assms(1) st1(2) assms(8)])
    then show False using st1(2) dir assms(10) by (simp add: cache_right_def)
  qed
  define st2 where "st2 = st1\<lparr>o_alloc := max (length e + 1) (o_alloc st1), in_domain_size := length e, in_domain := Some e\<rparr>"
  have sw: "cacheSwitch st1" using st1(2) by (simp add: cache_right_def)
  have s2: "get_assign E e st1 = Some (st2, None)"
    using none sw assms(2,9,11,12) by (simp add: get_assign_def ga_search_def st2_def)
  have "ga_hit E st2 e"
    using dir sw assms(3,9) qstrings.diffn_zero[OF assms(1,8,8), of "length e + 1"] by (simp add: ga_hit_def st2_def)
  then have "get_assign E e st2 = Some (st2, Some a)"
    using dir assms(9) by (cases a) (simp add: get_assign_def st2_def)
  then show ?thesis using st1(1) s2 by simp
qed

lemma ask_all_append: "ask_all E (ds @ es) st = do { (st, rs) \<leftarrow> ask_all E ds st; (st, ss) \<leftarrow> ask_all E es st; Some (st, rs @ ss) }"
proof (induction ds arbitrary: st)
  case Nil
  show ?case by (cases "ask_all E es st") auto
next
  case (Cons d ds)
  show ?case
  proof (cases "get_assign E d st")
    case (Some p)
    obtain st' r where p: "p = (st', r)" by fastforce
    show ?thesis using Some Cons.IH[of st'] by (auto simp: p split: Option.bind_splits)
  qed simp
qed

lemma stale_history:
  assumes "qstrings (ga_Q E)" "\<And>i. ga_mem E i" "ga_QUERY_CACHE E" "ga_cdb E = Some db"
    and "\<forall>d \<in> set ds. NUL \<notin> set d \<and> d \<noteq> [] \<and> assigned E d \<noteq> None"
    and "NUL \<notin> set e" "e \<noteq> []" "db (''!'' @ e @ ''-'') = None" "ds \<noteq> []"
  shows "\<exists>st. ask_all E (ds @ [e, e]) ga_start = Some (st, map (assigned E) ds @ [None, assigned E (last ds)])"
proof -
  obtain ds' d where ds: "ds = ds' @ [d]" using assms(9) by (metis append_butlast_last_id)
  obtain a where a: "assigned E d = Some a" "NUL \<notin> set d" "d \<noteq> []" using assms(5) ds by auto
  have e: "assigned E e = None" using assms(4,8) by (simp add: assigned_def)
  have "cache_right E ga_start" by (simp add: cache_right_def ga_start_def)
  then obtain st1 where st1: "ask_all E ds' ga_start = Some (st1, map (assigned E) ds')" "cache_right E st1"
    using ask_all_right[OF assms(1,2), of ds' ga_start] assms(5) ds by auto
  obtain st2 where "ask_all E [d, e, e] st1 = Some (st2, [Some a, None, Some a])"
    using stale_answer[OF assms(1-3) st1(2) a(2,3,1) assms(6,7) e assms(4,8)] by blast
  then show ?thesis using st1(1) ask_all_append[of E ds' "[d, e, e]" ga_start] a(1) by (simp add: ds del: ask_all.simps(2))
qed

end
