(* ===== verification/Control_Samples.thy ===== *)
theory Control_Samples
  imports Control_Domains Assign_Cache Account_Samples
begin

text \<open>Small control files.\<close>

definition ct_sample :: ct_env where
  "ct_sample = \<lparr>ct_Q = qstr_ref, ct_getlns = (\<lambda>d. map line_event (file_lines d)), ct_fmt = Process.digits 10, ct_get = (\<lambda>n. None), ct_pid = 7,
     ct_isdir = (\<lambda>f. f = ''/a''), ct_ASSIGNDIR = ''/a'', ct_DOMAINDIR = ''/h'', ct_CONTROLDIR = ''/c'', ct_SYSCONFDIR = ''/e'', use_etrn = False,
     OptimizeAddDomain = True, indimailuid = 5, indimailgid = 6, ct_assigned = (\<lambda>d. False), ct_compile = True\<rparr>"

lemma ct_sample_sel: "ct_Q ct_sample = qstr_ref" "ct_getlns ct_sample d = map line_event (file_lines d)" "ct_fmt ct_sample n = Process.digits 10 n"
  "ct_isdir ct_sample f \<longleftrightarrow> f = ''/a''" "ct_cfg ct_sample m v = v" "ct_ASSIGNDIR ct_sample = ''/a''" "ct_DOMAINDIR ct_sample = ''/h''"
  "ct_CONTROLDIR ct_sample = ''/c''" "\<not> use_etrn ct_sample" "OptimizeAddDomain ct_sample" "control_path ct_sample f = ''/c/'' @ f"
  "assign_file ct_sample = ''/a/assign''"
  by (simp_all add: ct_sample_def ct_cfg_def control_path_def assign_file_def)

lemma digits_all: "all_digits (Process.digits 10 n)"
  using digits_set[of 10 n] by (simp add: all_digits_def)

interpretation ref_control: control_lib ct_sample
  by (intro control_lib.intro control_lib_axioms.intro) (simp_all add: ct_sample_sel ref_str.qstrings_axioms digits_all)

definition fine :: ct_os where
  "fine = \<lparr>k_lock = True, k_create = True, k_stat = True, k_perm = True, k_read = True, k_write = True, k_rename = True, k_wrote = 2, k_close = True\<rparr>"

lemma fine_sel: "k_lock fine" "k_create fine" "k_stat fine" "k_perm fine" "k_read fine" "k_write fine" "k_rename fine" "k_wrote fine = 2" "k_close fine"
  by (simp_all add: fine_def)

lemma all_fine_fine: "all_fine fine"
  by (simp add: fine_sel all_fine_def)

definition ct_start :: "string list \<Rightarrow> ct_st" where
  "ct_start ls = \<lparr>ct_files = [''/c/rcpthosts'' \<mapsto> unlines ls, ''/c/virtualdomains'' \<mapsto> [], ''/c/locals'' \<mapsto> unlines [''localhost'']], ct_log = []\<rparr>"

lemma ct_start_sel: "ct_files (ct_start ls) ''/c/rcpthosts'' = Some (unlines ls)" "ct_files (ct_start ls) ''/c/virtualdomains'' = Some []"
  "ct_files (ct_start ls) ''/c/locals'' = Some (unlines [''localhost''])"
  by (simp_all add: ct_start_def)

lemma ct_sample_count: "count_rcpthosts ct_sample fine (ct_start [''x.co'', ''y.org'']) = Inr 2"
  by (simp add: count_rcpthosts_def Let_def ct_exists_def ct_lines_def ct_sample_sel ct_start_sel fine_sel file_lines_snoc line_event_def line_text_def
    qstr_ref_def isspace_def)

lemma ct_sample_count1: "count_rcpthosts ct_sample fine (ct_start [''y.org'']) = Inr 1"
  by (simp add: count_rcpthosts_def Let_def ct_exists_def ct_lines_def ct_sample_sel ct_start_sel fine_sel line_event_def line_text_def
    qstr_ref_def isspace_def)

lemma sample_add: "\<exists>st'. add_control ct_sample (\<lambda>i. fine) ''x.com'' None (ct_start [''x.co'', ''y.org'']) = Some (st', Inr 0)"
  unfolding add_control_def ct_sample_count
  by (simp add: Let_def update_file_def remove_line_def remove_line_int_def fine_sel ct_exists_def ct_lines_def ct_sample_sel
    ct_start_def line_event_def qstr_ref_def line_matches_def ct_put_def)

lemma sample_del: "\<exists>st' r. del_control ct_sample (\<lambda>i. fine) ''x.com'' (ct_start [''x.co'', ''x.com'']) = Some (st', r)"
  by (simp add: del_control_def Let_def remove_line_def remove_line_p_def remove_line_int_def fine_sel ct_exists_def ct_lines_def ct_sample_sel
    ct_start_def line_event_def qstr_ref_def line_matches_def ct_put_def)

subsection \<open>A database of assignments\<close>

definition ga_db :: "string \<Rightarrow> string option" where
  "ga_db = [''!x.com-'' \<mapsto> ''x.com'' @ [NUL] @ ''5'' @ [NUL] @ ''6'' @ [NUL] @ ''/h/x'' @ [NUL] @ ''-'' @ [NUL]]"

definition ga_sample :: ga_env where
  "ga_sample = \<lparr>ga_Q = qstr_ref, ga_QUERY_CACHE = True, ga_cdb = Some ga_db, ga_mem = (\<lambda>i. True)\<rparr>"

lemma ga_assigned: "assigned ga_sample ''x.com'' = Some (''/h/x'', 5, 6)"
  by (simp add: assigned_def ga_sample_def ga_db_def ga_record_def behind_def string_at_def qstr_ref_def leading_digits_def numval_def digit_val_def)

end
