(* ===== verification/Inlookup.thy ===== *)
theory Inlookup
  imports Pwstruct
begin

text \<open>
  The lookup service: the client \<^verbatim>\<open>inquery.c\<close> and the loop of the server \<^verbatim>\<open>ProcessInFifo.c\<close>, with the messages between them and
  the tree in which the server keeps answers. They are compiled with clusters, aliases and limits of domains; integers in messages
  have the byte order of the machine, which is little endian here.

  The lookups themselves are parameters. They change the global state, of which \<open>userNotFound\<close> and \<open>is_inactive\<close> matter; \<open>tsearch\<close> and \<open>tfind\<close> are
  operations on a map from keys to entries. Logging, the other signals, time-outs and the connection to the central database are left out.
\<close>

definition USER_QUERY :: nat where "USER_QUERY = 1"
definition RELAY_QUERY :: nat where "RELAY_QUERY = 2"
definition PWD_QUERY :: nat where "PWD_QUERY = 3"
definition HOST_QUERY :: nat where "HOST_QUERY = 4"
definition ALIAS_QUERY :: nat where "ALIAS_QUERY = 5"
definition LIMIT_QUERY :: nat where "LIMIT_QUERY = 6"
definition DOMAIN_QUERY :: nat where "DOMAIN_QUERY = 7"

lemmas query_defs = USER_QUERY_def RELAY_QUERY_def PWD_QUERY_def HOST_QUERY_def ALIAS_QUERY_def LIMIT_QUERY_def DOMAIN_QUERY_def

subsection \<open>Integers in messages\<close>

definition int_bytes :: "int \<Rightarrow> string" where
  "int_bytes n = map (\<lambda>k. char_of (nat (n mod 2 ^ 32) div 256 ^ k)) [0..<4]"

definition bytes_int :: "string \<Rightarrow> int" where
  "bytes_int s = (let u = int (\<Sum>k < 4. of_char (s ! k) * 256 ^ k) in if u < 2 ^ 31 then u else u - 2 ^ 32)"

subsection \<open>The client\<close>

record iq_env =
  iq_Q :: qstr
  iq_get :: "string \<Rightarrow> string option"
  iq_fmt :: "nat \<Rightarrow> string"
  iq_exists :: "string \<Rightarrow> bool"
  iq_pid :: nat
  iq_time :: nat
  iq_INFIFO :: string
  iq_INFIFODIR :: string
  iq_INDIMAILDIR :: string

definition iq_cfg :: "iq_env \<Rightarrow> string \<Rightarrow> string \<Rightarrow> string" where
  "iq_cfg C n d = (case iq_get C n of None \<Rightarrow> d | Some v \<Rightarrow> v)"

definition over_tcp :: "iq_env \<Rightarrow> bool" where
  "over_tcp C \<longleftrightarrow> iq_get C ''TCPCLIENT'' \<noteq> None \<and> iq_get C ''TCPREMOTEIP'' \<noteq> None"

definition query_ok :: "nat \<Rightarrow> string option \<Rightarrow> bool" where
  "query_ok ty ip \<longleftrightarrow> (if ty = RELAY_QUERY then ip \<noteq> None \<and> ip \<noteq> Some [] else ty \<in> {1..7})"

text \<open>The name of the private fifo. The last character of an empty directory name is read in front of the block.\<close>

definition myfifo :: "iq_env \<Rightarrow> string ub" where
  "myfifo C = (if over_tcp C then Some ''socket''
     else (let d = iq_cfg C ''FIFOTMPDIR'' ''/tmp/'' in
       if d = [] then None
       else Some (d @ (if last d = CHR ''/'' then [] else ''/'') @ iq_fmt C (iq_pid C) @ iq_fmt C (iq_time C))))"

text \<open>The fifo of the server: the first number that is not in use ends the search, and the time selects one of the numbers
  below it. With no fifo at all the remainder is by zero. Fuel bounds the search.\<close>

fun first_free :: "nat \<Rightarrow> iq_env \<Rightarrow> string \<Rightarrow> nat \<Rightarrow> nat option" where
  "first_free 0 C p k = None"
| "first_free (Suc n) C p k = (if iq_exists C (p @ ''.'' @ iq_fmt C k) then first_free n C p (k + 1) else Some k)"

definition infifo :: "nat \<Rightarrow> iq_env \<Rightarrow> string ub" where
  "infifo n C = (let f = (case iq_get C ''INFIFO'' of None \<Rightarrow> iq_INFIFO C | Some v \<Rightarrow> v) in
     if take 1 f = ''/'' \<or> take 1 f = ''.'' then Some f
     else (let d = iq_cfg C ''INFIFODIR'' (iq_INFIFODIR C); p = (if take 1 d = ''/'' then d else iq_INDIMAILDIR C @ d) @ ''/'' @ f in
       case first_free n C p 1 of None \<Rightarrow> None
       | Some k \<Rightarrow> if k = 1 then None else Some (p @ ''.'' @ iq_fmt C (1 + iq_time C mod (k - 1)))))"

definition query_body :: "nat \<Rightarrow> string \<Rightarrow> string \<Rightarrow> string option \<Rightarrow> string" where
  "query_body ty email fifo ip = [char_of ty, NUL] @ email @ [NUL] @ fifo @ [NUL] @ (case ip of None \<Rightarrow> [] | Some i \<Rightarrow> i) @ [NUL]"

definition query_msg :: "nat \<Rightarrow> string \<Rightarrow> string \<Rightarrow> string option \<Rightarrow> string" where
  "query_msg ty email fifo ip = int_bytes (int (length (query_body ty email fifo ip))) @ query_body ty email fifo ip"

datatype answer = ANull | AStatus int | AEntry bool | AText string

text \<open>What the client makes of the bytes the server sent. Less than a whole integer leaves the old value in place, and a size below
  -1 is a negative size of a block: both are undefined.\<close>

definition client_answer :: "qstr \<Rightarrow> int \<Rightarrow> nat \<Rightarrow> string \<Rightarrow> pw_st \<Rightarrow> (pw_st \<times> answer) ub" where
  "client_answer Q pipe ty s st =
     (if s = [] then Some (st, ANull)
      else if length s < 4 then None
      else (let n = bytes_int s; p = take (nat n) (drop 4 s) in
        if n = - 1 \<or> n > pipe then Some (st, ANull)
        else if ty = USER_QUERY \<or> ty = RELAY_QUERY then Some (st, AStatus n)
        else if n < 0 then None
        else if ty = PWD_QUERY \<or> ty = LIMIT_QUERY then
          (if n = 0 \<or> p = [] then Some (st, ANull)
           else if ty = LIMIT_QUERY then Some (st, AText p)
           else if NUL \<notin> set p then None
           else do { (st, ok) \<leftarrow> strToPw Q (takeWhile (\<lambda>c. c \<noteq> NUL) p) (nat n) st; Some (st, AEntry ok) })
        else if n = 0 then Some (st\<lparr>userNotFound := 1\<rparr>, ANull)
        else if p = [] then Some (st, ANull)
        else if NUL \<notin> set p then None
        else Some (st, AText (takeWhile (\<lambda>c. c \<noteq> NUL) p))))"

subsection \<open>The server\<close>

record in_entry =
  e_pw :: passwd
  pwStat :: bool
  aliases :: "string option"
  mdahost :: "string option"
  e_domain :: string
  in_userStatus :: int

record in_env =
  l_Q :: qstr
  UserInLookup :: "string \<Rightarrow> pw_st \<Rightarrow> int \<times> pw_st"
  RelayInLookup :: "string \<Rightarrow> string \<Rightarrow> pw_st \<Rightarrow> int \<times> pw_st"
  findmdahost :: "string \<Rightarrow> pw_st \<Rightarrow> string option \<times> pw_st"
  AliasInLookup :: "string \<Rightarrow> pw_st \<Rightarrow> string option \<times> pw_st"
  PwdInLookup :: "string \<Rightarrow> pw_st \<Rightarrow> passwd option \<times> pw_st"
  VlimitInLookup :: "string \<Rightarrow> pw_st \<Rightarrow> (int \<times> string) \<times> pw_st"
  vget_limits :: "string \<Rightarrow> pw_st \<Rightarrow> (int \<times> string) \<times> pw_st"
  l_real_domain :: "string \<Rightarrow> pw_st \<Rightarrow> string option \<times> pw_st"
  l_rchr :: "string \<Rightarrow> char \<Rightarrow> nat"
  l_fmt_uint :: "nat \<Rightarrow> string"
  l_fmt_int :: "int \<Rightarrow> string"
  l_default_domain :: string
  use_btree :: bool
  max_btree_count :: int
  l_pipe_size :: int
  l_tcp :: bool
  l_mem :: bool

record in_sv =
  in_root :: "string \<Rightarrow> in_entry option"
  btree_count :: int
  find_only :: bool
  gl :: pw_st
  query_count :: "nat \<Rightarrow> int"
  QueryBuf :: string

definition mk_in_entry :: "passwd \<Rightarrow> in_entry" where
  "mk_in_entry pw = \<lparr>e_pw = pw, pwStat = False, aliases = None, mdahost = None, e_domain = [], in_userStatus = - 1\<rparr>"

text \<open>The search for an entry: there is no cache, it is there, or it was added.\<close>

datatype tree_hit = NoEntry | OldEntry in_entry | NewEntry in_entry

definition cache_search :: "in_env \<Rightarrow> string \<Rightarrow> in_sv \<Rightarrow> tree_hit" where
  "cache_search E key sv = (if \<not> use_btree E \<or> l_tcp E \<or> \<not> l_mem E then NoEntry
     else (case in_root sv key of Some e \<Rightarrow> OldEntry e
       | None \<Rightarrow> if find_only sv then NoEntry else NewEntry (mk_in_entry (p_ent (gl sv)))))"

definition tree_put :: "string \<Rightarrow> in_entry \<Rightarrow> in_sv \<Rightarrow> in_sv" where
  "tree_put key e sv = sv\<lparr>in_root := (in_root sv)(key := Some e)\<rparr>"

definition add_entry :: "in_env \<Rightarrow> string \<Rightarrow> in_entry \<Rightarrow> in_sv \<Rightarrow> in_sv" where
  "add_entry E key e sv = (let n = btree_count sv + 1 in
     tree_put key e (sv\<lparr>btree_count := n, find_only := find_only sv \<or> (max_btree_count E > 0 \<and> n \<ge> max_btree_count E)\<rparr>))"

text \<open>A lookup in the global state.\<close>

definition in_look :: "(pw_st \<Rightarrow> 'a \<times> pw_st) \<Rightarrow> in_sv \<Rightarrow> in_sv \<times> 'a" where
  "in_look f sv = (case f (gl sv) of (x, g) \<Rightarrow> (sv\<lparr>gl := g\<rparr>, x))"

definition user_query :: "in_env \<Rightarrow> string \<Rightarrow> in_sv \<Rightarrow> in_sv \<times> int" where
  "user_query E email sv = (case cache_search E email sv of
     NoEntry \<Rightarrow> in_look (UserInLookup E email) sv
   | OldEntry e \<Rightarrow> if in_userStatus e \<ge> 0 then (sv, in_userStatus e)
       else (case in_look (UserInLookup E email) sv of (sv, s) \<Rightarrow> (tree_put email (e\<lparr>in_userStatus := s\<rparr>) sv, s))
   | NewEntry e \<Rightarrow> (case in_look (UserInLookup E email) sv of (sv, s) \<Rightarrow> (add_entry E email (e\<lparr>in_userStatus := s\<rparr>) sv, s)))"

definition host_query :: "in_env \<Rightarrow> string \<Rightarrow> in_sv \<Rightarrow> in_sv \<times> string option" where
  "host_query E email sv = (case cache_search E email sv of
     NoEntry \<Rightarrow> in_look (findmdahost E email) sv
   | OldEntry e \<Rightarrow> if mdahost e \<noteq> None then (sv, mdahost e)
       else (case in_look (findmdahost E email) sv of (sv, p) \<Rightarrow> (tree_put email (e\<lparr>mdahost := p\<rparr>) sv, p))
   | NewEntry e \<Rightarrow> (case in_look (findmdahost E email) sv of (sv, p) \<Rightarrow> (add_entry E email (e\<lparr>mdahost := p\<rparr>) sv, p)))"

definition alias_query :: "in_env \<Rightarrow> string \<Rightarrow> in_sv \<Rightarrow> in_sv \<times> string option" where
  "alias_query E email sv = (case cache_search E email sv of
     NoEntry \<Rightarrow> in_look (AliasInLookup E email) sv
   | OldEntry e \<Rightarrow> if aliases e \<noteq> None then (sv, aliases e)
       else (case in_look (AliasInLookup E email) sv of (sv, p) \<Rightarrow> (tree_put email (e\<lparr>aliases := p\<rparr>) sv, p))
   | NewEntry e \<Rightarrow> (case in_look (AliasInLookup E email) sv of (sv, p) \<Rightarrow> (add_entry E email (e\<lparr>aliases := p\<rparr>) sv, p)))"

definition query_domain :: "in_env \<Rightarrow> string \<Rightarrow> string" where
  "query_domain E email = (let i = l_rchr E email CHR ''@'' in if i < length email then drop (i + 1) email else l_default_domain E)"

definition with_pw :: "string \<Rightarrow> passwd option \<Rightarrow> in_entry \<Rightarrow> in_entry" where
  "with_pw d pw e = (case pw of None \<Rightarrow> e | Some p \<Rightarrow> e\<lparr>e_pw := p, e_domain := d, pwStat := True\<rparr>)"

text \<open>The password entry, and the domain it is printed with.\<close>

definition pwd_query :: "in_env \<Rightarrow> string \<Rightarrow> in_sv \<Rightarrow> in_sv \<times> passwd option \<times> string" where
  "pwd_query E email sv = (let d = query_domain E email in case cache_search E email sv of
     NoEntry \<Rightarrow> (case in_look (PwdInLookup E email) sv of (sv, p) \<Rightarrow> (sv, p, d))
   | OldEntry e \<Rightarrow> if pwStat e then (sv, Some (e_pw e), e_domain e)
       else (case in_look (PwdInLookup E email) sv of (sv, p) \<Rightarrow> (tree_put email (with_pw d p e) sv, p, d))
   | NewEntry e \<Rightarrow> (case in_look (PwdInLookup E email) sv of (sv, p) \<Rightarrow> (add_entry E email (with_pw d p e) sv, p, d)))"

definition limit_query :: "in_env \<Rightarrow> string \<Rightarrow> in_sv \<Rightarrow> in_sv \<times> int \<times> string" where
  "limit_query E email sv = (if l_rchr E email CHR ''@'' \<ge> length email
     then (case in_look (vget_limits E email) sv of (sv, s, lim) \<Rightarrow> (sv, if s = 0 then 1 else if s > 0 then 0 else s, lim))
     else in_look (VlimitInLookup E email) sv)"

text \<open>The integer that is sent, and the bytes behind it.\<close>

definition text_reply :: "in_env \<Rightarrow> string \<Rightarrow> int \<times> string" where
  "text_reply E p = (let n = int (length p) + 1 in if n > l_pipe_size E then (- 1, []) else (n, p @ [NUL]))"

definition pwd_reply :: "in_env \<Rightarrow> string \<Rightarrow> in_sv \<Rightarrow> passwd option \<Rightarrow> string \<Rightarrow> int \<times> string" where
  "pwd_reply E email sv pw d = (case pw of
     Some p \<Rightarrow> text_reply E (pw_text (l_fmt_uint E) (l_fmt_int E) p d (is_inactive (gl sv)))
   | None \<Rightarrow> if userNotFound (gl sv) \<noteq> 0 then (let t = ''PWSTRUCT=No such user '' @ email @ [NUL] in (int (length t), t)) else (0, []))"

definition process_query :: "in_env \<Rightarrow> nat \<Rightarrow> string \<Rightarrow> string \<Rightarrow> in_sv \<Rightarrow> in_sv \<times> int \<times> string" where
  "process_query E ty email ip sv =
     (if ty = USER_QUERY then (case user_query E email sv of (sv, s) \<Rightarrow> (sv, s, []))
      else if ty = RELAY_QUERY then (case in_look (RelayInLookup E email ip) sv of (sv, s) \<Rightarrow> (sv, s, []))
      else if ty = HOST_QUERY then (case host_query E email sv of
          (sv, Some p) \<Rightarrow> (sv, text_reply E p) | (sv, None) \<Rightarrow> (sv, if userNotFound (gl sv) \<noteq> 0 then 0 else - 1, []))
      else if ty = ALIAS_QUERY then (case alias_query E email sv of
          (sv, p) \<Rightarrow> (sv, case p of None \<Rightarrow> (1, [NUL]) | Some p \<Rightarrow> if p = [] then (1, [NUL]) else text_reply E p))
      else if ty = PWD_QUERY then (case pwd_query E email sv of (sv, p, d) \<Rightarrow> (sv, pwd_reply E email sv p d))
      else if ty = LIMIT_QUERY then (case limit_query E email sv of (sv, s, lim) \<Rightarrow>
          (sv, if s = - 1 then (- 1, []) else if s \<noteq> 0 then (0, [])
               else if int (length lim) > l_pipe_size E then (- 1, []) else (int (length lim), lim)))
      else (case in_look (l_real_domain E email) sv of (sv, r) \<Rightarrow> (sv, text_reply E (case r of None \<Rightarrow> email | Some x \<Rightarrow> x))))"

text \<open>What arrives at the client: nothing when the integer cannot be written, the integer alone when the rest cannot.\<close>

definition sent_bytes :: "nat \<Rightarrow> int \<Rightarrow> string \<Rightarrow> string" where
  "sent_bytes w n p = (if w = 0 then [] else int_bytes n @ (if w = 1 then [] else p))"

subsection \<open>The loop\<close>

text \<open>The parts of a message in the buffer: the type, the mail address, the fifo and the address of the client. The buffer keeps the
  bytes of earlier messages; a text without an end in it is undefined. Only a relay query reads the last part.\<close>

definition buf_text :: "string \<Rightarrow> (string \<times> string) ub" where
  "buf_text b = (if NUL \<in> set b then Some (takeWhile (\<lambda>c. c \<noteq> NUL) b, tl (dropWhile (\<lambda>c. c \<noteq> NUL) b)) else None)"

definition in_decode :: "nat \<Rightarrow> string \<Rightarrow> (string \<times> string \<times> string) ub" where
  "in_decode ty b = do { (email, r) \<leftarrow> buf_text (drop 2 b); (fifo, r) \<leftarrow> buf_text r;
     (ip, r) \<leftarrow> (if ty = RELAY_QUERY then buf_text r else Some ([], r)); Some (email, fifo, ip) }"

datatype in_read = MsgError | MsgEmpty bool | MsgBytes string

text \<open>The next step at the descriptor: a failed read of the size, its end (with the result of opening it again), or a size with
  the read that follows, whether the file \<^verbatim>\<open>host.cntrl\<close> and the central database can be read, whether the fifo of the client can be
  opened, and how many writes to it succeed. A hangup signal that interrupts the read empties the tree, but the search that only looks
  for entries stays selected; over TCP the tree is always empty.\<close>

datatype in_event = EvError | EvHup | EvEof bool | EvMsg int in_read bool bool nat

definition hangup :: "in_sv \<Rightarrow> in_sv" where
  "hangup sv = sv\<lparr>in_root := Map.empty, btree_count := 0\<rparr>"

text \<open>One step: the new state, the reply with the fifo it goes to, and the value that is returned if the loop ends. First a message
  that has been read.\<close>

type_synonym in_step = "in_sv \<times> (string \<times> string) option \<times> int option"

definition in_request :: "in_env \<Rightarrow> bool \<Rightarrow> bool \<Rightarrow> nat \<Rightarrow> in_sv \<Rightarrow> in_step ub" where
  "in_request E host opened w sv = (let b = QueryBuf sv; ty = of_char (hd b) in
     if \<not> host then Some (sv, None, Some (- 1))
     else if ty \<notin> {1..7} then Some (sv, None, None)
     else do { (email, fifo, ip) \<leftarrow> in_decode ty b;
       (let sv = sv\<lparr>query_count := (query_count sv)(ty := query_count sv ty + 1)\<rparr> in
        if \<not> l_tcp E \<and> \<not> opened then Some (sv, None, None)
        else (case process_query E ty email ip sv of (sv, n, p) \<Rightarrow>
          Some (sv, Some (fifo, sent_bytes w n p),
            if \<not> l_tcp E then None else Some (if w = 0 \<or> w = 1 \<and> p \<noteq> [] then - 1 else 0)))) })"

definition in_handle :: "in_env \<Rightarrow> in_event \<Rightarrow> in_sv \<Rightarrow> in_step ub" where
  "in_handle E ev sv = (case ev of
     EvError \<Rightarrow> Some (sv, None, None)
   | EvHup \<Rightarrow> Some (hangup sv, None, None)
   | EvEof again \<Rightarrow> Some (sv, None, if l_tcp E then Some 0 else if again then None else Some (- 1))
   | EvMsg n r host opened w \<Rightarrow>
      if n > l_pipe_size E then Some (sv, None, if l_tcp E then Some 1 else None)
      else (case r of
        MsgError \<Rightarrow> Some (sv, None, if l_tcp E then Some 1 else None)
      | MsgEmpty again \<Rightarrow> Some (sv, None, if \<not> l_tcp E \<and> again then None else Some (- 1))
      | MsgBytes s \<Rightarrow>
          if s = [] \<or> length s > length (QueryBuf sv) then None
          else in_request E host opened w (sv\<lparr>QueryBuf := s @ drop (length s) (QueryBuf sv)\<rparr>)))"

fun serve :: "in_env \<Rightarrow> in_event list \<Rightarrow> in_sv \<Rightarrow> ((string \<times> string) list \<times> int \<times> in_sv) ub" where
  "serve E [] sv = Some ([], 1, sv)"
| "serve E (ev # es) sv = do { (sv, reply, fin) \<leftarrow> in_handle E ev sv;
     (let out = (case reply of None \<Rightarrow> [] | Some r \<Rightarrow> [r]) in
      case fin of Some n \<Rightarrow> Some (out, n, sv)
      | None \<Rightarrow> do { (rest, res, sv) \<leftarrow> serve E es sv; Some (out @ rest, res, sv) }) }"

text \<open>The state at the start of the loop. The tree and its count are those the process has inherited: empty, or filled by
  \<^verbatim>\<open>cache_active_pwd\<close> before the fork. The search that adds entries is selected whatever the count is.\<close>

definition in_start :: "(string \<Rightarrow> in_entry option) \<Rightarrow> int \<Rightarrow> pw_st \<Rightarrow> string \<Rightarrow> in_sv" where
  "in_start root n g buf = \<lparr>in_root = root, btree_count = n, find_only = False, gl = g, query_count = (\<lambda>t. 0), QueryBuf = buf\<rparr>"

subsection \<open>Entries loaded before the start\<close>

text \<open>A row of the recently active users, in the order of the query; \<open>None\<close> for all rows is a failed query. Other fields of a new entry
  are set as by \<open>mk_in_entry\<close>.\<close>

record pw_row =
  r_name :: string
  r_domain :: string
  r_passwd :: string
  r_scram :: "string option"
  r_uid :: string
  r_gid :: string
  r_gecos :: string
  r_dir :: string
  r_shell :: string

definition row_entry :: "in_env \<Rightarrow> pw_row \<Rightarrow> in_entry" where
  "row_entry E r = (let pw = \<lparr>pw_name = r_name r,
       pw_passwd = (case r_scram r of None \<Rightarrow> r_passwd r | Some s \<Rightarrow> s @ '','' @ r_passwd r),
       pw_uid = of_nat (scan_uint (l_Q E) (r_uid r)), pw_gid = of_nat (scan_uint (l_Q E) (r_gid r)),
       pw_gecos = r_gecos r, pw_dir = r_dir r, pw_shell = r_shell r\<rparr>
     in (mk_in_entry pw)\<lparr>e_domain := r_domain r, pwStat := True\<rparr>)"

fun load_rows :: "in_env \<Rightarrow> pw_row list \<Rightarrow> (string \<Rightarrow> in_entry option) \<Rightarrow> int \<Rightarrow> (string \<Rightarrow> in_entry option) \<times> int \<times> int" where
  "load_rows E [] t n = (t, n, 0)"
| "load_rows E (r # rs) t n = (let key = r_name r @ ''@'' @ r_domain r in
     if \<not> l_mem E then (t, n, - 1)
     else if t key \<noteq> None then (t, n, 1)
     else if max_btree_count E > 0 \<and> n + 1 \<ge> max_btree_count E then (t(key \<mapsto> row_entry E r), n + 1, 0)
     else load_rows E rs (t(key \<mapsto> row_entry E r)) (n + 1))"

text \<open>The tree, its count and the result, for the first call in a process.\<close>

definition cache_active_pwd :: "in_env \<Rightarrow> pw_row list option \<Rightarrow> (string \<Rightarrow> in_entry option) \<times> int \<times> int" where
  "cache_active_pwd E rows = (if \<not> use_btree E then (Map.empty, 0, 0)
     else (case rows of None \<Rightarrow> (Map.empty, 0, - 1) | Some rs \<Rightarrow> load_rows E rs Map.empty 0))"

end
