(* ===== verification/Inlookup_Spec.thy ===== *)
theory Inlookup_Spec
  imports Inlookup Pwstruct_Spec
begin

text \<open>
  What the lookup service promises: a message is decoded to the query it was made of, answers from the tree are those of a lookup,
  the tree does not grow beyond its bound.
\<close>

subsection \<open>Messages\<close>

lemma int_bytes_length [simp]: "length (int_bytes n) = 4"
  by (simp add: int_bytes_def)

lemma base256: "(\<Sum>k < m. (u div 256 ^ k) mod 256 * 256 ^ k) = u mod (256 ^ m :: nat)"
proof (induction m)
  case (Suc m)
  have "u mod 256 ^ Suc m = 256 ^ m * (u div 256 ^ m mod 256) + u mod 256 ^ m"
    using mod_mult2_eq[of u "256 ^ m" 256] by (simp add: mult.commute)
  then show ?case using Suc by simp
qed simp

lemma bytes_int_bytes: "- (2 ^ 31) \<le> n \<Longrightarrow> n < 2 ^ 31 \<Longrightarrow> bytes_int (int_bytes n @ r) = n"
proof -
  assume n: "- (2 ^ 31) \<le> n" "n < 2 ^ 31"
  define u where "u = nat (n mod 2 ^ 32)"
  have u: "u < 256 ^ 4" by (simp add: u_def nat_less_iff)
  have "(\<Sum>k < 4. of_char ((int_bytes n @ r) ! k) * 256 ^ k) = (\<Sum>k < 4. (u div 256 ^ k) mod 256 * 256 ^ k)"
    by (rule sum.cong) (simp_all add: int_bytes_def nth_append u_def)
  also have "\<dots> = u" using base256[of u 4] u by simp
  finally have s: "(\<Sum>k < 4. of_char ((int_bytes n @ r) ! k) * 256 ^ k) = u" .
  have i: "int u = n mod 2 ^ 32" by (simp add: u_def)
  have "n mod 2 ^ 32 = (if n < 0 then n + 2 ^ 32 else n)"
  proof (cases "n < 0")
    case True
    then have "(n + 2 ^ 32) mod 2 ^ 32 = n + 2 ^ 32" using n by (intro mod_pos_pos_trivial) auto
    then show ?thesis using True by simp
  qed (use n in \<open>simp add: mod_pos_pos_trivial\<close>)
  then show ?thesis using n unfolding bytes_int_def s by (simp add: i Let_def)
qed

definition no_nul :: "string \<Rightarrow> bool" where
  "no_nul s \<longleftrightarrow> NUL \<notin> set s"

lemma buf_text_first: "no_nul s \<Longrightarrow> buf_text (s @ NUL # r) = Some (s, r)"
  by (simp add: buf_text_def no_nul_def takeWhile_neq_append dropWhile_neq_append)

text \<open>The last part as far as the server reads it.\<close>

definition ip_text :: "nat \<Rightarrow> string option \<Rightarrow> string" where
  "ip_text ty ip = (if ty = RELAY_QUERY then case ip of None \<Rightarrow> [] | Some i \<Rightarrow> i else [])"

lemma decode_body:
  assumes "no_nul email" "no_nul fifo" "\<forall>i. ip = Some i \<longrightarrow> no_nul i"
  shows "in_decode ty (query_body ty email fifo ip @ r) = Some (email, fifo, ip_text ty ip)"
proof -
  have "no_nul (case ip of None \<Rightarrow> [] | Some i \<Rightarrow> i)" using assms(3) by (auto simp: no_nul_def split: option.split)
  then show ?thesis using assms by (simp add: in_decode_def query_body_def buf_text_first ip_text_def)
qed

text \<open>How the server sees a message of a client: the size, and the bytes behind it in one read.\<close>

definition client_event :: "string \<Rightarrow> in_event" where
  "client_event m = EvMsg (bytes_int m) (MsgBytes (drop 4 m)) True True 2"

subsection \<open>The tree\<close>

text \<open>The lookups do not depend on the global state.\<close>

definition uncached :: "in_env \<Rightarrow> in_env" where
  "uncached E = E\<lparr>use_btree := False\<rparr>"

lemma uncached_sel [simp]: "UserInLookup (uncached E) = UserInLookup E" "RelayInLookup (uncached E) = RelayInLookup E" "findmdahost (uncached E) = findmdahost E"
  "AliasInLookup (uncached E) = AliasInLookup E" "VlimitInLookup (uncached E) = VlimitInLookup E" "vget_limits (uncached E) = vget_limits E"
  "l_real_domain (uncached E) = l_real_domain E" "l_rchr (uncached E) = l_rchr E" "l_pipe_size (uncached E) = l_pipe_size E" "l_tcp (uncached E) = l_tcp E"
  "cache_search (uncached E) key sv = NoEntry" "text_reply (uncached E) p = text_reply E p"
  by (simp_all add: uncached_def cache_search_def text_reply_def)

lemma look_buf: "QueryBuf (fst (in_look f sv)) = QueryBuf sv" "in_root (fst (in_look f sv)) = in_root sv" "btree_count (fst (in_look f sv)) = btree_count sv"
  "find_only (fst (in_look f sv)) = find_only sv"
  by (simp_all add: in_look_def split: prod.split)

lemma put_buf [simp]: "QueryBuf (tree_put key e sv) = QueryBuf sv" "QueryBuf (add_entry E key e sv) = QueryBuf sv"
  by (simp_all add: tree_put_def add_entry_def Let_def)

lemma process_buf: "QueryBuf (fst (process_query E ty email ip sv)) = QueryBuf sv"
proof -
  note l = look_buf(1)[of _ sv]
  have "QueryBuf (fst (user_query E email sv)) = QueryBuf sv" "QueryBuf (fst (host_query E email sv)) = QueryBuf sv"
    "QueryBuf (fst (alias_query E email sv)) = QueryBuf sv" "QueryBuf (fst (pwd_query E email sv)) = QueryBuf sv"
    "QueryBuf (fst (limit_query E email sv)) = QueryBuf sv"
    using l[of "UserInLookup E email"] l[of "findmdahost E email"] l[of "AliasInLookup E email"] l[of "PwdInLookup E email"]
      l[of "vget_limits E email"] l[of "VlimitInLookup E email"]
    by (auto simp: user_query_def host_query_def alias_query_def pwd_query_def limit_query_def Let_def split: tree_hit.split prod.splits)
  then show ?thesis
    using l[of "RelayInLookup E email ip"] l[of "l_real_domain E email"]
    by (auto simp: process_query_def split: prod.splits option.splits)
qed

fun read_of :: "in_event \<Rightarrow> in_read" where
  "read_of (EvMsg n r host opened w) = r"
| "read_of ev = MsgError"

text \<open>No message of the sequence is a query of the type.\<close>

definition no_query :: "nat \<Rightarrow> in_event list \<Rightarrow> bool" where
  "no_query ty es \<longleftrightarrow> (\<forall>n s host open w. EvMsg n (MsgBytes s) host open w \<in> set es \<longrightarrow> s \<noteq> [] \<longrightarrow> of_char (hd s) \<noteq> ty)"

text \<open>A step either leaves the tree alone, or empties it, or is the answer to a query.\<close>

lemma request_cases:
  assumes "in_request E host opened w sv = Some (s, r, f)"
  shows "(\<exists>c. s = sv\<lparr>query_count := c\<rparr>) \<or> (\<exists>ty email ip c n p. process_query E ty email ip (sv\<lparr>query_count := c\<rparr>) = (s, n, p))"
proof (cases "\<not> host \<or> of_char (hd (QueryBuf sv)) \<notin> {1..7::nat}")
  case True
  then have "s = sv" using assms by (auto simp: in_request_def Let_def split: if_splits)
  then show ?thesis by (intro disjI1 exI[of _ "query_count sv"]) simp
next
  case False
  let ?ty = "of_char (hd (QueryBuf sv)) :: nat"
  obtain email fifo ip where d: "in_decode (of_char (hd (QueryBuf sv))) (QueryBuf sv) = Some (email, fifo, ip)"
    using assms False by (auto simp: in_request_def Let_def split: Option.bind_splits)
  obtain s1 n1 p1 where p: "process_query E ?ty email ip (sv\<lparr>query_count := (query_count sv)(?ty := query_count sv ?ty + 1)\<rparr>) = (s1, n1, p1)"
    by (metis prod_cases3)
  have "s = sv\<lparr>query_count := (query_count sv)(?ty := query_count sv ?ty + 1)\<rparr> \<or> s = s1"
    using assms False d p by (simp add: in_request_def Let_def split: if_splits)
  then show ?thesis using p by blast
qed

lemma handle_cases:
  assumes "in_handle E ev sv = Some (s, r, f)"
  shows "(\<exists>b c. s = sv\<lparr>QueryBuf := b\<rparr>\<lparr>query_count := c\<rparr>) \<or> s = hangup sv \<or> (\<exists>ty email ip b c n p. process_query E ty email ip (sv\<lparr>QueryBuf := b\<rparr>\<lparr>query_count := c\<rparr>) = (s, n, p))"
proof (cases "\<exists>n t host opened w. ev = EvMsg n (MsgBytes t) host opened w \<and> \<not> n > l_pipe_size E")
  case True
  then obtain n t host opened w where ev: "ev = EvMsg n (MsgBytes t) host opened w" "\<not> n > l_pipe_size E" by blast
  then have "in_request E host opened w (sv\<lparr>QueryBuf := t @ drop (length t) (QueryBuf sv)\<rparr>) = Some (s, r, f)"
    using assms by (simp add: in_handle_def split: if_splits)
  from request_cases[OF this] show ?thesis by blast
next
  case False
  then have "s = sv \<or> s = hangup sv" using assms
    by (cases ev; cases "read_of ev") (auto simp: in_handle_def split: if_splits)
  moreover have "s = sv \<Longrightarrow> s = sv\<lparr>QueryBuf := QueryBuf sv\<rparr>\<lparr>query_count := query_count sv\<rparr>" by simp
  ultimately show ?thesis by blast
qed

text \<open>What every answer keeps, the loop keeps.\<close>

lemma serve_keeps:
  assumes step: "\<And>ty email ip sv s n p. P sv \<Longrightarrow> process_query E ty email ip sv = (s, n, p) \<Longrightarrow> P s"
    and buf: "\<And>sv b c. P sv \<Longrightarrow> P (sv\<lparr>QueryBuf := b\<rparr>\<lparr>query_count := c\<rparr>)" and hup: "\<And>sv. P sv \<Longrightarrow> P (hangup sv)"
  shows "in_handle E ev sv = Some (s, r, f) \<Longrightarrow> P sv \<Longrightarrow> P s" "serve E es sv = Some (out, res, s) \<Longrightarrow> P sv \<Longrightarrow> P s"
proof -
  show h: "P s" if "in_handle E ev sv = Some (s, r, f)" "P sv" for ev sv s r f
    using handle_cases[OF that(1)] step buf[OF that(2)] hup[OF that(2)] by metis
  show "serve E es sv = Some (out, res, s) \<Longrightarrow> P sv \<Longrightarrow> P s"
  proof (induction es arbitrary: sv out res)
    case (Cons ev es)
    obtain s1 r f where s1: "in_handle E ev sv = Some (s1, r, f)" using Cons.prems(1) by (cases "in_handle E ev sv") auto
    note p = h[OF s1 Cons.prems(2)]
    show ?case
    proof (cases f)
      case None
      then obtain o2 r2 where "serve E es s1 = Some (o2, r2, s)" using Cons.prems(1) s1 by (auto simp: Let_def split: Option.bind_splits)
      then show ?thesis using Cons.IH p by blast
    next
      case (Some n)
      then show ?thesis using Cons.prems(1) s1 p by simp
    qed
  qed simp
qed

lemma request_none: "in_request E host opened w sv = None \<longleftrightarrow> host \<and> of_char (hd (QueryBuf sv)) \<in> {1..7::nat} \<and> in_decode (of_char (hd (QueryBuf sv))) (QueryBuf sv) = None"
  by (cases "in_decode (of_char (hd (QueryBuf sv))) (QueryBuf sv)") (simp_all add: in_request_def Let_def split: prod.split)

text \<open>The entries of the tree agree with the lookups.\<close>

definition entry_right :: "in_env \<Rightarrow> string \<Rightarrow> in_entry \<Rightarrow> bool" where
  "entry_right E key e \<longleftrightarrow> (\<forall>g. (in_userStatus e \<ge> 0 \<longrightarrow> in_userStatus e = fst (UserInLookup E key g))
     \<and> (mdahost e \<noteq> None \<longrightarrow> mdahost e = fst (findmdahost E key g))
     \<and> (aliases e \<noteq> None \<longrightarrow> aliases e = fst (AliasInLookup E key g))
     \<and> (pwStat e \<longrightarrow> Some (e_pw e) = fst (PwdInLookup E key g) \<and> e_domain e = query_domain E key))"

definition tree_right :: "in_env \<Rightarrow> in_sv \<Rightarrow> bool" where
  "tree_right E sv \<longleftrightarrow> (\<forall>key e. in_root sv key = Some e \<longrightarrow> entry_right E key e)"

locale stable_lookups =
  fixes E :: in_env
  assumes user: "fst (UserInLookup E e g) = fst (UserInLookup E e g')"
    and host: "fst (findmdahost E e g) = fst (findmdahost E e g')"
    and host_none: "fst (findmdahost E e g) = None \<Longrightarrow> (userNotFound (snd (findmdahost E e g)) = 0) = (userNotFound (snd (findmdahost E e g')) = 0)"
    and aliased: "fst (AliasInLookup E e g) = fst (AliasInLookup E e g')"
    and relay: "fst (RelayInLookup E e i g) = fst (RelayInLookup E e i g')"
    and pwd: "fst (PwdInLookup E e g) = fst (PwdInLookup E e g')"
    and real: "fst (l_real_domain E d g) = fst (l_real_domain E d g')"
    and limits: "fst (vget_limits E e g) = fst (vget_limits E e g')" "fst (VlimitInLookup E e g) = fst (VlimitInLookup E e g')"
begin

lemma search_right: "tree_right E sv \<Longrightarrow> cache_search E key sv = OldEntry e \<Longrightarrow> entry_right E key e"
  by (auto simp: cache_search_def tree_right_def split: if_splits option.splits)

lemma search_new: "cache_search E key sv = NewEntry e \<Longrightarrow> entry_right E key e"
  by (auto simp: cache_search_def mk_in_entry_def entry_right_def split: if_splits option.splits)

lemma put_right: "tree_right E sv \<Longrightarrow> entry_right E key e \<Longrightarrow> tree_right E (tree_put key e sv)"
  by (simp add: tree_right_def tree_put_def)

lemma add_right: "tree_right E sv \<Longrightarrow> entry_right E key e \<Longrightarrow> tree_right E (add_entry E key e sv)"
  by (simp add: tree_right_def tree_put_def add_entry_def Let_def)

lemma look_right: "in_look f sv = (sv', x) \<Longrightarrow> tree_right E sv' = tree_right E sv \<and> x = fst (f (gl sv)) \<and> gl sv' = snd (f (gl sv))"
  by (auto simp: in_look_def tree_right_def split: prod.splits)

lemma user_right:
  assumes "tree_right E sv" "user_query E email sv = (sv', s)"
  shows "tree_right E sv'" "s = fst (UserInLookup E email g)"
proof -
  obtain sv1 s1 where l: "in_look (UserInLookup E email) sv = (sv1, s1)" by fastforce
  note r = look_right[OF l]
  have s: "s1 = fst (UserInLookup E email g)" for g using r user[of email "gl sv" g] by simp
  have u: "entry_right E email (e\<lparr>in_userStatus := s1\<rparr>)" if "entry_right E email e" for e
    using that s by (simp add: entry_right_def)
  show "tree_right E sv'"
    using assms r l put_right[OF _ u] add_right[OF _ u] search_right[OF assms(1)] search_new
    by (auto simp: user_query_def split: tree_hit.splits if_splits)
  show "s = fst (UserInLookup E email g)"
    using assms s l search_right[OF assms(1)] by (auto simp: user_query_def entry_right_def split: tree_hit.splits if_splits)
qed

lemma host_right:
  assumes "tree_right E sv" "host_query E email sv = (sv', p)"
  shows "tree_right E sv'" "p = fst (findmdahost E email g)" "p = None \<Longrightarrow> (userNotFound (gl sv') = 0) = (userNotFound (snd (findmdahost E email g)) = 0)"
proof -
  obtain sv1 p1 where l: "in_look (findmdahost E email) sv = (sv1, p1)" by fastforce
  note r = look_right[OF l]
  have s: "p1 = fst (findmdahost E email g)" for g using r host[of email "gl sv" g] by simp
  have u: "entry_right E email (e\<lparr>mdahost := p1\<rparr>)" if "entry_right E email e" for e
    using that s by (simp add: entry_right_def)
  show "tree_right E sv'"
    using assms r l put_right[OF _ u] add_right[OF _ u] search_right[OF assms(1)] search_new
    by (auto simp: host_query_def split: tree_hit.splits if_splits)
  show "p = fst (findmdahost E email g)"
    using assms s l search_right[OF assms(1)] by (auto simp: host_query_def entry_right_def split: tree_hit.splits if_splits)
  have n: "p1 = None \<Longrightarrow> (userNotFound (gl sv1) = 0) = (userNotFound (snd (findmdahost E email g)) = 0)"
    using host_none[of email "gl sv" g] r by simp
  show "p = None \<Longrightarrow> (userNotFound (gl sv') = 0) = (userNotFound (snd (findmdahost E email g)) = 0)"
    using assms(2) l n by (auto simp: host_query_def tree_put_def add_entry_def Let_def split: tree_hit.splits if_splits)
qed

lemma alias_right:
  assumes "tree_right E sv" "alias_query E email sv = (sv', p)"
  shows "tree_right E sv'" "p = fst (AliasInLookup E email g)"
proof -
  obtain sv1 p1 where l: "in_look (AliasInLookup E email) sv = (sv1, p1)" by fastforce
  note r = look_right[OF l]
  have s: "p1 = fst (AliasInLookup E email g)" for g using r aliased[of email "gl sv" g] by simp
  have u: "entry_right E email (e\<lparr>aliases := p1\<rparr>)" if "entry_right E email e" for e
    using that s by (simp add: entry_right_def)
  show "tree_right E sv'"
    using assms r l put_right[OF _ u] add_right[OF _ u] search_right[OF assms(1)] search_new
    by (auto simp: alias_query_def split: tree_hit.splits if_splits)
  show "p = fst (AliasInLookup E email g)"
    using assms s l search_right[OF assms(1)] by (auto simp: alias_query_def entry_right_def split: tree_hit.splits if_splits)
qed

lemma pwd_right:
  assumes "tree_right E sv" "pwd_query E email sv = (sv', p, d)"
  shows "tree_right E sv'" "p = fst (PwdInLookup E email g)" "p \<noteq> None \<Longrightarrow> d = query_domain E email"
proof -
  obtain sv1 p1 where l: "in_look (PwdInLookup E email) sv = (sv1, p1)" by fastforce
  note r = look_right[OF l]
  have s: "p1 = fst (PwdInLookup E email g)" for g using r pwd[of email "gl sv" g] by simp
  have u: "entry_right E email (with_pw (query_domain E email) p1 e)" if "entry_right E email e" for e
    using that s by (cases p1) (simp_all add: entry_right_def with_pw_def)
  show "tree_right E sv'"
    using assms r l put_right[OF _ u] add_right[OF _ u] search_right[OF assms(1)] search_new
    by (auto simp: pwd_query_def Let_def split: tree_hit.splits if_splits)
  show "p = fst (PwdInLookup E email g)"
    using assms s l search_right[OF assms(1)] by (auto simp: pwd_query_def entry_right_def Let_def split: tree_hit.splits if_splits)
  show "p \<noteq> None \<Longrightarrow> d = query_domain E email"
    using assms l search_right[OF assms(1)] by (auto simp: pwd_query_def entry_right_def Let_def split: tree_hit.splits if_splits)
qed

lemma limit_right: "limit_query E email sv = (sv', s, lim) \<Longrightarrow> tree_right E sv' = tree_right E sv"
  using look_right[of "vget_limits E email" sv] look_right[of "VlimitInLookup E email" sv]
  by (auto simp: limit_query_def split: if_splits prod.splits)

lemma process_right:
  assumes "tree_right E sv" "process_query E ty email ip sv = (sv', n, p)"
  shows "tree_right E sv'"
proof -
  note rules = user_right(1)[OF assms(1)] host_right(1)[OF assms(1)] alias_right(1)[OF assms(1)] pwd_right(1)[OF assms(1)] limit_right[of email sv]
    look_right[of "RelayInLookup E email ip" sv] look_right[of "l_real_domain E email" sv]
  show ?thesis
    using assms rules by (auto simp: process_query_def split: if_splits prod.splits option.splits)
qed

lemma process_same:
  assumes "tree_right E sv" "ty \<noteq> PWD_QUERY"
  shows "snd (process_query E ty email ip sv) = snd (process_query (uncached E) ty email ip sv')"
proof -
  obtain sv1 s1 where u: "user_query E email sv = (sv1, s1)" by fastforce
  obtain sv2 s2 where h: "host_query E email sv = (sv2, s2)" by fastforce
  obtain sv3 s3 where a: "alias_query E email sv = (sv3, s3)" by fastforce
  have k: "in_look f sv' = (sv'\<lparr>gl := snd (f (gl sv'))\<rparr>, fst (f (gl sv')))" "in_look f sv = (sv\<lparr>gl := snd (f (gl sv))\<rparr>, fst (f (gl sv)))" for f :: "pw_st \<Rightarrow> 'b \<times> pw_st"
    by (simp_all add: in_look_def split: prod.split)
  have n: "user_query (uncached E) email sv' = in_look (UserInLookup E email) sv'" "host_query (uncached E) email sv' = in_look (findmdahost E email) sv'"
    "alias_query (uncached E) email sv' = in_look (AliasInLookup E email) sv'" "limit_query (uncached E) email sv' = limit_query E email sv'"
    by (simp_all add: user_query_def host_query_def alias_query_def limit_query_def)
  have l: "snd (limit_query E email sv) = snd (limit_query E email sv')"
    using limits(1)[of email "gl sv" "gl sv'"] limits(2)[of email "gl sv" "gl sv'"] by (simp add: limit_query_def k split: prod.split)
  obtain sv4 s4 lim where l4: "limit_query E email sv = (sv4, s4, lim)" by (metis prod_cases3)
  obtain sv5 where l5: "limit_query E email sv' = (sv5, s4, lim)" using l l4 by (cases "limit_query E email sv'") auto
  note us = user_right(2)[OF assms(1) u, of "gl sv'"] host_right(2,3)[OF assms(1) h, of "gl sv'"] alias_right(2)[OF assms(1) a, of "gl sv'"]
  show ?thesis
    using us relay[of email ip "gl sv" "gl sv'"] real[of email "gl sv" "gl sv'"] assms(2) l4 l5
    by (simp add: process_query_def u h a n k split: option.split)
qed

lemma tree_buf [simp]: "tree_right E (sv\<lparr>QueryBuf := b\<rparr>) = tree_right E sv" "tree_right E (sv\<lparr>query_count := c\<rparr>) = tree_right E sv" "tree_right E (hangup sv)"
  by (simp_all add: tree_right_def hangup_def)

lemma handle_right: "in_handle E ev sv = Some (s, r, f) \<Longrightarrow> tree_right E sv \<Longrightarrow> tree_right E s"
  by (erule serve_keeps(1)[of "tree_right E", rotated 3]) (auto dest: process_right)

lemma serve_right: "serve E es sv = Some (out, res, s) \<Longrightarrow> tree_right E sv \<Longrightarrow> tree_right E s"
  by (erule serve_keeps(2)[of "tree_right E", rotated 3]) (auto dest: process_right)

lemma request_same:
  assumes "tree_right E sv" "QueryBuf sv = QueryBuf sv'" "of_char (hd (QueryBuf sv)) \<noteq> PWD_QUERY" "in_request E host opened w sv = Some (s, r, f)"
  shows "\<exists>s'. in_request (uncached E) host opened w sv' = Some (s', r, f) \<and> QueryBuf s = QueryBuf s'"
proof (cases "\<not> host \<or> of_char (hd (QueryBuf sv)) \<notin> {1..7::nat}")
  case True
  then show ?thesis using assms(2,4) by (auto simp: in_request_def Let_def split: if_splits)
next
  case False
  let ?b = "QueryBuf sv" and ?ty = "of_char (hd (QueryBuf sv)) :: nat"
  obtain email fifo ip where d: "in_decode ?ty ?b = Some (email, fifo, ip)"
    using assms(4) False by (auto simp: in_request_def Let_def split: Option.bind_splits)
  define u where "u = (\<lambda>sv :: in_sv. sv\<lparr>query_count := (query_count sv)(?ty := query_count sv ?ty + 1)\<rparr>)"
  have b: "QueryBuf (u x) = QueryBuf x" for x by (simp add: u_def)
  obtain s1 n1 p1 where p: "process_query E ?ty email ip (u sv) = (s1, n1, p1)" by (metis prod_cases3)
  obtain s2 n2 p2 where q: "process_query (uncached E) ?ty email ip (u sv') = (s2, n2, p2)" by (metis prod_cases3)
  have e: "n2 = n1" "p2 = p1" using process_same[OF _ assms(3), of "u sv" email ip "u sv'"] assms(1) p q by (simp_all add: u_def)
  have bs: "QueryBuf s1 = ?b" "QueryBuf s2 = ?b"
    using process_buf[of E ?ty email ip "u sv"] process_buf[of "uncached E" ?ty email ip "u sv'"] p q assms(2) by (simp_all add: b)
  have 1: "in_request E host opened w sv = (if \<not> l_tcp E \<and> \<not> opened then Some (u sv, None, None)
      else Some (s1, Some (fifo, sent_bytes w n1 p1), if \<not> l_tcp E then None else Some (if w = 0 \<or> w = 1 \<and> p1 \<noteq> [] then - 1 else 0)))"
    using False d p by (simp add: in_request_def Let_def u_def)
  have 2: "in_request (uncached E) host opened w sv' = (if \<not> l_tcp E \<and> \<not> opened then Some (u sv', None, None)
      else Some (s2, Some (fifo, sent_bytes w n2 p2), if \<not> l_tcp E then None else Some (if w = 0 \<or> w = 1 \<and> p2 \<noteq> [] then - 1 else 0)))"
    using False d q by (simp add: in_request_def Let_def u_def assms(2))
  show ?thesis using assms(2,4) bs b unfolding 1 2 e by (auto split: if_splits)
qed

lemma handle_same:
  assumes "tree_right E sv" "QueryBuf sv = QueryBuf sv'" "no_query PWD_QUERY [ev]" "in_handle E ev sv = Some (s, r, f)"
  shows "\<exists>s'. in_handle (uncached E) ev sv' = Some (s', r, f) \<and> QueryBuf s = QueryBuf s'"
proof (cases "\<exists>n t host opened w. ev = EvMsg n (MsgBytes t) host opened w \<and> \<not> n > l_pipe_size E")
  case True
  then obtain n t host opened w where ev: "ev = EvMsg n (MsgBytes t) host opened w" "\<not> n > l_pipe_size E" by blast
  let ?u = "\<lambda>x :: in_sv. x\<lparr>QueryBuf := t @ drop (length t) (QueryBuf sv)\<rparr>"
  have t: "t \<noteq> []" "\<not> length t > length (QueryBuf sv)" using assms(4) ev by (auto simp: in_handle_def split: if_splits)
  have ty: "of_char (hd (QueryBuf (?u sv))) \<noteq> PWD_QUERY" using assms(3) ev t by (auto simp: no_query_def)
  have q: "in_request E host opened w (?u sv) = Some (s, r, f)" using assms(4) ev t by (simp add: in_handle_def)
  have "in_handle (uncached E) ev sv' = in_request (uncached E) host opened w (?u sv')"
    using ev t assms(2) by (simp add: in_handle_def)
  then show ?thesis using request_same[OF _ _ ty q, of "?u sv'"] assms(1) by simp
next
  case False
  then show ?thesis using assms(2,4)
    by (cases ev; cases "read_of ev") (auto simp: in_handle_def hangup_def split: if_splits)
qed

lemma serve_same:
  assumes "tree_right E sv" "QueryBuf sv = QueryBuf sv'" "no_query PWD_QUERY es" "serve E es sv = Some (out, res, s)"
  shows "\<exists>s'. serve (uncached E) es sv' = Some (out, res, s')"
  using assms
proof (induction es arbitrary: sv sv' out res)
  case (Cons ev es)
  obtain s1 r f where h: "in_handle E ev sv = Some (s1, r, f)" using Cons.prems(4) by (cases "in_handle E ev sv") auto
  have nq: "no_query PWD_QUERY [ev]" "no_query PWD_QUERY es" using Cons.prems(3) by (auto simp: no_query_def)
  obtain s2 where h2: "in_handle (uncached E) ev sv' = Some (s2, r, f)" "QueryBuf s1 = QueryBuf s2"
    using handle_same[OF Cons.prems(1,2) nq(1) h] by blast
  note t = handle_right[OF h Cons.prems(1)]
  show ?case
  proof (cases f)
    case None
    then obtain o2 r2 where "serve E es s1 = Some (o2, r2, s)" "res = r2" "out = (case r of None \<Rightarrow> [] | Some r \<Rightarrow> [r]) @ o2"
      using Cons.prems(4) h by (auto simp: Let_def split: Option.bind_splits)
    then show ?thesis using Cons.IH[OF t h2(2) nq(2)] h2 None by fastforce
  next
    case (Some n)
    then show ?thesis using Cons.prems(4) h h2 by (auto simp: Let_def)
  qed
qed simp

lemma handle_none:
  assumes "QueryBuf sv = QueryBuf sv'" "in_handle E ev sv = None"
  shows "in_handle (uncached E) ev sv' = None"
proof (cases ev)
  case (EvMsg n t host opened w)
  then show ?thesis using assms by (cases t) (auto simp: in_handle_def request_none split: if_splits)
qed (use assms in \<open>simp_all add: in_handle_def\<close>)

lemma serve_none:
  assumes "tree_right E sv" "QueryBuf sv = QueryBuf sv'" "no_query PWD_QUERY es" "serve E es sv = None"
  shows "serve (uncached E) es sv' = None"
  using assms
proof (induction es arbitrary: sv sv')
  case (Cons ev es)
  have nq: "no_query PWD_QUERY [ev]" "no_query PWD_QUERY es" using Cons.prems(3) by (auto simp: no_query_def)
  show ?case
  proof (cases "in_handle E ev sv")
    case None
    then show ?thesis using handle_none[OF Cons.prems(2)] by simp
  next
    case (Some x)
    obtain s1 r f where h: "in_handle E ev sv = Some (s1, r, f)" using Some by (cases x) auto
    obtain s2 where h2: "in_handle (uncached E) ev sv' = Some (s2, r, f)" "QueryBuf s1 = QueryBuf s2"
      using handle_same[OF Cons.prems(1,2) nq(1) h] by blast
    have "f = None" "serve E es s1 = None" using Cons.prems(4) h by (auto simp: Let_def split: option.splits Option.bind_splits)
    then show ?thesis using Cons.IH[OF handle_right[OF h Cons.prems(1)] h2(2) nq(2)] h2(1) by simp
  qed
qed simp

lemma serve_equal:
  assumes "tree_right E sv" "QueryBuf sv = QueryBuf sv'" "no_query PWD_QUERY es"
  shows "map_option (\<lambda>(out, res, s). (out, res)) (serve E es sv) = map_option (\<lambda>(out, res, s). (out, res)) (serve (uncached E) es sv')"
proof (cases "serve E es sv")
  case None
  then show ?thesis using serve_none[OF assms None] by simp
next
  case (Some x)
  obtain out res s where s: "serve E es sv = Some (out, res, s)" using Some by (cases x) auto
  then show ?thesis using serve_same[OF assms s] by auto
qed

end

end
