(* ===== verification/Inlookup_Serve.thy ===== *)
theory Inlookup_Serve
  imports Inlookup_Spec
begin

text \<open>
  Client and server together: the answer to a query after any history, the flag in cached password entries, the bound of the tree.
\<close>

subsection \<open>A query of a client\<close>

text \<open>The answer of a direct lookup in a global state, for all queries but that for a password entry.\<close>

definition status_answer :: "int \<Rightarrow> answer" where
  "status_answer s = (if s = - 1 then ANull else AStatus s)"

definition direct_answer :: "in_env \<Rightarrow> nat \<Rightarrow> string \<Rightarrow> string \<Rightarrow> pw_st \<Rightarrow> answer" where
  "direct_answer E ty email ip g =
     (if ty = USER_QUERY then status_answer (fst (UserInLookup E email g))
      else if ty = RELAY_QUERY then status_answer (fst (RelayInLookup E email ip g))
      else if ty = HOST_QUERY then (case fst (findmdahost E email g) of None \<Rightarrow> ANull | Some p \<Rightarrow> AText p)
      else if ty = ALIAS_QUERY then AText (case fst (AliasInLookup E email g) of None \<Rightarrow> [] | Some p \<Rightarrow> p)
      else AText (case fst (l_real_domain E email g) of None \<Rightarrow> email | Some x \<Rightarrow> x))"

definition text_fits :: "in_env \<Rightarrow> int \<Rightarrow> string \<Rightarrow> bool" where
  "text_fits E pipe p \<longleftrightarrow> no_nul p \<and> int (length p) + 1 \<le> l_pipe_size E \<and> int (length p) + 1 \<le> pipe \<and> int (length p) + 1 < 2 ^ 31"

fun answer_fits :: "in_env \<Rightarrow> int \<Rightarrow> answer \<Rightarrow> bool" where
  "answer_fits E pipe (AText p) = text_fits E pipe p"
| "answer_fits E pipe (AStatus n) = (- (2 ^ 31) \<le> n \<and> n < 2 ^ 31 \<and> n \<le> pipe)"
| "answer_fits E pipe a = True"

lemma client_status:
  assumes "ty = USER_QUERY \<or> ty = RELAY_QUERY" "answer_fits E pipe (status_answer n)"
  shows "client_answer Q pipe ty (int_bytes n) st = Some (st, status_answer n)"
proof -
  have "bytes_int (int_bytes n) = n" using assms(2) bytes_int_bytes[of n "[]"] by (auto simp: status_answer_def split: if_splits)
  moreover have "int_bytes n \<noteq> []" using int_bytes_length[of n] by (metis list.size(3) zero_neq_numeral)
  ultimately show ?thesis using assms by (auto simp: client_answer_def status_answer_def Let_def split: if_splits)
qed

lemma reply_text:
  assumes "text_fits E pipe p"
  shows "text_reply E p = (int (length p) + 1, p @ [NUL])" "bytes_int (int_bytes (int (length p) + 1) @ r) = int (length p) + 1"
  using assms bytes_int_bytes[of "int (length p) + 1" r] by (simp_all add: text_reply_def text_fits_def Let_def)

lemma sent_all: "sent_bytes 2 n p = int_bytes n @ p" "int_bytes n \<noteq> []"
proof -
  show "int_bytes n \<noteq> []" using int_bytes_length[of n] by (metis list.size(3) zero_neq_numeral)
qed (simp add: sent_bytes_def)

lemma client_text:
  assumes "ty = HOST_QUERY \<or> ty = ALIAS_QUERY \<or> ty = DOMAIN_QUERY" "text_fits E pipe p"
  shows "client_answer Q pipe ty (int_bytes (int (length p) + 1) @ p @ [NUL]) st = Some (st, AText p)"
proof -
  have n: "\<not> (1 + int (length p) > pipe)" "NUL \<notin> set p" using assms(2) by (simp_all add: text_fits_def no_nul_def)
  show ?thesis
    using assms(1) n reply_text(2)[OF assms(2), of "p @ [NUL]"]
    by (auto simp: client_answer_def Let_def query_defs sent_all nat_add_distrib takeWhile_neq_append)
qed

lemma client_null: "client_answer Q pipe ty (int_bytes (- 1) @ r) st = Some (st, ANull)"
  using bytes_int_bytes[of "- 1" r] by (simp add: client_answer_def Let_def sent_all)

lemma client_none:
  assumes "ty = HOST_QUERY" "0 \<le> pipe"
  shows "\<exists>st'. client_answer Q pipe ty (int_bytes 0) st = Some (st', ANull)"
  using assms bytes_int_bytes[of 0 "[]"] by (simp add: client_answer_def Let_def sent_all query_defs)

text \<open>How the server handles the message of a query.\<close>

definition can_ask :: "in_env \<Rightarrow> nat \<Rightarrow> string \<Rightarrow> string \<Rightarrow> string option \<Rightarrow> nat \<Rightarrow> bool" where
  "can_ask E ty email fifo ip size_of \<longleftrightarrow> \<not> l_tcp E \<and> ty \<in> {1..7} \<and> no_nul email \<and> no_nul fifo \<and> (\<forall>i. ip = Some i \<longrightarrow> no_nul i)
     \<and> length (query_body ty email fifo ip) \<le> size_of \<and> int size_of \<le> l_pipe_size E \<and> int size_of < 2 ^ 31"

lemma ask:
  assumes "can_ask E ty email fifo ip (length (QueryBuf sv))"
  obtains sv1 where "in_handle E (client_event (query_msg ty email fifo ip)) sv
      = (case process_query E ty email (ip_text ty ip) sv1 of (s, n, p) \<Rightarrow> Some (s, Some (fifo, int_bytes n @ p), None))"
    and "in_root sv1 = in_root sv" "gl sv1 = gl sv" "find_only sv1 = find_only sv" "btree_count sv1 = btree_count sv"
      "length (QueryBuf sv1) = length (QueryBuf sv)"
proof -
  let ?b = "query_body ty email fifo ip" and ?e = "query_msg ty email fifo ip"
  let ?B = "?b @ drop (length ?b) (QueryBuf sv)"
  have c: "\<not> l_tcp E" "ty \<in> {1..7}" "no_nul email" "no_nul fifo" "\<forall>i. ip = Some i \<longrightarrow> no_nul i" "length ?b \<le> length (QueryBuf sv)"
    "int (length ?b) \<le> l_pipe_size E" "int (length ?b) < 2 ^ 31"
    using assms by (simp_all add: can_ask_def)
  have b: "?b \<noteq> []" "hd (?b @ r) = char_of ty" for r by (simp_all add: query_body_def)
  have ty: "of_char (char_of ty :: char) = ty" using c(2) by simp
  have n: "bytes_int ?e = int (length ?b)" using bytes_int_bytes[of "int (length ?b)" ?b] c(8) by (simp add: query_msg_def)
  have d: "in_decode ty ?B = Some (email, fifo, ip_text ty ip)" using decode_body[OF c(3-5)] by simp
  define u where "u = sv\<lparr>QueryBuf := ?B\<rparr>\<lparr>query_count := (query_count sv)(ty := query_count sv ty + 1)\<rparr>"
  have h: "in_handle E (client_event ?e) sv = in_request E True True 2 (sv\<lparr>QueryBuf := ?B\<rparr>)"
    using c n b by (simp add: in_handle_def client_event_def, simp add: query_msg_def)
  have "\<dots> = (case process_query E ty email (ip_text ty ip) u of (s, n, p) \<Rightarrow> Some (s, Some (fifo, int_bytes n @ p), None))"
    using c(1,2) d by (simp add: in_request_def Let_def b(2) ty u_def sent_all)
  then show ?thesis
    using h c(6) by (intro that[of u]) (simp_all add: u_def)
qed

lemma serve_append:
  assumes "\<not> l_tcp E" "serve E es sv = Some (out, 1, s)"
  shows "serve E (es @ fs) sv = do { (o2, r, s2) \<leftarrow> serve E fs s; Some (out @ o2, r, s2) }"
  using assms(2)
proof (induction es arbitrary: sv out)
  case Nil
  show ?case using Nil by (cases "serve E fs sv") auto
next
  case (Cons ev es)
  obtain s1 r f where h: "in_handle E ev sv = Some (s1, r, f)" using Cons.prems by (cases "in_handle E ev sv") auto
  have "f \<noteq> Some 1"
    using h assms(1) by (auto simp: in_handle_def in_request_def Let_def split: in_event.splits in_read.splits if_splits Option.bind_splits prod.splits)
  then have f: "f = None" using Cons.prems h by (cases f) auto
  then obtain o2 where o2: "serve E es s1 = Some (o2, 1, s)" "out = (case r of None \<Rightarrow> [] | Some x \<Rightarrow> [x]) @ o2"
    using Cons.prems h by (auto simp: Let_def split: Option.bind_splits)
  show ?case using Cons.IH[OF o2(1)] h f o2(2) by (cases "serve E fs s") auto
qed

lemma handle_length: "in_handle E ev sv = Some (s, r, f) \<Longrightarrow> length (QueryBuf s) = length (QueryBuf sv)"
proof (cases "\<exists>n t host opened w. ev = EvMsg n (MsgBytes t) host opened w \<and> \<not> n > l_pipe_size E")
  case True
  assume h: "in_handle E ev sv = Some (s, r, f)"
  obtain n t host opened w where ev: "ev = EvMsg n (MsgBytes t) host opened w" "\<not> n > l_pipe_size E" using True by blast
  let ?u = "sv\<lparr>QueryBuf := t @ drop (length t) (QueryBuf sv)\<rparr>"
  have q: "in_request E host opened w ?u = Some (s, r, f)" "length (QueryBuf ?u) = length (QueryBuf sv)"
    using h ev by (simp_all add: in_handle_def split: if_splits)
  have "QueryBuf s = QueryBuf ?u"
    using request_cases[OF q(1)]
  proof (elim disjE exE)
    fix ty email ip c n p
    assume "process_query E ty email ip (?u\<lparr>query_count := c\<rparr>) = (s, n, p)"
    then show ?thesis using process_buf[of E ty email ip "?u\<lparr>query_count := c\<rparr>"] by simp
  qed simp
  then show ?thesis using q(2) by simp
next
  case False
  assume "in_handle E ev sv = Some (s, r, f)"
  then show ?thesis using False by (cases ev; cases "read_of ev") (auto simp: in_handle_def hangup_def split: if_splits)
qed

lemma serve_length: "serve E es sv = Some (out, res, s) \<Longrightarrow> length (QueryBuf s) = length (QueryBuf sv)"
proof (induction es arbitrary: sv out res)
  case (Cons ev es)
  obtain s1 r f where h: "in_handle E ev sv = Some (s1, r, f)" using Cons.prems by (cases "in_handle E ev sv") auto
  then show ?case
  proof (cases f)
    case None
    then obtain o2 r2 where "serve E es s1 = Some (o2, r2, s)" using Cons.prems h by (auto simp: Let_def split: Option.bind_splits)
    then show ?thesis using Cons.IH handle_length[OF h] by metis
  next
    case (Some n)
    then show ?thesis using Cons.prems h handle_length[OF h] by simp
  qed
qed simp

lemma start_right: "tree_right E (in_start Map.empty 0 g b)"
  by (simp add: tree_right_def in_start_def)

lemma direct_reply:
  assumes "ty \<in> {1..7}" "ty \<noteq> PWD_QUERY" "ty \<noteq> LIMIT_QUERY" "answer_fits E pipe (direct_answer E ty email ip (gl sv))" "0 \<le> pipe"
    and "process_query (uncached E) ty email ip sv = (s, n, p)"
  shows "\<exists>st'. client_answer Q pipe ty (int_bytes n @ p) st = Some (st', direct_answer E ty email ip (gl sv))"
proof -
  have t: "ty = USER_QUERY \<or> ty = RELAY_QUERY \<or> ty = HOST_QUERY \<or> ty = ALIAS_QUERY \<or> ty = DOMAIN_QUERY"
    using assms(1-3) by (auto simp: query_defs)
  have k: "in_look f sv = (sv\<lparr>gl := snd (f (gl sv))\<rparr>, fst (f (gl sv)))" for f :: "pw_st \<Rightarrow> 'b \<times> pw_st"
    by (simp add: in_look_def split: prod.split)
  note q = user_query_def host_query_def alias_query_def
  from t show ?thesis
  proof (elim disjE)
    assume ty: "ty = USER_QUERY"
    then show ?thesis using client_status[of ty E pipe n Q st] assms(4,6) by (auto simp: direct_answer_def process_query_def q k)
  next
    assume ty: "ty = RELAY_QUERY"
    then show ?thesis using client_status[of ty E pipe n Q st] assms(4,6) by (auto simp: direct_answer_def process_query_def q k query_defs)
  next
    assume ty: "ty = HOST_QUERY"
    show ?thesis
    proof (cases "fst (findmdahost E email (gl sv))")
      case None
      then have "p = []" "n = 0 \<or> n = - 1" using ty assms(6) by (auto simp: process_query_def q k query_defs split: if_splits)
      then show ?thesis using None ty client_null[of Q pipe ty "[]" st] client_none[OF ty assms(5), of Q st]
        by (auto simp: direct_answer_def query_defs)
    next
      case (Some x)
      then have f: "text_fits E pipe x" using assms(4) ty by (simp add: direct_answer_def query_defs)
      then have "(n, p) = (int (length x) + 1, x @ [NUL])"
        using Some ty assms(6) reply_text(1)[OF f] by (simp add: process_query_def q k query_defs)
      then show ?thesis using client_text[of ty E pipe x Q st] f ty Some by (simp add: direct_answer_def query_defs)
    qed
  next
    assume ty: "ty = ALIAS_QUERY"
    let ?x = "case fst (AliasInLookup E email (gl sv)) of None \<Rightarrow> [] | Some p \<Rightarrow> p"
    have f: "text_fits E pipe ?x" using assms(4) ty by (simp add: direct_answer_def query_defs)
    then have "(n, p) = (int (length ?x) + 1, ?x @ [NUL])"
      using ty assms(6) reply_text(1)[OF f] by (auto simp: process_query_def q k query_defs split: option.splits if_splits)
    then show ?thesis using client_text[of ty E pipe ?x Q st] f ty by (simp add: direct_answer_def query_defs)
  next
    assume ty: "ty = DOMAIN_QUERY"
    let ?x = "case fst (l_real_domain E email (gl sv)) of None \<Rightarrow> email | Some p \<Rightarrow> p"
    have f: "text_fits E pipe ?x" using assms(4) ty by (simp add: direct_answer_def query_defs)
    then have "(n, p) = (int (length ?x) + 1, ?x @ [NUL])"
      using ty assms(6) reply_text(1)[OF f] by (simp add: process_query_def q k query_defs)
    then show ?thesis using client_text[of ty E pipe ?x Q st] f ty by (simp add: direct_answer_def query_defs)
  qed
qed

lemma answered:
  assumes "stable_lookups E" "tree_right E (in_start t k g b)" "serve E es (in_start t k g b) = Some (out, 1, sv)" "can_ask E ty email fifo ip (length b)"
    and "ty \<noteq> PWD_QUERY" "ty \<noteq> LIMIT_QUERY" "0 \<le> pipe" "answer_fits E pipe (direct_answer E ty email (ip_text ty ip) g0)"
  shows "\<exists>reply s st'. serve E (es @ [client_event (query_msg ty email fifo ip)]) (in_start t k g b) = Some (out @ [(fifo, reply)], 1, s)
    \<and> client_answer Q pipe ty reply st = Some (st', direct_answer E ty email (ip_text ty ip) g0)"
proof -
  have c: "\<not> l_tcp E" "ty \<in> {1..7}" using assms(4) by (simp_all add: can_ask_def)
  have r: "tree_right E sv"
    by (rule stable_lookups.serve_right[OF assms(1,3,2)])
  have "length (QueryBuf sv) = length b" using serve_length[OF assms(3)] by (simp add: in_start_def)
  then have "can_ask E ty email fifo ip (length (QueryBuf sv))" using assms(4) by simp
  then obtain sv1 where h: "in_handle E (client_event (query_msg ty email fifo ip)) sv
      = (case process_query E ty email (ip_text ty ip) sv1 of (s, n, p) \<Rightarrow> Some (s, Some (fifo, int_bytes n @ p), None))"
    "in_root sv1 = in_root sv"
    by (rule ask)
  obtain s n p where p: "process_query E ty email (ip_text ty ip) sv1 = (s, n, p)" by (metis prod_cases3)
  have r1: "tree_right E sv1" using r h(2) by (simp add: tree_right_def)
  let ?sv0 = "sv1\<lparr>gl := g0\<rparr>"
  have "snd (process_query (uncached E) ty email (ip_text ty ip) ?sv0) = (n, p)"
    using stable_lookups.process_same[OF assms(1) r1 assms(5), of email "ip_text ty ip" ?sv0] p by simp
  then obtain s0 where u: "process_query (uncached E) ty email (ip_text ty ip) ?sv0 = (s0, n, p)"
    by (cases "process_query (uncached E) ty email (ip_text ty ip) ?sv0") simp
  obtain st' where a: "client_answer Q pipe ty (int_bytes n @ p) st = Some (st', direct_answer E ty email (ip_text ty ip) g0)"
    using direct_reply[OF c(2) assms(5,6) _ assms(7) u] assms(8) by auto
  have "serve E [client_event (query_msg ty email fifo ip)] sv = Some ([(fifo, int_bytes n @ p)], 1, s)"
    using h(1) p by simp
  then show ?thesis using serve_append[OF c(1) assms(3)] a by simp
qed

subsection \<open>The flag of a cached entry\<close>

lemma client_entry:
  assumes "text_fits E pipe p"
  shows "client_answer Q pipe PWD_QUERY (int_bytes (int (length p) + 1) @ p @ [NUL]) st
    = do { (st, ok) \<leftarrow> strToPw Q p (length p + 1) st; Some (st, AEntry ok) }"
proof -
  have n: "\<not> (1 + int (length p) > pipe)" "NUL \<notin> set p" using assms by (simp_all add: text_fits_def no_nul_def)
  have k: "nat (1 + int (length p)) = Suc (length p)" by simp
  show ?thesis
    using n reply_text(2)[OF assms, of "p @ [NUL]"]
    by (simp add: client_answer_def Let_def query_defs sent_all takeWhile_neq_append add.commute[of "int (length p)"] k del: nat_add_distrib)
qed

lemma pwd_adds:
  assumes "use_btree E" "l_mem E" "\<not> l_tcp E" "in_root sv a = None" "\<not> find_only sv" "PwdInLookup E a (gl sv) = (Some pw, g)"
    and "process_query E PWD_QUERY a ip sv = (s, n, p)"
  shows "\<exists>e. in_root s = (in_root sv)(a \<mapsto> e) \<and> pwStat e \<and> e_pw e = pw \<and> e_domain e = query_domain E a" "gl s = g" "QueryBuf s = QueryBuf sv"
proof -
  have c: "cache_search E a sv = NewEntry (mk_in_entry (p_ent (gl sv)))" using assms(1-5) by (simp add: cache_search_def)
  have s: "s = add_entry E a (with_pw (query_domain E a) (Some pw) (mk_in_entry (p_ent (gl sv)))) (sv\<lparr>gl := g\<rparr>)"
    using assms(6,7) c by (simp add: process_query_def pwd_query_def query_defs in_look_def Let_def)
  show "\<exists>e. in_root s = (in_root sv)(a \<mapsto> e) \<and> pwStat e \<and> e_pw e = pw \<and> e_domain e = query_domain E a"
    by (intro exI[of _ "with_pw (query_domain E a) (Some pw) (mk_in_entry (p_ent (gl sv)))"])
      (simp add: s add_entry_def tree_put_def Let_def with_pw_def)
  show "gl s = g" "QueryBuf s = QueryBuf sv" by (simp_all add: s add_entry_def tree_put_def Let_def)
qed

lemma pwd_first:
  assumes "use_btree E" "l_mem E" "\<not> l_tcp E" "in_root sv = Map.empty" "\<not> find_only sv" "PwdInLookup E a (gl sv) = (Some pw, g)"
    and "process_query E PWD_QUERY a ip sv = (s, n, p)"
  shows "\<exists>e. in_root s = [a \<mapsto> e] \<and> pwStat e \<and> e_pw e = pw \<and> e_domain e = query_domain E a" "gl s = g" "QueryBuf s = QueryBuf sv"
  using pwd_adds[OF assms(1-3) _ assms(5-7)] assms(4) by auto

lemma user_between:
  assumes "in_root sv b = None" "UserInLookup E b (gl sv) = (m, g)" "process_query E USER_QUERY b ip sv = (s, n, p)"
  shows "a \<noteq> b \<Longrightarrow> in_root s a = in_root sv a" "gl s = g" "QueryBuf s = QueryBuf sv"
proof -
  have "\<exists>x. s = sv\<lparr>gl := g\<rparr> \<or> s = add_entry E b x (sv\<lparr>gl := g\<rparr>)"
    using assms by (auto simp: process_query_def user_query_def in_look_def cache_search_def split: tree_hit.splits if_splits)
  then show "a \<noteq> b \<Longrightarrow> in_root s a = in_root sv a" "gl s = g" "QueryBuf s = QueryBuf sv"
    by (auto simp: add_entry_def tree_put_def Let_def)
qed

lemma pwd_again:
  assumes "use_btree E" "l_mem E" "\<not> l_tcp E" "in_root sv a = Some e" "pwStat e" "process_query E PWD_QUERY a ip sv = (s, n, p)"
  shows "(n, p) = text_reply E (pw_text (l_fmt_uint E) (l_fmt_int E) (e_pw e) (e_domain e) (is_inactive (gl sv)))"
  using assms by (auto simp: process_query_def pwd_query_def cache_search_def query_defs Let_def pwd_reply_def)

lemma stale_flag:
  assumes "use_btree E" "l_mem E" "can_ask E PWD_QUERY a fifo None (length buf)" "can_ask E USER_QUERY b fifo None (length buf)" "a \<noteq> b"
    and "PwdInLookup E a g = (Some pw, g1)" "UserInLookup E b g1 = (m, g2)"
    and "qstrings Q" "entry_clean pw" "clean (query_domain E a)" "fits_fmt (l_fmt_uint E) (l_fmt_int E) (is_inactive g2)"
    and "t = pw_text (l_fmt_uint E) (l_fmt_int E) pw (query_domain E a) (is_inactive g2)" "text_fits E pipe t"
    and "\<forall>x. cstr_of (p_struct st) \<noteq> drop 9 t @ COLON # x"
  shows "\<exists>r1 r2 r3 s st'. serve E (map (\<lambda>(ty, x). client_event (query_msg ty x fifo None)) [(PWD_QUERY, a), (USER_QUERY, b), (PWD_QUERY, a)]) (in_start Map.empty 0 g buf)
      = Some ([(fifo, r1), (fifo, r2), (fifo, r3)], 1, s)
    \<and> client_answer Q pipe PWD_QUERY r3 st = Some (st', AEntry True) \<and> p_ent st' = pw \<and> is_inactive st' = is_inactive g2"
proof -
  let ?sv = "in_start Map.empty 0 g buf"
  have tcp: "\<not> l_tcp E" using assms(3) by (simp add: can_ask_def)
  have st: "QueryBuf ?sv = buf" "in_root ?sv = Map.empty" "gl ?sv = g" "\<not> find_only ?sv" by (simp_all add: in_start_def)
  obtain u1 where u1: "in_handle E (client_event (query_msg PWD_QUERY a fifo None)) ?sv
      = (case process_query E PWD_QUERY a (ip_text PWD_QUERY None) u1 of (s, n, p) \<Rightarrow> Some (s, Some (fifo, int_bytes n @ p), None))"
    "in_root u1 = Map.empty" "gl u1 = g" "\<not> find_only u1" "length (QueryBuf u1) = length buf"
    using ask[of E PWD_QUERY a fifo None ?sv] assms(3) st by auto
  obtain s1 n1 p1 where p1: "process_query E PWD_QUERY a (ip_text PWD_QUERY None) u1 = (s1, n1, p1)" by (metis prod_cases3)
  have 1: "\<exists>e. in_root s1 = [a \<mapsto> e] \<and> pwStat e \<and> e_pw e = pw \<and> e_domain e = query_domain E a" "gl s1 = g1" "length (QueryBuf s1) = length buf"
    using pwd_first[OF assms(1,2) tcp u1(2,4) _ p1, of pw g1] assms(6) u1(3,5) by simp_all
  then obtain e where e: "in_root s1 = [a \<mapsto> e]" "pwStat e" "e_pw e = pw" "e_domain e = query_domain E a" by blast
  obtain u2 where u2: "in_handle E (client_event (query_msg USER_QUERY b fifo None)) s1
      = (case process_query E USER_QUERY b (ip_text USER_QUERY None) u2 of (s, n, p) \<Rightarrow> Some (s, Some (fifo, int_bytes n @ p), None))"
    "in_root u2 = in_root s1" "gl u2 = g1" "length (QueryBuf u2) = length buf"
    using ask[of E USER_QUERY b fifo None s1] assms(4) 1 by auto
  obtain s2 n2 p2 where p2: "process_query E USER_QUERY b (ip_text USER_QUERY None) u2 = (s2, n2, p2)" by (metis prod_cases3)
  have nb: "in_root u2 b = None" and ub: "UserInLookup E b (gl u2) = (m, g2)" using u2(2,3) e(1) assms(5,7) by simp_all
  have 2: "in_root s2 a = Some e" "gl s2 = g2" "length (QueryBuf s2) = length buf"
    using user_between[OF nb ub p2] u2(2-4) e(1) assms(5) by simp_all
  obtain u3 where u3: "in_handle E (client_event (query_msg PWD_QUERY a fifo None)) s2
      = (case process_query E PWD_QUERY a (ip_text PWD_QUERY None) u3 of (s, n, p) \<Rightarrow> Some (s, Some (fifo, int_bytes n @ p), None))"
    "in_root u3 = in_root s2" "gl u3 = g2"
    using ask[of E PWD_QUERY a fifo None s2] assms(3) 2 by auto
  obtain s3 n3 p3 where p3: "process_query E PWD_QUERY a (ip_text PWD_QUERY None) u3 = (s3, n3, p3)" by (metis prod_cases3)
  have "(n3, p3) = text_reply E t"
    using pwd_again[OF assms(1,2) tcp _ e(2) p3] u3(2,3) 2(1) e(3,4) assms(12) by simp
  then have r: "int_bytes n3 @ p3 = int_bytes (int (length t) + 1) @ t @ [NUL]" using reply_text(1)[OF assms(13)] by simp
  obtain st' where c: "strToPw Q t (length t + 1) st = Some (st', True)" "p_ent st' = pw" "is_inactive st' = is_inactive g2"
    using qstrings.strToPw_back[OF assms(8-12,14)] by blast
  have "client_answer Q pipe PWD_QUERY (int_bytes n3 @ p3) st = Some (st', AEntry True)"
    unfolding r client_entry[OF assms(13)] using c(1) by simp
  moreover have "serve E (map (\<lambda>(ty, x). client_event (query_msg ty x fifo None)) [(PWD_QUERY, a), (USER_QUERY, b), (PWD_QUERY, a)]) ?sv
      = Some ([(fifo, int_bytes n1 @ p1), (fifo, int_bytes n2 @ p2), (fifo, int_bytes n3 @ p3)], 1, s3)"
    using u1(1) p1 u2(1) p2 u3(1) p3 by simp
  ultimately show ?thesis using c(2,3) by blast
qed

subsection \<open>The size of the tree\<close>

definition tree_bounded :: "in_env \<Rightarrow> int \<Rightarrow> in_sv \<Rightarrow> bool" where
  "tree_bounded E B sv \<longleftrightarrow> finite (dom (in_root sv)) \<and> int (card (dom (in_root sv))) = btree_count sv
     \<and> (max_btree_count E > 0 \<longrightarrow> max_btree_count E \<le> B \<and> btree_count sv \<le> B \<and> (find_only sv \<or> btree_count sv < B))"

lemma bounded_parts [simp]: "tree_bounded E B (sv\<lparr>QueryBuf := b\<rparr>) = tree_bounded E B sv" "tree_bounded E B (sv\<lparr>query_count := c\<rparr>) = tree_bounded E B sv"
  "tree_bounded E B (sv\<lparr>gl := g\<rparr>) = tree_bounded E B sv" "tree_bounded E B (fst (in_look f sv)) = tree_bounded E B sv"
  by (simp_all add: tree_bounded_def look_buf)

lemma put_bounded: "tree_bounded E B sv \<Longrightarrow> in_root sv key \<noteq> None \<Longrightarrow> tree_bounded E B (tree_put key e sv)"
  by (auto simp: tree_bounded_def tree_put_def insert_absorb domIff)

lemma add_bounded: "tree_bounded E B sv \<Longrightarrow> in_root sv key = None \<Longrightarrow> \<not> find_only sv \<Longrightarrow> tree_bounded E B (add_entry E key e sv)"
  by (auto simp: tree_bounded_def add_entry_def tree_put_def Let_def domIff)

lemma search_cases:
  "cache_search E key sv = OldEntry e \<Longrightarrow> in_root sv key \<noteq> None"
  "cache_search E key sv = NewEntry e \<Longrightarrow> in_root sv key = None \<and> \<not> find_only sv"
  by (auto simp: cache_search_def split: if_splits option.splits)

lemma look_bounded:
  assumes "tree_bounded E B sv" "in_look f sv = (s, r)"
  shows "tree_bounded E B s" "cache_search E key sv = OldEntry e \<Longrightarrow> tree_bounded E B (tree_put key x s)"
    "cache_search E key sv = NewEntry e \<Longrightarrow> tree_bounded E B (add_entry E key x s)"
proof -
  show b: "tree_bounded E B s" using assms bounded_parts(4)[of E B f sv] by simp
  have r: "in_root s = in_root sv" "find_only s = find_only sv" using look_buf(2,4)[of f sv] assms(2) by simp_all
  show "cache_search E key sv = OldEntry e \<Longrightarrow> tree_bounded E B (tree_put key x s)"
    using put_bounded[OF b] search_cases(1) r by simp
  show "cache_search E key sv = NewEntry e \<Longrightarrow> tree_bounded E B (add_entry E key x s)"
    using add_bounded[OF b] search_cases(2) r by simp
qed

lemma query_bounded:
  assumes "tree_bounded E B sv"
  shows "tree_bounded E B (fst (user_query E email sv))" "tree_bounded E B (fst (host_query E email sv))" "tree_bounded E B (fst (alias_query E email sv))"
    "tree_bounded E B (fst (pwd_query E email sv))" "tree_bounded E B (fst (limit_query E email sv))"
  using assms by (auto simp: user_query_def host_query_def alias_query_def pwd_query_def limit_query_def Let_def
      intro: look_bounded[OF assms] split: tree_hit.split prod.split)

lemma process_bounded:
  assumes "tree_bounded E B sv" "process_query E ty email ip sv = (s, n, p)"
  shows "tree_bounded E B s"
  using query_bounded[OF assms(1), of email] assms
  by (auto simp: process_query_def intro: look_bounded(1)[OF assms(1)] split: if_splits prod.splits option.splits)

lemma hangup_bounded: "tree_bounded E B sv \<Longrightarrow> tree_bounded E B (hangup sv)"
  by (auto simp: tree_bounded_def hangup_def)

lemma serve_bounded: "serve E es sv = Some (out, res, s) \<Longrightarrow> tree_bounded E B sv \<Longrightarrow> tree_bounded E B s"
  by (erule serve_keeps(2)[of "tree_bounded E B" E, rotated 3]) (auto dest: process_bounded simp: hangup_bounded)

lemma start_bounded:
  assumes "finite (dom t)" "int (card (dom t)) = n" "max_btree_count E > 0 \<longrightarrow> max_btree_count E \<le> B \<and> n < B"
  shows "tree_bounded E B (in_start t n g b)"
  using assms by (auto simp: tree_bounded_def in_start_def)

lemma empty_bounded: "tree_bounded E (max_btree_count E) (in_start Map.empty 0 g b)"
  by (rule start_bounded) simp_all

text \<open>The rows that are loaded before the start stop at the bound.\<close>

lemma load_bounded:
  assumes "load_rows E rs t n = (t', n', r)" "finite (dom t)" "int (card (dom t)) = n"
  shows "finite (dom t') \<and> int (card (dom t')) = n'
    \<and> (max_btree_count E > 0 \<longrightarrow> n < max_btree_count E \<longrightarrow> n' \<le> max_btree_count E)"
  using assms by (induction E rs t n rule: load_rows.induct) (auto simp: Let_def domIff split: if_splits)

lemma preload_bounded:
  assumes "cache_active_pwd E rows = (t, n, r)"
  shows "finite (dom t) \<and> int (card (dom t)) = n \<and> (max_btree_count E > 0 \<longrightarrow> n \<le> max_btree_count E)"
  using assms load_bounded[of E _ Map.empty 0 t n r] by (auto simp: cache_active_pwd_def split: if_splits option.splits)

lemma served_bounded:
  assumes "cache_active_pwd E rows = (t, n, r)" "serve E es (in_start t n g b) = Some (out, res, s)" "max_btree_count E > 0"
  shows "int (card (dom (in_root s))) \<le> (if n < max_btree_count E then max_btree_count E else max_btree_count E + 1)"
proof -
  note p = preload_bounded[OF assms(1)]
  have "tree_bounded E (if n < max_btree_count E then max_btree_count E else max_btree_count E + 1) (in_start t n g b)"
    using p assms(3) by (intro start_bounded) auto
  from serve_bounded[OF assms(2) this] show ?thesis using assms(3) by (simp add: tree_bounded_def)
qed

subsection \<open>After a hangup\<close>

definition cache_off :: "in_sv \<Rightarrow> bool" where
  "cache_off sv \<longleftrightarrow> find_only sv \<and> in_root sv = Map.empty"

lemma off_look: "cache_off sv \<Longrightarrow> in_look f sv = (s, r) \<Longrightarrow> cache_off s"
  using look_buf(2,4)[of f sv] by (simp add: cache_off_def)

lemma process_off:
  assumes "cache_off sv" "process_query E ty email ip sv = (s, n, p)"
  shows "cache_off s"
proof -
  have "cache_search E email sv = NoEntry" using assms(1) by (simp add: cache_off_def cache_search_def)
  then show ?thesis
    using assms(2) by (auto simp: process_query_def user_query_def host_query_def alias_query_def pwd_query_def limit_query_def Let_def
      intro: off_look[OF assms(1)] split: if_splits prod.splits option.splits)
qed

lemma off_parts [simp]: "cache_off (sv\<lparr>QueryBuf := b\<rparr>) = cache_off sv" "cache_off (sv\<lparr>query_count := c\<rparr>) = cache_off sv" "cache_off (hangup sv) = find_only sv"
  by (simp_all add: cache_off_def hangup_def)

lemma off_only: "cache_off sv \<Longrightarrow> find_only sv"
  by (simp add: cache_off_def)

lemma serve_off: "serve E es sv = Some (out, res, s) \<Longrightarrow> cache_off sv \<Longrightarrow> cache_off s"
  by (erule serve_keeps(2)[of cache_off E, rotated 3]) (auto dest: process_off off_only)

lemma hangup_ends:
  assumes "\<not> l_tcp E" "serve E es (in_start Map.empty 0 g b) = Some (out, 1, sv)" "0 < max_btree_count E" "int (card (dom (in_root sv))) = max_btree_count E"
    and "serve E (es @ EvHup # fs) (in_start Map.empty 0 g b) = Some (out', res, s)"
  shows "in_root s = Map.empty"
proof -
  have "tree_bounded E (max_btree_count E) sv" by (rule serve_bounded[OF assms(2) empty_bounded])
  then have "find_only sv" using assms(3,4) by (auto simp: tree_bounded_def)
  then have off: "cache_off (hangup sv)" by simp
  obtain o2 where "serve E fs (hangup sv) = Some (o2, res, s)"
    using assms(5) serve_append[OF assms(1,2), of "EvHup # fs"] by (auto simp: in_handle_def split: Option.bind_splits)
  then show ?thesis using serve_off[OF _ off] by (simp add: cache_off_def)
qed

end
