(* ===== verification/Inlookup_Samples.thy ===== *)
theory Inlookup_Samples
  imports Inlookup_Serve Account_Samples
begin

text \<open>
  Concrete lookups: one known address, whose account is active; other addresses belong to inactive accounts.
\<close>

definition in_known :: string where
  "in_known = ''ann@a.org''"

definition in_sample :: in_env where
  "in_sample = \<lparr>l_Q = qstr_ref,
     UserInLookup = (\<lambda>e g. if e = in_known then (0, g\<lparr>is_inactive := 0\<rparr>) else (2, g\<lparr>is_inactive := 1\<rparr>)),
     RelayInLookup = (\<lambda>e i g. (if i = ''10.0.0.1'' then 1 else 0, g)),
     findmdahost = (\<lambda>e g. if e = in_known then (Some ''mx'', g) else (None, g\<lparr>userNotFound := 1\<rparr>)),
     AliasInLookup = (\<lambda>e g. (if e = in_known then Some ''&b@a.org'' else None, g)),
     PwdInLookup = (\<lambda>e g. if e = in_known then (Some sample_pw, g\<lparr>is_inactive := 0\<rparr>) else (None, g\<lparr>userNotFound := 1\<rparr>)),
     VlimitInLookup = (\<lambda>e g. ((1, []), g)),
     vget_limits = (\<lambda>e g. ((1, []), g)),
     l_real_domain = (\<lambda>d g. (if d = ''alias.org'' then Some ''a.org'' else None, g)),
     l_rchr = ref_rchr,
     l_fmt_uint = Process.digits 10, l_fmt_int = (\<lambda>i. Process.digits 10 (nat i)),
     l_default_domain = ''a.org'', use_btree = True, max_btree_count = 2, l_pipe_size = 512, l_tcp = False, l_mem = True\<rparr>"

interpretation ref_lookups: stable_lookups in_sample
  by unfold_locales (auto simp: in_sample_def split: if_splits)

definition in_buffer :: string where
  "in_buffer = replicate 512 NUL"

lemma in_buffer_length [simp]: "length in_buffer = 512"
  by (simp add: in_buffer_def)

lemma sample_can_ask:
  assumes "ty \<in> {1..7}"
  shows "can_ask in_sample ty in_known ''/tmp/f'' None 512" "can_ask in_sample ty ''tom@a.org'' ''/tmp/f'' None 512"
  using assms by (simp_all add: can_ask_def in_sample_def in_known_def no_nul_def query_body_def)

lemma sample_digits: "Process.digits 10 555 = ''555''" "Process.digits 10 16 = ''16''" "Process.digits 10 (Suc 0) = ''1''"
  by (simp_all add: Process.digits.simps)

lemma sample_no_query: "ty \<in> {1..7} \<Longrightarrow> ty \<noteq> t \<Longrightarrow> no_query t [client_event (query_msg ty e f i)]"
  by (simp add: no_query_def client_event_def query_msg_def query_body_def)

text \<open>A tree for one entry.\<close>

definition sample_one :: in_env where
  "sample_one = in_sample\<lparr>max_btree_count := 1\<rparr>"

lemma sample_one_full:
  "\<exists>reply sv. serve sample_one [client_event (query_msg PWD_QUERY in_known ''/tmp/f'' None)] (in_start Map.empty 0 new_pw_st in_buffer) = Some ([(''/tmp/f'', reply)], 1, sv)
    \<and> card (dom (in_root sv)) = 1"
proof -
  have c: "can_ask sample_one PWD_QUERY in_known ''/tmp/f'' None (length (QueryBuf (in_start Map.empty 0 new_pw_st in_buffer)))"
    using sample_can_ask(1)[of PWD_QUERY] by (simp add: query_defs in_start_def can_ask_def sample_one_def)
  obtain u where u: "in_handle sample_one (client_event (query_msg PWD_QUERY in_known ''/tmp/f'' None)) (in_start Map.empty 0 new_pw_st in_buffer)
      = (case process_query sample_one PWD_QUERY in_known (ip_text PWD_QUERY None) u of (s, n, p) \<Rightarrow> Some (s, Some (''/tmp/f'', int_bytes n @ p), None))"
    "in_root u = in_root (in_start Map.empty 0 new_pw_st in_buffer)" "gl u = gl (in_start Map.empty 0 new_pw_st in_buffer)" "find_only u = find_only (in_start Map.empty 0 new_pw_st in_buffer)"
    by (rule ask[OF c])
  obtain s n p where p: "process_query sample_one PWD_QUERY in_known (ip_text PWD_QUERY None) u = (s, n, p)" by (metis prod_cases3)
  have "\<exists>e. in_root s = [in_known \<mapsto> e] \<and> pwStat e \<and> e_pw e = sample_pw \<and> e_domain e = query_domain sample_one in_known"
    by (rule pwd_first(1)[OF _ _ _ _ _ _ p]) (use u in \<open>simp_all add: sample_one_def in_sample_def in_start_def\<close>)
  then show ?thesis using u(1) p by auto
qed

text \<open>A row that fills the tree before the start; the next entry goes over the bound.\<close>

definition sample_row :: pw_row where
  "sample_row = \<lparr>r_name = ''zed'', r_domain = ''a.org'', r_passwd = ''x'', r_scram = None, r_uid = ''555'', r_gid = ''555'',
     r_gecos = ''Zed'', r_dir = ''/home/zed'', r_shell = ''NOQUOTA''\<rparr>"

lemma sample_preloaded:
  "\<exists>t reply s. cache_active_pwd sample_one (Some [sample_row]) = (t, 1, 0)
    \<and> serve sample_one [client_event (query_msg PWD_QUERY in_known ''/tmp/f'' None)] (in_start t 1 new_pw_st in_buffer) = Some ([(''/tmp/f'', reply)], 1, s)
    \<and> card (dom (in_root s)) = 2"
proof -
  define t where "t = fst (cache_active_pwd sample_one (Some [sample_row]))"
  have t: "cache_active_pwd sample_one (Some [sample_row]) = (t, 1, 0)" "t = [''zed@a.org'' \<mapsto> row_entry sample_one sample_row]"
    by (simp_all add: t_def cache_active_pwd_def sample_one_def in_sample_def Let_def sample_row_def)
  let ?b = "in_start t 1 new_pw_st in_buffer"
  have c: "can_ask sample_one PWD_QUERY in_known ''/tmp/f'' None (length (QueryBuf ?b))"
    using sample_can_ask(1)[of PWD_QUERY] by (simp add: query_defs in_start_def can_ask_def sample_one_def)
  obtain u where u: "in_handle sample_one (client_event (query_msg PWD_QUERY in_known ''/tmp/f'' None)) ?b
      = (case process_query sample_one PWD_QUERY in_known (ip_text PWD_QUERY None) u of (s, n, p) \<Rightarrow> Some (s, Some (''/tmp/f'', int_bytes n @ p), None))"
    "in_root u = in_root ?b" "gl u = gl ?b" "find_only u = find_only ?b"
    by (rule ask[OF c])
  obtain s n p where p: "process_query sample_one PWD_QUERY in_known (ip_text PWD_QUERY None) u = (s, n, p)" by (metis prod_cases3)
  have "\<exists>e. in_root s = (in_root u)(in_known \<mapsto> e) \<and> pwStat e \<and> e_pw e = sample_pw \<and> e_domain e = query_domain sample_one in_known"
    by (rule pwd_adds(1)[OF _ _ _ _ _ _ p]) (use u t in \<open>simp_all add: sample_one_def in_sample_def in_start_def in_known_def\<close>)
  then have "card (dom (in_root s)) = 2" using u(2) t(2) by (auto simp: in_start_def in_known_def)
  then show ?thesis using u(1) p t(1) by auto
qed

end
