(* ===== verification/Webform.thy ===== *)
theory Webform
  imports Account
begin

text \<open>
  Form values and generated text of the web interface: \<^verbatim>\<open>get_cgi\<close> and \<^verbatim>\<open>GetValue\<close> (\<^verbatim>\<open>cgi.c\<close>), the escaping printer
  \<^verbatim>\<open>vsnprinth\<close> (\<^verbatim>\<open>printh.c\<close>) and \<^verbatim>\<open>cgiurl\<close> (\<^verbatim>\<open>util.c\<close>), with the checks of names in \<^verbatim>\<open>util.c\<close>.

  A string is the list of its bytes in front of the terminator, and a read behind the terminator is undefined. The string functions
  and the constant \<open>FMT_ULONG\<close> of libqmail are parameters; memory does not run out,
  and texts are shorter than 2 GiB.
\<close>

record cg_env =
  cg_Q :: qstr
  cg_start :: "string \<Rightarrow> string \<Rightarrow> bool"
  cg_FMT_ULONG :: nat

subsection \<open>Reading a request\<close>

text \<open>The results of read. A size that is negative leaves no room for what is read, and a program without memory for the size of the
  request does not check it; both are undefined.\<close>

datatype cg_read = CgErr | CgBytes string

fun read_form :: "int \<Rightarrow> cg_read list \<Rightarrow> string \<Rightarrow> string option" where
  "read_form count [] buf = Some buf"
| "read_form count (CgErr # rs) buf = None"
| "read_form count (CgBytes s # rs) buf = (let s = take (nat count - length buf) s in
     if s = [] then Some buf
     else if int (length (buf @ s)) < count then read_form count rs (buf @ s) else Some (buf @ s))"

text \<open>The request, ended by a terminator in the data; \<open>None\<close> inside is a null pointer.\<close>

definition get_cgi :: "cg_env \<Rightarrow> string option \<Rightarrow> string option \<Rightarrow> cg_read list \<Rightarrow> string option ub" where
  "get_cgi E content_length qs rs = (let count = (case content_length of None \<Rightarrow> 0 | Some s \<Rightarrow> scan_int (cg_Q E) s) in
     if count < 0 then None
     else Some (map_option (\<lambda>buf. takeWhile (\<lambda>c. c \<noteq> NUL) (buf @ (case qs of None \<Rightarrow> [] | Some q \<Rightarrow> if q = [] then [] else ''&'' @ q)))
       (read_form count rs [])))"

subsection \<open>The value of a field\<close>

definition CGIValues :: "char \<Rightarrow> nat" where
  "CGIValues c = (let n = of_char c in
     if 48 \<le> n \<and> n \<le> (57 :: nat) then n - 48 else if 65 \<le> n \<and> n \<le> 70 then n - 55 else if 97 \<le> n \<and> n \<le> 102 then n - 87 else 0)"

text \<open>The text from the name of the field on. The flag says that a field can start.\<close>

fun find_field :: "cg_env \<Rightarrow> string \<Rightarrow> bool \<Rightarrow> string \<Rightarrow> string option" where
  "find_field E name first [] = None"
| "find_field E name first (c # cs) = (if first \<and> cg_start E (c # cs) name then Some (c # cs) else find_field E name (c = CHR ''&'') cs)"

text \<open>The first pass counts the bytes of the value, which end at the next field.\<close>

fun value_size :: "string \<Rightarrow> nat ub" where
  "value_size [] = Some 0"
| "value_size (c # cs) = (if c = CHR ''&'' then Some 0
     else if c = CHR ''%'' then (case cs of a # b # r \<Rightarrow>
         map_option (\<lambda>k. k + (if a = CHR ''0'' \<and> b = CHR ''D'' then 0 else 1)) (value_size r) | _ \<Rightarrow> None)
     else map_option (\<lambda>k. k + 1) (value_size cs))"

text \<open>The second pass writes them. A byte that is zero is counted and not written, so that the bytes behind the text are read later;
  their values are undefined. A digit above 127 is a negative index.\<close>

fun value_text :: "string \<Rightarrow> string ub" where
  "value_text [] = Some []"
| "value_text (c # cs) = (if c = CHR ''&'' then Some []
     else if c = CHR ''%'' then (case cs of a # b # r \<Rightarrow>
         if a = CHR ''0'' \<and> b = CHR ''D'' then value_text r
         else if of_char a \<ge> (128 :: nat) \<or> of_char b \<ge> (128 :: nat) then None
         else (let l = CGIValues a * 16 + CGIValues b in if l = 0 then None else map_option (Cons (char_of l)) (value_text r))
       | _ \<Rightarrow> None)
     else map_option (Cons (if c = CHR ''+'' then SP else c)) (value_text cs))"

text \<open>The removal of white space from the end of a block, from the byte \<open>k\<close> on.\<close>

fun trim_loop :: "string \<Rightarrow> nat \<Rightarrow> nat \<Rightarrow> nat ub" where
  "trim_loop b 0 len = (if isspace (b ! 0) then None else Some len)"
| "trim_loop b (Suc k) len = (if isspace (b ! Suc k) then trim_loop b k (len - 1) else Some len)"

definition GetValue :: "cg_env \<Rightarrow> string \<Rightarrow> string \<Rightarrow> (int \<times> string) ub" where
  "GetValue E source name = (case find_field E name True source of
     None \<Rightarrow> Some (- 1, [])
   | Some s \<Rightarrow> (let v = drop (length name) s in do { k \<leftarrow> value_size v; t \<leftarrow> value_text v;
       len \<leftarrow> trim_loop (t @ [NUL]) k (length t); Some (0, take len t) }))"

subsection \<open>The escaping printer\<close>

datatype harg = HInt int | HStr string

datatype stringtype = SPRINTH_NORMAL | SPRINTH_HTML | SPRINTH_CGI

text \<open>A number as snprintf prints it into the buffer of 20 bytes, whose size is given as 19.\<close>

definition int_text :: "int \<Rightarrow> string" where
  "int_text n = take 18 (if n < 0 then CHR ''-'' # Process.digits 10 (nat (- n)) else Process.digits 10 (nat n))"

definition hex_pair :: "char \<Rightarrow> string" where
  "hex_pair c = (let n = of_char c :: nat in [''0123456789abcdef'' ! (n div 16), ''0123456789abcdef'' ! (n mod 16)])"

definition copy_char :: "stringtype \<Rightarrow> char \<Rightarrow> string" where
  "copy_char ty c = (case ty of
     SPRINTH_NORMAL \<Rightarrow> [c]
   | SPRINTH_HTML \<Rightarrow> if c = DQ then ''&quot;'' else if c = CHR ''<'' then ''&lt;'' else if c = CHR ''>'' then ''&gt;''
       else if c = CHR ''&'' then ''&amp;'' else [c]
   | SPRINTH_CGI \<Rightarrow> if c = SP then ''+'' else if \<not> isalnum c \<and> c \<notin> set ''._-'' then CHR ''%'' # hex_pair c else [c])"

text \<open>A directive: the string, how it is escaped, the rest of the format and of the arguments. An argument that is missing, of the wrong
  kind or out of the range of its type is undefined, and so is a format that ends within a directive.\<close>

definition in_range :: "bool \<Rightarrow> nat \<Rightarrow> int \<Rightarrow> bool" where
  "in_range uns w n \<longleftrightarrow> (if uns then 0 \<le> n \<and> n < 2 ^ w else - (2 ^ (w - 1)) \<le> n \<and> n < 2 ^ (w - 1))"

definition int_arg :: "bool \<Rightarrow> nat \<Rightarrow> string \<Rightarrow> harg list \<Rightarrow> (string \<times> stringtype \<times> string \<times> harg list) ub" where
  "int_arg uns w f as = (case as of HInt n # r \<Rightarrow> if in_range uns w n then Some (int_text n, SPRINTH_NORMAL, f, r) else None | _ \<Rightarrow> None)"

definition directive :: "string \<Rightarrow> harg list \<Rightarrow> (string \<times> stringtype \<times> string \<times> harg list) ub" where
  "directive f as = (case f of [] \<Rightarrow> None
   | d # f' \<Rightarrow>
      if d = CHR ''%'' then Some (''%'', SPRINTH_NORMAL, f', as)
      else if d = CHR ''c'' then (case as of HInt n # r \<Rightarrow>
          Some (takeWhile (\<lambda>c. c \<noteq> NUL) [char_of (nat (n mod 256))], SPRINTH_NORMAL, f', r) | _ \<Rightarrow> None)
      else if d \<in> set ''diu'' then int_arg (d = CHR ''u'') 32 f' as
      else if d = CHR ''l'' then (case f' of [] \<Rightarrow> None
        | k # f'' \<Rightarrow> if k \<in> set ''diu'' then int_arg (k = CHR ''u'') 64 f'' as else Some (''*'', SPRINTH_NORMAL, f'', as))
      else if d \<in> set ''sHC'' then (case as of HStr s # r \<Rightarrow>
          Some (s, if d = CHR ''s'' then SPRINTH_NORMAL else if d = CHR ''H'' then SPRINTH_HTML else SPRINTH_CGI, f', r) | _ \<Rightarrow> None)
      else Some (''*'', SPRINTH_NORMAL, f', as))"

text \<open>One character: it is counted, and written while there is room for it and the terminator.\<close>

definition put_char :: "nat \<Rightarrow> char \<Rightarrow> nat \<times> string \<Rightarrow> nat \<times> string" where
  "put_char siz c = (\<lambda>(printed, b). (printed + 1, if printed + 1 < siz then b @ [c] else b))"

function print_loop :: "nat \<Rightarrow> string \<Rightarrow> harg list \<Rightarrow> nat \<times> string \<Rightarrow> (nat \<times> string) ub" where
  "print_loop siz [] as st = Some st"
| "print_loop siz (c # f) as st = (if c \<noteq> CHR ''%'' then print_loop siz f as (put_char siz c st)
     else (case directive f as of None \<Rightarrow> None
       | Some (s, ty, f', as') \<Rightarrow> print_loop siz f' as' (fold (put_char siz) (concat (map (copy_char ty) s)) st)))"
  by pat_completeness auto

lemma directive_shorter: "directive f as = Some (s, ty, f', as') \<Longrightarrow> length f' < length f"
  by (auto simp: directive_def int_arg_def split: list.splits harg.splits if_splits)

termination print_loop
  by (relation "measure (\<lambda>(siz, f, as, st). length f)") (auto dest: directive_shorter)

text \<open>The number of bytes and the string in the buffer. A buffer without room for the terminator is undefined, also a null pointer with
  the size 0.\<close>

definition vsnprinth :: "bool \<Rightarrow> nat \<Rightarrow> string \<Rightarrow> harg list \<Rightarrow> (int \<times> string) ub" where
  "vsnprinth null siz format as = (if null \<and> siz > 0 then Some (- 1, [])
     else if siz = 0 then None
     else map_option (\<lambda>(printed, b). (int printed, b)) (print_loop siz format as (0, [])))"

definition snprinth :: "bool \<Rightarrow> nat \<Rightarrow> string \<Rightarrow> harg list \<Rightarrow> (int \<times> string) ub" where
  "snprinth null siz format as = vsnprinth null siz format as"

text \<open>What is written to the standard output.\<close>

definition printh :: "string \<Rightarrow> harg list \<Rightarrow> (int \<times> string) ub" where
  "printh format as = vsnprinth False 4095 format as"

subsection \<open>Addresses of pages\<close>

text \<open>The loop ends in its second round; the time is passed as an int, which is undefined from 2038 on.\<close>

fun cgiurl_loop :: "nat \<Rightarrow> nat \<Rightarrow> harg list \<Rightarrow> string ub" where
  "cgiurl_loop 0 len as = None"
| "cgiurl_loop (Suc n) len as = do { (plen, url) \<leftarrow> snprinth False len ''%s/com/%s?user=%C&dom=%C&time=%d'' as;
     if plen < int len then Some url else cgiurl_loop n (nat (plen + 28)) as }"

definition cgiurl :: "cg_env \<Rightarrow> string \<Rightarrow> string \<Rightarrow> string \<Rightarrow> string \<Rightarrow> int \<Rightarrow> string ub" where
  "cgiurl E cgipath action usr dmn mytime =
     cgiurl_loop 2 (length cgipath + length action + length usr + length dmn + cg_FMT_ULONG E + 28) [HStr cgipath, HStr action, HStr usr, HStr dmn, HInt mytime]"

subsection \<open>Names\<close>

definition allowed_char :: string where
  "allowed_char = ''.-+=_&''"

text \<open>The number of the check that fails. \<open>at\<close> is the text from the first @ on.\<close>

fun addr_chars :: "qstr \<Rightarrow> string \<Rightarrow> string option \<Rightarrow> string option option" where
  "addr_chars Q [] at = Some at"
| "addr_chars Q (c # cs) at = (if c = CHR ''@'' then (case at of Some a \<Rightarrow> None | None \<Rightarrow> addr_chars Q cs (Some (c # cs)))
     else if \<not> isalnum c \<and> str_chr Q allowed_char c = length allowed_char then None else addr_chars Q cs at)"

text \<open>The address and the result. The pointer is at the end of the address when it is turned to lower case, so that nothing is
  changed.\<close>

definition check_email_addr :: "qstr \<Rightarrow> string \<Rightarrow> string \<times> int" where
  "check_email_addr Q addr = (case addr_chars Q addr None of
     None \<Rightarrow> (addr, 1)
   | Some None \<Rightarrow> (addr, 1)
   | Some (Some a) \<Rightarrow> if str_chr Q a CHR ''.'' \<ge> length a then (addr, 1) else (addr @ lowerit [], 0))"

definition str_replace :: "string \<Rightarrow> char \<Rightarrow> char \<Rightarrow> string" where
  "str_replace s orig repl = map (\<lambda>c. if c = orig then repl else c) s"

definition ispunct :: "char \<Rightarrow> bool" where
  "ispunct c \<longleftrightarrow> 33 \<le> (of_char c :: nat) \<and> (of_char c :: nat) \<le> 126 \<and> \<not> isalnum c"

fun local_chars :: "qstr \<Rightarrow> string \<Rightarrow> int" where
  "local_chars Q [] = 0"
| "local_chars Q (c # cs) = (if \<not> isalnum c \<and> \<not> ispunct c then 1 else if isspace c then 1
     else if ispunct c \<and> str_chr Q allowed_char c = length allowed_char then 1 else local_chars Q cs)"

definition fixup_local_name :: "qstr \<Rightarrow> string \<Rightarrow> string \<times> int" where
  "fixup_local_name Q addr = (if addr = [] then (addr, 1) else (lowerit addr, local_chars Q (lowerit addr)))"

end
