(* ===== verification/Websession.thy ===== *)
theory Websession
  imports Webform Pwstruct
begin

text \<open>
  Sessions of the web interface: \<^verbatim>\<open>main\<close> of \<^verbatim>\<open>iwebadmin.c\<close> with its three branches (a command of a session, the change of a
  password, a login) and the checks of \<^verbatim>\<open>auth.c\<close>, as compiled with \<^verbatim>\<open>IPAUTH\<close>.

  A session is a file in the mail directory of the user that is named after the time of the login. The user database, crypt, the limits
  of a domain and the system calls are parameters; \<open>wb_rename\<close> is the result of a rename that is tried; the pages that are shown, the language and the log are left out. The numbers are
  the exit codes of \<^verbatim>\<open>common.h\<close>.
\<close>

record web_env =
  wb_cg :: cg_env
  REMOTE_ADDR :: "string option"
  HTTP_X_FORWARDED_FOR :: "string option"
  PATH_INFO :: "string option"
  REQUEST_METHOD :: "string option"
  CONTENT_LENGTH :: "string option"
  QUERY_STRING :: "string option"
  wb_stdin :: "cg_read list"
  wb_assign :: "string \<Rightarrow> string option"
  wb_suid :: bool
  wb_chdir :: "nat \<Rightarrow> bool"
  wb_rename :: bool
  wb_getpw :: "string \<Rightarrow> string \<Rightarrow> passwd option"
  wb_limits :: "string \<Rightarrow> bool"
  wb_mask :: "string \<Rightarrow> u32"
  wb_scram :: "string \<Rightarrow> (string \<times> string option) option"
  wb_crypt :: "string \<Rightarrow> string \<Rightarrow> string"
  wb_https :: "string option"
  wb_trivial :: bool
  wb_ipasswd :: "string \<Rightarrow> string \<Rightarrow> string \<Rightarrow> int"
  wb_scan_ulong :: "string \<Rightarrow> nat"
  wb_fmt_ulong :: "nat \<Rightarrow> string"
  wb_rchr :: "string \<Rightarrow> char \<Rightarrow> nat"
  wb_line :: "string \<Rightarrow> string option"
  wb_behind :: string
  wb_now :: nat
  wb_readdir :: "string \<Rightarrow> string list option"
  wb_unlink :: "string \<Rightarrow> bool"
  wb_open :: bool
  wb_wrote :: "nat option"

record web_st =
  ws_files :: "string \<Rightarrow> string option"
  ws_dirs :: "string \<Rightarrow> bool"
  ws_changed :: "(string \<times> string \<times> string) list"

datatype admin_type = NO_ADMIN | USER_ADMIN | DOMAIN_ADMIN

datatype web_end = WExit nat | WCommand string admin_type | WMenu | WModuser

definition QA_ADMIN :: u32 where
  "QA_ADMIN = 0x80"

definition NO_PASSWD_CHNG :: u32 where
  "NO_PASSWD_CHNG = 0x01"

definition wb_Q :: "web_env \<Rightarrow> qstr" where
  "wb_Q W = cg_Q (wb_cg W)"

text \<open>The value of a field of the request; it is empty when the field is missing.\<close>

definition value_of :: "web_env \<Rightarrow> string \<Rightarrow> string \<Rightarrow> string ub" where
  "value_of W q n = map_option snd (GetValue (wb_cg W) q n)"

text \<open>The address of the client, from a header of the request when there is one.\<close>

definition ip_addr :: "web_env \<Rightarrow> string" where
  "ip_addr W = (case HTTP_X_FORWARDED_FOR W of Some x \<Rightarrow> x | None \<Rightarrow> (case REMOTE_ADDR W of Some a \<Rightarrow> a | None \<Rightarrow> ''127.0.0.1''))"

subsection \<open>Checks\<close>

definition set_admin_type :: "qstr \<Rightarrow> string \<Rightarrow> string \<Rightarrow> u32 \<Rightarrow> admin_type" where
  "set_admin_type Q usr dmn gid = (if dmn \<noteq> [] then
       (if str_diffn Q usr ''postmaster'' (length usr) = 0 then DOMAIN_ADMIN
        else if gid AND QA_ADMIN \<noteq> 0 then DOMAIN_ADMIN else USER_ADMIN)
     else NO_ADMIN)"

definition session_file :: "passwd \<Rightarrow> string \<Rightarrow> string" where
  "session_file pw t = pw_dir pw @ ''/Maildir/'' @ t @ ''.qw''"

definition drop_file :: "string \<Rightarrow> web_st \<Rightarrow> web_st" where
  "drop_file f st = st\<lparr>ws_files := (ws_files st)(f := None)\<rparr>"

text \<open>The exit code when the check fails. The time of the login is a number of 64 bits with a sign. The line is not terminated in the buffer: the bytes behind it are read, too.\<close>

definition auth_user_domain :: "web_env \<Rightarrow> string \<Rightarrow> passwd \<Rightarrow> string \<Rightarrow> web_st \<Rightarrow> (web_st \<times> nat option) ub" where
  "auth_user_domain W ip pw t st = (let f = session_file pw t in
     if \<not> wb_chdir W 1 then Some (st, Some 2)
     else (case ws_files st f of None \<Rightarrow> Some (st, Some 4)
       | Some d \<Rightarrow> (case wb_line W d of None \<Rightarrow> Some (st, Some 4)
         | Some l \<Rightarrow> do { v \<leftarrow> value_of W (l @ wb_behind W) ''ip_addr='';
             (let time1 = sint (word_of_nat (wb_scan_ulong W t) :: u64) in
              if ip \<noteq> v then Some (drop_file f st, Some 9)
              else if time1 + 7200 \<ge> 2 ^ 63 then None
              else if int (wb_now W) > time1 + 7200 then Some (drop_file f st, Some 15)
              else Some (st, None)) })))"

text \<open>The same checks with other messages.\<close>

definition auth_system :: "web_env \<Rightarrow> string \<Rightarrow> passwd \<Rightarrow> string \<Rightarrow> web_st \<Rightarrow> (web_st \<times> nat option) ub" where
  "auth_system W ip pw t st = auth_user_domain W ip pw t st"

text \<open>0 for a password that is right.\<close>

definition auth_user :: "web_env \<Rightarrow> passwd \<Rightarrow> string \<Rightarrow> int" where
  "auth_user W pw password = (let Q = wb_Q W; p = pw_passwd pw in
     if (str_diffn Q p ''{SCRAM-SHA-1}'' 13 = 0 \<or> str_diffn Q p ''{SCRAM-SHA-256}'' 15 = 0) \<and> wb_scram W p = None then 1
     else (let (ptr, clear) = (if str_diffn Q p ''{SCRAM-SHA-1}'' 13 = 0 \<or> str_diffn Q p ''{SCRAM-SHA-256}'' 15 = 0
         then (case wb_scram W p of Some x \<Rightarrow> x | None \<Rightarrow> (p, None)) else (p, None)) in
       if ptr = wb_crypt W password ptr then 0
       else if wb_https W \<noteq> None \<and> wb_https W \<noteq> Some ''on'' then 1
       else if wb_trivial W \<and> p = password then 0
       else if clear = Some password then 0 else 1))"

subsection \<open>A command\<close>

text \<open>A rename that succeeds: the entry \<open>b\<close> and what is below it gives way to the entry \<open>a\<close> and what is below that. Paths are compared
  as texts.\<close>

definition under :: "string \<Rightarrow> string \<Rightarrow> bool" where
  "under a f \<longleftrightarrow> f = a \<or> take (length a + 1) f = a @ ''/''"

definition renamed :: "string \<Rightarrow> string \<Rightarrow> web_st \<Rightarrow> web_st" where
  "renamed a b st = st\<lparr>ws_files := (\<lambda>f. if under a f then None else ws_files st (if under b f then a @ drop (length b) f else f)),
     ws_dirs := (\<lambda>f. \<not> under a f \<and> ws_dirs st (if under b f then a @ drop (length b) f else f))\<rparr>"

text \<open>The entry \<^verbatim>\<open>vacation\<close> of the directory of the domain is renamed to \<^verbatim>\<open>autoresp\<close>; the result \<open>False\<close> is a failed rename.\<close>

definition vacation_there :: "string \<Rightarrow> web_st \<Rightarrow> bool" where
  "vacation_there dir st \<longleftrightarrow> ws_files st (dir @ ''/vacation'') \<noteq> None \<or> ws_dirs st (dir @ ''/vacation'')"

definition move_vacation :: "string \<Rightarrow> web_st \<Rightarrow> web_st" where
  "move_vacation dir st = (if vacation_there dir st then renamed (dir @ ''/vacation'') (dir @ ''/autoresp'') st else st)"

definition com_branch :: "web_env \<Rightarrow> string \<Rightarrow> string \<Rightarrow> web_st \<Rightarrow> (web_st \<times> web_end) ub" where
  "com_branch W pinfo q st = do {
     usr \<leftarrow> value_of W q ''user=''; dmn \<leftarrow> value_of W q ''dom=''; t \<leftarrow> value_of W q ''time='';
     (case wb_assign W dmn of None \<Rightarrow> Some (st, WExit 10)
      | Some dir \<Rightarrow>
       if \<not> wb_suid W then Some (st, WExit 9)
       else if \<not> wb_chdir W 0 \<or> vacation_there dir st \<and> \<not> wb_rename W then Some (st, WExit 2)
       else (let st = move_vacation dir st in case wb_getpw W usr dmn of None \<Rightarrow> Some (st, WExit 3)
         | Some pw \<Rightarrow>
             if \<not> wb_limits W dmn \<or> \<not> wb_limits W (usr @ ''@'' @ dmn) then Some (st, WExit 3)
             else (let a = set_admin_type (wb_Q W) usr dmn (pw_gid pw) in do {
               (st, r) \<leftarrow> (if a = NO_ADMIN then auth_system W (ip_addr W) pw t st else auth_user_domain W (ip_addr W) pw t st);
               Some (st, case r of Some n \<Rightarrow> WExit n | None \<Rightarrow> WCommand (drop 5 pinfo) a) }))) }"

subsection \<open>The change of a password\<close>

definition passwd_branch :: "web_env \<Rightarrow> string \<Rightarrow> web_st \<Rightarrow> (web_st \<times> web_end) ub" where
  "passwd_branch W q st = do {
     addr \<leftarrow> value_of W q ''address=''; old \<leftarrow> value_of W q ''oldpass=''; new1 \<leftarrow> value_of W q ''newpass1=''; new2 \<leftarrow> value_of W q ''newpass2='';
     (let at = wb_rchr W addr CHR ''@''; usr = take at addr; dmn = drop (Suc at) addr; Q = wb_Q W in
      if addr = [] then Some (st, WExit 1)
      else if at \<ge> length addr then Some (st, WExit 1)
      else if old = [] then Some (st, WExit 5)
      else if new1 = [] \<or> new2 = [] then Some (st, WExit 5)
      else if str_diffn Q new1 new2 (max (length new1) (length new2)) \<noteq> 0 then Some (st, WExit 5)
      else if str_str Q usr new1 \<noteq> None then Some (st, WExit 5)
      else if wb_assign W dmn = None then Some (st, WExit 10)
      else if \<not> wb_suid W then Some (st, WExit 9)
      else if \<not> wb_chdir W 0 then Some (st, WExit 2)
      else (case wb_getpw W usr dmn of None \<Rightarrow> Some (st, WExit 3)
        | Some pw \<Rightarrow>
            if pw_gid pw AND NO_PASSWD_CHNG \<noteq> 0 then Some (st, WExit 5)
            else if \<not> wb_limits W dmn \<or> \<not> wb_limits W (usr @ ''@'' @ dmn) then Some (st, WExit 2)
            else (let pw = pw\<lparr>pw_gid := pw_gid pw OR wb_mask W (usr @ ''@'' @ dmn)\<rparr> in
              if pw_gid pw AND NO_PASSWD_CHNG \<noteq> 0 then Some (st, WExit 5)
              else if auth_user W pw old \<noteq> 0 then Some (st, WExit 3)
              else if wb_ipasswd W usr dmn new1 \<noteq> 1 then Some (st, WExit 5)
              else Some (st\<lparr>ws_changed := ws_changed st @ [(usr, dmn, new1)]\<rparr>, WExit 0)))) }"

subsection \<open>A login\<close>

text \<open>The sessions before are removed: the files of the directory whose names contain the suffix. The exit code when one cannot be
  removed.\<close>

fun del_loop :: "web_env \<Rightarrow> string \<Rightarrow> string list \<Rightarrow> web_st \<Rightarrow> web_st \<times> nat option" where
  "del_loop W dirname [] st = (st, None)"
| "del_loop W dirname (n # ns) st = (if str_str (wb_Q W) n ''.qw'' \<noteq> None then
       (if wb_unlink W (dirname @ ''/'' @ n) then del_loop W dirname ns (drop_file (dirname @ ''/'' @ n) st) else (st, Some 111))
     else del_loop W dirname ns st)"

definition del_id_files :: "web_env \<Rightarrow> string \<Rightarrow> web_st \<Rightarrow> web_st \<times> nat option" where
  "del_id_files W dirname st = (case wb_readdir W dirname of None \<Rightarrow> (st, None) | Some ns \<Rightarrow> del_loop W dirname ns st)"

definition session_text :: "string \<Rightarrow> string \<Rightarrow> string \<Rightarrow> string" where
  "session_text ip returntext returnhttp = ''ip_addr='' @ ip @ ''&returntext='' @ returntext @ ''&returnhttp='' @ returnhttp @ [LF]"

definition login_branch :: "web_env \<Rightarrow> string \<Rightarrow> web_st \<Rightarrow> (web_st \<times> web_end) ub" where
  "login_branch W q st = do {
     usr \<leftarrow> value_of W q ''username=''; dmn \<leftarrow> value_of W q ''domain=''; password \<leftarrow> value_of W q ''password='';
     if dmn = [] \<or> usr = [] then Some (st, WExit 1)
     else (let i = wb_rchr W usr CHR ''@''; dmn = (if i < length usr then drop (Suc i) usr else dmn) in
       if wb_assign W dmn = None then Some (st, WExit 10)
       else if \<not> wb_suid W then Some (st, WExit 9)
       else if \<not> wb_chdir W 0 then Some (st, WExit 2)
       else (case wb_getpw W usr dmn of None \<Rightarrow> Some (st, WExit 3)
         | Some pw \<Rightarrow>
             if \<not> wb_limits W dmn \<or> \<not> wb_limits W (usr @ ''@'' @ dmn) then Some (st, WExit 2)
             else if auth_user W pw password \<noteq> 0 then Some (st, WExit 3)
             else (let (st, r) = del_id_files W (pw_dir pw @ ''/Maildir'') st; f = session_file pw (wb_fmt_ulong W (wb_now W)) in
               if r \<noteq> None then Some (st, WExit (the r))
               else if \<not> wb_open W then Some (st, WExit 4)
               else do { rt \<leftarrow> value_of W q ''returntext=''; rh \<leftarrow> value_of W q ''returnhttp='';
                 (let d = session_text (ip_addr W) rt rh; put = (\<lambda>x. st\<lparr>ws_files := (ws_files st)(f := Some x)\<rparr>) in
                  case wb_wrote W of Some k \<Rightarrow> Some (put (take k d), WExit 4)
                  | None \<Rightarrow> Some (put d, if set_admin_type (wb_Q W) usr dmn (pw_gid pw) = DOMAIN_ADMIN then WMenu else WModuser)) }))) }"

subsection \<open>The program\<close>

text \<open>The request; a null pointer, after a failed read, is undefined.\<close>

definition request_text :: "web_env \<Rightarrow> string ub" where
  "request_text W = (let rm = (case REQUEST_METHOD W of None \<Rightarrow> [] | Some r \<Rightarrow> r) in
     if str_diffn (wb_Q W) rm ''POST'' 4 = 0 then Option.bind (get_cgi (wb_cg W) (CONTENT_LENGTH W) (QUERY_STRING W) (wb_stdin W)) id
     else Some (case QUERY_STRING W of None \<Rightarrow> [] | Some q \<Rightarrow> q))"

definition web_main :: "web_env \<Rightarrow> web_st \<Rightarrow> (web_st \<times> web_end) ub" where
  "web_main W st = do { q \<leftarrow> request_text W;
     (let pinfo = (case PATH_INFO W of None \<Rightarrow> [] | Some p \<Rightarrow> p); here = (\<lambda>p n. PATH_INFO W \<noteq> None \<and> str_diffn (wb_Q W) pinfo p n = 0) in
      if here ''/com/'' 5 then com_branch W pinfo q st
      else if here ''/passwd/'' 7 then passwd_branch W q st
      else if REQUEST_METHOD W \<noteq> None \<and> REQUEST_METHOD W \<noteq> Some [] then login_branch W q st
      else Some (st, WExit 0)) }"

end
