(* ===== verification/Webform_Spec.thy ===== *)
theory Webform_Spec
  imports Webform "HOL-Library.Sublist"
begin

text \<open>
  What forms and pages promise: a value that was printed with \<open>%C\<close> is read back by \<^verbatim>\<open>GetValue\<close>, text printed with \<open>%H\<close>
  adds no markup, a buffer is never overrun.
\<close>

subsection \<open>The buffer\<close>

text \<open>The whole output, as characters of the format (\<open>None\<close>) and strings with the way they are escaped.\<close>

function segments :: "string \<Rightarrow> harg list \<Rightarrow> (stringtype option \<times> string) list ub" where
  "segments [] as = Some []"
| "segments (c # f) as = (if c \<noteq> CHR ''%'' then map_option (Cons (None, [c])) (segments f as)
     else (case directive f as of None \<Rightarrow> None
       | Some (s, ty, f', as') \<Rightarrow> map_option (Cons (Some ty, s)) (segments f' as')))"
  by pat_completeness auto
termination
  by (relation "measure (\<lambda>(f, as). length f)") (auto dest: directive_shorter)

definition render :: "stringtype option \<times> string \<Rightarrow> string" where
  "render x = (case fst x of None \<Rightarrow> snd x | Some ty \<Rightarrow> concat (map (copy_char ty) (snd x)))"

definition printed_text :: "string \<Rightarrow> harg list \<Rightarrow> string ub" where
  "printed_text f as = map_option (\<lambda>xs. concat (map render xs)) (segments f as)"

definition kept_part :: "nat \<Rightarrow> string \<Rightarrow> nat \<times> string" where
  "kept_part siz x = (length x, take (siz - 1) x)"

lemma put_kept: "put_char siz c (kept_part siz x) = kept_part siz (x @ [c])"
  by (auto simp: put_char_def kept_part_def min_def)

lemma fold_kept: "fold (put_char siz) s (kept_part siz x) = kept_part siz (x @ s)"
  by (induction s arbitrary: x) (simp_all add: put_kept)

lemma loop_kept: "print_loop siz f as (kept_part siz x) = map_option (\<lambda>y. kept_part siz (x @ y)) (printed_text f as)"
proof (induction f as arbitrary: x rule: segments.induct)
  case (2 c f as)
  show ?case
  proof (cases "c = CHR ''%''")
    case False
    then show ?thesis using 2(1)[OF False, of "x @ [c]"]
      by (cases "segments f as") (simp_all add: put_kept printed_text_def render_def)
  next
    case True
    show ?thesis
    proof (cases "directive f as")
      case (Some d)
      obtain s ty f' as' where d: "d = (s, ty, f', as')" by (metis prod_cases4)
      have "\<not> c \<noteq> CHR ''%''" using True by simp
      from 2(2)[OF this Some[unfolded d] refl refl refl, of "x @ concat (map (copy_char ty) s)"]
      show ?thesis using True Some d
        by (cases "segments f' as'") (simp_all add: fold_kept printed_text_def render_def)
    qed (use True in \<open>simp add: printed_text_def\<close>)
  qed
qed (simp add: printed_text_def)

lemma vsnprinth_text:
  "0 < siz \<Longrightarrow> vsnprinth False siz f as = map_option (\<lambda>y. (int (length y), take (siz - 1) y)) (printed_text f as)"
  using loop_kept[of siz f as "[]"] by (cases "printed_text f as") (simp_all add: vsnprinth_def kept_part_def)

subsection \<open>Escaped text\<close>

definition html_text :: "string \<Rightarrow> string" where
  "html_text v = concat (map (copy_char SPRINTH_HTML) v)"

definition cgi_text :: "string \<Rightarrow> string" where
  "cgi_text v = concat (map (copy_char SPRINTH_CGI) v)"

lemma normal_text [simp]: "concat (map (copy_char SPRINTH_NORMAL) s) = s"
  by (induction s) (simp_all add: copy_char_def)

lemma texts_simps [simp]: "html_text [] = []" "html_text (c # v) = copy_char SPRINTH_HTML c @ html_text v"
  "cgi_text [] = []" "cgi_text (c # v) = copy_char SPRINTH_CGI c @ cgi_text v"
  by (simp_all add: html_text_def cgi_text_def)

text \<open>How a browser reads the text of a page.\<close>

fun html_read :: "string \<Rightarrow> string" where
  "html_read [] = []"
| "html_read (c # cs) = (if prefix ''&quot;'' (c # cs) then DQ # html_read (drop 5 cs)
     else if prefix ''&lt;'' (c # cs) then CHR ''<'' # html_read (drop 3 cs)
     else if prefix ''&gt;'' (c # cs) then CHR ''>'' # html_read (drop 3 cs)
     else if prefix ''&amp;'' (c # cs) then CHR ''&'' # html_read (drop 4 cs)
     else c # html_read cs)"

definition is_markup :: "char \<Rightarrow> bool" where
  "is_markup c \<longleftrightarrow> c = CHR ''<'' \<or> c = CHR ''>'' \<or> c = DQ"

lemma html_no_markup: "filter is_markup (html_text v) = []"
  by (induction v) (simp_all add: copy_char_def is_markup_def)

lemma html_read_text: "html_read (html_text v) = v"
  by (induction v) (simp_all add: copy_char_def)

lemma nibbles: "of_char c mod 16 < (16 :: nat)" "of_char c div 16 < (16 :: nat)"
  using less_mult_imp_div_less[of "of_char c" 16 16] nat_of_char_less_256[of c] by simp_all

lemma hex_values:
  assumes "n < 16"
  shows "CGIValues (''0123456789abcdef'' ! n) = n" "of_char (''0123456789abcdef'' ! n) < (128 :: nat)" "''0123456789abcdef'' ! n \<noteq> CHR ''D''"
    "isalnum (''0123456789abcdef'' ! n)"
proof -
  have "n \<in> {0, 1, 2, 3, 4, 5, 6, 7, 8, 9, 10, 11, 12, 13, 14, 15}" using assms by (simp only: insert_iff empty_iff) arith
  then show "CGIValues (''0123456789abcdef'' ! n) = n" "of_char (''0123456789abcdef'' ! n) < (128 :: nat)" "''0123456789abcdef'' ! n \<noteq> CHR ''D''"
    "isalnum (''0123456789abcdef'' ! n)"
    by (elim insertE emptyE; simp add: CGIValues_def isalnum_def isalpha_def isupper_def isdigit_def)+
qed

definition plain_cgi :: "char \<Rightarrow> bool" where
  "plain_cgi c \<longleftrightarrow> isalnum c \<or> c \<in> set ''._-''"

lemma plain_not: "plain_cgi c \<Longrightarrow> c \<noteq> CHR ''&'' \<and> c \<noteq> CHR ''%'' \<and> c \<noteq> CHR ''+'' \<and> c \<noteq> NUL \<and> c \<noteq> SP \<and> \<not> is_markup c"
  by (auto simp: plain_cgi_def is_markup_def isalnum_def isalpha_def isupper_def isdigit_def)

lemma cgi_char:
  "c = SP \<Longrightarrow> copy_char SPRINTH_CGI c = ''+''"
  "plain_cgi c \<Longrightarrow> copy_char SPRINTH_CGI c = [c]"
  "c \<noteq> SP \<Longrightarrow> \<not> plain_cgi c \<Longrightarrow> copy_char SPRINTH_CGI c
    = [CHR ''%'', ''0123456789abcdef'' ! (of_char c div 16), ''0123456789abcdef'' ! (of_char c mod 16)]"
  using plain_not[of SP] by (auto simp: copy_char_def hex_pair_def Let_def plain_cgi_def)

lemma cgi_char_set: "x \<in> set (copy_char SPRINTH_CGI c) \<Longrightarrow> x = CHR ''+'' \<or> x = CHR ''%'' \<or> plain_cgi x"
  using cgi_char[of c] hex_values(4)[OF nibbles(1)[of c]] hex_values(4)[OF nibbles(2)[of c]]
  by (cases "c = SP"; cases "plain_cgi c") (auto simp: plain_cgi_def simp del: nth_Cons_numeral)

lemma cgi_text_set: "x \<in> set (cgi_text v) \<Longrightarrow> x = CHR ''+'' \<or> x = CHR ''%'' \<or> plain_cgi x"
  using cgi_char_set by (induction v) auto

lemma cgi_text_free: "CHR ''&'' \<notin> set (cgi_text v)" "NUL \<notin> set (cgi_text v)" "x \<in> set (cgi_text v) \<Longrightarrow> \<not> is_markup x"
proof -
  have "\<not> is_markup CHR ''+''" "\<not> is_markup CHR ''%''" by (simp_all add: is_markup_def)
  then show "CHR ''&'' \<notin> set (cgi_text v)" "NUL \<notin> set (cgi_text v)" "x \<in> set (cgi_text v) \<Longrightarrow> \<not> is_markup x"
    using cgi_text_set[of _ v] plain_not by fastforce+
qed

lemma cgi_no_markup: "filter is_markup (cgi_text v) = []"
  using cgi_text_free(3)[of _ v] by (simp add: filter_empty_conv)

subsection \<open>Formats\<close>

text \<open>What a page is made of: text of the format, texts and numbers that are put in.\<close>

datatype page_item = Lit string | Percent | Plain string | Html string | Cgi string | Number int

fun item_format :: "page_item \<Rightarrow> string" where
  "item_format (Lit s) = s"
| "item_format Percent = ''%%''"
| "item_format (Plain s) = ''%s''"
| "item_format (Html s) = ''%H''"
| "item_format (Cgi s) = ''%C''"
| "item_format (Number n) = ''%d''"

fun item_args :: "page_item \<Rightarrow> harg list" where
  "item_args (Plain s) = [HStr s]"
| "item_args (Html s) = [HStr s]"
| "item_args (Cgi s) = [HStr s]"
| "item_args (Number n) = [HInt n]"
| "item_args _ = []"

fun item_ok :: "page_item \<Rightarrow> bool" where
  "item_ok (Lit s) = (CHR ''%'' \<notin> set s)"
| "item_ok (Number n) = (- (2 ^ 31) \<le> n \<and> n < 2 ^ 31)"
| "item_ok _ = True"

fun item_text :: "page_item \<Rightarrow> string" where
  "item_text (Lit s) = s"
| "item_text Percent = ''%''"
| "item_text (Plain s) = s"
| "item_text (Html s) = html_text s"
| "item_text (Cgi s) = cgi_text s"
| "item_text (Number n) = (if n < 0 then CHR ''-'' # Process.digits 10 (nat (- n)) else Process.digits 10 (nat n))"

fun item_markup :: "page_item \<Rightarrow> string" where
  "item_markup (Lit s) = filter is_markup s"
| "item_markup (Plain s) = filter is_markup s"
| "item_markup _ = []"

definition page_format :: "page_item list \<Rightarrow> string" where
  "page_format xs = concat (map item_format xs)"

definition page_args :: "page_item list \<Rightarrow> harg list" where
  "page_args xs = concat (map item_args xs)"

definition page_text :: "page_item list \<Rightarrow> string" where
  "page_text xs = concat (map item_text xs)"

lemma decimal_length: "n < 10 ^ Suc k \<Longrightarrow> length (Process.digits 10 n) \<le> Suc k"
proof (induction k arbitrary: n)
  case 0
  then show ?case by (subst Process.digits.simps) simp
next
  case (Suc k)
  have "n div 10 < 10 ^ Suc k" using Suc.prems by (simp add: div_less_iff_less_mult mult.commute)
  from Suc.IH[OF this] show ?case by (subst Process.digits.simps) simp
qed

lemma int_text_32: "- (2 ^ 31) \<le> n \<Longrightarrow> n < 2 ^ 31 \<Longrightarrow> int_text n = item_text (Number n)"
proof -
  assume n: "- (2 ^ 31) \<le> n" "n < 2 ^ 31"
  have "length (Process.digits 10 (nat n)) \<le> 10" "length (Process.digits 10 (nat (- n))) \<le> 10"
    using decimal_length[of "nat n" 9] decimal_length[of "nat (- n)" 9] n by simp_all
  then show ?thesis by (simp add: int_text_def)
qed

lemma printed_lit: "CHR ''%'' \<notin> set s \<Longrightarrow> printed_text (s @ f) as = map_option ((@) s) (printed_text f as)"
proof (induction s)
  case (Cons c s)
  then show ?case by (cases "segments (s @ f) as"; cases "segments f as") (auto simp: printed_text_def render_def)
qed (cases "segments f as"; simp add: printed_text_def)

lemma printed_item:
  assumes "item_ok x"
  shows "printed_text (item_format x @ f) (item_args x @ as) = map_option ((@) (item_text x)) (printed_text f as)"
proof (cases x)
  case (Number n)
  then have "int_text n = item_text (Number n)" "in_range False 32 n" using assms int_text_32[of n] by (simp_all add: in_range_def)
  then show ?thesis using Number
    by (cases "segments f as") (simp_all add: printed_text_def directive_def int_arg_def render_def del: item_text.simps)
next
  case (Lit s)
  then show ?thesis using assms printed_lit by simp
qed (cases "segments f as"; simp add: printed_text_def directive_def render_def html_text_def cgi_text_def copy_char_def)+

lemma printed_page: "list_all item_ok xs \<Longrightarrow> printed_text (page_format xs) (page_args xs) = Some (page_text xs)"
proof (induction xs)
  case (Cons x xs)
  then show ?case using printed_item[of x "page_format xs" "page_args xs"] by (simp add: page_format_def page_args_def page_text_def)
qed (simp add: printed_text_def page_format_def page_args_def page_text_def)

lemma digits_no_markup: "filter is_markup (Process.digits 10 n) = []"
  using digits_set[of 10 n] by (auto simp: filter_empty_conv is_markup_def)

lemma page_markup: "filter is_markup (page_text xs) = concat (map item_markup xs)"
proof -
  have "filter is_markup (item_text x) = item_markup x" for x
    using html_no_markup cgi_no_markup digits_no_markup by (cases x) (simp_all, simp_all add: is_markup_def)
  then show ?thesis by (induction xs) (simp_all add: page_text_def)
qed

subsection \<open>Values that were escaped\<close>

definition value_ends :: "string \<Rightarrow> bool" where
  "value_ends r \<longleftrightarrow> r = [] \<or> take 1 r = ''&''"

lemma value_end: "value_ends r \<Longrightarrow> value_text r = Some [] \<and> value_size r = Some 0"
  by (cases r) (simp_all add: value_ends_def)

lemma value_cgi:
  assumes "NUL \<notin> set v" "value_ends r"
  shows "value_text (cgi_text v @ r) = Some v \<and> value_size (cgi_text v @ r) = Some (length v)"
  using assms(1)
proof (induction v)
  case Nil
  then show ?case using value_end[OF assms(2)] by simp
next
  case (Cons c v)
  have ih: "value_text (cgi_text v @ r) = Some v" "value_size (cgi_text v @ r) = Some (length v)" using Cons by simp_all
  note h = hex_values(1-3)[OF nibbles(1)[of c]] hex_values(1-3)[OF nibbles(2)[of c]]
  have z: "of_char c div 16 * 16 + of_char c mod 16 = (of_char c :: nat)" by simp
  have nz: "(of_char c :: nat) \<noteq> 0" using Cons.prems of_char_eq_iff[of c NUL, where 'a = nat] by auto
  show ?case
  proof (cases "c \<noteq> SP \<and> \<not> plain_cgi c")
    case True
    then show ?thesis
      unfolding texts_simps cgi_char(3)[OF True[THEN conjunct1] True[THEN conjunct2]]
      using ih h nz z by (simp del: nth_Cons_numeral add: Let_def)
  next
    case False
    then show ?thesis using ih cgi_char(1,2)[of c] plain_not[of c] by (cases "c = SP") auto
  qed
qed

subsection \<open>Forms\<close>

definition field_text :: "string \<times> string \<Rightarrow> string" where
  "field_text x = fst x @ ''='' @ cgi_text (snd x)"

fun form_text :: "(string \<times> string) list \<Rightarrow> string" where
  "form_text [] = []"
| "form_text [x] = field_text x"
| "form_text (x # xs) = field_text x @ ''&'' @ form_text xs"

definition field_name :: "string \<Rightarrow> bool" where
  "field_name n \<longleftrightarrow> NUL \<notin> set n \<and> CHR ''='' \<notin> set n \<and> CHR ''&'' \<notin> set n"

definition form_ok :: "(string \<times> string) list \<Rightarrow> bool" where
  "form_ok xs \<longleftrightarrow> (\<forall>(n, v) \<in> set xs. field_name n \<and> NUL \<notin> set v)"

locale cgi_lib =
  fixes E :: cg_env
  assumes strings: "qstrings (cg_Q E)"
    and start: "NUL \<notin> set s \<Longrightarrow> NUL \<notin> set t \<Longrightarrow> cg_start E s t \<longleftrightarrow> prefix t s"
begin

lemma find_skip: "CHR ''&'' \<notin> set t \<Longrightarrow> find_field E name False (t @ r) = find_field E name False r"
  by (induction t) auto

lemma find_next: "find_field E name False (CHR ''&'' # r) = find_field E name True r"
  by simp

lemma field_start:
  assumes "field_name m" "field_name n" "NUL \<notin> set r"
  shows "cg_start E (n @ CHR ''='' # r) (m @ ''='') \<longleftrightarrow> m = n"
proof -
  have "prefix (m @ ''='') (n @ CHR ''='' # r) \<longleftrightarrow> m = n"
    using assms(1,2)
  proof (induction m arbitrary: n)
    case Nil
    then show ?case by (cases n) (auto simp: field_name_def)
  next
    case (Cons c m)
    then show ?case by (cases n) (auto simp: field_name_def)
  qed
  moreover have "NUL \<notin> set (n @ CHR ''='' # r)" "NUL \<notin> set (m @ ''='')" using assms by (simp_all add: field_name_def)
  ultimately show ?thesis using start by metis
qed

lemma field_scan:
  assumes "field_name m" "field_name n" "NUL \<notin> set r" "m \<noteq> n"
  shows "find_field E (m @ ''='') True (n @ CHR ''='' # cgi_text v @ r) = find_field E (m @ ''='') False r"
proof -
  obtain c cs where c: "n @ CHR ''='' # cgi_text v = c # cs" by (cases n) auto
  have amp: "CHR ''&'' \<notin> set (c # cs)" using assms(2) cgi_text_free(1) unfolding c[symmetric] by (simp add: field_name_def)
  have app: "n @ CHR ''='' # cgi_text v @ r = c # cs @ r" using arg_cong[OF c, of "\<lambda>x. x @ r"] by simp
  have "\<not> cg_start E (c # cs @ r) (m @ ''='')"
    using field_start[OF assms(1,2), of "cgi_text v @ r"] assms(3,4) cgi_text_free(2)[of v] unfolding app by simp
  then show ?thesis using amp find_skip[of cs "m @ ''=''" r] unfolding app by (cases "c = CHR ''&''") simp_all
qed

lemma form_no_nul: "form_ok xs \<Longrightarrow> NUL \<notin> set (form_text xs)"
  by (induction xs rule: form_text.induct) (auto simp: form_ok_def field_name_def field_text_def cgi_text_free)

lemma form_find:
  assumes "form_ok xs" "field_name m"
  shows "case map_of xs m of None \<Rightarrow> find_field E (m @ ''='') True (form_text xs) = None
    | Some v \<Rightarrow> \<exists>r. value_ends r \<and> find_field E (m @ ''='') True (form_text xs) = Some (m @ CHR ''='' # cgi_text v @ r)"
  using assms(1)
proof (induction xs rule: form_text.induct)
  case 1
  show ?case by simp
next
  case (2 x)
  obtain n v where x: "x = (n, v)" by fastforce
  have n: "field_name n" using 2 x by (simp add: form_ok_def)
  show ?case
    using field_scan[OF assms(2) n, of "[]" v] field_start[OF assms(2) n, of "cgi_text v"] cgi_text_free(2)[of v]
    by (cases "m = n"; cases n) (auto simp: x field_text_def value_ends_def)
next
  case (3 x y zs)
  obtain n v where x: "x = (n, v)" by fastforce
  let ?r = "CHR ''&'' # form_text (y # zs)"
  have n: "field_name n" and ok: "form_ok (y # zs)" using 3(2) x by (simp_all add: form_ok_def)
  have z: "NUL \<notin> set ?r" using form_no_nul[OF ok] by simp
  have t: "form_text (x # y # zs) = n @ CHR ''='' # cgi_text v @ ?r" by (simp add: x field_text_def)
  show ?case
  proof (cases "m = n")
    case True
    have "find_field E (m @ ''='') True (form_text (x # y # zs)) = Some (form_text (x # y # zs))"
      unfolding t using field_start[OF assms(2) n, of "cgi_text v @ ?r"] z cgi_text_free(2)[of v] True by (cases n) auto
    moreover have "value_ends ?r" by (simp add: value_ends_def)
    ultimately show ?thesis unfolding t using True x by auto
  next
    case False
    have "find_field E (m @ ''='') True (form_text (x # y # zs)) = find_field E (m @ ''='') True (form_text (y # zs))"
      unfolding t field_scan[OF assms(2) n z False] by (rule find_next)
    moreover have "map_of (x # y # zs) m = map_of (y # zs) m" using False x by simp
    ultimately show ?thesis using 3(1)[OF ok] by (simp only:)
  qed
qed

lemma trim_end: "trim_loop (t @ [NUL]) (length t) n = Some n"
  by (cases "length t") (simp_all add: isspace_def nth_append)

lemma form_value:
  assumes "form_ok xs" "field_name m"
  shows "GetValue E (form_text xs) (m @ ''='') = Some (case map_of xs m of None \<Rightarrow> (- 1, []) | Some v \<Rightarrow> (0, v))"
proof (cases "map_of xs m")
  case None
  then show ?thesis using form_find[OF assms] by (simp add: GetValue_def)
next
  case (Some v)
  then obtain r where r: "value_ends r" "find_field E (m @ ''='') True (form_text xs) = Some (m @ CHR ''='' # cgi_text v @ r)"
    using form_find[OF assms] by auto
  have "NUL \<notin> set v" using map_of_SomeD[OF Some] assms(1) by (auto simp: form_ok_def)
  from value_cgi[OF this r(1)] show ?thesis
    using Some trim_end[of v "length v"] by (simp add: GetValue_def r(2) Let_def)
qed

end

subsection \<open>Addresses of pages\<close>

lemma number_plain: "0 \<le> n \<Longrightarrow> x \<in> set (int_text n) \<Longrightarrow> plain_cgi x"
proof -
  assume n: "0 \<le> n" "x \<in> set (int_text n)"
  have "\<forall>c \<in> set ''0123456789''. isdigit c" by (simp add: isdigit_def)
  moreover have "set (Process.digits 10 (nat n)) \<subseteq> set ''0123456789''" using digits_set[of 10 "nat n"] by simp
  moreover have "x \<in> set (Process.digits 10 (nat n))" using n in_set_takeD[of x 18 "Process.digits 10 (nat n)"] by (simp add: int_text_def)
  ultimately show ?thesis unfolding plain_cgi_def isalnum_def by blast
qed

lemma cgi_plain: "(\<And>x. x \<in> set t \<Longrightarrow> plain_cgi x) \<Longrightarrow> cgi_text t = t"
  by (induction t) (simp_all add: cgi_char(2))

definition url_form :: "string \<Rightarrow> string \<Rightarrow> int \<Rightarrow> (string \<times> string) list" where
  "url_form usr dmn t = [(''user'', usr), (''dom'', dmn), (''time'', int_text t)]"

lemma url_printed:
  assumes "0 \<le> t" "t < 2 ^ 31"
  shows "printed_text ''%s/com/%s?user=%C&dom=%C&time=%d'' [HStr path, HStr action, HStr usr, HStr dmn, HInt t]
    = Some (path @ ''/com/'' @ action @ ''?'' @ form_text (url_form usr dmn t))"
  using cgi_plain[of "int_text t"] number_plain[OF assms(1)] assms
  by (simp add: printed_text_def directive_def int_arg_def in_range_def render_def url_form_def field_text_def cgi_text_def)

lemma cgiurl_text:
  assumes "0 \<le> t" "t < 2 ^ 31"
  shows "cgiurl E path action usr dmn t = Some (path @ ''/com/'' @ action @ ''?'' @ form_text (url_form usr dmn t))"
proof -
  let ?as = "[HStr path, HStr action, HStr usr, HStr dmn, HInt t]" and ?f = "''%s/com/%s?user=%C&dom=%C&time=%d''"
  obtain x where x: "printed_text ?f ?as = Some x" "x = path @ ''/com/'' @ action @ ''?'' @ form_text (url_form usr dmn t)"
    using url_printed[OF assms] by blast
  have v: "0 < n \<Longrightarrow> snprinth False n ?f ?as = Some (int (length x), take (n - 1) x)" for n
    using vsnprinth_text[of n ?f ?as] x(1) by (simp add: snprinth_def)
  have "0 < n \<Longrightarrow> cgiurl_loop (Suc (Suc k)) n ?as = Some x" for n k
    using v[of n] v[of "nat (int (length x) + 28)"] by (auto simp: Let_def)
  then show ?thesis by (simp only: cgiurl_def numeral_2_eq_2) (simp add: x(2))
qed

end
