(* ===== verification/Websession_Spec.thy ===== *)
theory Websession_Spec
  imports Websession Webform_Spec
begin

text \<open>
  What sessions promise: a command runs only with a session of the user, a login opens a session for the addresses of the pages that are
  shown, a password is changed only with the old one.
\<close>

subsection \<open>Commands\<close>

lemma session_checked:
  assumes "auth_user_domain W ip pw t st = Some (st', None)"
  shows "\<exists>d l. ws_files st (session_file pw t) = Some d \<and> wb_line W d = Some l \<and> value_of W (l @ wb_behind W) ''ip_addr='' = Some ip
    \<and> int (wb_now W) \<le> sint (word_of_nat (wb_scan_ulong W t) :: u64) + 7200" "st' = st"
  using assms by (auto simp: auth_user_domain_def Let_def split: if_splits option.splits Option.bind_splits)

lemma move_changed [simp]: "ws_changed (move_vacation dir st) = ws_changed st"
  by (simp add: move_vacation_def renamed_def)

lemma move_keeps:
  assumes "vacation_there dir st \<longrightarrow> \<not> under (dir @ ''/vacation'') f \<and> \<not> under (dir @ ''/autoresp'') f"
  shows "ws_files (move_vacation dir st) f = ws_files st f"
  using assms by (simp add: move_vacation_def renamed_def)

text \<open>The session of a login that is not below an entry that a command will move.\<close>

definition session_stays :: "web_env \<Rightarrow> string \<Rightarrow> string \<Rightarrow> web_st \<Rightarrow> bool" where
  "session_stays W usr dmn st \<longleftrightarrow> (\<forall>dir pw. wb_assign W dmn = Some dir \<and> wb_getpw W usr dmn = Some pw \<and> vacation_there dir st
     \<longrightarrow> \<not> under (dir @ ''/vacation'') (session_file pw (wb_fmt_ulong W (wb_now W)))
       \<and> \<not> under (dir @ ''/autoresp'') (session_file pw (wb_fmt_ulong W (wb_now W))))"

lemma com_stages:
  assumes "value_of W q ''user='' = Some usr" "value_of W q ''dom='' = Some dmn" "value_of W q ''time='' = Some t"
  shows "com_branch W pinfo q st = (case wb_assign W dmn of None \<Rightarrow> Some (st, WExit 10)
    | Some dir \<Rightarrow> if \<not> wb_suid W then Some (st, WExit 9)
      else if \<not> wb_chdir W 0 \<or> vacation_there dir st \<and> \<not> wb_rename W then Some (st, WExit 2)
      else (case wb_getpw W usr dmn of None \<Rightarrow> Some (move_vacation dir st, WExit 3)
        | Some pw \<Rightarrow> if \<not> wb_limits W dmn \<or> \<not> wb_limits W (usr @ ''@'' @ dmn) then Some (move_vacation dir st, WExit 3)
          else (case auth_user_domain W (ip_addr W) pw t (move_vacation dir st) of None \<Rightarrow> None
            | Some (st1, r) \<Rightarrow> Some (st1, case r of Some n \<Rightarrow> WExit n
                | None \<Rightarrow> WCommand (drop 5 pinfo) (set_admin_type (wb_Q W) usr dmn (pw_gid pw))))))"
  unfolding com_branch_def assms bind.bind_lunit Let_def auth_system_def if_cancel
  by (simp split: option.split prod.split add: Option.bind_eq_None_conv)

lemma command_checked:
  assumes "com_branch W pinfo q st = Some (st', WCommand c a)"
  shows "\<exists>usr dmn t dir pw d l. value_of W q ''user='' = Some usr \<and> value_of W q ''dom='' = Some dmn \<and> value_of W q ''time='' = Some t
    \<and> wb_assign W dmn = Some dir \<and> wb_getpw W usr dmn = Some pw \<and> ws_files st' (session_file pw t) = Some d \<and> wb_line W d = Some l
    \<and> value_of W (l @ wb_behind W) ''ip_addr='' = Some (ip_addr W) \<and> int (wb_now W) \<le> sint (word_of_nat (wb_scan_ulong W t) :: u64) + 7200
    \<and> a = set_admin_type (wb_Q W) usr dmn (pw_gid pw) \<and> c = drop 5 pinfo \<and> st' = move_vacation dir st"
proof -
  obtain usr where u: "value_of W q ''user='' = Some usr" using assms by (auto simp: com_branch_def split: Option.bind_splits)
  obtain dmn where d: "value_of W q ''dom='' = Some dmn" using assms u by (auto simp: com_branch_def split: Option.bind_splits)
  obtain t where t: "value_of W q ''time='' = Some t" using assms u d by (auto simp: com_branch_def split: Option.bind_splits)
  note c = assms[unfolded com_stages[OF u d t]]
  obtain dir where dir: "wb_assign W dmn = Some dir" using c by (auto split: option.splits)
  obtain pw where pw: "wb_getpw W usr dmn = Some pw" using c dir by (auto split: if_splits option.splits)
  let ?a = "set_admin_type (wb_Q W) usr dmn (pw_gid pw)"
  obtain st1 r where r: "auth_user_domain W (ip_addr W) pw t (move_vacation dir st) = Some (st1, r)"
    using c dir pw by (auto split: if_splits option.splits)
  then have n: "r = None" "a = ?a" "c = drop 5 pinfo" "st' = st1"
    using c dir pw by (auto split: if_splits option.splits)
  from session_checked[OF r[unfolded n(1)]] show ?thesis using u d t dir pw n by metis
qed

text \<open>The rename comes before the check.\<close>

lemma vacation_moved:
  assumes "value_of W q ''user='' = Some usr" "value_of W q ''dom='' = Some dmn" "value_of W q ''time='' = Some t"
    and "wb_assign W dmn = Some dir" "wb_suid W" "wb_chdir W 0" "wb_rename W" "wb_getpw W usr dmn = None"
  shows "com_branch W pinfo q st = Some (move_vacation dir st, WExit 3)"
  unfolding com_stages[OF assms(1-3)] using assms(4-8) by simp

lemma sint_small: "n < 2 ^ 63 \<Longrightarrow> sint (word_of_nat n :: u64) = int n"
  by (simp add: signed_of_nat signed_take_bit_int_eq_self)

lemma take_prefix: "NUL \<notin> set xs \<Longrightarrow> xs = take (length xs) (ys @ [NUL]) \<longleftrightarrow> prefix xs ys"
proof (induction xs arbitrary: ys)
  case (Cons x xs)
  then show ?case by (cases ys) auto
qed simp

lemma admin_names:
  assumes "qstrings Q" "NUL \<notin> set usr" "dmn \<noteq> []"
  shows "set_admin_type Q usr dmn gid = DOMAIN_ADMIN \<longleftrightarrow> prefix usr ''postmaster'' \<or> gid AND QA_ADMIN \<noteq> 0"
proof -
  have "str_diffn Q usr ''postmaster'' (length usr) = 0 \<longleftrightarrow> usr = take (length usr) (''postmaster'' @ [NUL])"
    using qstrings.diffn_zero[OF assms(1,2), of "''postmaster''" "length usr"] by simp
  also have "\<dots> \<longleftrightarrow> prefix usr ''postmaster''" by (rule take_prefix[OF assms(2)])
  finally show ?thesis using assms(3) by (simp add: set_admin_type_def)
qed

subsection \<open>Passwords\<close>

lemma password_safe:
  assumes "passwd_branch W q st = Some (st', e)" "st' \<noteq> st"
  shows "\<exists>addr old new1 usr dmn pw. value_of W q ''address='' = Some addr \<and> value_of W q ''oldpass='' = Some old \<and> value_of W q ''newpass1='' = Some new1
    \<and> usr = take (wb_rchr W addr CHR ''@'') addr \<and> dmn = drop (Suc (wb_rchr W addr CHR ''@'')) addr
    \<and> wb_getpw W usr dmn = Some pw \<and> auth_user W pw old = 0 \<and> old \<noteq> [] \<and> new1 \<noteq> [] \<and> (pw_gid pw OR wb_mask W (usr @ ''@'' @ dmn)) AND NO_PASSWD_CHNG = 0
    \<and> e = WExit 0 \<and> st' = st\<lparr>ws_changed := ws_changed st @ [(usr, dmn, new1)]\<rparr>"
proof -
  obtain addr where a: "value_of W q ''address='' = Some addr" using assms(1) by (auto simp: passwd_branch_def split: Option.bind_splits)
  obtain old where o: "value_of W q ''oldpass='' = Some old" using assms(1) a by (auto simp: passwd_branch_def split: Option.bind_splits)
  obtain new1 where n1: "value_of W q ''newpass1='' = Some new1" using assms(1) a o by (auto simp: passwd_branch_def split: Option.bind_splits)
  obtain new2 where n2: "value_of W q ''newpass2='' = Some new2" using assms(1) a o n1 by (auto simp: passwd_branch_def split: Option.bind_splits)
  let ?usr = "take (wb_rchr W addr CHR ''@'') addr" and ?dmn = "drop (Suc (wb_rchr W addr CHR ''@'')) addr"
  note b = assms(1)[unfolded passwd_branch_def a o n1 n2 bind.bind_lunit Let_def]
  obtain pw where pw: "wb_getpw W ?usr ?dmn = Some pw" using b assms(2) by (auto split: if_splits option.splits)
  have "auth_user W (pw\<lparr>pw_gid := g\<rparr>) old = auth_user W pw old" for g by (simp add: auth_user_def)
  then have "auth_user W pw old = 0 \<and> old \<noteq> [] \<and> new1 \<noteq> [] \<and> (pw_gid pw OR wb_mask W (?usr @ ''@'' @ ?dmn)) AND NO_PASSWD_CHNG = 0
    \<and> e = WExit 0 \<and> st' = st\<lparr>ws_changed := ws_changed st @ [(?usr, ?dmn, new1)]\<rparr>"
    using b assms(2) by (simp add: pw split: if_splits)
  then show ?thesis using a o n1 pw by blast
qed

subsection \<open>The program\<close>

lemma passwd_exit: "passwd_branch W q st = Some (st', e) \<Longrightarrow> \<exists>n. e = WExit n"
  by (auto simp: passwd_branch_def Let_def split: if_splits option.splits Option.bind_splits)

lemma del_loop_changed: "ws_changed (fst (del_loop W d ns st)) = ws_changed st"
  by (induction ns arbitrary: st) (simp_all add: drop_file_def)

lemma del_changed: "del_id_files W d st = (st', r) \<Longrightarrow> ws_changed st' = ws_changed st"
  using del_loop_changed[of W d] by (auto simp: del_id_files_def split: option.splits dest!: arg_cong[of _ _ fst])

lemma login_pages: "login_branch W q st = Some (st', e) \<Longrightarrow> (\<exists>n. e = WExit n) \<or> e = WMenu \<or> e = WModuser"
  by (auto simp: login_branch_def Let_def split: if_splits option.splits prod.splits Option.bind_splits)

lemma login_changed: "login_branch W q st = Some (st', e) \<Longrightarrow> ws_changed st' = ws_changed st"
  by (auto simp: login_branch_def Let_def split: if_splits option.splits prod.splits Option.bind_splits dest: del_changed)

lemma com_changed: "com_branch W pinfo q st = Some (st', e) \<Longrightarrow> ws_changed st' = ws_changed st"
  by (auto simp: com_branch_def auth_system_def auth_user_domain_def drop_file_def Let_def split: if_splits option.splits prod.splits Option.bind_splits)

lemma main_branches:
  assumes "web_main W st = Some (st', e)"
  shows "\<exists>q. request_text W = Some q \<and> ((e = WExit 0 \<and> st' = st) \<or> (\<exists>pinfo. PATH_INFO W = Some pinfo \<and> com_branch W pinfo q st = Some (st', e))
    \<or> passwd_branch W q st = Some (st', e) \<or> login_branch W q st = Some (st', e))"
proof -
  obtain q where q: "request_text W = Some q" using assms by (auto simp: web_main_def split: Option.bind_splits)
  show ?thesis using assms by (auto simp: q web_main_def Let_def simp del: not_None_eq split: if_split_asm option.split_asm)
qed

lemma main_command:
  assumes "web_main W st = Some (st', WCommand c a)"
  shows "\<exists>q pinfo. request_text W = Some q \<and> com_branch W pinfo q st = Some (st', WCommand c a)"
  using main_branches[OF assms] passwd_exit login_pages by fastforce

lemma main_password:
  assumes "web_main W st = Some (st', e)" "ws_changed st' \<noteq> ws_changed st"
  shows "\<exists>q. request_text W = Some q \<and> passwd_branch W q st = Some (st', e)"
  using main_branches[OF assms(1)] assms(2) login_changed com_changed by fastforce

subsection \<open>A login and the commands after it\<close>

lemma pair_byte: "(\<And>a. f a < (16 :: nat)) \<Longrightarrow> f a * 16 + f b < 256"
proof -
  assume "\<And>a. f a < (16 :: nat)"
  from this[of a] this[of b] show ?thesis by linarith
qed

text \<open>An address that stands for itself in a form.\<close>

definition plain_ip :: "string \<Rightarrow> bool" where
  "plain_ip ip \<longleftrightarrow> set ip \<inter> {CHR ''&'', CHR ''%'', CHR ''+'', NUL, LF} = {}"

locale web_lib = cgi_lib "wb_cg W" for W :: web_env +
  assumes web_first_line: "wb_line W d = Some (takeWhile (\<lambda>c. c \<noteq> LF) d @ (if LF \<in> set d then [LF] else []))"
    and fmt_scan: "wb_fmt_ulong W n = Process.digits 10 n" "n < 2 ^ 64 \<Longrightarrow> wb_scan_ulong W (Process.digits 10 n) = n"
    and web_behind: "NUL \<notin> set (wb_behind W)"
begin

lemma value_no_nul: "NUL \<notin> set s \<Longrightarrow> value_text s = Some t \<Longrightarrow> NUL \<notin> set t"
proof (induction "length s" arbitrary: s t rule: less_induct)
  case less
  have nz: "char_of n \<noteq> NUL" if "n \<noteq> 0" "n < 256" for n :: nat
  proof
    assume e: "char_of n = NUL"
    have "n = of_char (char_of n :: char)" using that(2) by simp
    also have "\<dots> = 0" unfolding e by simp
    finally show False using that(1) by simp
  qed
  have "CGIValues a < 16" for a by (auto simp: CGIValues_def Let_def)
  then have lt: "CGIValues a * 16 + CGIValues b < 256" for a b by (rule pair_byte)
  show ?case
  proof (cases s)
    case (Cons c cs)
    show ?thesis
    proof (cases "c = CHR ''%''")
      case True
      then obtain a b r where cs: "cs = a # b # r" using less.prems(2) Cons by (cases cs rule: remdups_adj.cases) simp_all
      have r: "value_text r = Some x \<Longrightarrow> NUL \<notin> set x" for x using less.hyps[of r x] less.prems(1) Cons cs by simp
      show ?thesis
      proof (cases "a = CHR ''0'' \<and> b = CHR ''D''")
        case True
        then show ?thesis using r less.prems(2) Cons cs \<open>c = CHR ''%''\<close> by simp
      next
        case False
        then obtain x where x: "value_text r = Some x" "t = char_of (CGIValues a * 16 + CGIValues b) # x" "CGIValues a * 16 + CGIValues b \<noteq> 0"
          using less.prems(2) Cons cs \<open>c = CHR ''%''\<close> by (auto simp: Let_def simp del: add_is_0 split: if_splits)
        show ?thesis unfolding x(2) list.set insert_iff using r[OF x(1)] nz[OF x(3) lt] by metis
      qed
    next
      case False
      then show ?thesis using less.hyps[of cs] less.prems Cons by (auto split: if_splits)
    qed
  qed (use less.prems in simp)
qed

lemma value_no_nul_of: "NUL \<notin> set q \<Longrightarrow> value_of W q n = Some t \<Longrightarrow> NUL \<notin> set t"
proof -
  assume q: "NUL \<notin> set q" "value_of W q n = Some t"
  have sub: "find_field (wb_cg W) n b q = Some s \<Longrightarrow> set s \<subseteq> set q" for b s
    by (induction q arbitrary: b) (auto split: if_splits)
  show "NUL \<notin> set t"
  proof (cases "find_field (wb_cg W) n True q")
    case None
    then show ?thesis using q(2) by (simp add: value_of_def GetValue_def)
  next
    case (Some s)
    obtain x k where x: "value_text (drop (length n) s) = Some x" "t = take k x"
      using q(2) Some by (auto simp: value_of_def GetValue_def Let_def split: Option.bind_splits)
    have "NUL \<notin> set (drop (length n) s)" using sub[OF Some] q(1) in_set_dropD by fastforce
    then show ?thesis using value_no_nul[OF _ x(1)] x(2) in_set_takeD by metis
  qed
qed

lemma ip_value: "plain_ip ip \<Longrightarrow> value_ends r \<Longrightarrow> value_text (ip @ r) = Some ip \<and> value_size (ip @ r) = Some (length ip)"
  by (induction ip) (auto simp: plain_ip_def value_end)

lemma session_read:
  assumes "plain_ip ip" "NUL \<notin> set rt" "NUL \<notin> set rh" "wb_line W (session_text ip rt rh) = Some l"
  shows "value_of W (l @ wb_behind W) ''ip_addr='' = Some ip"
proof -
  define r where "r = CHR ''r'' # ''eturntext='' @ rt @ ''&returnhttp='' @ rh @ [LF]"
  define r' where "r' = takeWhile (\<lambda>c. c \<noteq> LF) r @ (if LF \<in> set r then [LF] else [])"
  have t: "session_text ip rt rh = (''ip_addr='' @ ip @ ''&'') @ r" by (simp add: session_text_def r_def)
  have "LF \<notin> set (''ip_addr='' @ ip @ ''&'')" using assms(1) by (auto simp: plain_ip_def)
  then have l: "l = ''ip_addr='' @ ip @ ''&'' @ r'"
    using assms(4) unfolding web_first_line t by (auto simp: r'_def takeWhile_append)
  have n: "NUL \<notin> set (l @ wb_behind W)"
    using assms(1-3) web_behind by (auto simp: l r'_def r_def plain_ip_def dest: set_takeWhileD)
  have "prefix ''ip_addr='' (l @ wb_behind W)" by (simp add: l)
  then have "cg_start (wb_cg W) (l @ wb_behind W) ''ip_addr=''" using start[OF n, of "''ip_addr=''"] by simp
  then have f: "find_field (wb_cg W) ''ip_addr='' True (l @ wb_behind W) = Some (l @ wb_behind W)" by (simp add: l)
  have "value_ends (''&'' @ r' @ wb_behind W)" by (simp add: value_ends_def)
  from ip_value[OF assms(1) this] trim_end[of ip "length ip"] show ?thesis
    by (simp add: value_of_def GetValue_def f) (simp add: l Let_def)
qed

lemma number_digits: "n < 10 ^ 18 \<Longrightarrow> int_text (int n) = Process.digits 10 n"
proof -
  have "length (Process.digits 10 n) \<le> Suc k" if "n < 10 ^ Suc k" for k n
    using that
  proof (induction k arbitrary: n)
    case 0
    then show ?case by (subst Process.digits.simps) simp
  next
    case (Suc k)
    have "n div 10 < 10 ^ Suc k" using Suc.prems by (simp add: div_less_iff_less_mult mult.commute)
    from Suc.IH[OF this] show ?case by (subst Process.digits.simps) simp
  qed
  from this[of n 17] show "n < 10 ^ 18 \<Longrightarrow> int_text (int n) = Process.digits 10 n" by (simp add: int_text_def)
qed

text \<open>The state after a login, and a command from one of the pages that are shown then.\<close>

lemma login_session:
  assumes "login_branch W q st = Some (st1, e)" "e = WMenu \<or> e = WModuser" "NUL \<notin> set q"
    and "value_of W q ''username='' = Some usr" "value_of W q ''domain='' = Some dmn" "length usr \<le> wb_rchr W usr CHR ''@''"
  shows "\<exists>pw rt rh. wb_assign W dmn \<noteq> None \<and> wb_suid W \<and> wb_getpw W usr dmn = Some pw \<and> wb_limits W dmn \<and> wb_limits W (usr @ ''@'' @ dmn)
    \<and> wb_chdir W 0 \<and> dmn \<noteq> [] \<and> NUL \<notin> set rt \<and> NUL \<notin> set rh
    \<and> ws_files st1 (session_file pw (wb_fmt_ulong W (wb_now W))) = Some (session_text (ip_addr W) rt rh)
    \<and> (\<exists>password. value_of W q ''password='' = Some password \<and> auth_user W pw password = 0)"
proof -
  obtain password where p: "value_of W q ''password='' = Some password"
    using assms(1,4,5) by (auto simp: login_branch_def split: Option.bind_splits)
  note b = assms(1)[unfolded login_branch_def assms(4,5) p bind.bind_lunit Let_def]
  have n: "dmn \<noteq> []" "usr \<noteq> []" "\<not> wb_rchr W usr CHR ''@'' < length usr" using b assms(2,6) by (auto split: if_splits)
  note c = b[simplified n if_False simp_thms]
  obtain pw where pw: "wb_getpw W usr dmn = Some pw" using c assms(2) by (auto split: if_splits option.splits)
  obtain st2 r where del: "del_id_files W (pw_dir pw @ ''/Maildir'') st = (st2, r)" by fastforce
  have g: "wb_assign W dmn \<noteq> None" "wb_suid W" "wb_chdir W 0" "wb_limits W dmn" "wb_limits W (usr @ ''@'' @ dmn)" "auth_user W pw password = 0"
    "wb_open W" "r = None"
    using c assms(2) by (auto simp: pw del split: if_splits)
  obtain rt where rt: "value_of W q ''returntext='' = Some rt" using c g assms(2) by (auto simp: pw del split: Option.bind_splits)
  obtain rh where rh: "value_of W q ''returnhttp='' = Some rh" using c g rt assms(2) by (auto simp: pw del split: Option.bind_splits)
  have "ws_files st1 (session_file pw (wb_fmt_ulong W (wb_now W))) = Some (session_text (ip_addr W) rt rh)"
    using c g assms(2) by (auto simp: pw del rt rh split: option.splits)
  then show ?thesis using pw g p n(1) value_no_nul_of[OF assms(3) rt] value_no_nul_of[OF assms(3) rh] by blast
qed

lemma url_values:
  assumes "NUL \<notin> set usr" "NUL \<notin> set dmn" "n < 10 ^ 18"
  shows "value_of W (form_text (url_form usr dmn (int n))) ''user='' = Some usr" "value_of W (form_text (url_form usr dmn (int n))) ''dom='' = Some dmn"
    "value_of W (form_text (url_form usr dmn (int n))) ''time='' = Some (Process.digits 10 n)"
proof -
  have "NUL \<notin> set (int_text (int n))" using number_plain[of "int n"] plain_not by fastforce
  then have ok: "form_ok (url_form usr dmn (int n))" using assms by (simp add: form_ok_def url_form_def field_name_def)
  have f: "field_name ''user''" "field_name ''dom''" "field_name ''time''" by (simp_all add: field_name_def)
  show "value_of W (form_text (url_form usr dmn (int n))) ''user='' = Some usr" "value_of W (form_text (url_form usr dmn (int n))) ''dom='' = Some dmn"
    "value_of W (form_text (url_form usr dmn (int n))) ''time='' = Some (Process.digits 10 n)"
    using form_value[OF ok f(1)] form_value[OF ok f(2)] form_value[OF ok f(3)] number_digits[OF assms(3)]
    by (simp_all add: value_of_def url_form_def del: form_text.simps)
qed

lemma session_opens:
  assumes "login_branch W q st = Some (st1, e)" "e = WMenu \<or> e = WModuser" "NUL \<notin> set q"
    and "value_of W q ''username='' = Some usr" "value_of W q ''domain='' = Some dmn" "length usr \<le> wb_rchr W usr CHR ''@''"
    and "plain_ip (ip_addr W)" "wb_chdir W 1" "wb_rename W" "wb_now W < 2 ^ 31" "later \<le> wb_now W + 7200" "session_stays W usr dmn st1"
  shows "\<exists>a. com_branch (W\<lparr>wb_now := later\<rparr>) pinfo (form_text (url_form usr dmn (int (wb_now W)))) st1
    = Some (move_vacation (the (wb_assign W dmn)) st1, WCommand (drop 5 pinfo) a)"
proof -
  let ?W = "W\<lparr>wb_now := later\<rparr>"
  obtain pw rt rh where s: "wb_assign W dmn \<noteq> None" "wb_suid W" "wb_getpw W usr dmn = Some pw" "wb_limits W dmn" "wb_limits W (usr @ ''@'' @ dmn)"
    "wb_chdir W 0" "NUL \<notin> set rt" "NUL \<notin> set rh"
    "ws_files st1 (session_file pw (wb_fmt_ulong W (wb_now W))) = Some (session_text (ip_addr W) rt rh)"
    using login_session[OF assms(1-6)] by blast
  obtain l where l: "wb_line W (session_text (ip_addr W) rt rh) = Some l" using web_first_line by blast
  have v: "value_of ?W x n = value_of W x n" "ip_addr ?W = ip_addr W" "wb_Q ?W = wb_Q W" for x n by (simp_all add: value_of_def ip_addr_def wb_Q_def split: option.split)
  have t: "wb_scan_ulong W (Process.digits 10 (wb_now W)) = wb_now W" using assms(10) by (intro fmt_scan(2)) simp
  have time1: "sint (word_of_nat (wb_now W) :: u64) = int (wb_now W)" by (rule sint_small) (use assms(10) in simp)
  obtain dir where dir: "wb_assign W dmn = Some dir" using s(1) by blast
  let ?st = "move_vacation dir st1"
  have "ws_files ?st (session_file pw (wb_fmt_ulong W (wb_now W))) = ws_files st1 (session_file pw (wb_fmt_ulong W (wb_now W)))"
    by (rule move_keeps) (use assms(12) dir s(3) in \<open>simp add: session_stays_def\<close>)
  then have auth: "auth_user_domain ?W (ip_addr W) pw (Process.digits 10 (wb_now W)) ?st = Some (?st, None)"
    using assms(8,10,11) s(9)[unfolded fmt_scan(1)] l t session_read[OF assms(7) s(7,8) l]
    by (simp add: auth_user_domain_def v time1 fmt_scan(1))
  have "wb_now W < 10 ^ 18" using assms(10) by simp
  note u = url_values[OF value_no_nul_of[OF assms(3,4)] value_no_nul_of[OF assms(3,5)] this]
  have x: "value_of ?W (form_text (url_form usr dmn (int (wb_now W)))) ''user='' = Some usr" "value_of ?W (form_text (url_form usr dmn (int (wb_now W)))) ''dom='' = Some dmn"
    "value_of ?W (form_text (url_form usr dmn (int (wb_now W)))) ''time='' = Some (Process.digits 10 (wb_now W))"
    using u by (simp_all add: v del: form_text.simps)
  show ?thesis
    unfolding com_stages[OF x] using auth s(2-6) assms(9) dir by (simp add: v)
qed

lemma page_works:
  assumes "login_branch W q st = Some (st1, e)" "e = WMenu \<or> e = WModuser" "NUL \<notin> set q"
    and "value_of W q ''username='' = Some usr" "value_of W q ''domain='' = Some dmn" "length usr \<le> wb_rchr W usr CHR ''@''"
    and "plain_ip (ip_addr W)" "wb_chdir W 1" "wb_rename W" "wb_now W < 2 ^ 31" "later \<le> wb_now W + 7200" "NUL \<notin> set action" "session_stays W usr dmn st1"
  shows "\<exists>query a. cgiurl (wb_cg W) path action usr dmn (int (wb_now W)) = Some (path @ ''/com/'' @ action @ ''?'' @ query)
    \<and> web_main (W\<lparr>wb_now := later, PATH_INFO := Some (''/com/'' @ action), REQUEST_METHOD := Some ''GET'', QUERY_STRING := Some query\<rparr>) st1
      = Some (move_vacation (the (wb_assign W dmn)) st1, WCommand action a)"
proof -
  let ?q = "form_text (url_form usr dmn (int (wb_now W)))"
  let ?W = "W\<lparr>wb_now := later, PATH_INFO := Some (''/com/'' @ action), REQUEST_METHOD := Some ''GET'', QUERY_STRING := Some ?q\<rparr>"
  let ?st = "move_vacation (the (wb_assign W dmn)) st1"
  obtain a where a: "com_branch (W\<lparr>wb_now := later\<rparr>) (''/com/'' @ action) ?q st1
      = Some (?st, WCommand (drop 5 (''/com/'' @ action)) a)"
    using session_opens[OF assms(1-11,13)] by blast
  have v: "value_of ?W = value_of (W\<lparr>wb_now := later\<rparr>)" "ip_addr ?W = ip_addr (W\<lparr>wb_now := later\<rparr>)" "wb_Q ?W = wb_Q (W\<lparr>wb_now := later\<rparr>)"
    by (simp_all add: value_of_def fun_eq_iff ip_addr_def wb_Q_def split: option.split)
  have w: "wb_assign ?W = wb_assign (W\<lparr>wb_now := later\<rparr>)" "wb_suid ?W = wb_suid (W\<lparr>wb_now := later\<rparr>)" "wb_chdir ?W = wb_chdir (W\<lparr>wb_now := later\<rparr>)" "wb_rename ?W = wb_rename (W\<lparr>wb_now := later\<rparr>)" "wb_getpw ?W = wb_getpw (W\<lparr>wb_now := later\<rparr>)"
    "wb_limits ?W = wb_limits (W\<lparr>wb_now := later\<rparr>)" "wb_line ?W = wb_line (W\<lparr>wb_now := later\<rparr>)" "wb_behind ?W = wb_behind (W\<lparr>wb_now := later\<rparr>)" "wb_scan_ulong ?W = wb_scan_ulong (W\<lparr>wb_now := later\<rparr>)" "wb_now ?W = wb_now (W\<lparr>wb_now := later\<rparr>)"
    by simp_all
  have c: "com_branch ?W (''/com/'' @ action) ?q st1 = com_branch (W\<lparr>wb_now := later\<rparr>) (''/com/'' @ action) ?q st1"
    unfolding com_branch_def auth_system_def auth_user_domain_def v w by (rule refl)
  have "str_diffn (wb_Q ?W) ''GET'' ''POST'' 4 \<noteq> 0"
    using qstrings.diffn_zero[OF strings, of "''GET''" "''POST''" 4] by (simp add: wb_Q_def)
  then have r: "request_text ?W = Some ?q" by (simp add: request_text_def)
  have "str_diffn (wb_Q ?W) (''/com/'' @ action) ''/com/'' 5 = 0"
    using qstrings.diffn_zero[OF strings, of "''/com/'' @ action" "''/com/''" 5] assms(12) by (simp add: wb_Q_def)
  then have "web_main ?W st1 = Some (?st, WCommand action a)" using a c unfolding web_main_def r bind.bind_lunit Let_def by simp
  then show ?thesis using cgiurl_text[of "int (wb_now W)" "wb_cg W" path action usr dmn] assms(10) by auto
qed

end

end
