(* ===== verification/Web_Samples.thy ===== *)
theory Web_Samples
  imports Websession_Spec Account_Samples
begin

text \<open>
  A reference environment: one user, whose password is stored as it is, and crypt gives the password back.
\<close>

definition cg_sample :: cg_env where
  "cg_sample = \<lparr>cg_Q = qstr_ref, cg_start = (\<lambda>s t. take (length t) s = t), cg_FMT_ULONG = 40\<rparr>"

lemma sample_start: "cg_start cg_sample s t = prefix t s"
  by (auto simp: cg_sample_def prefix_def) (metis append_take_drop_id)

interpretation ref_cgi: cgi_lib cg_sample
  by (intro cgi_lib.intro sample_start) (simp add: cg_sample_def ref_str.qstrings_axioms)

definition web_pw :: passwd where
  "web_pw = \<lparr>pw_name = ''post'', pw_passwd = ''abc'', pw_uid = 5, pw_gid = 0, pw_gecos = [], pw_dir = ''/h'', pw_shell = []\<rparr>"

definition web_sample :: web_env where
  "web_sample = \<lparr>wb_cg = cg_sample, REMOTE_ADDR = Some ''10.1'', HTTP_X_FORWARDED_FOR = None, PATH_INFO = Some ''/com/x'',
     REQUEST_METHOD = Some ''GET'', CONTENT_LENGTH = None, QUERY_STRING = None, wb_stdin = [], wb_assign = (\<lambda>d. Some ''/h''), wb_suid = True,
     wb_chdir = (\<lambda>i. True), wb_rename = True, wb_getpw = (\<lambda>u d. if u = ''post'' then Some web_pw else None), wb_limits = (\<lambda>d. True), wb_mask = (\<lambda>d. 0),
     wb_scram = (\<lambda>p. None), wb_crypt = (\<lambda>p s. p), wb_https = None, wb_trivial = False, wb_ipasswd = (\<lambda>u d p. 1),
     wb_scan_ulong = (\<lambda>s. numval 10 (leading_digits s)), wb_fmt_ulong = Process.digits 10, wb_rchr = ref_rchr,
     wb_line = (\<lambda>d. Some (takeWhile (\<lambda>c. c \<noteq> LF) d @ (if LF \<in> set d then [LF] else []))), wb_behind = [], wb_now = 5,
     wb_readdir = (\<lambda>d. Some []), wb_unlink = (\<lambda>f. True), wb_open = True, wb_wrote = None\<rparr>"

lemma web_sample_scan: "numval 10 (leading_digits (Process.digits 10 n)) = n"
proof -
  have "set (Process.digits 10 n) \<subseteq> set ''0123456789''" using digits_set[of 10 n] by simp
  then have "leading_digits (Process.digits 10 n) = Process.digits 10 n" unfolding leading_digits_def takeWhile_eq_all_conv by blast
  then show ?thesis using digits_val[of 10 n] by simp
qed

interpretation ref_web: web_lib web_sample
  by (intro web_lib.intro web_lib_axioms.intro) (simp_all add: web_sample_def ref_cgi.cgi_lib_axioms web_sample_scan)

lemma sample_fields: "wb_assign web_sample = (\<lambda>d. Some ''/h'')" "wb_suid web_sample" "wb_chdir web_sample i" "wb_open web_sample" "wb_wrote web_sample = None"
    "wb_getpw web_sample u d = (if u = ''post'' then Some web_pw else None)" "wb_limits web_sample d" "wb_rchr web_sample = ref_rchr" "wb_Q web_sample = qstr_ref"
    "pw_gid web_pw = 0"
  by (simp_all add: web_sample_def web_pw_def wb_Q_def cg_sample_def)

definition web_start :: web_st where
  "web_start = \<lparr>ws_files = Map.empty, ws_dirs = (\<lambda>f. False), ws_changed = []\<rparr>"

definition login_form :: "(string \<times> string) list" where
  "login_form = [(''username'', ''post''), (''domain'', ''a.org''), (''password'', ''abc'')]"

lemma login_values:
  "value_of web_sample (form_text login_form) ''username='' = Some ''post''"
  "value_of web_sample (form_text login_form) ''domain='' = Some ''a.org''"
  "value_of web_sample (form_text login_form) ''password='' = Some ''abc''"
  "value_of web_sample (form_text login_form) ''returntext='' = Some []"
  "value_of web_sample (form_text login_form) ''returnhttp='' = Some []"
proof -
  have ok: "form_ok login_form" by (simp add: form_ok_def login_form_def field_name_def)
  have f: "field_name ''username''" "field_name ''domain''" "field_name ''password''" "field_name ''returntext''" "field_name ''returnhttp''"
    by (simp_all add: field_name_def)
  show "value_of web_sample (form_text login_form) ''username='' = Some ''post''"
    "value_of web_sample (form_text login_form) ''domain='' = Some ''a.org''"
    "value_of web_sample (form_text login_form) ''password='' = Some ''abc''"
    "value_of web_sample (form_text login_form) ''returntext='' = Some []"
    "value_of web_sample (form_text login_form) ''returnhttp='' = Some []"
    using f[THEN ref_web.form_value[OF ok]] by (simp_all add: value_of_def login_form_def del: form_text.simps)
qed

lemma form_nul: "NUL \<notin> set (form_text login_form)"
  by (rule ref_web.form_no_nul) (simp add: form_ok_def login_form_def field_name_def)

lemma sample_login: "\<exists>st1. login_branch web_sample (form_text login_form) web_start = Some (st1, WMenu)"
proof -
  have "set_admin_type qstr_ref ''post'' ''a.org'' 0 = DOMAIN_ADMIN" by (simp add: set_admin_type_def qstr_ref_def)
  moreover have "\<not> ref_rchr ''post'' CHR ''@'' < 4" by (simp add: ref_rchr_def)
  moreover have "auth_user web_sample web_pw ''abc'' = 0"
    by (simp add: auth_user_def web_pw_def web_sample_def wb_Q_def cg_sample_def qstr_ref_def)
  moreover have "del_id_files web_sample d st = (st, None)" for d st by (simp add: del_id_files_def web_sample_def)
  ultimately show ?thesis
    unfolding login_branch_def login_values bind.bind_lunit Let_def
    by (simp add: sample_fields)
qed

definition passwd_form :: "(string \<times> string) list" where
  "passwd_form = [(''address'', ''post@a.org''), (''oldpass'', ''abc''), (''newpass1'', ''xyz''), (''newpass2'', ''xyz'')]"

lemma passwd_values:
  "value_of web_sample (form_text passwd_form) ''address='' = Some ''post@a.org''"
  "value_of web_sample (form_text passwd_form) ''oldpass='' = Some ''abc''"
  "value_of web_sample (form_text passwd_form) ''newpass1='' = Some ''xyz''"
  "value_of web_sample (form_text passwd_form) ''newpass2='' = Some ''xyz''"
proof -
  have ok: "form_ok passwd_form" by (simp add: form_ok_def passwd_form_def field_name_def)
  have f: "field_name ''address''" "field_name ''oldpass''" "field_name ''newpass1''" "field_name ''newpass2''" by (simp_all add: field_name_def)
  show "value_of web_sample (form_text passwd_form) ''address='' = Some ''post@a.org''"
    "value_of web_sample (form_text passwd_form) ''oldpass='' = Some ''abc''"
    "value_of web_sample (form_text passwd_form) ''newpass1='' = Some ''xyz''"
    "value_of web_sample (form_text passwd_form) ''newpass2='' = Some ''xyz''"
    using f[THEN ref_web.form_value[OF ok]] by (simp_all add: value_of_def passwd_form_def del: form_text.simps)
qed

definition sample_page :: "string \<Rightarrow> string \<Rightarrow> web_env" where
  "sample_page p q = web_sample\<lparr>PATH_INFO := Some p, QUERY_STRING := Some q\<rparr>"

lemma sample_auth: "auth_user (sample_page p q) = auth_user web_sample"
proof -
  have w: "wb_Q (sample_page p q) = wb_Q web_sample" "wb_scram (sample_page p q) = wb_scram web_sample" "wb_crypt (sample_page p q) = wb_crypt web_sample"
    "wb_https (sample_page p q) = wb_https web_sample" "wb_trivial (sample_page p q) = wb_trivial web_sample"
    by (simp_all add: sample_page_def wb_Q_def)
  show ?thesis unfolding auth_user_def w by (rule refl)
qed

lemma sample_page_simps:
  "value_of (sample_page p q) = value_of web_sample" "wb_getpw (sample_page p q) = wb_getpw web_sample" "wb_rchr (sample_page p q) = ref_rchr"
  "wb_mask (sample_page p q) d = 0"
  by (simp_all add: sample_page_def value_of_def web_sample_def wb_Q_def fun_eq_iff)

lemma sample_request: "request_text (sample_page p q) = Some q"
  by (simp add: request_text_def sample_page_def web_sample_def wb_Q_def cg_sample_def qstr_ref_def)

lemma sample_password:
  "web_main (sample_page ''/passwd/'' (form_text passwd_form)) web_start = Some (web_start\<lparr>ws_changed := [(''post'', ''a.org'', ''xyz'')]\<rparr>, WExit 0)"
proof -
  let ?W = "sample_page ''/passwd/'' (form_text passwd_form)"
  have q: "wb_Q ?W = qstr_ref" "REQUEST_METHOD ?W = Some ''GET''" "QUERY_STRING ?W = Some (form_text passwd_form)" "PATH_INFO ?W = Some ''/passwd/''"
    by (simp_all add: sample_page_def web_sample_def wb_Q_def cg_sample_def)
  have n: "str_diffn (wb_Q ?W) ''/passwd/'' ''/com/'' 5 \<noteq> 0" "str_diffn (wb_Q ?W) ''/passwd/'' ''/passwd/'' 7 = 0" by (simp_all add: q qstr_ref_def)
  have "web_main ?W web_start = passwd_branch ?W (form_text passwd_form) web_start" by (simp add: web_main_def sample_request q(4) n Let_def)
  moreover have "ref_rchr ''post@a.org'' CHR ''@'' = 4" by (simp add: ref_rchr_def)
  moreover have "auth_user web_sample (web_pw\<lparr>pw_gid := g\<rparr>) ''abc'' = 0" for g
    by (simp add: auth_user_def web_pw_def web_sample_def wb_Q_def cg_sample_def qstr_ref_def)
  moreover have "str_diffn qstr_ref ''xyz'' ''xyz'' n = 0" "str_str qstr_ref ''post'' ''xyz'' = None" for n by (simp_all add: qstr_ref_def)
  moreover have "wb_assign ?W d \<noteq> None" "wb_suid ?W" "wb_chdir ?W i" "wb_limits ?W d" "wb_ipasswd ?W u d p = 1" for d i u p
    by (simp_all add: sample_page_def web_sample_def)
  ultimately show ?thesis
    unfolding passwd_branch_def sample_page_simps sample_auth passwd_values bind.bind_lunit Let_def
    by (simp add: q(1) sample_fields NO_PASSWD_CHNG_def web_start_def)
qed

lemma sample_ip: "plain_ip (ip_addr web_sample)" "wb_chdir web_sample i" "wb_rename web_sample" "wb_now web_sample = 5"
  by (simp_all add: plain_ip_def ip_addr_def web_sample_def)

lemma sample_rchr: "length ''post'' \<le> wb_rchr web_sample ''post'' CHR ''@''"
  by (simp add: web_sample_def ref_rchr_def)

lemma sample_stays: "session_stays web_sample ''post'' d st"
  by (simp add: session_stays_def under_def sample_fields session_file_def web_pw_def)

lemma sample_command:
  "\<exists>st1 st2 a. com_branch web_sample ''/com/adduser'' (form_text (url_form ''post'' ''a.org'' 5)) st1 = Some (st2, WCommand ''adduser'' a)"
proof -
  obtain st1 where st1: "login_branch web_sample (form_text login_form) web_start = Some (st1, WMenu)" using sample_login by blast
  have "web_sample\<lparr>wb_now := 5\<rparr> = web_sample" by (simp add: web_sample_def)
  then show ?thesis
    using ref_web.session_opens[OF st1 _ form_nul login_values(1,2) sample_rchr sample_ip(1,2,3) _ _ sample_stays, of 5 "''/com/adduser''"]
    unfolding sample_ip(4) by (auto simp del: form_text.simps)
qed

lemma sample_page_works:
  "\<exists>st1 st2 query a. web_main (web_sample\<lparr>wb_now := 100, PATH_INFO := Some (''/com/'' @ ''adduser''), REQUEST_METHOD := Some ''GET'', QUERY_STRING := Some query\<rparr>) st1
    = Some (st2, WCommand ''adduser'' a)"
proof -
  obtain st1 where st1: "login_branch web_sample (form_text login_form) web_start = Some (st1, WMenu)" using sample_login by blast
  show ?thesis
    using ref_web.page_works[OF st1 _ form_nul login_values(1,2) sample_rchr sample_ip(1,2,3) _ _ _ sample_stays, of 100 "''adduser''" "[]"]
    unfolding sample_ip(4) by (auto simp del: form_text.simps append.simps)
qed

end
