(* ===== verification/Spec2Isabelle.thy ===== *)
theory Spec2Isabelle
  imports Eps_Samples Crc_Samples Account_Samples Vfilter_Samples Vdelivermail_Samples Control_Samples Inlookup_Samples Web_Samples "HOL-Library.Multiset"
begin

text \<open>
  IndiMail virtual domains: verification of the mail parser \<^verbatim>\<open>eps-1.2\<close>, of the integrity tools
  \<^verbatim>\<open>crc\<close> and \<^verbatim>\<open>crcdiff\<close>, of the mail filter \<^verbatim>\<open>vfilter\<close>, of the delivery of mail with its quotas, of the
  allocator of user directories, of the parsers of account data, of the control files of domains and of the lookup
  service (all under \<^verbatim>\<open>src/indimail-x\<close>), and of the forms and sessions of the web interface
  \<^verbatim>\<open>src/iwebadmin-x\<close>.

  \<^bold>\<open>The program.\<close> IndiMail is a mail system; its own code is \<^verbatim>\<open>src/indimail-x\<close> with the web interface \<^verbatim>\<open>src/iwebadmin-x\<close>; the
  other directories hold vendored programs (Courier-IMAP, fetchmail, procmail, bogofilter, ...). Filters and auto-responders of
  IndiMail read messages through the parser \<^verbatim>\<open>eps-1.2\<close>: a buffered reader cuts the input into lines
  (\<^verbatim>\<open>eps_buffer.c\<close>, over \<^verbatim>\<open>eps_line.c\<close>), folded header lines are joined (\<^verbatim>\<open>eps_unroll.c\<close>), headers are
  split into name, value and atoms (\<^verbatim>\<open>eps_header.c\<close>, \<^verbatim>\<open>rfc2822.c\<close>), addresses are evaluated
  (\<^verbatim>\<open>eps_address.c\<close>), bodies are cut at boundaries (\<^verbatim>\<open>eps_boundary.c\<close>, \<^verbatim>\<open>eps_mime.c\<close>) and decoded
  (\<^verbatim>\<open>eps_base64.c\<close>); \<^verbatim>\<open>eps_roll.c\<close> folds headers when a message is written. The filter
  \<^verbatim>\<open>vfilter.c\<close> is such a client: it stores the headers of a message (\<^verbatim>\<open>storeHeader.c\<close>,
  \<^verbatim>\<open>parseAddress.c\<close>), tries the rules of the database (\<^verbatim>\<open>vfilter_select.c\<close>) in order and delivers, forwards,
  bounces or drops the message. The administrator's integrity
  check is a pair of programs: \<^verbatim>\<open>crc.c\<close> prints one line per file with a checksum, the mode, the owner and the
  time; \<^verbatim>\<open>crcdiff.c\<close> compares two such lists and reports what was added, deleted or changed. When a user is added
  (\<^verbatim>\<open>make_user_dir.c\<close>), an allocator whose state is a row of the database (\<^verbatim>\<open>inc_dir_control.c\<close>,
  \<^verbatim>\<open>vread_dir_control.c\<close>, \<^verbatim>\<open>vwrite_dir_control.c\<close>) spreads the mailboxes over directories; the lookup
  service prints password entries (\<^verbatim>\<open>ProcessInFifo.c\<close>) that its clients parse (\<^verbatim>\<open>strToPw.c\<close>). The
  web interface (\<^verbatim>\<open>iwebadmin.c\<close>) reads the fields of a form (\<^verbatim>\<open>cgi.c\<close>), keeps a session as a file in the
  mailbox of the user (\<^verbatim>\<open>auth.c\<close>) and prints pages and addresses that lead back to it (\<^verbatim>\<open>printh.c\<close>,
  \<^verbatim>\<open>util.c\<close>).

  \<^bold>\<open>Conventions of the model.\<close> A C function is a HOL function of the same name. Undefined behaviour (an access
  outside a block, a read of memory that is no string) is the value \<^verbatim>\<open>None\<close> of type \<^verbatim>\<open>'a ub\<close>, or
  \<^verbatim>\<open>Wild\<close> in programs that print and exit; a block of memory is the list of its bytes. Allocation asks a
  parameter \<^verbatim>\<open>cenv\<close> (\<open>mem_ok\<close> when it never fails). Descriptors are scripts of results of
  \<^verbatim>\<open>read\<close> and \<^verbatim>\<open>write\<close>, so that short reads and writes, interrupts and failures are inputs of
  the theorems. Registers and counters have their machine width. The library libqmail is not part of the
  repository; it is the record \<^verbatim>\<open>qlib\<close> with the contract \<^verbatim>\<open>qmail\<close>, which theorems about printing programs
  take as a hypothesis and a reference implementation meets. The operating system is the record
  \<^verbatim>\<open>crc_world\<close>, without assumptions.

  \<^bold>\<open>Theories.\<close>
  \<^item> \<^verbatim>\<open>Prelude\<close>: characters, memory blocks, allocation, shared lemmas.
  \<^item> \<^verbatim>\<open>Eps_Line\<close>, \<^verbatim>\<open>Eps_Buffer\<close>: \<^verbatim>\<open>line_t\<close> and \<^verbatim>\<open>buffer_t\<close> with \<^verbatim>\<open>line_inject\<close> and
    \<^verbatim>\<open>buffer_next_line\<close> (the recursion of the reader is a function with a termination proof); the
    abstract reader is the list of lines \<^verbatim>\<open>split_lines\<close> of the input.
  \<^item> \<^verbatim>\<open>Eps_Unroll\<close>, \<^verbatim>\<open>Eps_Rfc2822\<close>, \<^verbatim>\<open>Eps_Header\<close>, \<^verbatim>\<open>Eps_Address\<close>: joining, lexical functions, headers and
    addresses, each with the specification it refines (\<^verbatim>\<open>logical_lines\<close>, \<^verbatim>\<open>strip_comments\<close>,
    \<^verbatim>\<open>header_of\<close>, \<^verbatim>\<open>group_of\<close>).
  \<^item> \<^verbatim>\<open>Eps_Mime\<close>: boundary stack, content tables, parts and the interface \<^verbatim>\<open>eps.c\<close>.
  \<^item> \<^verbatim>\<open>Eps_Output\<close>, \<^verbatim>\<open>Eps_Base64\<close>, \<^verbatim>\<open>Eps_Roll\<close>: output descriptors, base64, folding.
  \<^item> \<^verbatim>\<open>Process\<close>: computations that may end the process, libqmail and its contract.
  \<^item> \<^verbatim>\<open>Crc_Table\<close>, \<^verbatim>\<open>Crc_Sum\<close>, \<^verbatim>\<open>Crc_Tool\<close>, \<^verbatim>\<open>Crc_Gen\<close>: table, checksum of a file, program,
    generator of the table. \<^verbatim>\<open>Crc_Spec\<close> holds what the program promises: the POSIX checksum, the printed
    line, the walk without its static buffer, termination on finite trees, the exclusion rule.
  \<^item> \<^verbatim>\<open>Crcdiff_Index\<close>, \<^verbatim>\<open>Crcdiff\<close>: the hash index with its contract \<^verbatim>\<open>first_index\<close>, and the program.
    \<^verbatim>\<open>Crcdiff_Spec\<close> and \<^verbatim>\<open>Crcdiff_Lines\<close>: the comparison by search, the list of changes the counters count,
    and the lines of \<^verbatim>\<open>crc\<close> read back by \<^verbatim>\<open>crcdiff\<close>.
  \<^item> \<^verbatim>\<open>Eps_Samples\<close>, \<^verbatim>\<open>Crc_Samples\<close>: concrete inputs on which the properties are applied.
  \<^item> \<^verbatim>\<open>Qstr\<close>: the string functions of libqmail as a record with the contract \<^verbatim>\<open>qstrings\<close>.
  \<^item> \<^verbatim>\<open>Bigdir\<close>: \<^verbatim>\<open>vdir_type\<close> and its operations; \<^verbatim>\<open>Bigdir_Spec\<close>: the enumeration of directories they
    implement, by an invariant of the reached states. \<^verbatim>\<open>Bigdir_Store\<close>: the functions around the database row
    with their static buffers, over a record of database and file operations; \<^verbatim>\<open>Bigdir_Store_Spec\<close>: the row as
    a round trip (contract \<^verbatim>\<open>bd_text\<close>), and the statements that are sent again.
  \<^item> \<^verbatim>\<open>Account\<close>, \<^verbatim>\<open>Account_Spec\<close>, \<^verbatim>\<open>Quota_Spec\<close>: addresses, names, the password rule, quotas.
    \<^verbatim>\<open>Pwstruct\<close>, \<^verbatim>\<open>Pwstruct_Spec\<close>: password entries as text. \<^verbatim>\<open>Account_Samples\<close>: their concrete inputs.
  \<^item> \<^verbatim>\<open>Vfilter_Headers\<close>: the table of headers (\<^verbatim>\<open>storeHeader\<close>, \<^verbatim>\<open>parseAddress\<close>, \<^verbatim>\<open>headerList\<close>); \<^verbatim>\<open>Vfilter\<close>: the
    selection and test of rules, the exits and \<^verbatim>\<open>main\<close>, over the parser of \<^verbatim>\<open>Eps_Mime\<close>. \<^verbatim>\<open>Vfilter_Spec\<close>: the table
    as lists of values by name, the first rule that applies, what a successful exit means, and the comparisons
    (contracts \<^verbatim>\<open>caseless\<close> and \<^verbatim>\<open>filter_lib\<close>). \<^verbatim>\<open>Vfilter_Samples\<close>: the reference environment and inputs.
  \<^item> \<^verbatim>\<open>Mquota\<close>: the usage of a mailbox, by the quota file and by counting (\<^verbatim>\<open>check_quota.c\<close>, \<^verbatim>\<open>recalc_quota.c\<close>,
    \<^verbatim>\<open>update_quota.c\<close>, \<^verbatim>\<open>count_dir.c\<close>), and the decision \<^verbatim>\<open>user_over_quota.c\<close>. \<^verbatim>\<open>Mquota_Spec\<close>: the sum of a history of
    deliveries (contract \<^verbatim>\<open>mquota_lib\<close>), the cached usage. \<^verbatim>\<open>Mquota_Samples\<close>: reference environment and mailboxes.
  \<^item> \<^verbatim>\<open>Mailcount\<close>, \<^verbatim>\<open>Mailcount_Spec\<close>: the daily counter of \<^verbatim>\<open>deliver_mail.c\<close>. \<^verbatim>\<open>Deliver_Parts\<close>, \<^verbatim>\<open>Deliver\<close>: a delivery as a
    sequence of steps that go on, return or exit, over the state of \<^verbatim>\<open>Mquota\<close>. \<^verbatim>\<open>Deliver_Spec\<close>: which steps leave messages
    alone, delivery as all or nothing, with the headers that are added, the loop check (contract \<^verbatim>\<open>strstr_lib\<close>). \<^verbatim>\<open>Deliver_Samples\<close>: a delivery.
  \<^item> \<^verbatim>\<open>Vdelivermail\<close>: the program that qmail runs for a message to a virtual domain, over the steps of \<^verbatim>\<open>Deliver\<close>.
    \<^verbatim>\<open>Vdelivermail_Spec\<close>: its exit status and what became of the message, unwanted senders. \<^verbatim>\<open>Vdelivermail_Samples\<close>: a run.
  \<^item> \<^verbatim>\<open>Control\<close>: the control files that list domains and assignments, as contents of files and results of system
    calls. \<^verbatim>\<open>Control_Spec\<close>, \<^verbatim>\<open>Control_Domains\<close>: updates and removals as functions on lists of lines (contract
    \<^verbatim>\<open>control_lib\<close>), the file of assignments under all operations, domains that are added and removed.
    \<^verbatim>\<open>Assign_Cache\<close>: the lookup of an assignment with its cache. \<^verbatim>\<open>Control_Samples\<close>: concrete files.
  \<^item> \<^verbatim>\<open>Inlookup\<close>: the lookup service, client (\<^verbatim>\<open>inquery.c\<close>) and server (\<^verbatim>\<open>ProcessInFifo.c\<close>), with the messages between
    them and the tree of answers, also as \<^verbatim>\<open>cache_active_pwd\<close> fills it before the start. \<^verbatim>\<open>Inlookup_Spec\<close>: the tree holds right answers (contract \<^verbatim>\<open>stable_lookups\<close> of the
    lookups), what every answer keeps the loop keeps. \<^verbatim>\<open>Inlookup_Serve\<close>: the answer to a query after any history, the flag of
    cached entries, the bound of the tree. \<^verbatim>\<open>Inlookup_Samples\<close>: concrete lookups.
  \<^item> \<^verbatim>\<open>Webform\<close>: requests, their fields, the printer that escapes (\<^verbatim>\<open>vsnprinth\<close>), addresses of pages and checks of
    names. \<^verbatim>\<open>Webform_Spec\<close>: the buffer holds a prefix of the text that the items of the format
    make, escaping and reading back (contract \<^verbatim>\<open>cgi_lib\<close>).
    \<^verbatim>\<open>Websession\<close>: \<^verbatim>\<open>main\<close> of \<^verbatim>\<open>iwebadmin.c\<close> over the files of sessions and of the directory of the domain. \<^verbatim>\<open>Websession_Spec\<close>: what a command and a
    change of a password require, a login and the pages after it (contract \<^verbatim>\<open>web_lib\<close>). \<^verbatim>\<open>Web_Samples\<close>: a login.

  \<^bold>\<open>Bounds and fuel.\<close> The loops of clients (calling a reader until it returns NULL) take fuel above the
  number of lines of the input; each theorem states the bound and that the loop returns. \<^verbatim>\<open>printcrc\<close> takes
  a depth; \<open>walk_ends\<close> shows that a depth above the rank of the tree is enough. The probe loop of the
  index is a partial function, shown to end for lists shorter than \<open>2 ^ 60\<close>; the loop over the
  rules of the filter is one too, shown to end after the rows of the query.

  \<^bold>\<open>Not modelled.\<close> Functions that only free memory (\<^verbatim>\<open>*_kill\<close>, \<^verbatim>\<open>eps_end\<close>), the sample programs of
  the parser, the SQL back end of \<^verbatim>\<open>indimail-x\<close> and its daemons other than the loop of the lookup service (their
  behaviour is that of the database server and of processes), the pages of the web interface, and the vendored
  programs.

  \<^bold>\<open>Plan.\<close> Next: limits and quotas of domains, the commands of the web interface, the options of
  \<^verbatim>\<open>vfilter.c\<close>.
\<close>

text \<open>
  C1: Opening the parser on a descriptor (not -1) and calling eps_next_header until it returns
  NULL yields the parsed header_t of every logical (unfolded) line of the header block, in order
  and independent of the sizes of the reads, every call returns and no access leaves its block,
  when memory suffices, no read fails and the bytes contain neither a NUL nor a carriage return
  (a CR LF that is cut between two reads is read in another way than an uncut one), comments and
  quotes are balanced in every logical line, no value begins with blanks in front of an empty
  atom (as X: ;a does), and the number of calls allowed is above the number of lines plus one.
\<close>

theorem eps_headers_refine:
  assumes "mem_ok M" "fd \<noteq> -1" "input_ok inp" "CR \<notin> set (input_bytes inp)"
    and "\<forall>l \<in> set (logical_lines [] (split_lines (input_bytes inp))). balanced l \<and> header_clean l"
    and "length (split_lines (input_bytes inp)) + 1 < fuel"
  shows "\<exists>e e'. eps_begin M INTERFACE_STREAM (Descriptor fd inp) = Some (Some e)
    \<and> eps_headers fuel M e = Some (e', map header_of (logical_lines [] (split_lines (input_bytes inp))))"
proof -
  obtain e u where e: "eps_begin M INTERFACE_STREAM (Descriptor fd inp) = Some (Some e)" "eu e = Some u"
      "unroll_wf u" "\<not> ueof u" "buffer_ok (usrc u)" "line_str (ulb u) = []"
      "buffer_lines (usrc u) = split_lines (input_bytes inp)"
    using eps_begin_stream[OF assms(1-4)] by blast
  obtain f where f: "fuel = Suc f" "length (split_lines (input_bytes inp)) < f"
    using assms(6) by (cases fuel) auto
  have "\<exists>e'. eps_headers (Suc f) M e
      = Some (e', map header_of (logical_lines (line_str (ulb u)) (buffer_lines (usrc u))))"
    using assms(5) f(2) e by (intro eps_headers_spec[OF e(2,5,3) assms(1) e(4)]) simp_all
  with e f(1) show ?thesis by auto
qed

theorem eps_headers_refine_witness:
  "\<exists>e e'. eps_begin big_memory INTERFACE_STREAM (Descriptor 0 [RdBytes ''Su'', RdBytes (''bject: hi'' @ [LF, LF])])
      = Some (Some e)
    \<and> eps_headers 5 big_memory e = Some (e', map header_of (logical_lines [] (split_lines (''Subject: hi'' @ [LF, LF]))))"
  using eps_headers_refine[of big_memory 0 "[RdBytes ''Su'', RdBytes (''bject: hi'' @ [LF, LF])]" 5]
  by (simp add: input_ok_def split_subject_flat logical_subject subject_balanced subject_clean)

text \<open>
  C2: Comparing two lists through the hash indexes does and prints exactly what a comparison
  does that searches the other list, for every entry, for the first entry with the same path or
  the same untagged line.
\<close>

theorem compare_equivalent:
  assumes "fits M l1s" "fits M l2s"
  shows "compare_lists M L opts l1s l2s st = compare_naive L opts l1s l2s st"
  by (rule compare_lists_naive[OF assms])

theorem compare_equivalent_witness:
  "compare_lists big_memory qref \<lparr>o_crc = False, o_ignore_changed = False, o_ignore_dir = False, o_crit = ([], 0)\<rparr> sample_old sample_new
      (cd_start empty_out [])
    = compare_naive qref \<lparr>o_crc = False, o_ignore_changed = False, o_ignore_dir = False, o_crit = ([], 0)\<rparr> sample_old sample_new
      (cd_start empty_out [])"
  by (rule compare_equivalent[OF sample_fits])

text \<open>
  C3: A regular file of fewer than 2^32 bytes, in which up to four consecutive bytes are
  replaced by as many others: when byte_crc has printed its verbose line before and after with
  the same initial value, and crcdiff compares lists with the parsed lines (the file being the
  only entry of the new list with its path or its line), it counts a replaced file and exits
  with 1, whatever the other entries, the dates and the options are, also with -i, where the
  manual page says that a change without a change of the date is not reported. The file can be
  opened and read, its owner and group are not the number -9999 with which the cached names
  start, output can be written, the entries of the lists are well-formed and their tables fit
  the memory; the names of owner and group, the date and the path contain no NUL, tab or comma,
  the date is the 20 bytes of ctime behind the name of the day in a form that the parser
  accepts, the path is not empty and does not begin with a blank, a tag contains no NUL and no
  tab, and the text of date and path passes the check for a time.
\<close>

theorem tampering_seen:
  assumes "qmail L sent good" and "good o1" and "length v = length w" and "length w \<le> 4" and "v \<noteq> w" and "\<not> S_ISDIR sb"
    and "length (xs @ w @ ys) < 2 ^ 32" and "known_ids sb" and "known_ids sb'"
    and "good (st_out c)" and "cache_ok L W c" and "good (st_out c')" and "cache_ok L W' c'"
    and "w_open W path = Opened es" and "read_all es = (xs @ v @ ys, True)" and "w_open W' path = Opened fs" and "read_all fs = (xs @ w @ ys, True)"
    and "byte_crc L W copts path lc (Some True) True tag sb c = Ret (r1, lc1, d)" and "sent (st_out d) = sent (st_out c) @ line1 @ [LF]"
    and "byte_crc L W' copts path lc' (Some True) True tag sb' c' = Ret (r2, lc2, d')" and "sent (st_out d') = sent (st_out c') @ line2 @ [LF]"
    and "line_ok L W tm sb path tag" and "line_ok L W' tm sb' path tag" and "parse tm line1 = Some old" and "parse tm line2 = Some new"
    and "old \<in> set l1s" and "new \<in> set l2s" and "\<forall>e \<in> set l2s. same_file old e \<longrightarrow> e = new"
    and "fits M l1s" and "fits M l2s" and "\<forall>e \<in> set l1s. entry_wf e" and "\<forall>e \<in> set l2s. entry_wf e"
  shows "\<exists>st. compare_lists M L opts l1s l2s (cd_start o1 err) = Ret (1, st) \<and> mod_count st \<noteq> 0"
proof -
  let ?i = "ucast (initial_crc copts)"
  have len: "length (xs @ v @ ys) < 2 ^ 32" using assms(3,7) by simp
  have "line1 @ [LF] = crc_line L W (posix_crc ?i (xs @ v @ ys)) sb path tag"
    using qmail.byte_crc_good[OF assms(1,10,11,8,14,15) len, where opts = copts and lc = lc and tag = tag] assms(18,19) by auto
  moreover have "line2 @ [LF] = crc_line L W' (posix_crc ?i (xs @ w @ ys)) sb' path tag"
    using qmail.byte_crc_good[OF assms(1,12,13,9,16,17,7), where opts = copts and lc = lc' and tag = tag] assms(20,21) by auto
  ultimately have l: "line1 = butlast (crc_line L W (posix_crc ?i (xs @ v @ ys)) sb path tag)"
    "line2 = butlast (crc_line L W' (posix_crc ?i (xs @ w @ ys)) sb' path tag)" by (metis butlast_snoc)+
  let ?c = "posix_crc ?i (xs @ v @ ys)" and ?c' = "posix_crc ?i (xs @ w @ ys)"
  have ne: "?c \<noteq> ?c'" using posix_crc_burst[OF assms(3,4)] assms(5) by blast
  have e: "old = crc_entry L W ?c sb path tag" "new = crc_entry L W' ?c' sb' path tag"
    using qmail.parse_crc_line[OF assms(1)] assms(22-25) unfolding l by force+
  obtain r st where st: "compare_lists M L opts l1s l2s (cd_start o1 err) = Ret (r, st)"
    "\<forall>k. cnt st k = of_nat (count_list (all_changes opts l1s l2s) k)" "r = (if \<forall>c. cnt st c = 0 then 0 else 1)"
    using qmail.compare_counts[OF assms(1,29-32,2)] by blast
  have m: "mod_count st \<noteq> 0"
    using replaced_counted[OF st(2)] qmail.replaced_found[OF assms(1,22,23) ne assms(6) e assms(26-28)] assms(29) by (simp add: fits_def)
  then have "\<not> (\<forall>c. cnt st c = 0)" using cnt.simps(3)[of st] by metis
  then show ?thesis using st(1,3) m by simp
qed

theorem tampering_seen_witness:
  "\<exists>d d' line1 line2 lc1 lc2 r1 r2 old new st. byte_crc qref sample_world (a_opts crc_defaults) ''d/a'' None (Some True) True None (sample_stat 0x81A4) (crc_start empty_out) = Ret (r1, lc1, d)
    \<and> odata (st_out d) = line1 @ [LF] \<and> parse (\<lambda>s. True) line1 = Some old
    \<and> byte_crc qref sample_changed (a_opts crc_defaults) ''d/a'' None (Some True) True None (sample_stat 0x81A4) (crc_start empty_out) = Ret (r2, lc2, d')
    \<and> odata (st_out d') = line2 @ [LF] \<and> parse (\<lambda>s. True) line2 = Some new
    \<and> compare_lists big_memory qref \<lparr>o_crc = False, o_ignore_changed = True, o_ignore_dir = False, o_crit = ([], 0)\<rparr>
      [old] [new] (cd_start empty_out []) = Ret (1, st) \<and> mod_count st \<noteq> 0"
proof -
  let ?e = "\<lambda>W d. crc_entry qref W (posix_crc 0 d) (sample_stat 0x81A4) ''d/a'' None"
  note ok = sample_line_ok(2)[of "0x81A4"]
  have p: "parse (\<lambda>s. True) (butlast (crc_line qref sample_world (posix_crc 0 ''abc'') (sample_stat 0x81A4) ''d/a'' None)) = Some (?e sample_world ''abc'')"
    "parse (\<lambda>s. True) (butlast (crc_line qref sample_changed (posix_crc 0 ''axc'') (sample_stat 0x81A4) ''d/a'' None)) = Some (?e sample_changed ''axc'')"
    using ref.parse_crc_line[OF ok] ref.parse_crc_line[OF sample_changed_ok] by simp_all
  obtain d lc1 where d: "byte_crc qref sample_world (a_opts crc_defaults) ''d/a'' None (Some True) True None (sample_stat 0x81A4) (crc_start empty_out) = Ret (posix_crc 0 ''abc'', lc1, d)"
    "odata (st_out d) = butlast (crc_line qref sample_world (posix_crc 0 ''abc'') (sample_stat 0x81A4) ''d/a'' None) @ [LF]"
    using sample_run(1) by blast
  obtain d' lc2 where d': "byte_crc qref sample_changed (a_opts crc_defaults) ''d/a'' None (Some True) True None (sample_stat 0x81A4) (crc_start empty_out) = Ret (posix_crc 0 ''axc'', lc2, d')"
    "odata (st_out d') = butlast (crc_line qref sample_changed (posix_crc 0 ''axc'') (sample_stat 0x81A4) ''d/a'' None) @ [LF]"
    using sample_run(2) by blast
  have g: "odata (st_out (crc_start empty_out)) = []" "oplan (st_out (crc_start empty_out)) = []"
    "cache_ok qref W (crc_start empty_out)" for W by (simp_all add: crc_start_def cache_ok_start[unfolded crc_start_def])
  have "\<exists>st. compare_lists big_memory qref \<lparr>o_crc = False, o_ignore_changed = True, o_ignore_dir = False, o_crit = ([], 0)\<rparr>
      [?e sample_world ''abc''] [?e sample_changed ''axc''] (cd_start empty_out []) = Ret (1, st) \<and> mod_count st \<noteq> 0"
    by (rule tampering_seen[OF ref.qmail_axioms _ _ _ _ sample_regular(2) _ sample_stat_ids sample_stat_ids _ g(3) _ g(3) _ _ _ _ d(1) _ d'(1) _ ok sample_changed_ok p, where v = "''b''" and w = "''x''" and xs = "''a''" and ys = "''c''"])
      (simp_all add: d(2) d'(2) g fits_def ref.crc_entry_wf sample_changed_def, simp_all)
  then show ?thesis using d d' p by blast
qed

text \<open>
  C4: A delivery to a directory (an address that starts with a slash) is all or nothing,
  whatever system calls failed; message files are those whose names end with a digit, as the
  names that deliver_mail makes (the numbers are printed as digits), so that its own files like
  maildirsize are not counted. If deliver_mail returns 0 and did not drop the message as a
  duplicate, the directory new holds a file, named after the host in the control file me, with
  the headers that format_delivered_to1 makes from the variables, the mail address of the
  directory and this host, then the whole message read from descriptor 0, and behind it only
  what a file of the same name in tmp, which is opened without being emptied, had behind this
  length (nothing if there was none); the file in tmp is gone and no other message file changed.
  With any other result, and for a duplicate, no message in new was added, changed or removed.
\<close>

theorem delivery_atomic:
  assumes "mquota_lib (d_E E)" and "starts CHR ''/'' address"
    and "deliver_mail E W address MsgSize quota dmn st = Some (st', r)"
  shows "if r = Stop 0 \<and> \<not> duplicate E address then stored E address (added_headers E dmn address st) (d_mq st) (d_mq st')
    else new_unchanged address (d_mq st) (d_mq st')"
  using deliver_mail_all[OF assms(3,2) mquota_lib.fmt_digits[OF assms(1)]] unfolding all_or_nothing_def by (rule conjunct2)

theorem delivery_atomic_witness:
  "\<exists>st'. deliver_mail (sample_dm Map.empty []) sample_os ''/a/Maildir/'' 11 ''NOQUOTA'' ''d'' sample_dst = Some (st', Stop 0)
    \<and> stored (sample_dm Map.empty []) ''/a/Maildir/'' (added_headers (sample_dm Map.empty []) ''d'' ''/a/Maildir/'' sample_dst) (d_mq sample_dst) (d_mq st')"
proof -
  obtain st' where st': "deliver_mail (sample_dm Map.empty []) sample_os ''/a/Maildir/'' 11 ''NOQUOTA'' ''d'' sample_dst = Some (st', Stop 0)"
    using sample_delivery by blast
  have "mquota_lib (d_E (sample_dm Map.empty []))" unfolding sample_dm_sel by (rule ref_quota.mquota_lib_axioms)
  then show ?thesis using st' delivery_atomic[OF _ _ st'] by (simp add: starts_def duplicate_def sample_dm_sel)
qed

text \<open>
  C5: A message for a plain account: vdelivermail was started with arguments it accepts, could
  set its ids, MAKE_SEEKABLE and BOUNCE_MAIL are not set, the size of the message is known and
  not 0, SENDER is set and not an unwanted sender (bhfcheck), the entry of the account is found
  and active, its domain is assigned, it is not locked for bounces, not a group and without
  aliases or an own .qmail (or NOALIAS or an empty EXT keeps the program from looking for them),
  and its directory starts with a slash; the message is not dropped as a duplicate. If
  vdelivermail exits with 0 through the delivery, the directories of the account are made and
  its directory new holds a file with the headers that deliver_mail adds and the whole message,
  as in the property of deliver_mail; otherwise it exits with 111 or with the status of a bounce
  (100, or 0 when DISCARD_BOUNCE is set), and no message in new was added, changed or removed.
  So with the conditions above status 0 without a stored message needs DISCARD_BOUNCE.
\<close>

theorem mail_kept:
  assumes "account_found V0 argv st V dmn pw" and "plain_account V pw (pw_name pw) dmn st" and "starts CHR ''/'' (pw_dir pw)"
    and "mquota_lib (d_E (vd_dm V))" and "\<not> duplicate (vd_dm V) (folder_dir V (pw_dir pw @ ''/Maildir/''))"
    and "vdelivermail_main V0 argv st = Some (st', r)"
  shows "(r = Quit 0 \<and> (\<exists>st1. prepare_maildir V (pw_dir pw @ ''/Maildir/'') st = Some (st1, Go (folder_dir V (pw_dir pw @ ''/Maildir/'')))
      \<and> stored (vd_dm V) (folder_dir V (pw_dir pw @ ''/Maildir/''))
          (added_headers (vd_dm V) dmn (folder_dir V (pw_dir pw @ ''/Maildir/'')) st1) (d_mq st) (d_mq st')))
    \<or> (turned_away V r \<and> new_unchanged (folder_dir V (pw_dir pw @ ''/Maildir/'')) (d_mq st) (d_mq st'))"
proof -
  have "thenm (account_delivery V pw dmn (vd_msgsize V)) (\<lambda>_. quitm 0) st = Some (st', r)"
    using assms(2,6) main_account[OF assms(1)] process_plain[OF assms(2)] by (simp add: plain_account_def thenm_def)
  then obtain s where "account_delivery V pw dmn (vd_msgsize V) st = Some (st', s)" "\<And>k. s = Quit k \<Longrightarrow> r = Quit k" "s = Go 0 \<Longrightarrow> r = Quit 0"
    by (auto simp: thenm_def quitm_def split: option.splits prod.splits step.splits)
  note run = this
  from account_result[OF run(1) assms(3) mquota_lib.fmt_digits[OF assms(4)] assms(5)] show ?thesis
    using run(2,3) by (auto simp: turned_away_def)
qed

theorem mail_kept_witness:
  "\<exists>st'. vdelivermail_main (vd_sample (vd_pw 0 ''NOQUOTA'')) [''p'', ''q'', ''delete''] sample_dst = Some (st', Quit 0)
    \<and> stored (sample_dm vd_vars []) ''/a/Maildir/'' (added_headers (sample_dm vd_vars []) ''d'' ''/a/Maildir/'' vd_dst) (d_mq sample_dst) (d_mq st')"
proof -
  let ?pw = "vd_pw 0 ''NOQUOTA''"
  obtain st' where st': "vdelivermail_main (vd_sample ?pw) [''p'', ''q'', ''delete''] sample_dst = Some (st', Quit 0)" using vd_run by blast
  have d: "starts CHR ''/'' (pw_dir ?pw)" "folder_dir (vd_sample ?pw) (pw_dir ?pw @ ''/Maildir/'') = ''/a/Maildir/''"
    by (simp_all add: vd_pw_def starts_def folder_dir_def vd_sample_sel vd_vars_def)
  have l: "mquota_lib (d_E (vd_dm (vd_sample ?pw)))" unfolding vd_sample_sel sample_dm_sel by (rule ref_quota.mquota_lib_axioms)
  have "\<not> turned_away (vd_sample ?pw) (Quit 0 :: unit step)" "\<not> duplicate (vd_dm (vd_sample ?pw)) ''/a/Maildir/''"
    by (simp_all add: turned_away_def duplicate_def vd_sample_sel sample_dm_sel vd_vars_def)
  then have k: "\<exists>st1. prepare_maildir (vd_sample ?pw) (pw_dir ?pw @ ''/Maildir/'') sample_dst = Some (st1, Go ''/a/Maildir/'')
      \<and> stored (vd_dm (vd_sample ?pw)) ''/a/Maildir/'' (added_headers (vd_dm (vd_sample ?pw)) ''d'' ''/a/Maildir/'' st1) (d_mq sample_dst) (d_mq st')"
    using mail_kept[OF vd_found vd_plain d(1) l _ st', unfolded d(2)] by blast
  have "pw_dir ?pw @ ''/Maildir/'' = ''/a/Maildir/''" by (simp add: vd_pw_def)
  then show ?thesis using k st' vd_prepared by (simp add: vd_sample_sel)
qed

text \<open>
  C6: Client and server of the lookup service agree, over a local fifo (not over TCP). Assume
  that the database does not change while the server runs, so that every lookup gives the same
  answer whatever the global state is, and that the entries which were in the tree at the start
  agree with the lookups (with an empty tree they do). Then after any messages, failed reads and
  hangups that leave the server running, the message that inquery builds for a user, relay,
  host, alias or domain query is decoded by the server, the reply goes to the fifo named in it,
  and what the client makes of the reply is the answer of the direct lookup. The texts of the
  message contain no NUL, it has to fit the buffer of the server, which is not larger than the
  pipe (can_ask), and an answer that is a text has no NUL and has to fit, with its terminator,
  the pipes of both ends (answer_fits).
\<close>

theorem lookup_answered:
  assumes "stable_lookups E" and "tree_right E (in_start t n g b)"
    and "serve E es (in_start t n g b) = Some (out, 1, sv)" and "can_ask E ty email fifo ip (length b)"
    and "ty \<noteq> PWD_QUERY" and "ty \<noteq> LIMIT_QUERY" and "0 \<le> pipe" and "answer_fits E pipe (direct_answer E ty email (ip_text ty ip) g0)"
  shows "\<exists>reply s st'. serve E (es @ [client_event (query_msg ty email fifo ip)]) (in_start t n g b) = Some (out @ [(fifo, reply)], 1, s)
    \<and> client_answer Q pipe ty reply st = Some (st', direct_answer E ty email (ip_text ty ip) g0)"
  by (rule answered[OF assms])

theorem lookup_answered_witness:
  "\<exists>reply s st'. serve in_sample [EvHup, EvEof True, client_event (query_msg HOST_QUERY in_known ''/tmp/f'' None)] (in_start Map.empty 0 new_pw_st in_buffer)
      = Some ([(''/tmp/f'', reply)], 1, s)
    \<and> client_answer qstr_ref 512 HOST_QUERY reply new_pw_st = Some (st', AText ''mx'')"
proof -
  have d: "direct_answer in_sample HOST_QUERY in_known (ip_text HOST_QUERY None) new_pw_st = AText ''mx''"
    by (simp add: direct_answer_def in_sample_def query_defs)
  have s: "serve in_sample [EvHup, EvEof True] (in_start Map.empty 0 new_pw_st in_buffer) = Some ([], 1, in_start Map.empty 0 new_pw_st in_buffer)"
    by (simp add: in_handle_def hangup_def in_start_def in_sample_def)
  have c: "can_ask in_sample HOST_QUERY in_known ''/tmp/f'' None (length in_buffer)" using sample_can_ask by (simp add: query_defs)
  have n: "HOST_QUERY \<noteq> PWD_QUERY" "HOST_QUERY \<noteq> LIMIT_QUERY" by (simp_all add: query_defs)
  have f: "answer_fits in_sample 512 (direct_answer in_sample HOST_QUERY in_known (ip_text HOST_QUERY None) new_pw_st)"
    unfolding d by (simp add: text_fits_def no_nul_def in_sample_def)
  show ?thesis
    using lookup_answered[OF ref_lookups.stable_lookups_axioms start_right s c n _ f, of qstr_ref new_pw_st] unfolding d by (simp del: serve.simps)
qed

text \<open>
  C7: The tree of cached answers is not observable: for every sequence of messages without
  password queries (with failed reads, hangups, and clients that cannot be answered) the server
  sends the same bytes to the same fifos and returns the same value as a server without the
  tree, when the lookups themselves give stable answers and the entries that were in the tree at
  the start agree with them.
\<close>

theorem lookup_equivalent:
  assumes "stable_lookups E" and "tree_right E (in_start t n g b)" and "no_query PWD_QUERY es"
  shows "map_option (\<lambda>(out, res, s). (out, res)) (serve E es (in_start t n g b))
    = map_option (\<lambda>(out, res, s). (out, res)) (serve (uncached E) es (in_start Map.empty 0 g b))"
  by (rule stable_lookups.serve_equal[OF assms(1,2) _ assms(3)]) (simp add: in_start_def)

theorem lookup_equivalent_witness:
  "map_option (\<lambda>(out, res, s). (out, res)) (serve in_sample [client_event (query_msg HOST_QUERY in_known ''/tmp/f'' None)] (in_start Map.empty 0 new_pw_st in_buffer))
    = map_option (\<lambda>(out, res, s). (out, res)) (serve (uncached in_sample) [client_event (query_msg HOST_QUERY in_known ''/tmp/f'' None)] (in_start Map.empty 0 new_pw_st in_buffer))"
  by (rule lookup_equivalent[OF ref_lookups.stable_lookups_axioms start_right sample_no_query]) (simp_all add: query_defs)

text \<open>
  C8: The web interface runs a command only when the mail directory of the user named in the
  request holds a file with the name given in the request, the address written in that file is
  the address of the client (which a header of the request may set), and the name, read as the
  time of the login, is at most two hours old. The kind of administrator is the one of that
  user. The only change of the files is the one that main makes before it looks at the session:
  an entry vacation in the directory of the domain, with all that is below it, is renamed to
  autoresp, and the session file is looked for after that.
\<close>

theorem command_needs_session:
  assumes "web_main W st = Some (st', WCommand c a)"
  shows "\<exists>q usr dmn t dir pw d l. request_text W = Some q \<and> value_of W q ''user='' = Some usr \<and> value_of W q ''dom='' = Some dmn
    \<and> value_of W q ''time='' = Some t \<and> wb_assign W dmn = Some dir \<and> wb_getpw W usr dmn = Some pw
    \<and> ws_files st' (session_file pw t) = Some d \<and> wb_line W d = Some l
    \<and> value_of W (l @ wb_behind W) ''ip_addr='' = Some (ip_addr W) \<and> int (wb_now W) \<le> sint (word_of_nat (wb_scan_ulong W t) :: u64) + 7200
    \<and> a = set_admin_type (wb_Q W) usr dmn (pw_gid pw) \<and> st' = move_vacation dir st"
proof -
  obtain q pinfo where q: "request_text W = Some q" "com_branch W pinfo q st = Some (st', WCommand c a)" using main_command[OF assms] by blast
  from command_checked[OF q(2)] show ?thesis using q(1) by metis
qed

theorem command_needs_session_witness:
  "\<exists>(st :: web_st) usr dmn t pw d. wb_getpw web_sample usr dmn = Some pw \<and> ws_files st (session_file pw t) = Some d"
proof -
  obtain st1 st2 query a where w: "web_main (web_sample\<lparr>wb_now := 100, PATH_INFO := Some (''/com/'' @ ''adduser''), REQUEST_METHOD := Some ''GET'', QUERY_STRING := Some query\<rparr>) st1
    = Some (st2, WCommand ''adduser'' a)" using sample_page_works by blast
  from command_needs_session[OF w] obtain usr dmn t pw d where "wb_getpw web_sample usr dmn = Some pw \<and> ws_files st2 (session_file pw t) = Some d"
    by auto
  then show ?thesis by blast
qed

text \<open>
  C9: After a successful login the addresses that cgiurl prints for the user work: a request for
  such an address within two hours, from the same address of the client, reaches the command
  with the session that the login has written. The name of the user has no at sign, the request
  no NUL, the address of the client none of the characters that are special in a form, the time
  is below 2^31, and the directories can be entered; when the directory of the domain has an
  entry vacation, which every command renames to autoresp first, the rename works and the
  session file is not below one of the two.
\<close>

theorem login_opens:
  assumes "web_lib W" and "login_branch W q st = Some (st1, e)" and "e = WMenu \<or> e = WModuser" and "NUL \<notin> set q"
    and "value_of W q ''username='' = Some usr" and "value_of W q ''domain='' = Some dmn" and "length usr \<le> wb_rchr W usr CHR ''@''"
    and "plain_ip (ip_addr W)" and "wb_chdir W 1" and "wb_rename W" and "wb_now W < 2 ^ 31" and "later \<le> wb_now W + 7200" and "NUL \<notin> set action"
    and "session_stays W usr dmn st1"
  shows "\<exists>query a. cgiurl (wb_cg W) path action usr dmn (int (wb_now W)) = Some (path @ ''/com/'' @ action @ ''?'' @ query)
    \<and> web_main (W\<lparr>wb_now := later, PATH_INFO := Some (''/com/'' @ action), REQUEST_METHOD := Some ''GET'', QUERY_STRING := Some query\<rparr>) st1
      = Some (move_vacation (the (wb_assign W dmn)) st1, WCommand action a)"
  by (rule web_lib.page_works[OF assms])

theorem login_opens_witness:
  "\<exists>st1 st2 query a. cgiurl cg_sample ''/cgi'' ''adduser'' ''post'' ''a.org'' 5 = Some (''/cgi/com/adduser?'' @ query)
    \<and> web_main (web_sample\<lparr>wb_now := 100, PATH_INFO := Some ''/com/adduser'', REQUEST_METHOD := Some ''GET'', QUERY_STRING := Some query\<rparr>) st1
      = Some (st2, WCommand ''adduser'' a)"
proof -
  obtain st1 where st1: "login_branch web_sample (form_text login_form) web_start = Some (st1, WMenu)" using sample_login by blast
  have "wb_cg web_sample = cg_sample" by (simp add: web_sample_def)
  then show ?thesis
    using login_opens[OF ref_web.web_lib_axioms st1 _ form_nul login_values(1,2) sample_rchr sample_ip(1,2,3) _ _ _ sample_stays, of 100 "''adduser''" "''/cgi''"]
    unfolding sample_ip(4) by (auto simp del: form_text.simps)
qed



text \<open>
  C11: What base64_encode writes for a line, base64_decode turns back into exactly the same
  bytes, for every byte string and every decoder table that base64_init built on a structure
  whose newline entry was zero.
\<close>

theorem base64_roundtrip:
  assumes "mem_ok M" "line_wf l" "line_wf l0" "inalphabet b LF = 0"
  shows "\<exists>txt' l'. base64_encode c_write \<lparr>odata = [], oplan = []\<rparr> l = Some (\<lparr>odata = txt', oplan = []\<rparr>, True)
    \<and> NUL \<notin> set txt' \<and> base64_decode M (base64_init b) l0 txt' = Some (l', True)
    \<and> line_wf l' \<and> line_str l' = line_str l0 @ line_str l"
proof -
  obtain fd where fd: "base64_encode c_write \<lparr>odata = [], oplan = []\<rparr> l = Some (fd, True)"
      "odata fd = enc 0 (line_str l)" "oplan fd = []"
    using outfile.base64_encode_spec[OF assms(2), of "\<lparr>odata = [], oplan = []\<rparr>"] by auto
  obtain l' where "base64_decode M (base64_init b) l0 (enc 0 (line_str l)) = Some (l', True)" "line_wf l'"
      "line_str l' = line_str l0 @ line_str l"
    using decode_enc[OF base64_init_table[OF assms(4)] assms(3,1)] by blast
  moreover have "fd = \<lparr>odata = enc 0 (line_str l), oplan = []\<rparr>" using fd by simp
  ultimately show ?thesis using fd(1) enc_NUL by blast
qed

theorem base64_roundtrip_witness:
  "\<exists>txt' l'. base64_encode c_write \<lparr>odata = [], oplan = []\<rparr> \<lparr>ldata = Some (''hi'' @ [NUL]), lbytes = 2, lsize = 2\<rparr>
      = Some (\<lparr>odata = txt', oplan = []\<rparr>, True)
    \<and> NUL \<notin> set txt'
    \<and> base64_decode big_memory (base64_init \<lparr>inalphabet = \<lambda>_. 0, decoder = \<lambda>_. 0\<rparr>)
        \<lparr>ldata = None, lbytes = 0, lsize = 0\<rparr> txt' = Some (l', True)
    \<and> line_wf l' \<and> line_str l' = ''hi''"
  using base64_roundtrip[of big_memory "\<lparr>ldata = Some (''hi'' @ [NUL]), lbytes = 2, lsize = 2\<rparr>"
      "\<lparr>ldata = None, lbytes = 0, lsize = 0\<rparr>" "\<lparr>inalphabet = \<lambda>_. 0, decoder = \<lambda>_. 0\<rparr>"]
  by (simp add: line_wf_def line_str_def)

text \<open>
  C12: GetValue reads back what was escaped: in a form whose values were printed with %C it
  returns the value of the first field with the name, byte by byte, and -1 for a name that is
  not in the form (values with the text of another field inside are not taken for it).
\<close>

theorem form_values:
  assumes "cgi_lib E" and "form_ok xs" and "field_name m"
  shows "GetValue E (form_text xs) (m @ ''='') = Some (case map_of xs m of None \<Rightarrow> (- 1, []) | Some v \<Rightarrow> (0, v))"
  by (rule cgi_lib.form_value[OF assms])

theorem form_values_witness:
  "GetValue cg_sample (form_text [(''a'', ''x&y=%<''), (''b'', ''1 2'')]) ''b='' = Some (0, ''1 2'')
    \<and> GetValue cg_sample (form_text [(''a'', ''x&y=%<''), (''b'', ''1 2'')]) ''y='' = Some (- 1, [])"
proof -
  have f: "form_ok [(''a'', ''x&y=%<''), (''b'', ''1 2'')]" "field_name ''b''" "field_name ''y''" by (simp_all add: form_ok_def field_name_def)
  show ?thesis
    using form_values[OF ref_cgi.cgi_lib_axioms f(1,2)] form_values[OF ref_cgi.cgi_lib_axioms f(1,3)] by (simp del: form_text.simps)
qed

text \<open>
  C13: The printer of pages, for a format made of literal text without a percent sign and of the
  directives %%, %s, %H, %C and %d with their arguments (numbers of 32 bits): it returns the
  length of the whole text and leaves as much of it in the buffer as fits in front of the
  terminator, where the text is the literals, the strings of %s as they are, those of %H and %C
  escaped and the numbers in decimal, in the order of the format. The characters <, > and the
  double quote in it are exactly those of the literals and of the strings printed with %s, and
  the text of a string printed with %H is read by a browser as that string.
\<close>

theorem page_text_safe:
  assumes "list_all item_ok xs" and "0 < siz"
  shows "vsnprinth False siz (page_format xs) (page_args xs) = Some (int (length (page_text xs)), take (siz - 1) (page_text xs))
    \<and> filter is_markup (page_text xs) = concat (map item_markup xs)
    \<and> (\<forall>s. Html s \<in> set xs \<longrightarrow> html_read (item_text (Html s)) = s)"
  using vsnprinth_text[OF assms(2)] printed_page[OF assms(1)] page_markup html_read_text by simp

theorem page_text_safe_witness:
  "vsnprinth False 20 ''<b>%H%s</b>'' [HStr ''<i>'', HStr ''x''] = Some (17, ''<b>&lt;i&gt;x</b>'')"
  using page_text_safe[of "[Lit ''<b>'', Html ''<i>'', Plain ''x'', Lit ''</b>'']" 20]
  by (simp add: page_format_def page_args_def page_text_def copy_char_def)

text \<open>
  C14: A request whose path does not begin with /com/ changes a password only when it has the
  right old password of the user named in it, a new password that is not empty, and neither the
  entry nor the limits of the user forbid the change; then the entry of just this user is
  changed. The commands behind /com/, which need a session and not the old password
  (modifyusernow sets a password), are not part of this.
\<close>

theorem password_change_safe:
  assumes "web_main W st = Some (st', e)" and "ws_changed st' \<noteq> ws_changed st"
    and "\<forall>p. PATH_INFO W = Some p \<longrightarrow> str_diffn (wb_Q W) p ''/com/'' 5 \<noteq> 0"
  shows "\<exists>q addr old new1 usr dmn pw. request_text W = Some q \<and> value_of W q ''address='' = Some addr \<and> value_of W q ''oldpass='' = Some old
    \<and> value_of W q ''newpass1='' = Some new1 \<and> usr = take (wb_rchr W addr CHR ''@'') addr \<and> dmn = drop (Suc (wb_rchr W addr CHR ''@'')) addr
    \<and> wb_getpw W usr dmn = Some pw \<and> auth_user W pw old = 0 \<and> old \<noteq> [] \<and> new1 \<noteq> []
    \<and> (pw_gid pw OR wb_mask W (usr @ ''@'' @ dmn)) AND NO_PASSWD_CHNG = 0 \<and> e = WExit 0 \<and> ws_changed st' = ws_changed st @ [(usr, dmn, new1)]"
proof -
  obtain q where q: "request_text W = Some q" "passwd_branch W q st = Some (st', e)" using main_password[OF assms(1,2)] by blast
  have "st' \<noteq> st" using assms(2) by auto
  from password_safe[OF q(2) this] show ?thesis using q(1) by auto
qed

theorem password_change_safe_witness:
  "auth_user (sample_page ''/passwd/'' (form_text passwd_form)) web_pw ''abc'' = 0"
proof -
  have n: "\<forall>p. PATH_INFO (sample_page ''/passwd/'' (form_text passwd_form)) = Some p
      \<longrightarrow> str_diffn (wb_Q (sample_page ''/passwd/'' (form_text passwd_form))) p ''/com/'' 5 \<noteq> 0"
    by (simp add: sample_page_def web_sample_def wb_Q_def cg_sample_def qstr_ref_def)
  show ?thesis
    using password_change_safe[OF sample_password _ n]
    by (auto simp: web_start_def sample_page_simps passwd_values sample_request sample_fields split: if_splits)
qed

text \<open>
  C15: The test for the postmaster compares only as many bytes as the name of the user has:
  every user whose name is a prefix of postmaster (post, p, ...) is an administrator of the
  domain, as are those with the flag.
\<close>

theorem prefix_admin:
  assumes "qstrings (wb_Q W)" and "com_branch W pinfo q st = Some (st', WCommand c a)"
    and "value_of W q ''user='' = Some usr" and "value_of W q ''dom='' = Some dmn" and "NUL \<notin> set usr" and "dmn \<noteq> []"
  shows "\<exists>pw. wb_getpw W usr dmn = Some pw \<and> (a = DOMAIN_ADMIN \<longleftrightarrow> prefix usr ''postmaster'' \<or> pw_gid pw AND QA_ADMIN \<noteq> 0)"
  using command_checked[OF assms(2)] assms(3,4) admin_names[OF assms(1,5,6)] by auto

theorem prefix_admin_witness:
  "\<exists>st1 st2. com_branch web_sample ''/com/adduser'' (form_text (url_form ''post'' ''a.org'' 5)) st1 = Some (st2, WCommand ''adduser'' DOMAIN_ADMIN)"
proof -
  obtain st1 st2 a where c: "com_branch web_sample ''/com/adduser'' (form_text (url_form ''post'' ''a.org'' 5)) st1 = Some (st2, WCommand ''adduser'' a)"
    using sample_command by blast
  have q: "qstrings (wb_Q web_sample)" using ref_web.strings by (simp add: wb_Q_def)
  have "a = DOMAIN_ADMIN"
    using prefix_admin[OF q c] ref_web.url_values(1,2)[of "''post''" "''a.org''" 5] by (simp add: sample_fields del: form_text.simps)
  then show ?thesis using c by blast
qed

text \<open>
  C16: The walk over a directory tree, which keeps the current path in a static buffer that the
  recursive calls overwrite, does and prints exactly what a walk does that passes every path as
  an argument; the buffer is the only difference of the final states.
\<close>

theorem walk_refines:
  "map_proc (\<lambda>(r, lc, st). (r, lc, st\<lparr>st_tmp1 := []\<rparr>)) (printcrc n L W opts statflag displayhex tag p lcount st)
    = printcrc_tree n L W opts statflag displayhex tag p lcount (st\<lparr>st_tmp1 := []\<rparr>)"
  using printcrc_tree_lemma[of n L W opts statflag displayhex tag p lcount st]
  by (simp add: updr_def[abs_def] upd_def[abs_def])

text \<open>
  C17: When the database opens and the query for the mail address returns rows (no rows are
  pending from an earlier call), all of them with the seven columns that the program reads, and
  there is no file of header names or one that is read without undefined behaviour (its last
  line ends with a newline), then process_filter ends without undefined behaviour: it stops at
  the first rule that applies to the stored headers, with that rule in its variables, and
  reports no match when there is none. Left out are tests of the recipient outside the global
  filters; the header number of every other rule is not negative (vcfilter stores -1 only with a
  test of the recipient).
\<close>

theorem first_rule_decides:
  assumes "v_res st = None" "v_iopen E" "v_select E (select_sql fid) = SelRows rows"
    and "load_rules (v_str E) rows (forward (v_rule st)) = Some rs" "headerList (v_str E) (v_headers E) = Some l"
    and "\<forall>r \<in> set rs. (comparision r = 5 \<longrightarrow> is_global (v_str E) fid) \<and> (comparision r \<noteq> 5 \<longrightarrow> 0 \<le> header_name r)"
  shows "\<exists>st' b. process_filter E hs fid st = Some (st', b) \<and> (case find (rule_applies E (names_of l) hs) rs of
      None \<Rightarrow> \<not> b \<and> v_res st' = None
    | Some r \<Rightarrow> b \<and> v_rule st' = lower_rule r)"
  by (rule process_filter_first[OF assms])

theorem first_rule_decides_witness:
  "\<exists>st' b. process_filter (vf_ref (\<lambda>q. SelRows sample_rows) None) [\<lparr>h_name = ''Subject'', h_data = [''hi there'']\<rparr>] ''u@d'' sample_rule_st
      = Some (st', b) \<and> b \<and> v_rule st' = lower_rule (sample_rule 2 ''b'' 3 ''hi'' ''/NoDeliver'')"
proof -
  have "\<exists>st' b. process_filter (vf_ref (\<lambda>q. SelRows sample_rows) None) [\<lparr>h_name = ''Subject'', h_data = [''hi there'']\<rparr>] ''u@d'' sample_rule_st
      = Some (st', b) \<and> (case find (rule_applies (vf_ref (\<lambda>q. SelRows sample_rows) None) (names_of None) [\<lparr>h_name = ''Subject'', h_data = [''hi there'']\<rparr>])
          [sample_rule 1 ''a'' 1 ''Spam'' ''Junk'', sample_rule 2 ''b'' 3 ''hi'' ''/NoDeliver''] of
        None \<Rightarrow> \<not> b \<and> v_res st' = None | Some r \<Rightarrow> b \<and> v_rule st' = lower_rule r)"
    using sample_rules by (intro first_rule_decides) (simp_all add: sample_rule_st_def headerList_def)
  then show ?thesis unfolding names_of_def option.case sample_found by simp
qed

text \<open>
  C18: The constant array crctab is the table the generator computes from the polynomial, and
  one table step over a byte of any register is eight steps of the bitwise division by the
  polynomial.
\<close>

theorem crc_table_generated:
  "crctab = map (remainder (fill_r (replicate 8 0))) [0..<256]
    \<and> (\<forall>c b. crc_step c b = (poly_step ^^ 8) (c XOR push_bit 24 (ucast b)))"
  using crctab_generated crc_step_ref by blast

text \<open>
  C19: Started by init_dir_control, the directory that next_big_dir returns for the n-th user is
  the (n div u)-th of the enumeration with one, then two, then three levels of 62 names, for
  every u (users per directory) and every n below 2^64, and no call leaves its arrays, although
  the level indices that decide when a level is full run one ahead after a descent.
\<close>

theorem bigdir_allocates:
  assumes "qstrings Q" "the_dir v = replicate 300 NUL" "0 < u" "u < 2 ^ 31" "n + 1 < 2 ^ 64"
  shows "\<exists>v0 w w'. init_dir_control v = Some v0 \<and> alloc_users Q (int u) n v0 = Some w
    \<and> next_big_dir Q (int u) w = Some (w', user_dir u (n + 1)) \<and> cur_users w' = of_nat (n + 1)"
  by (rule qstrings.next_dir_name[OF assms])

theorem bigdir_allocates_witness:
  "\<exists>v0 w w'. init_dir_control (vd 7 1 [] []) = Some v0 \<and> alloc_users qstr_ref 2 2 v0 = Some w
    \<and> next_big_dir qstr_ref 2 w = Some (w', user_dir 2 3) \<and> cur_users w' = 3"
  using bigdir_allocates[OF ref_str.qstrings_axioms, of "vd 7 1 [] []" 2 2] by simp

text \<open>
  C20: For a file of fewer than 2^32 bytes that can be opened and read, however read() cuts it,
  whose owner and group are not the number -9999 with which the cached names start, and with
  output that can be written, byte_crc prints the verbose line with the POSIX checksum of the
  file (with the initial value as start register), returns that checksum and counts the
  newlines; the cached owner and group names are those of the numbers they belong to, before and
  after.
\<close>

theorem crc_file_line:
  assumes "qmail L sent good" "good (st_out st)" "cache_ok L W st" "known_ids sb"
    and "w_open W path = Opened es" "read_all es = (d, True)" "length d < 2 ^ 32"
  shows "\<exists>st'. byte_crc L W opts path lc (Some True) True tag sb st
      = Ret (posix_crc (ucast (initial_crc opts)) d, add_lines lc (count_newlines d), st')
    \<and> good (st_out st') \<and> cache_ok L W st'
    \<and> sent (st_out st') = sent (st_out st) @ crc_line L W (posix_crc (ucast (initial_crc opts)) d) sb path tag"
  by (rule qmail.byte_crc_good[OF assms])

theorem crc_file_line_witness:
  "\<exists>st'. byte_crc qref sample_world (a_opts crc_defaults) ''d/a'' (Some 0) (Some True) True None (sample_stat 0x81A4)
        (crc_start empty_out) = Ret (posix_crc 0 ''abc'', Some 0, st')
    \<and> odata (st_out st') = crc_line qref sample_world (posix_crc 0 ''abc'') (sample_stat 0x81A4) ''d/a'' None"
  using crc_file_line[OF ref.qmail_axioms, of "crc_start empty_out" sample_world "sample_stat 0x81A4" "''d/a''"
      "[RdData ''a'', RdIntr, RdData ''bc'']" "''abc''" "a_opts crc_defaults" "Some 0" None]
  by (auto simp: crc_start_def cache_ok_start[unfolded crc_start_def] sample_stat_ids crc_defaults_def add_lines_def count_newlines_def)



text \<open>
  C22: Building the hash index of a list ends, and looking up any key in it ends with the
  position of the first entry that has the key, or 0: a probe always meets the key or a free
  slot.
\<close>

theorem index_probe_ends:
  assumes "length keys < 2 ^ 60"
  shows "\<exists>t. build_index keys = Some t \<and> (\<forall>x. lookup keys t x = Some (first_pos keys x))"
  by (rule hashed.build_get[OF assms])

theorem index_probe_ends_witness:
  "\<exists>t. build_index [''a'', ''b'', ''a''] = Some t \<and> lookup [''a'', ''b'', ''a''] t ''a'' = Some 1
    \<and> lookup [''a'', ''b'', ''a''] t ''b'' = Some 2 \<and> lookup [''a'', ''b'', ''a''] t ''c'' = Some 0"
  using index_probe_ends[of "[''a'', ''b'', ''a'']"] by auto

text \<open>
  C23: crcdiff terminates on two lists of well-formed entries (the line has a blank behind its
  first column, 12 bytes at least from there on and 11 bytes in all) whose tables fit the
  memory, when the output can be written; its six counters, modulo 2^64, are the numbers of
  deletions, additions, changed directories, replaced entries, permission and owner changes
  between the lists, where an entry is compared with the first entry of the other list that has
  its path or its untagged line, and its status is 0 exactly when all counters are 0. The
  conditions are those of the code, which are not those of the manual page: of two directories
  with another checksum "replaced" is counted only with the option -d, which the page says omits
  it, and for all other pairs it is counted whenever the checksum column differs, whatever the
  date and with -i, too, which the page says suppresses a change without a change of the date.
\<close>

theorem compare_counted:
  assumes "qmail L sent good" "fits M l1s" "fits M l2s" "\<forall>e \<in> set l1s. entry_wf e" "\<forall>e \<in> set l2s. entry_wf e" "good o1"
  shows "(\<exists>r st. compare_lists M L opts l1s l2s (cd_start o1 err) = Ret (r, st)
      \<and> (\<forall>c. cnt st c = of_nat (count_list (all_changes opts l1s l2s) c))
      \<and> r = (if \<forall>c. cnt st c = 0 then 0 else 1))
    \<and> (\<forall>old new. is_dir_line old \<and> is_dir_line new \<and> Replaced \<in> set (differences opts old new) \<longrightarrow> o_ignore_dir opts)
    \<and> (\<forall>old new. \<not> (is_dir_line old \<and> is_dir_line new)
        \<and> take (max (width old) (width new)) (cut_nul (ebytes new)) \<noteq> take (max (width old) (width new)) (cut_nul (ebytes old))
      \<longrightarrow> Replaced \<in> set (differences opts old new))"
  using qmail.compare_counts[OF assms] by (auto simp: differences_def crc_change_def Let_def split: if_splits)

theorem compare_counted_witness:
  "\<exists>r st. compare_lists big_memory qref \<lparr>o_crc = False, o_ignore_changed = False, o_ignore_dir = False, o_crit = ([], 0)\<rparr>
      sample_old sample_new (cd_start empty_out []) = Ret (r, st)
    \<and> (\<forall>c. cnt st c = of_nat (count_list (all_changes \<lparr>o_crc = False, o_ignore_changed = False, o_ignore_dir = False, o_crit = ([], 0)\<rparr>
        sample_old sample_new) c)) \<and> r = (if \<forall>c. cnt st c = 0 then 0 else 1)"
  by (rule compare_counted[OF ref.qmail_axioms sample_fits sample_wf, THEN conjunct1]) simp

text \<open>
  C24: A password entry printed by the lookup service is read back by strToPw with all its
  fields, the inactive flag and the over-quota flag, when its name contains no colon, @, blank
  or NUL, its gecos, directory and shell and the domain contain no colon and no NUL, its
  password has no colon either or is a SCRAM text (the mark, a first part, a second part of at
  least 11 bytes and a third one, separated by two colons), the numbers are printed as decimal
  digits and the flag is from 0 to 2^31 - 1, unless the previous text was this one continued by
  a colon. The programs do not keep all entries to this: only iadduser looks for a colon in the
  gecos.
\<close>

theorem passwd_entry_roundtrip:
  assumes "qstrings Q" "entry_clean pw" "clean domn" "fits_fmt fu fi n"
    and "t = pw_text fu fi pw domn n" "\<forall>x. cstr_of (p_struct st) \<noteq> drop 9 t @ COLON # x"
  shows "\<exists>st'. strToPw Q t (length t + 1) st = Some (st', True) \<and> p_ent st' = pw \<and> is_inactive st' = n
    \<and> is_overquota st' = (if pw_gid pw AND BOUNCE_MAIL \<noteq> 0 then 1 else 0) \<and> userNotFound st' = 0 \<and> p_struct st' = drop 9 t"
  by (rule qstrings.strToPw_back[OF assms])

theorem passwd_entry_roundtrip_witness:
  "\<exists>st'. strToPw qstr_ref (pw_text (Process.digits 10) (\<lambda>i. Process.digits 10 (nat i)) sample_pw ''a.org'' 1)
      (length (pw_text (Process.digits 10) (\<lambda>i. Process.digits 10 (nat i)) sample_pw ''a.org'' 1) + 1) new_pw_st = Some (st', True)
    \<and> p_ent st' = sample_pw \<and> is_overquota st' = 1"
  using passwd_entry_roundtrip[OF ref_str.qstrings_axioms sample_pw_clean _ ref_fmt[of 1] refl, of "''a.org''" new_pw_st]
  by (force simp: clean_def new_pw_st_def cstr_of_def BOUNCE_MAIL_def sample_pw_def)



text \<open>
  C26: A buffer of at least 2 bytes over a descriptor (not -1) returns, call by call, exactly
  the newline-terminated lines of the bytes the descriptor delivers, and then NULL, independent
  of the sizes of the single reads and of the buffer size, when memory suffices, no read fails
  and the bytes contain neither a NUL nor a carriage return (a CR LF that is cut between two
  reads is read in another way than an uncut one); the number of calls allowed is above the
  number of lines.
\<close>

theorem buffer_reader_lines:
  assumes "mem_ok M" "fd \<noteq> -1" "2 \<le> len" "len < 2 ^ 64" "input_ok inp" "CR \<notin> set (input_bytes inp)"
    and "length (split_lines (input_bytes inp)) < fuel"
  shows "\<exists>b b'. buffer_init M fd len inp = Some (Some b)
    \<and> buffer_all fuel M b = Some (b', split_lines (input_bytes inp))"
proof -
  obtain b where b: "buffer_init M fd len inp = Some (Some b)" "buffer_ok b"
      "buffer_lines b = split_lines (input_bytes inp)"
    using buffer_init_ok[OF assms(1-6)] by blast
  then show ?thesis using buffer_all_spec[OF b(2) assms(1), of fuel] assms(7) by auto
qed

theorem buffer_reader_lines_witness:
  "\<exists>b b'. buffer_init big_memory 3 2 [RdBytes ''a'', RdBytes [LF, CHR ''b'', LF]] = Some (Some b)
    \<and> buffer_all 5 big_memory b = Some (b', [''a'', ''b''])"
  using buffer_reader_lines[of big_memory 3 2 "[RdBytes ''a'', RdBytes [LF, CHR ''b'', LF]]" 5]
  by (simp add: input_ok_def split_lines.simps)

text \<open>
  C27: On every terminated line without a NUL, with balanced comments and quotes, and whose
  value does not begin with blanks in front of an empty atom (as in X: ;a, for which the code
  makes other atoms), header_parse returns the header that header_of specifies, when memory
  suffices: name before the first unquoted colon, value without leading blanks, and the atoms
  between unquoted semicolons, or an empty header when there is no name or value.
\<close>

theorem header_parse_refines:
  assumes "mem_ok M" "NUL \<notin> set line" "balanced line" "header_clean line"
  shows "header_parse M line = Some (Some (header_of line))"
  by (rule header_parse_lemma[OF assms])

theorem header_parse_refines_witness:
  "header_parse big_memory ''A: b; c=d'' = Some (Some \<lparr>hname = Some ''A'', hdata = Some ''b; c=d'', horig = Some ''A: b; c=d'',
     hatoms = Some [\<lparr>aname = None, adata = Some ''b''\<rparr>, \<lparr>aname = Some ''c'', adata = Some ''d''\<rparr>]\<rparr>)"
  using header_parse_refines[of big_memory "''A: b; c=d''"]
  by (simp add: sample_header sample_header_ok)

text \<open>
  C28: address_evaluate on a list that does not start with a bare <...> returns the group name
  and one address per comma-separated piece, each with the display name, user and domain that
  address_of specifies, without leaving its copy of the text.
\<close>

theorem address_list_refines:
  assumes "mem_ok M" "NUL \<notin> set s" "group_clean s"
  shows "address_evaluate M s = Some (Some (group_of s))"
  by (rule address_evaluate_lemma[OF assms])

theorem address_list_refines_witness:
  "address_evaluate big_memory ''B <b@c>'' = Some (Some \<lparr>group = None, nmembers = 1,
     members = [\<lparr>name = Some ''B'', user = Some ''b'', domain = Some ''c''\<rparr>]\<rparr>)"
  using address_list_refines[of big_memory "''B <b@c>''"]
  by (simp add: sample_address sample_address_ok)

text \<open>
  C29: The line crc -v prints for a file, without its newline, is accepted by the parser of
  crcdiff and gives a well-formed entry with the path and tag of the file as its key, the line
  up to the tag as its second key and the checksum in its first column, when the names of owner
  and group, the date and the path contain no NUL, tab or comma, the date is the 20 bytes of
  ctime behind the name of the day in a form that the parser accepts, the path is not empty and
  does not begin with a blank, a tag contains no NUL and no tab, and the text of date and path
  passes the check for a time.
\<close>

theorem list_line_roundtrip:
  assumes "qmail L sent good" "line_ok L W tm sb path tag"
  shows "\<exists>e. parse tm (butlast (crc_line L W crc sb path tag)) = Some e \<and> entry_wf e
    \<and> pkey e = path @ concat (tag_text tag) \<and> is_dir_line e = S_ISDIR sb
    \<and> take (width e) (ebytes e) = ''0x'' @ hex8 L crc \<and> kkey e @ concat (tag_text tag) = ebytes e"
proof -
  let ?e = "crc_entry L W crc sb path tag"
  have "take (width ?e) (ebytes ?e) = ''0x'' @ hex8 L crc"
    unfolding qmail.crc_entry_width[OF assms(1)] using qmail.hex8_length[OF assms(1), of crc]
    by (simp add: crc_entry_def base_line_def Let_def)
  moreover have "kkey ?e @ concat (tag_text tag) = ebytes ?e"
    unfolding qmail.crc_entry_keys(2)[OF assms] by (simp add: crc_entry_def Let_def)
  ultimately show ?thesis
    using qmail.parse_crc_line[OF assms, of crc] qmail.crc_entry_wf[OF assms(1), of W crc sb path tag]
      qmail.crc_entry_keys(1)[OF assms, of crc] qmail.crc_entry_dir[OF assms(1), of W crc sb path tag] by blast
qed

theorem list_line_roundtrip_witness:
  "\<exists>e. parse (\<lambda>s. True) (butlast (crc_line qref sample_world 1 (sample_stat 0x81A4) ''d/a'' (Some ''os''))) = Some e
    \<and> entry_wf e \<and> pkey e = ''d/a,tag=os''"
  using list_line_roundtrip[OF ref.qmail_axioms sample_line_ok(1)[of "0x81A4"], of 1] by (auto simp: tag_text_def)

text \<open>
  C30: roll_fd writes a header line so that the parser reads it back: for a line that is not
  empty, does not begin with white space and contains no LF or CR, written by roll_fd with
  complete writes (it then returns success), a parser opened on a descriptor that delivers the
  written bytes, in pieces of any size, none of them empty or with a NUL, returns by
  unroll_next_line exactly this one line and then NULL, when memory suffices and the buffer has
  at least 2 bytes; the number of calls allowed is above the number of written lines.
\<close>

theorem roll_unroll_roundtrip:
  assumes "s \<noteq> []" and "\<not> rfc2822_is_wsp (hd s)" and "LF \<notin> set s" and "CR \<notin> set s"
    and "roll_fd c_write \<lparr>odata = [], oplan = []\<rparr> s = (out, done_ok)" and "input_bytes inp = odata out"
    and "input_ok inp" and "mem_ok M" and "fd \<noteq> -1" and "2 \<le> len" and "len < 2 ^ 64" and "length (split_lines (odata out)) < fuel"
  shows "done_ok \<and> (\<exists>u u'. unroll_init M fd len inp = Some (Some u) \<and> unroll_all (Suc fuel) M u = Some (u', [s]))"
proof -
  have o: "done_ok" "odata out = fold_text (folded s)"
    using outfile.roll_fd_spec[of "\<lparr>odata = [], oplan = []\<rparr>" s] assms(5) by auto
  have cr: "CR \<notin> set (input_bytes inp)" using folded_set[of CR s] assms(4) by (auto simp: assms(6) o(2))
  obtain u where u: "unroll_init M fd len inp = Some (Some u)" "unroll_wf u" "\<not> ueof u" "buffer_ok (usrc u)"
      "line_str (ulb u) = []" "buffer_lines (usrc u) = split_lines (fold_text (folded s))"
    using unroll_init_ok[OF assms(8-11,7) cr] unfolding assms(6) o(2) by blast
  have "logical_lines [] (split_lines (fold_text (folded s))) = [s]"
    using assms(1) unfold_folded[OF assms(3,1,2)] by (simp add: logical_lines.simps)
  then show ?thesis using unroll_all_spec[OF u(4,2) assms(8) u(3), of fuel] assms(12) u(1,5,6) o by auto
qed

theorem roll_unroll_roundtrip_witness:
  "\<exists>u u'. unroll_init big_memory 3 80 [RdBytes (''Subject: hi'' @ [LF])] = Some (Some u)
    \<and> unroll_all 3 big_memory u = Some (u', [''Subject: hi''])"
proof -
  obtain out ok where o: "roll_fd c_write \<lparr>odata = [], oplan = []\<rparr> ''Subject: hi'' = (out, ok)" by fastforce
  have "odata out = ''Subject: hi'' @ [LF]"
    using outfile.roll_fd_spec[of "\<lparr>odata = [], oplan = []\<rparr>" "''Subject: hi''"] o by (auto simp: folded_def)
  then show ?thesis
    using roll_unroll_roundtrip[OF _ _ _ _ o, of "[RdBytes (''Subject: hi'' @ [LF])]" big_memory 3 80 2]
    by (simp add: input_ok_def rfc2822_is_wsp_def split_lines.simps)
qed

text \<open>
  C31: On a finite tree (every entry of a directory has a smaller rank than the directory) the
  recursion of printcrc never goes deeper than the rank of its starting point: the walk ends.
\<close>

theorem walk_ends:
  assumes "finite_tree W rank" "rank (plain_path p) < n"
  shows "printcrc n L W opts statflag displayhex tag p lcount st \<noteq> Deep"
  by (rule printcrc_not_deep[OF assms])

theorem walk_ends_witness:
  "printcrc 2 qref sample_world ((a_opts crc_defaults)\<lparr>opt_R := True\<rparr>) (Some False) True None ''d'' (Some 0) (crc_start empty_out) \<noteq> Deep"
  using walk_ends[OF sample_finite, of "''d''" 2] by (simp add: plain_path_def first_char_def)

text \<open>
  C32: Without FAST_QUOTA, for the directory of a mailbox (the path that the functions make of
  it is itself) whose quota file can be created, opened, locked, given to its owner, written and
  read, and whose directory can be counted: a forced recalc_quota returns what count_dir finds,
  and after any sequence of update_quota calls, one for each delivered message, check_quota
  returns that usage plus the sizes of the messages, and the number of messages plus one for
  each, while the sums are not negative as signed numbers of 64 bits.
\<close>

theorem usage_tracked:
  assumes "mquota_lib E" and "mdir_path (q_str E) d = Some (d, m)" and "file_works E (size_file m)" and "\<not> q_fast E"
    and "count_dir E True d (q_tree E d) = Some (n, Some c)"
    and "0 \<le> sint (n + sum_list ns)" and "0 \<le> sint (c + of_nat (length ns))"
  shows "\<exists>st1 st2. recalc_quota E d size_limit count_limit 2 st = Some (st1, n, c) \<and> update_all E d ns st1 = Some st2
    \<and> check_quota E d (Some w) st2 = Some (n + sum_list ns, Some (c + of_nat (length ns)))"
  using mquota_lib.usage_summed[OF assms(1)] assms(2-) by blast

theorem usage_tracked_witness: "\<exists>st1 st2. recalc_quota (mq_ref sample_tree) ''/a/Maildir'' 1000 0 2 (sample_mq Map.empty) = Some (st1, 150, 2)
    \<and> update_all (mq_ref sample_tree) ''/a/Maildir'' [30, 20] st1 = Some st2
    \<and> check_quota (mq_ref sample_tree) ''/a/Maildir'' (Some 0) st2 = Some (200, Some 4)"
  using usage_tracked[OF ref_quota.mquota_lib_axioms, of sample_tree "''/a/Maildir''" "''/a/Maildir''" 150 2 "[30, 20]" 1000 0 "sample_mq Map.empty" 0]
    sample_paths sample_count by simp

text \<open>
  C33: No directory is returned to more than u users until all 62 + 62^2 + 62^3 directories are
  full.
\<close>

theorem bigdir_balanced:
  assumes "qstrings Q" "the_dir v = replicate 300 NUL" "init_dir_control v = Some v0" "0 < u" "u < 2 ^ 31" "N < u * (max_dirs + 1)"
  shows "card {n. n < N \<and> (\<exists>w w'. alloc_users Q (int u) n v0 = Some w \<and> next_big_dir Q (int u) w = Some (w', d))} \<le> u"
  by (rule qstrings.next_dir_balanced[OF assms])

theorem bigdir_balanced_witness:
  "card {n. n < 5 \<and> (\<exists>w w'. alloc_users qstr_ref 2 n (vd 0 0 [0, 0, 0] []) = Some w
      \<and> next_big_dir qstr_ref 2 w = Some (w', ''0''))} \<le> 2"
proof -
  obtain v0 where v0: "init_dir_control (vd 7 1 [] []) = Some v0" "reached_dir 0 [] v0" using init_reached[of "vd 7 1 [] []"] by auto
  have m: "5 < 2 * (max_dirs + 1)" by (simp add: max_dirs_def)
  show ?thesis using bigdir_balanced[OF ref_str.qstrings_axioms _ v0(1) _ _ m, of "''0''"] v0(2) by simp
qed

text \<open>
  C34: The file of assignments stays well-formed under every sequence of additions and removals
  of domains and users, whichever system calls of an update fail, except that the write of the
  two bytes with which a missing file is created works: all its lines are terminated, and its
  last line, and no other, is the line with a dot that ends it for qmail-newu (or there is no
  file). The file is no directory, its directory is one, and names, base directories and
  DOMAINDIR contain no newline and no NUL. The removal of a user is part of the sequences as the
  code has it: it looks for the lines in the directory instead of the file, fails, and leaves
  the file alone.
\<close>

theorem assign_file_kept:
  assumes "control_lib E" and "\<not> ct_isdir E (assign_file E)" and "plain_line (ct_cfg E ''DOMAINDIR'' (ct_DOMAINDIR E))"
    and "ct_isdir E (ct_cfg E ''ASSIGNDIR'' (ct_ASSIGNDIR E))" and "assign_ok E st" and "assign_reach E st s"
  shows "assign_ok E s"
  by (rule control_lib.reach_dot[OF assms(1,6,2,3,5,4)])

theorem assign_file_kept_witness:
  "assign_ok ct_sample (fst (add_domain_assign ct_sample (\<lambda>i. fine) (Some ''x.org'') ''/h'' 5 6 (ct_start [])))"
proof -
  obtain s r where s: "add_domain_assign ct_sample (\<lambda>i. fine) (Some ''x.org'') ''/h'' 5 6 (ct_start []) = (s, r)" by fastforce
  have "assign_reach ct_sample (ct_start []) s"
    by (rule assign_reach.domain_added[OF assign_reach.start _ _ _ s]) (simp_all add: fine_sel plain_line_def)
  moreover have "assign_ok ct_sample (ct_start [])" by (simp add: assign_ok_def ct_sample_sel ct_start_def)
  ultimately show ?thesis
    using assign_file_kept[OF ref_control.control_lib_axioms, of "ct_start []" s] s by (simp add: ct_sample_sel plain_line_def)
qed

text \<open>
  C35: add_control, without a target, appends a domain to rcpthosts and virtualdomains, and
  del_control afterwards restores both files exactly, both with success, when every system call
  succeeds, ETRN is not compiled in, the files rcpthosts, virtualdomains and locals exist, are
  no directories and consist of terminated lines without a NUL, rcpthosts counts fewer than 50
  entries, there are no files etrnhosts and chkrcptdomains, and no line of rcpthosts is a prefix
  of the domain, or has it as a prefix, or is a single dot, likewise for the lines of
  virtualdomains and the line domain:domain.
\<close>

theorem domain_added_removed:
  assumes "control_lib E" and "\<not> use_etrn E"
    and "\<forall>f \<in> {''rcpthosts'', ''virtualdomains'', ''locals''}. \<not> ct_isdir E (control_path E f)"
    and "ct_files st (control_path E ''rcpthosts'') = Some (unlines ls)" and "ct_files st (control_path E ''virtualdomains'') = Some (unlines vs)"
    and "ct_files st (control_path E ''locals'') = Some (unlines os)" and "plain_lines (ls @ vs @ os)" and "plain_line d"
    and "unrelated d ls" and "unrelated (d @ '':'' @ d) vs"
    and "\<not> ct_exists E st (control_path E ''etrnhosts'')" and "\<not> ct_exists E st (control_path E ''chkrcptdomains'')"
    and "count_rcpthosts E (W 0) st = Inr n" and "0 \<le> n" and "n < 50" and "\<forall>i. all_fine (W i) \<and> all_fine (W' i)"
  shows "\<exists>st1 st2. add_control E W d None st = Some (st1, Inr 0) \<and> del_control E W' d st1 = Some (st2, 0)
    \<and> ct_files st1 (control_path E ''rcpthosts'') = Some (unlines (ls @ [d]))
    \<and> ct_files st1 (control_path E ''virtualdomains'') = Some (unlines (vs @ [d @ '':'' @ d]))
    \<and> ct_files st2 (control_path E ''rcpthosts'') = Some (unlines ls) \<and> ct_files st2 (control_path E ''virtualdomains'') = Some (unlines vs)"
  by (rule control_lib.add_del_domain[OF assms(1), of st ls vs os d W n W']) (use assms(2-) in \<open>auto simp: numeral_2_eq_2\<close>)

theorem domain_added_removed_witness:
  "\<exists>st1 st2. add_control ct_sample (\<lambda>i. fine) ''x.com'' None (ct_start [''y.org'']) = Some (st1, Inr 0)
    \<and> del_control ct_sample (\<lambda>i. fine) ''x.com'' st1 = Some (st2, 0) \<and> ct_files st2 ''/c/rcpthosts'' = Some (unlines [''y.org''])"
proof -
  have u: "unrelated ''x.com'' [''y.org'']" "unrelated (''x.com'' @ '':'' @ ''x.com'') []" by (simp_all add: unrelated_def)
  have "\<exists>st1 st2. add_control ct_sample (\<lambda>i. fine) ''x.com'' None (ct_start [''y.org'']) = Some (st1, Inr 0)
    \<and> del_control ct_sample (\<lambda>i. fine) ''x.com'' st1 = Some (st2, 0)
    \<and> ct_files st1 (control_path ct_sample ''rcpthosts'') = Some (unlines ([''y.org''] @ [''x.com'']))
    \<and> ct_files st1 (control_path ct_sample ''virtualdomains'') = Some (unlines ([] @ [''x.com'' @ '':'' @ ''x.com'']))
    \<and> ct_files st2 (control_path ct_sample ''rcpthosts'') = Some (unlines [''y.org'']) \<and> ct_files st2 (control_path ct_sample ''virtualdomains'') = Some (unlines [])"
    by (rule domain_added_removed[OF ref_control.control_lib_axioms _ _ _ _ _ _ _ u _ _ ct_sample_count1, where os = "[''localhost'']"])
      (simp_all add: ct_sample_sel ct_start_sel plain_line_def all_fine_fine ct_exists_def, simp_all add: ct_start_def)
  then show ?thesis by (auto simp: ct_sample_sel)
qed





text \<open>
  C38: The bound of the tree of cached answers, for a MAX_BTREE_COUNT above 0: whatever rows
  cache_active_pwd has loaded before the start and whatever messages and signals arrive, the
  tree never holds more than MAX_BTREE_COUNT entries, except when the rows have already filled
  it: then the server, which starts with the search that adds entries, adds one more, and never
  a second one.
\<close>

theorem cache_bounded:
  assumes "cache_active_pwd E rows = (t, n, r)" and "serve E es (in_start t n g b) = Some (out, res, s)" and "max_btree_count E > 0"
  shows "int (card (dom (in_root s))) \<le> (if n < max_btree_count E then max_btree_count E else max_btree_count E + 1)"
  by (rule served_bounded[OF assms])

theorem cache_bounded_witness:
  "\<exists>t reply s. cache_active_pwd sample_one (Some [sample_row]) = (t, 1, 0)
    \<and> serve sample_one [client_event (query_msg PWD_QUERY in_known ''/tmp/f'' None)] (in_start t 1 new_pw_st in_buffer) = Some ([(''/tmp/f'', reply)], 1, s)
    \<and> int (card (dom (in_root s))) \<le> 2"
proof -
  obtain t reply s where s: "cache_active_pwd sample_one (Some [sample_row]) = (t, 1, 0)"
    "serve sample_one [client_event (query_msg PWD_QUERY in_known ''/tmp/f'' None)] (in_start t 1 new_pw_st in_buffer) = Some ([(''/tmp/f'', reply)], 1, s)"
    using sample_preloaded by blast
  then show ?thesis using cache_bounded[OF s] by (auto simp: sample_one_def in_sample_def)
qed





subsection \<open>Further facts\<close>

text \<open>
  For a seekable message, is_looping reports a loop exactly if a header line before the first
  blank line starts with Delivered-To: and contains the address; a DTLINE that ends with a
  newline, as the one of qmail-local does, is never taken for a loop.
\<close>

theorem loop_check:
  assumes "strstr_lib (d_Q E)" and "a \<noteq> []" and "LF \<notin> set a" and "\<not> starts CHR ''&'' a"
    and "\<forall>v. d_env E ''DTLINE'' = Some v \<longrightarrow> v \<noteq> [] \<and> last v = LF"
    and "d_env E ''MAKE_SEEKABLE'' = Some p" and "\<not> starts CHR ''0'' p" and "d_lseek E" and "d_lines E = map line_event ls"
    and "\<forall>l \<in> set ls. l \<noteq> [] \<and> NUL \<notin> set l"
  shows "is_looping E a
    = (if \<exists>l \<in> set (takeWhile (\<lambda>l. \<not> blank_line l) ls). prefix ''Delivered-To:'' l \<and> sublist a l then 1 else 0)"
  using strstr_lib.looping_headers[OF assms(1) refl] assms(2-) by blast

text \<open>
  One call of buffer_next_line in a reachable state returns (the recursion ends), makes no
  access outside its blocks, delivers the next line if there is one and leaves a state that
  stands for the remaining lines.
\<close>

theorem buffer_next_line_keeps:
  assumes "buffer_ok b" "mem_ok M"
  shows "\<exists>b' more. buffer_next_line M b = Some (b', more) \<and> buffer_ok b'
    \<and> more = (buffer_lines b \<noteq> []) \<and> buffer_lines b' = tl (buffer_lines b)
    \<and> (more \<longrightarrow> line_str (bl b') = hd (buffer_lines b))"
  using buffer_next_line_step[OF assms] by (cases "buffer_lines b") auto

text \<open>
  Calling mime_next_line until it returns NULL delivers exactly the lines of the part: those
  before the first line that an active boundary delimits or closes; with fuel above the number
  of lines left it returns.
\<close>

theorem mime_part_lines:
  assumes "mem_ok M" "eu e = Some u" "buffer_ok (usrc u)" "em e = Some m" "eb e = Some b"
    and "length (buffer_lines (usrc u)) < fuel"
  shows "\<exists>e'. mime_body fuel M e
    = Some (e', takeWhile (\<lambda>l. \<not> is_delimiter (eb e) l) (buffer_lines (usrc u)))"
  by (rule mime_body_spec[OF assms(2,3,1,4-6)])

text \<open>
  get_assign answers every question about assigned domains as the database does, but after an
  assigned domain the second question for a domain that is not assigned is answered with the
  directory and the ids of the assigned domain before it.
\<close>

theorem assign_cache_stale:
  assumes "qstrings (ga_Q E)" and "\<forall>i. ga_mem E i" and "ga_QUERY_CACHE E" and "ga_cdb E = Some db"
    and "\<forall>d \<in> set ds. NUL \<notin> set d \<and> d \<noteq> [] \<and> assigned E d \<noteq> None"
    and "NUL \<notin> set e" and "e \<noteq> []" and "db (''!'' @ e @ ''-'') = None" and "ds \<noteq> []"
  shows "\<exists>st. ask_all E (ds @ [e, e]) ga_start = Some (st, map (assigned E) ds @ [None, assigned E (last ds)])"
  by (rule stale_history[OF assms(1) _ assms(3,4,5,6,7,8,9)]) (use assms(2) in blast)

text \<open>
  For a sender with an @ and a readable file blackholedsender, bhfcheck discards the message
  exactly if a nonempty entry of the file is a prefix of the address, or, for an entry that
  starts with @, of the address from its first @ on; the file of patterns is not read then.
\<close>

theorem sender_blackholed:
  assumes "strstr_lib (vd_Q V)" and "NUL \<notin> set addr" and "CHR ''@'' \<in> set addr"
    and "mq_files (d_mq st) (control_file (vd_dm V) ''/blackholedsender'') = Some d" and "q_readable (d_E (vd_dm V)) (control_file (vd_dm V) ''/blackholedsender'')"
  shows "bhfcheck V addr st = Some (st, Go (\<exists>e \<in> set (file_entries d). sender_matches addr e))"
proof -
  have "sender_listed (vd_Q V) addr (file_entries d) = (\<exists>e \<in> set (file_entries d). sender_matches addr e)"
    using strstr_lib.sender_listed_prefix[OF assms(1-3)] entries_nul[of d] by blast
  then show ?thesis using assms(4,5) by (simp add: bhfcheck_def Let_def thenm_def gom_def getm_def)
qed

text \<open>
  Under a limit for the size alone, and without FAST_QUOTA, user_over_quota refuses a message
  only if the size it found by counting the directory anew, together with the message, is above
  the limit, whatever the quota file or the static variables say.
\<close>

theorem refused_counted:
  assumes "user_over_quota E d quota k st = Some (st', 1)" and "\<not> q_fast E"
    and "mdir_path (q_str E) d = Some (d, m)" and "q_wopen E (size_file m) \<noteq> WNoEnt"
    and "parse_quota (q_str E) quota (Some 0) = Some (limit, Some 0)"
  shows "\<exists>n c. count_dir E True d (q_tree E d) = Some (n, c) \<and> limit < sint n + k"
  using refused_counts assms by blast

text \<open>
  del_control removes from rcpthosts the first line that is a prefix of the domain, and only
  that one: with x.co listed before x.com, deleting x.com removes x.co and leaves x.com.
\<close>

theorem wrong_domain_removed:
  assumes "control_lib E" and "\<not> ct_isdir E (control_path E ''rcpthosts'')" and "plain_line d"
    and "ct_files st (control_path E ''rcpthosts'') = Some (unlines (xs @ x # ys))" and "plain_lines (xs @ x # ys)"
    and "\<forall>a \<in> set xs. \<not> prefix a d" and "prefix x d" and "all_fine (W 0)" and "del_control E W d st = Some (st', r)"
  shows "ct_files st' (control_path E ''rcpthosts'') = Some (unlines (xs @ ys))"
  by (rule control_lib.first_removed[OF assms(1,2,4,5,3,6-9)])

text \<open>
  When a hangup signal empties a tree that had reached its bound, the tree stays empty for good:
  the search that only looks for entries stays selected.
\<close>

theorem hangup_ends_cache:
  assumes "\<not> l_tcp E" and "serve E es (in_start Map.empty 0 g b) = Some (out, 1, sv)" and "0 < max_btree_count E"
    and "int (card (dom (in_root sv))) = max_btree_count E" and "serve E (es @ EvHup # fs) (in_start Map.empty 0 g b) = Some (out', res, s)"
  shows "in_root s = Map.empty"
  by (rule hangup_ends[OF assms])

text \<open>
  A request for a command that names a domain but no user of it, without any session, moves what
  is below the entry vacation of the directory of the domain below autoresp before it is
  refused.
\<close>

theorem vacation_moved_unchecked:
  assumes "value_of W q ''user='' = Some usr" and "value_of W q ''dom='' = Some dmn" and "value_of W q ''time='' = Some t"
    and "wb_assign W dmn = Some dir" and "wb_suid W" and "wb_chdir W 0" and "wb_rename W" and "wb_getpw W usr dmn = None"
    and "ws_files st (dir @ ''/vacation'' @ f) = Some d" and "f = [] \<or> hd f = CHR ''/''" and "vacation_there dir st"
  shows "\<exists>st'. com_branch W pinfo q st = Some (st', WExit 3) \<and> ws_files st' (dir @ ''/vacation'' @ f) = None
    \<and> ws_files st' (dir @ ''/autoresp'' @ f) = Some d"
proof -
  have "under (dir @ ''/vacation'') (dir @ ''/vacation'' @ f)" "under (dir @ ''/autoresp'') (dir @ ''/autoresp'' @ f)"
    "\<not> under (dir @ ''/vacation'') (dir @ ''/autoresp'' @ f)"
    using assms(10) by (cases f; simp add: under_def)+
  then show ?thesis using vacation_moved[OF assms(1-8)] assms(9,11) by (simp add: move_vacation_def renamed_def)
qed

text \<open>
  The exception of the bound is real: with a bound of one and one row loaded, a query for
  another address leaves two entries in the tree.
\<close>

theorem preloaded_cache_over_bound:
  "\<exists>t reply s. cache_active_pwd sample_one (Some [sample_row]) = (t, 1, 0) \<and> max_btree_count sample_one = 1
    \<and> serve sample_one [client_event (query_msg PWD_QUERY in_known ''/tmp/f'' None)] (in_start t 1 new_pw_st in_buffer) = Some ([(''/tmp/f'', reply)], 1, s)
    \<and> card (dom (in_root s)) = 2"
  using sample_preloaded by (auto simp: sample_one_def in_sample_def)

text \<open>
  The daily limit for the number of messages has no effect above 1: any number of messages on
  one day are accepted by recordMailcount under MAILCOUNT_LIMIT of 2 or more (and no limit for
  the size), because the line of the day is rewritten one byte too late and its date is not
  recognised any more.
\<close>

theorem daily_limit_lost:
  assumes "mquota_lib (c_mq M)" and "count_works M" and "c_mail_limit M \<ge> 2" and "c_size_limit M = 0"
    and "\<forall>(t, n) \<in> set xs. tm_ok t \<and> same_day t day \<and> unat n < 2 ^ 63" and "mq_files st (m @ ''/deliveryCount'') = None"
  shows "\<exists>st'. record_all M m xs st = Some (st', replicate (length xs) 0)"
proof -
  have "other_day (c_mq M) day (count_file st m)"
    using assms(6) by (auto simp: other_day_def count_file_def intro: exI[of _ "[]"])
  then show ?thesis using mquota_lib.record_all_lost[OF assms(1) refl assms(2-5)] by blast
qed

text \<open>
  The static variables of recalc_quota survive a call: after a forced count of a mailbox that is
  not empty, the next call for any other mailbox with a recent quota file returns the usage of
  the first one.
\<close>

theorem stale_usage:
  assumes "mdir_path (q_str E) a = Some (s, m)" and "file_works E (size_file m)" and "\<not> q_fast E"
    and "count_dir E True s (q_tree E s) = Some (n, Some c)" and "n \<noteq> 0" and "c \<noteq> 0"
    and "mdir_path (q_str E) b = Some (s', m')" and "m' \<noteq> m" and "mq_files st (size_file m') = Some t"
    and "q_recent E (size_file m')" and "length t \<le> q_max_size E"
  shows "\<exists>st1. recalc_quota E a l k 2 st = Some (st1, n, c) \<and> recalc_quota E b l' k' 0 st1 = Some (st1, n, c)"
  using recalc_other assms by blast

text \<open>
  The row that vwrite_dir_control stores holds the whole state: vread_dir_control gets back
  every number and the directory name.
\<close>

theorem dir_row_roundtrip:
  assumes "bd_text E" "vdir_shape v" "length (the_dir w) = MAX_DIR_NAME"
    and "\<forall>i \<in> set ([level_cur v, level_max v] @ level_start v @ level_end v @ level_mod v @ level_index v). 0 \<le> i \<and> i < 2 ^ 31"
  shows "\<exists>d. read_row E (row_nums E v @ [head_str (the_dir v)]) w = Some (v\<lparr>the_dir := d\<rparr>)
    \<and> head_str d = head_str (the_dir v)"
  by (rule bd_text.row_back[OF assms])

text \<open>
  Run on one regular file without options crc prints the checksum in hexadecimal and exits with
  0, except when the checksum is 0xFFFFFFFF, which it takes for an error: the status is then
  111, as it is for every empty file.
\<close>

theorem crc_command_line:
  assumes "qmail L sent good" "good o1" "first_char path \<noteq> CHR ''-''" "w_lstat W path = StatOk sb" "S_ISREG sb"
    and "w_open W path = Opened es" "read_all es = (d, True)" "length d < 2 ^ 32"
  shows "\<exists>r st. crc_main (Suc n) L W create o1 [] [path] = Ret (r, st)
    \<and> sent (st_out st) = sent o1 @ ''0x'' @ hex8 L (posix_crc 0 d) @ [LF]
    \<and> r = (if posix_crc 0 d = CRC_ERROR then 111 else 0) \<and> (d = [] \<longrightarrow> r = 111)"
  using qmail.crc_main_regular[OF assms, of n create] posix_crc_empty by auto

text \<open>
  The statement buffers of vread_dir_control and vwrite_dir_control are appended to and never
  cleared: with a server that accepts every statement, assigning a directory to a second user
  (of any domain) in one process sends the two statements of the first user again.
\<close>

theorem stale_statements:
  assumes "logs E" "assign_dir E n usr dm path st = Some (st1, Some dir)" "assign_dir E n' usr' dm' path' st1 = Some (st2, Some dir')"
    and "e_get_assign E dm \<noteq> None" "e_get_assign E dm' \<noteq> None" "usr \<noteq> []" "usr' \<noteq> []" "s_read_sql st = []" "s_write_sql st = []"
  shows "\<exists>p. let R = head_str (read_sql p dm @ [NUL]); W = head_str (write_sql E p dm (s_vdir st1) @ [NUL])
    in s_db st2 = s_db st @ [R, W, R, W]"
proof -
  obtain p where "let R = head_str (read_sql p dm @ [NUL]); W = head_str (write_sql E p dm (s_vdir st1) @ [NUL])
    in s_db st1 = s_db st @ [R, W] \<and> used st1 R W" using assign_first[OF assms(1,2,4,6,8,9)] by blast
  then show ?thesis using assign_again[OF assms(1,3,5,7)] by (intro exI[of _ p]) (simp add: Let_def)
qed

text \<open>
  On the lower-case texts that the program compares, the rule Equals is the test for a prefix,
  like Starts with, and the rule Ends with is the test for a substring, like Contains.
\<close>

theorem filter_comparisons:
  assumes "filter_lib E" "NUL \<notin> set d" "NUL \<notin> set k"
  shows "value_matches E 0 (lowerit d) (lowerit k) = prefix (lowerit k) (lowerit d)
    \<and> value_matches E 3 (lowerit d) (lowerit k) = prefix (lowerit k) (lowerit d)
    \<and> value_matches E 1 (lowerit d) (lowerit k) = sublist (lowerit k) (lowerit d)
    \<and> value_matches E 4 (lowerit d) (lowerit k) = sublist (lowerit k) (lowerit d)"
  using filter_lib.comparisons[OF assms] by blast

text \<open>
  A rule that asks whether the recipient is missing in To, Cc and Bcc reads past the end of the
  value when the first such header holds one address, as every stored address header does.
\<close>

theorem recipient_rule_overrun:
  assumes "caseless (v_case E)" "comparision (v_rule st) = 5" "strcaseeq n m" "m \<in> {''To'', ''Cc'', ''Bcc''}" "token_ok a"
  shows "rule_step E (\<lparr>h_name = n, h_data = a # ds\<rparr> # hs) names fid False st = None"
  by (rule recipient_overrun[OF assms])

text \<open>
  Of a list of addresses parseAddress leaves only the last one: the buffer is overwritten for
  every address.
\<close>

theorem last_address_kept:
  assumes "mem_ok M" "NUL \<notin> set s" "group_clean s" "members_of s = as @ [a]" "group (group_of s) = None" "addr_text a = Some x"
  shows "parseAddress M s buf = Some (sa_text x)"
  by (rule parseAddress_last[OF assms])

text \<open>
  parse_quota reads the form with a size and a count, and a number with a unit as the product; a
  product above the range of long long is undefined.
\<close>

theorem quota_texts:
  assumes "qstrings Q" "numeral10 s" "numeral10 t" "numval 10 s < 2 ^ 63 - 1" "numval 10 t < 2 ^ 63 - 1" "u \<in> set ''kKmMgG''"
  shows "parse_quota Q (s @ ''S,'' @ t @ ''C'') (Some c) = Some (int (numval 10 s), Some (int (numval 10 t)))
    \<and> parse_quota Q (s @ [u]) None = (if int (numval 10 s) * quota_factor [u] \<le> LLONG_MAX
        then Some (int (numval 10 s) * quota_factor [u], None) else None)"
  using qstrings.quota_with_count[OF assms(1-5)] qstrings.quota_unit[OF assms(1,2,4,6)] by blast

text \<open>
  With an unbalanced quote the flags left over from the counting pass make
  rfc2822_remove_comments return a block that holds no terminator.
\<close>

theorem comments_unterminated:
  "rfc2822_remove_comments big_memory (''(xx'' @ BSL # ''a)'' @ DQ # ''bcd'') = Some (Some (''(xx'' @ BSL # ''a''))
    \<and> cstr_at (''(xx'' @ BSL # ''a'') 0 = None"
  by (simp add: rfc2822_remove_comments_def comment_exception_def strncaseeq_def tolower_def wr_def cstr_at_def)

text \<open>
  For a list that starts with a bare <user@domain> address_evaluate_one reads the byte in front
  of its block: the run has undefined behaviour.
\<close>

theorem address_before_block:
  "address_evaluate big_memory ''<a@b>'' = None"
  by (simp add: address_evaluate_def strdup_block_def mstrdup_def address_eval cstr_at_def
      address_loop.simps address_evaluate_one_def wr_def)

text \<open>
  Closing an outer boundary while an inner one is open removes the outer member only: the inner
  member keeps its depth, so no boundary has the current depth any more and the inner delimiter
  is not recognised.
\<close>

theorem outer_boundary_close:
  "\<exists>b1 b2. boundary_is (Some two_boundaries) ''out--'' = (Some b1, 2)
    \<and> boundary_remove_last (Some b1) = Some (Some b2, True)
    \<and> \<not> bnd_wf b2 \<and> snd (boundary_is (Some b2) ''in'') = 0 \<and> snd (boundary_fetch (Some b2) (cdepth b2)) = None"
  by (simp add: two_boundaries_def boundary_is_def strcaseeq_def strncaseeq_def boundary_remove_last_def member_kill_def
      sbyte_def bnd_wf_def boundary_fetch_def)

text \<open>
  The line that closes the innermost boundary is recognised as its end and boundary_remove_last
  then pops exactly that boundary, keeping depths consecutive.
\<close>

theorem boundary_stack_pop:
  assumes "bnd_wf b" "bstack b = xs @ [x]" "strcaseeq x t"
    and "\<forall>y \<in> set xs. \<not> strcaseeq y t \<and> \<not> strcaseeq y (t @ ''--'')"
  shows "\<exists>b1 b2. boundary_is (Some b) (t @ ''--'') = (Some b1, 2)
    \<and> boundary_remove_last (Some b1) = Some (Some b2, True) \<and> bnd_wf b2 \<and> bstack b2 = xs"
  by (rule boundary_pop[OF assms])

text \<open>
  From a file whose lines all end with a newline headerList returns the names in front of number
  signs, without leading white space and empty entries; a last line without a newline that
  follows a longer one leads to undefined behaviour.
\<close>

theorem header_names_file:
  assumes "qstrings Q" "\<forall>x \<in> set xs. NUL \<notin> set x"
  shows "headerList Q (Some (map (\<lambda>x. line_event (x @ [LF])) xs)) = Some (Some (names_in xs))
    \<and> headerList Q (Some [GlLine (''Subject'' @ [LF]) True, GlLine ''To'' False]) = None"
  using qstrings.headerList_lines[OF assms] qstrings.headerList_unterminated[OF assms(1)] by blast

text \<open>
  For an address without a user part parse_email clears only the length: the user string that
  callers read is still the previous one.
\<close>

theorem stale_user:
  assumes "qstrings Q" "mem_ok M" "c \<in> set ATCHARS" "NUL \<notin> set old"
  shows "\<exists>U D. parse_email M Q dflt (c # d) \<lparr>sa_s = old @ [NUL], sa_len = length old\<rparr> dm = (U, D, 0)
    \<and> sa_len U = 0 \<and> sa_str U = old"
  by (rule qstrings.parse_email_stale[OF assms])

text \<open>
  addressToken returns, call by call, the addresses of a list in which each one is followed by a
  comma; a last address without a comma makes it step over the terminator of the list.
\<close>

theorem address_list_tokens:
  assumes "\<forall>t \<in> set ts. token_ok t" "length ts < n" "token_ok t"
  shows "all_tokens n (with_commas ts) 0 = Some ts \<and> addressToken (with_commas ts @ t) (length (with_commas ts)) = None"
  using all_tokens_list[OF assms(1,2), of "[]"] last_token_overrun[OF assms(3)] by simp

text \<open>
  The ten characters print_perm writes determine the file type and the twelve permission bits:
  reading them back gives the mode.
\<close>

theorem perm_roundtrip:
  assumes "p AND 0xF000 \<in> set file_types"
  shows "parse_perm (perm_string p) = p AND 0xFFFF"
  by (rule parse_perm_string[OF assms])

text \<open>
  One -c option loads a list of any length without leaving its array; when the names read by a
  first -c option fill the array, the first name of a second -c option is stored past its end.
\<close>

theorem critical_list:
  "(\<exists>r. critical_lines fn es 0 ([], 0) err = Ret r)
    \<and> (length (fst crit) = snd crit \<and> snd crit \<noteq> 0 \<longrightarrow> critical_lines fn (map line_event [''name'' @ [LF]]) 0 crit err = Wild)"
  using critical_lines_first[of "([], 0)" 0 fn es err] critical_lines_second[of "''name'' @ [LF]" True crit fn "[]" err]
  by (auto simp: line_event_def)

text \<open>
  boundary_add pushes a boundary: the new member is the innermost, depths stay consecutive and
  equal to the current depth as long as fewer than 127 boundaries are open.
\<close>

theorem boundary_stack_push:
  assumes "bnd_wf b" "length (bstack b) < 127" "mem_ok M"
  shows "\<exists>b'. boundary_add M (Some b) s = (Some b', True) \<and> bnd_wf b' \<and> bstack b' = bstack b @ [s]
    \<and> cdepth b' = cdepth b + 1"
proof -
  obtain b' where "boundary_add M (Some b) s = (Some b', True)" "bnd_wf b'" "bstack b' = bstack b @ [s]"
    using boundary_push[OF assms] by blast
  moreover from this(2,3) assms(1) have "cdepth b' = cdepth b + 1"
    by (simp add: bnd_wf_def bstack_def) (metis length_append_singleton length_map of_nat_Suc add.commute)
  ultimately show ?thesis by blast
qed

text \<open>
  On input with balanced comments and quotes the two passes of rfc2822_remove_comments agree:
  the block holds exactly the text outside comments, terminated.
\<close>

theorem comments_removed:
  assumes "mem_ok M" "balanced s"
  shows "rfc2822_remove_comments M s
    = Some (Some (strip_comments (comment_exception s) False False s @ [NUL]))"
  by (rule rfc2822_remove_comments_balanced_lemma[OF assms])

text \<open>
  Comparing a list of distinct paths with a permutation of itself reports no change and exits
  with 0.
\<close>

theorem unchanged_lists:
  assumes "qmail L sent good" "fits M l1s" "fits M l2s" "\<forall>e \<in> set l2s. entry_wf e" "good o1"
    and "distinct (map pkey l2s)" "mset l1s = mset l2s"
  shows "\<exists>st. compare_lists M L opts l1s l2s (cd_start o1 err) = Ret (0, st) \<and> no_changes st"
proof -
  have s: "set l1s = set l2s" by (rule mset_eq_setD[OF assms(7)])
  obtain r st where st: "compare_lists M L opts l1s l2s (cd_start o1 err) = Ret (r, st)"
      "\<forall>c. cnt st c = of_nat (count_list (all_changes opts l1s l2s) c)" "r = (if \<forall>c. cnt st c = 0 then 0 else 1)"
    using qmail.compare_counts[OF assms(1-3) _ assms(4,5)] assms(4) s by blast
  then have z: "\<forall>c. cnt st c = 0" by (simp add: no_differences[OF assms(6) s])
  have "no_changes st" unfolding no_changes_def
    using z[rule_format, of Added] z[rule_format, of Deleted] z[rule_format, of Changed] z[rule_format, of Permission]
      z[rule_format, of Owner] z[rule_format, of Replaced] by simp
  then show ?thesis using st(1,3) z by simp
qed

text \<open>
  parse_email cuts an address at the first @, % or : into user and domain; without a separator
  the domain is the default domain.
\<close>

theorem email_parts:
  assumes "qstrings Q" "mem_ok M" "u \<noteq> []" "set u \<inter> set ATCHARS = {}" "c \<in> set ATCHARS" "NUL \<notin> set u" "NUL \<notin> set d" "NUL \<notin> set dflt"
  shows "(\<exists>U D. parse_email M Q dflt (u @ c # d) usr dm = (U, D, 0) \<and> sa_str U = u \<and> sa_len U = length u
      \<and> sa_str D = d \<and> sa_len D = length d)
    \<and> (\<exists>U D. parse_email M Q dflt u usr dm = (U, D, 0) \<and> sa_str U = u \<and> sa_str D = dflt)"
  using qstrings.parse_email_split[OF assms] by blast

text \<open>
  After an exclude file without NUL bytes is loaded, a path is excluded exactly when some non-
  comment line of the file, without its trailing white space, matches it (equal, a parent
  directory, or by fnmatch or the regular expression).
\<close>

theorem exclude_file_rule:
  assumes "qmail L sent good" "a_exclude a = Some fn" "opt_e (a_opts a)" "w_open W fn = Opened es" "read_all es = (d, True)" "NUL \<notin> set d"
  shows "\<exists>a'. load_excludes L W a = Ret a' \<and> (\<forall>path. exclude_path W (a_opts a') path
    \<longleftrightarrow> (\<exists>e \<in> set (exclude_entries d). entry_matches W (opt_r (a_opts a)) e path))"
  by (rule qmail.exclude_path_file[OF assms])

text \<open>
  passwd_policy accepts exactly the passwords with at least eight characters, no white space, no
  two equal neighbours, a letter and a digit.
\<close>

theorem passwords_checked:
  assumes "qstrings Q" "NUL \<notin> set p"
  shows "passwd_policy Q p = None \<longleftrightarrow> good_passwd p"
  by (rule qstrings.passwd_policy_rule[OF assms])

text \<open>
  Calling unroll_next_line until it returns NULL yields the logical lines of the header block:
  folded lines joined without their first white-space byte, up to the first empty line, when
  memory suffices, no read fails and the bytes contain neither a NUL nor a carriage return (a CR
  LF that is cut between two reads is read in another way than an uncut one); with fuel above
  the number of lines the loop returns.
\<close>

theorem header_block_unfolds:
  assumes "mem_ok M" "fd \<noteq> -1" "2 \<le> len" "len < 2 ^ 64" "input_ok inp" "CR \<notin> set (input_bytes inp)"
    and "length (split_lines (input_bytes inp)) < fuel"
  shows "\<exists>u u'. unroll_init M fd len inp = Some (Some u)
    \<and> unroll_all (Suc fuel) M u = Some (u', logical_lines [] (split_lines (input_bytes inp)))"
proof -
  obtain u where u: "unroll_init M fd len inp = Some (Some u)" "unroll_wf u" "\<not> ueof u" "buffer_ok (usrc u)"
      "line_str (ulb u) = []" "buffer_lines (usrc u) = split_lines (input_bytes inp)"
    using unroll_init_ok[OF assms(1-6)] by blast
  then show ?thesis using unroll_all_spec[OF u(4,2) assms(1) u(3), of fuel] assms(7) by auto
qed

text \<open>
  In line mode the checksum of a file is the sum of the checksums of its lines and the line
  count their number, so two files with the same lines in any order have the same checksum.
\<close>

theorem line_order:
  assumes "qmail L sent good" "\<not> opt_w opts"
    and "w_open W p = Opened es" "read_all es = (d, True)" "w_open W q = Opened fs" "read_all fs = (d', True)"
    and "mset (file_lines d) = mset (file_lines d')" "\<forall>l \<in> set (file_lines d). length l < 2 ^ 32"
  shows "line_crc L W opts p lc None hex tag sb st
      = Ret (sum_list (map (posix_crc (ucast (initial_crc opts))) (file_lines d)), add_lines lc (length (file_lines d)), st)
    \<and> line_crc L W opts q lc None hex tag' sb' st = line_crc L W opts p lc None hex tag sb st"
proof -
  have s: "set (file_lines d') = set (file_lines d)" "length (file_lines d') = length (file_lines d)"
    using assms(7) mset_eq_setD mset_eq_length by metis+
  have m: "sum_list (map (posix_crc i) (file_lines d')) = sum_list (map (posix_crc i) (file_lines d))" for i
    using assms(7) by (metis mset_map sum_mset_sum_list)
  have ok: "\<forall>l \<in> set (file_lines d). l \<noteq> [] \<and> length l < 2 ^ 32" "\<forall>l \<in> set (file_lines d'). l \<noteq> [] \<and> length l < 2 ^ 32"
    using assms(8) file_lines_nonempty[of _ d] s(1) by auto
  have g: "getlns L es = map line_event (file_lines d)" "getlns L fs = map line_event (file_lines d')"
    using qmail.getlns_ok[OF assms(1)] assms(4,6) by blast+
  show ?thesis
    by (simp only: line_crc_def assms(2,3,5) g open_result.case simp_thms line_loop_plain[OF ok(1)] line_loop_plain[OF ok(2)]
        bindp.simps prod.case option.case show_crc_def add_0 s(2) m)
qed

text \<open>
  For every input, balanced or not, the copy pass of rfc2822_remove_comments stays inside the
  block whose size the counting pass computed.
\<close>

theorem comments_in_bounds:
  "\<exists>r. rfc2822_remove_comments M s = Some r
    \<and> (case r of None \<Rightarrow> \<not> mem_ok M
       | Some blk \<Rightarrow> length blk = length (strip_comments (comment_exception s) False False s) + 1)"
proof (cases "rc_len (comment_exception s) s False False 0")
  case (fields len com lit)
  then have len: "len = length (strip_comments (comment_exception s) False False s)" by (simp add: rc_len_strip)
  obtain r where "rc_copy (comment_exception s) len s com lit (replicate (len + 1) NUL) 0 = Some r" "length r = len + 1"
    using rc_copy_safe[of "replicate (len + 1) NUL" len] by (metis (no_types) length_replicate le0)
  then show ?thesis using fields len mmalloc_ok[of M "len + 1" "''rfc2822_remove_comments''"]
    by (auto simp: rfc2822_remove_comments_def Let_def split: option.split)
qed

text \<open>
  A delimiter line of the innermost boundary is recognised (return value 1) and leaves the stack
  unchanged; fetching the current depth gives the innermost boundary.
\<close>

theorem boundary_stack_top:
  assumes "bnd_wf b" "bstack b = xs @ [x]" "strcaseeq x t" "\<forall>y \<in> set xs. \<not> strcaseeq y t \<and> \<not> closes y t"
  shows "(\<exists>b1. boundary_is (Some b) t = (Some b1, 1) \<and> bnd_wf b1 \<and> bstack b1 = bstack b)
    \<and> snd (boundary_fetch (Some b) (cdepth b)) = Some x"
proof -
  have "cdepth b = int (length xs) + 1" "length xs < length (bstack b)" "bstack b ! length xs = x"
    using assms(1,2) by (simp_all add: bnd_wf_def bstack_def) (metis length_append_singleton length_map of_nat_Suc add.commute)
  with boundary_fetch_nth[OF assms(1), of "length xs"] boundary_top[OF assms] show ?thesis by auto
qed

text \<open>
  rfc2822_convert_literals returns a terminated block with the quotes removed and every escaped
  byte kept, for every input.
\<close>

theorem literals_converted:
  assumes "mem_ok M"
  shows "rfc2822_convert_literals M s = Some (Some (unquote s @ [NUL]))"
  by (rule rfc2822_convert_literals_lemma[OF assms])

text \<open>
  rfc2822_next_token returns the position of the first byte that is neither escaped nor quoted
  and is the token or a terminator, or the end of the string.
\<close>

theorem next_token_first:
  "rfc2822_next_token s tok trm
    = (case find (\<lambda>(j, c). is_delim tok trm c) (plain_bytes s False 0) of None \<Rightarrow> length s | Some (j, c) \<Rightarrow> j)
    \<and> (\<forall>j c. (j, c) \<in> set (plain_bytes s False 0) \<longrightarrow> j < length s \<and> s ! j = c)"
proof -
  have "\<forall>j c. (j, c) \<in> set (plain_bytes s False 0) \<longrightarrow> j < length s \<and> s ! j = c"
    using plain_bytes_at[of _ _ s False 0] by fastforce
  then show ?thesis using next_token_from_find[of s tok trm False 0]
    by (simp add: rfc2822_next_token_def split: option.split)
qed

text \<open>
  Every entry parse accepts has its pointers inside the line: the path starts 22 bytes after the
  last tab and is not empty, the keys lie inside the block, and the line has a checksum field.
\<close>

theorem parsed_entry_shape:
  assumes "parse tm b = Some e"
  shows "ebytes e = b \<and> 23 \<le> length b \<and> epath e = etail e + 22 \<and> epath e + eplen e = length (cut_nul b) \<and> 0 < eplen e
    \<and> eklen e \<le> length b \<and> (\<exists>k. crc_len e = Some k \<and> k < length b)"
  by (rule parse_shape[OF assms])

text \<open>
  For a line that crc -v printed, the test that raises a critical level 1 change is true exactly
  for an executable set-user-id or set-group-id file.
\<close>

theorem suid_noted:
  assumes "qmail L sent good"
  shows "suid (crc_entry L W crc sb path tag) (width (crc_entry L W crc sb path tag))
    = Some (st_mode sb AND 0x800 \<noteq> 0 \<and> st_mode sb AND 0x40 \<noteq> 0 \<or> st_mode sb AND 0x400 \<noteq> 0 \<and> st_mode sb AND 0x08 \<noteq> 0)"
  by (rule qmail.crc_entry_suid[OF assms])

text \<open>
  The program that prints the table writes the entries of crctab in order, but with a doubled
  separator inside the first fifty rows and none in the last: its output is not the array
  initialiser it is meant to be.
\<close>

theorem generator_text:
  assumes "qmail L sent good" "good o1"
  shows "\<exists>o2. crctab_main L o1 = Ret o2 \<and> sent o2 = sent o1 @ table_text L"
  by (rule qmail.crctab_main_good[OF assms])

text \<open>
  Every physical line roll_fd writes for a header line has at most 999 bytes before its newline.
\<close>

theorem folded_lines_bounded:
  assumes "LF \<notin> set s" "roll_fd c_write \<lparr>odata = [], oplan = []\<rparr> s = (fd, ok)" "x \<in> set (split_lines (odata fd))"
  shows "length x \<le> 999"
proof -
  have "odata fd = fold_text (folded s)"
    using outfile.roll_fd_spec[of "\<lparr>odata = [], oplan = []\<rparr>" s] assms(2) by auto
  moreover have len: "length y \<le> 998" if "y \<in> set (folded s)" for y
    using that fold_points_lengths[of 78 s y] by (auto simp: folded_def split: if_splits)
  moreover have "\<forall>y \<in> set (folded s). LF \<notin> set y"
    using assms(1) arg_cong[OF fold_points_concat[of s 78], of set] by (auto simp: folded_def split: if_splits)
  moreover obtain y ys where f: "folded s = y # ys"
    using fold_points_ne[of s 78] by (cases "folded s") (auto simp: folded_def split: if_splits)
  ultimately have "x \<in> set (y # map (\<lambda>y. TAB # y) ys)" using assms(3) split_fold_text[of y ys] by simp
  then show ?thesis using len f by fastforce
qed

end
